(* ===== verification/Prelude.thy ===== *)
theory Prelude
  imports Complex_Main "HOL-Library.Word" "HOL-Library.AList" "HOL-Library.Monad_Syntax"
begin

text \<open>
  Shared vocabulary of the development: the machine-integer types the Rust code uses, the
  integer operations of the Rust standard library that the sources call (saturating and
  checked arithmetic, \<open>div_ceil\<close>), association lists standing for \<open>HashMap\<close>, the
  first-minimum search of \<open>Iterator::min_by\<close>, and bounded logs.

  Plain \<open>+\<close>, \<open>-\<close> and \<open>*\<close> on \<open>u64\<close> are the wrapping operations of a word: that is what the
  release profile compiles (the workspace sets no overflow checks); a debug build panics at
  the same inputs.  A \<open>HashMap\<close> is an association list with distinct keys; the order of the
  list stands for the (unspecified) iteration order.
\<close>

section \<open>Types\<close>

type_synonym u8 = "8 word"
type_synonym u16 = "16 word"
type_synonym u32 = "32 word"
type_synonym u64 = "64 word"
type_synonym i64 = "64 word"
type_synonym label = string

abbreviation u64_max :: u64 where
  "u64_max \<equiv> - 1"

named_theorems u64_simps \<open>readings of the machine operations as natural numbers\<close>

section \<open>Rust integer operations\<close>

definition saturating_add :: "u64 \<Rightarrow> u64 \<Rightarrow> u64" where
  "saturating_add a b = (if unat a + unat b < 2 ^ 64 then a + b else u64_max)"

definition saturating_sub :: "u64 \<Rightarrow> u64 \<Rightarrow> u64" where
  "saturating_sub a b = (if a < b then 0 else a - b)"

definition saturating_mul :: "u64 \<Rightarrow> u64 \<Rightarrow> u64" where
  "saturating_mul a b = (if unat a * unat b < 2 ^ 64 then a * b else u64_max)"

definition checked_add :: "u64 \<Rightarrow> u64 \<Rightarrow> u64 option" where
  "checked_add a b = (if unat a + unat b < 2 ^ 64 then Some (a + b) else None)"

definition checked_mul :: "u64 \<Rightarrow> u64 \<Rightarrow> u64 option" where
  "checked_mul a b = (if unat a * unat b < 2 ^ 64 then Some (a * b) else None)"

text \<open>\<open>u64::div_ceil\<close>: quotient, plus one when there is a remainder.\<close>

definition div_ceil :: "u64 \<Rightarrow> u64 \<Rightarrow> u64" where
  "div_ceil a b = (if a mod b = 0 then a div b else a div b + 1)"

definition abs_diff :: "u64 \<Rightarrow> u64 \<Rightarrow> u64" where
  "abs_diff a b = (if a < b then b - a else a - b)"

text \<open>The same checks on integers, for evaluation.\<close>

lemma unat_sum_lt_int: "unat (a :: u64) + unat (b :: u64) < 2 ^ 64 \<longleftrightarrow> uint a + uint b < 2 ^ 64"
  by (simp add: nat_add_distrib [symmetric] nat_less_iff flip: nat_uint_eq)

lemma unat_prod_lt_int: "unat (a :: u64) * unat (b :: u64) < 2 ^ 64 \<longleftrightarrow> uint a * uint b < 2 ^ 64"
  by (simp add: nat_mult_distrib [symmetric] nat_less_iff flip: nat_uint_eq)

lemma saturating_add_code [code]: "saturating_add a b = (if uint a + uint b < 2 ^ 64 then a + b else u64_max)"
  by (simp only: saturating_add_def unat_sum_lt_int)

lemma saturating_mul_code [code]: "saturating_mul a b = (if uint a * uint b < 2 ^ 64 then a * b else u64_max)"
  by (simp only: saturating_mul_def unat_prod_lt_int)

lemma checked_add_code [code]: "checked_add a b = (if uint a + uint b < 2 ^ 64 then Some (a + b) else None)"
  by (simp only: checked_add_def unat_sum_lt_int)

lemma checked_mul_code [code]: "checked_mul a b = (if uint a * uint b < 2 ^ 64 then Some (a * b) else None)"
  by (simp only: checked_mul_def unat_prod_lt_int)

lemma unat_u64_max [u64_simps]: "unat (u64_max :: u64) = 2 ^ 64 - 1"
  by (simp add: unsigned_minus_1_eq_mask mask_eq_exp_minus_1)

lemma unat_lt_2p64 [simp]: "unat (a :: u64) < 18446744073709551616"
  using unsigned_less [of a, where 'a = nat] by simp

lemma unat_le_u64_max [simp]: "unat (a :: u64) \<le> 18446744073709551615"
  using unat_lt_2p64 [of a] by linarith

lemma unat_saturating_add [u64_simps]:
  "unat (saturating_add a b) = min (unat a + unat b) (2 ^ 64 - 1)"
  by (simp add: saturating_add_def u64_simps unat_word_ariths)

lemma unat_saturating_sub [u64_simps]: "unat (saturating_sub a b) = unat a - unat b"
  by (auto simp: saturating_sub_def word_less_nat_alt unat_sub word_le_nat_alt)

lemma unat_saturating_mul [u64_simps]:
  "unat (saturating_mul a b) = min (unat a * unat b) (2 ^ 64 - 1)"
  by (simp add: saturating_mul_def u64_simps unat_word_ariths)

lemma unat_checked_add: "checked_add a b = Some c \<Longrightarrow> unat c = unat a + unat b"
  by (auto simp: checked_add_def unat_word_ariths split: if_splits)

lemma unat_checked_mul: "checked_mul a b = Some c \<Longrightarrow> unat c = unat a * unat b"
  by (auto simp: checked_mul_def unat_word_ariths split: if_splits)

lemma checked_add_None: "checked_add a b = None \<longleftrightarrow> 2 ^ 64 \<le> unat a + unat b"
  by (auto simp: checked_add_def)

lemma checked_mul_None: "checked_mul a b = None \<longleftrightarrow> 2 ^ 64 \<le> unat a * unat b"
  by (auto simp: checked_mul_def)

lemma div_mult_add_lt: "r < b \<Longrightarrow> (q * b + r) div b = (q :: nat)"
  by simp

lemma unat_div_ceil [u64_simps]:
  assumes "b \<noteq> 0"
  shows "unat (div_ceil a b) = (unat a + unat b - 1) div unat b"
proof -
  have b: "0 < unat b" using assms by (simp add: unat_gt_0)
  define q r where "q = unat a div unat b" and "r = unat a mod unat b"
  have a: "unat a = q * unat b + r" and r: "r < unat b"
    using b by (auto simp: q_def r_def)
  have z: "a mod b = 0 \<longleftrightarrow> r = 0"
    by (simp add: r_def unat_mod flip: unat_eq_0)
  have qle: "q \<le> unat a" by (simp add: q_def)
  show ?thesis
  proof (cases "r = 0")
    case True
    then have "unat a + unat b - 1 = q * unat b + (unat b - 1)" using a b by simp
    moreover have "unat b - 1 < unat b" using b by simp
    ultimately have "(unat a + unat b - 1) div unat b = q" by (metis div_mult_add_lt)
    then show ?thesis using True z by (simp add: div_ceil_def unat_div q_def)
  next
    case False
    have "q * 1 \<le> q * unat b" using b by (intro mult_le_mono2) simp
    then have "q < unat a" using a False by linarith
    then have "q < 18446744073709551615" using unat_le_u64_max [of a] by (rule less_le_trans)
    then have lt: "q + 1 < 2 ^ 64" by simp
    have "unat a + unat b - 1 = (q + 1) * unat b + (r - 1)" using a False by simp
    moreover have "r - 1 < unat b" using r by simp
    ultimately have "(unat a + unat b - 1) div unat b = q + 1" by (metis div_mult_add_lt)
    then show ?thesis using False z lt
      by (simp add: div_ceil_def unat_word_ariths unat_div q_def)
  qed
qed

lemma unat_add_no_wrap: "unat a + unat b < 2 ^ 64 \<Longrightarrow> unat ((a::u64) + b) = unat a + unat b"
  by (simp add: unat_word_ariths)

lemma unat_mult_no_wrap: "unat a * unat b < 2 ^ 64 \<Longrightarrow> unat ((a::u64) * b) = unat a * unat b"
  by (simp add: unat_word_ariths)


section \<open>Results\<close>

text \<open>\<open>Result<T, E>\<close> is a sum with the error on the left; \<open>and_then\<close> is the question-mark operator.\<close>

fun and_then :: "'e + 'a \<Rightarrow> ('a \<Rightarrow> 'e + 'b) \<Rightarrow> 'e + 'b" where
  "and_then (Inl e) f = Inl e"
| "and_then (Inr a) f = f a"

fun map_err :: "('e \<Rightarrow> 'f) \<Rightarrow> 'e + 'a \<Rightarrow> 'f + 'a" where
  "map_err f (Inl e) = Inl (f e)"
| "map_err f (Inr a) = Inr a"

definition ok_or :: "'a option \<Rightarrow> 'e \<Rightarrow> 'e + 'a" where
  "ok_or x e = (case x of Some a \<Rightarrow> Inr a | None \<Rightarrow> Inl e)"

lemma and_then_Inr: "and_then r f = Inr b \<longleftrightarrow> (\<exists>a. r = Inr a \<and> f a = Inr b)"
  by (cases r) auto

lemma and_then_cong [fundef_cong]: "r = r' \<Longrightarrow> (\<And>a. r' = Inr a \<Longrightarrow> f a = g a) \<Longrightarrow> and_then r f = and_then r' g"
  by (cases r') auto

section \<open>First minimum\<close>

text \<open>
  \<open>Iterator::min_by\<close> with a key comparison: the accumulator is kept unless it is strictly
  greater than the next element, so the first of several minima is returned.
\<close>

definition min_by :: "('a \<Rightarrow> 'b::linorder) \<Rightarrow> 'a list \<Rightarrow> 'a option" where
  "min_by key xs = (case xs of [] \<Rightarrow> None
     | x # ys \<Rightarrow> Some (foldl (\<lambda>a b. if key b < key a then b else a) x ys))"

lemma min_by_fold_spec:
  assumes "m = foldl (\<lambda>a b. if key b < key a then b else a) x ys"
  shows "\<exists>pre post. x # ys = pre @ m # post \<and> (\<forall>y \<in> set pre. key m < key y)
           \<and> (\<forall>y \<in> set post. key m \<le> (key y :: 'b::linorder))"
  using assms
proof (induction ys arbitrary: m rule: rev_induct)
  case Nil
  then show ?case by (intro exI [of _ "[]"]) simp
next
  case (snoc y ys)
  define a where "a = foldl (\<lambda>a b. if key b < key a then b else a) x ys"
  obtain pre post where IH: "x # ys = pre @ a # post"
      "\<forall>z \<in> set pre. key a < key z" "\<forall>z \<in> set post. key a \<le> key z"
    using snoc.IH [OF a_def] by blast
  show ?case
  proof (cases "key y < key a")
    case True
    then have m: "m = y" using snoc.prems by (simp add: a_def)
    have "\<forall>z \<in> set (x # ys). key y < key z"
      unfolding IH(1) using IH True by fastforce
    then show ?thesis using m by (intro exI [of _ "x # ys"] exI [of _ "[]"]) simp
  next
    case False
    then have m: "m = a" using snoc.prems by (simp add: a_def)
    have "x # ys @ [y] = pre @ m # (post @ [y])" using IH(1) m by simp
    moreover have "\<forall>z \<in> set (post @ [y]). key m \<le> key z" using IH(3) False m by auto
    ultimately show ?thesis using IH(2) m by blast
  qed
qed

lemma min_by_None [simp]: "min_by key xs = None \<longleftrightarrow> xs = []"
  by (cases xs) (auto simp: min_by_def)

lemma min_by_Some_ex: "xs \<noteq> [] \<Longrightarrow> \<exists>m. min_by key xs = Some m"
  by (cases xs) (auto simp: min_by_def)

text \<open>The element chosen is a minimum, and every earlier element is strictly greater.\<close>

lemma min_by_first_min:
  assumes "min_by key xs = Some m"
  shows "\<exists>pre post. xs = pre @ m # post \<and> (\<forall>y \<in> set pre. key m < key y)
           \<and> (\<forall>y \<in> set post. key m \<le> key y)"
proof (cases xs)
  case Nil
  then show ?thesis using assms by (simp add: min_by_def)
next
  case (Cons x ys)
  then have "m = foldl (\<lambda>a b. if key b < key a then b else a) x ys"
    using assms by (simp add: min_by_def)
  then show ?thesis unfolding Cons by (rule min_by_fold_spec)
qed

lemma min_by_in_set: "min_by key xs = Some m \<Longrightarrow> m \<in> set xs"
  using min_by_first_min by fastforce

lemma min_by_le: "min_by key xs = Some m \<Longrightarrow> y \<in> set xs \<Longrightarrow> key m \<le> key y"
  using min_by_first_min [of key xs m] by (fastforce intro: less_imp_le)

lemma foldl_min_cong:
  assumes "\<forall>z \<in> set (x # ys). key z = key' z"
  shows "foldl (\<lambda>a b. if key b < key a then b else a) x ys
       = foldl (\<lambda>a b. if key' b < key' a then b else (a :: 'a)) x ys"
  using assms
proof (induction ys arbitrary: x)
  case (Cons y ys)
  have "key y = key' y" "key x = key' x" using Cons.prems by auto
  moreover have "\<forall>z \<in> set (x # ys). key z = key' z" "\<forall>z \<in> set (y # ys). key z = key' z"
    using Cons.prems by auto
  ultimately show ?case using Cons.IH [of x] Cons.IH [of y] by simp
qed simp

lemma min_by_cong:
  assumes "\<forall>x \<in> set xs. key x = key' x"
  shows "min_by key xs = min_by key' xs"
proof (cases xs)
  case (Cons x ys)
  then show ?thesis using foldl_min_cong [of x ys key key'] assms by (simp add: min_by_def)
qed (simp add: min_by_def)

section \<open>Association lists\<close>

lemma distinct_fst_update [simp]:
  "distinct (map fst al) \<Longrightarrow> distinct (map fst (AList.update k v al))"
  by (rule distinct_update)

lemma distinct_fst_delete [simp]:
  "distinct (map fst al) \<Longrightarrow> distinct (map fst (AList.delete k al))"
  by (rule distinct_delete)

lemma map_of_None_notin: "map_of al k = None \<longleftrightarrow> k \<notin> fst ` set al"
  by (rule map_of_eq_None_iff)

lemma alist_update_new: "map_of al k = None \<Longrightarrow> AList.update k v al = al @ [(k, v)]"
  by (induction al) (auto split: if_splits)

lemma alist_delete_absent: "map_of al k = None \<Longrightarrow> AList.delete k al = al"
  by (simp add: map_of_eq_None_iff AList.delete_eq filter_id_conv) force

text \<open>Summing a weight over the entries: insertion adds it, removal takes it away.\<close>

definition alist_sum :: "('v \<Rightarrow> nat) \<Rightarrow> ('k \<times> 'v) list \<Rightarrow> nat" where
  "alist_sum w al = sum_list (map (w \<circ> snd) al)"

lemma alist_sum_Nil [simp]: "alist_sum w [] = 0"
  by (simp add: alist_sum_def)

lemma alist_sum_Cons [simp]: "alist_sum w (p # al) = w (snd p) + alist_sum w al"
  by (simp add: alist_sum_def)

lemma alist_sum_append [simp]: "alist_sum w (al @ bl) = alist_sum w al + alist_sum w bl"
  by (simp add: alist_sum_def)

lemma alist_sum_delete:
  "distinct (map fst al) \<Longrightarrow> map_of al k = Some v \<Longrightarrow>
   alist_sum w al = w v + alist_sum w (AList.delete k al)"
proof (induction al)
  case (Cons p al)
  show ?case
  proof (cases "fst p = k")
    case True
    then have "map_of al k = None" using Cons.prems by (auto simp: map_of_eq_None_iff)
    then show ?thesis using True Cons.prems by (cases p) (simp add: alist_delete_absent)
  next
    case False
    then show ?thesis using Cons by (cases p) auto
  qed
qed simp

lemma alist_sum_le: "(\<And>k v. (k, v) \<in> set al \<Longrightarrow> w v \<le> w' v) \<Longrightarrow> alist_sum w al \<le> alist_sum w' al"
  by (induction al) (fastforce intro!: add_mono)+

section \<open>Bounded logs\<close>

text \<open>
  Several components keep the most recent samples only: when the buffer is full its oldest
  entry is dropped, then the new one is appended.  The contract of such a log is a locale;
  every log of the code interprets it, and the lemmas below hold for all of them.
\<close>

definition push_capped :: "nat \<Rightarrow> 'a \<Rightarrow> 'a list \<Rightarrow> 'a list" where
  "push_capped cap x xs = (if cap \<le> length xs then tl xs else xs) @ [x]"

locale bounded_log =
  fixes push :: "'a \<Rightarrow> 'l \<Rightarrow> 'l"
    and items :: "'l \<Rightarrow> 'a list"
    and cap :: "'l \<Rightarrow> nat"
    and wf :: "'l \<Rightarrow> bool"
  assumes items_push: "wf l \<Longrightarrow> items (push x l) = push_capped (cap l) x (items l)"
    and cap_push: "wf l \<Longrightarrow> cap (push x l) = cap l"
    and wf_push: "wf l \<Longrightarrow> wf (push x l)"
    and wf_bounded: "wf l \<Longrightarrow> 0 < cap l \<and> length (items l) \<le> cap l"
begin

lemma length_push: "wf l \<Longrightarrow> length (items (push x l)) = min (cap l) (Suc (length (items l)))"
  using wf_bounded [of l] by (auto simp: items_push push_capped_def)

lemma newest: "wf l \<Longrightarrow> last (items (push x l)) = x"
  by (simp add: items_push push_capped_def)

text \<open>After any history the log holds exactly its most recent \<open>cap\<close> entries.\<close>

lemma run_wf: "wf l \<Longrightarrow> wf (fold push xs l)"
  by (induction xs arbitrary: l) (auto intro: wf_push)

lemma run_cap: "wf l \<Longrightarrow> cap (fold push xs l) = cap l"
  by (induction xs arbitrary: l) (auto simp: cap_push wf_push)

lemma run_items:
  "wf l \<Longrightarrow> items (fold push xs l) =
     drop (length (items l) + length xs - cap l) (items l @ xs)"
proof (induction xs arbitrary: l)
  case Nil
  then show ?case using wf_bounded [of l] by simp
next
  case (Cons x xs)
  have len: "length (items l) \<le> cap l" "0 < cap l" using wf_bounded [OF Cons.prems] by auto
  have "items (fold push (x # xs) l) =
      drop (length (items (push x l)) + length xs - cap l) (items (push x l) @ xs)"
    using Cons.IH [OF wf_push [OF Cons.prems]] cap_push [OF Cons.prems] by simp
  also have "\<dots> = drop (length (items l) + length (x # xs) - cap l) (items l @ x # xs)"
  proof (cases "cap l \<le> length (items l)")
    case True
    then have "items l \<noteq> []" using len by auto
    then obtain a as where a: "items l = a # as" by (cases "items l") auto
    then show ?thesis using True len Cons.prems
      by (simp add: items_push push_capped_def Suc_diff_le)
  next
    case False
    then show ?thesis using Cons.prems by (simp add: items_push push_capped_def)
  qed
  finally show ?case .
qed

end

end
