(* ===== verification/F64.thy ===== *)
theory F64
  imports Prelude "HOL-Library.Log_Nat"
begin

text \<open>
  IEEE-754 binary64 arithmetic, as Rust's \<open>f64\<close> uses it.  A value is a NaN, an infinity with
  its sign, or a finite real; every arithmetic result is the exact real result rounded to
  nearest-even with 53 significant bits and least exponent \<open>-1074\<close>, and overflows to an
  infinity at \<open>2 ^ 1024\<close>.  The rounding function is executable on rationals.

  NaN payloads and the sign of zero are not represented: the modelled sources observe them
  nowhere (no division by a negative zero, no sign test, no bit pattern other than that of
  positive zero).  The class order on \<open>f64\<close> is \<open>f64::total_cmp\<close>, with NaN last; the IEEE
  comparisons, false on NaN, are \<open>flt\<close> and \<open>fle\<close>.  The libm functions \<open>ln\<close> and \<open>exp\<close>, whose
  precision Rust leaves unspecified, are parameters of the definitions that call them; the
  locale \<open>libm_ln\<close> states what the proofs rely on, and the correctly rounded logarithm is
  shown to satisfy it.
\<close>

section \<open>Rounding\<close>

text \<open>\<open>bexp x\<close> is the binary exponent of a positive real: \<open>2 ^ bexp x \<le> x < 2 ^ (bexp x + 1)\<close>.\<close>

definition bexp :: "real \<Rightarrow> int" where
  "bexp x = (if 1 \<le> x then int (floorlog 2 (nat \<lfloor>x\<rfloor>)) - 1
             else - int (floorlog 2 (nat (\<lceil>1 / x\<rceil> - 1))))"

text \<open>Exponent of the unit in the last place.\<close>

definition ulp_exp :: "real \<Rightarrow> int" where
  "ulp_exp x = max (-1074) (bexp \<bar>x\<bar> - 52)"

text \<open>Round to the nearest integer, ties to even.\<close>

definition rne :: "real \<Rightarrow> int" where
  "rne x = (let f = \<lfloor>x\<rfloor>; d = x - of_int f in
            if d < 1 / 2 then f else if 1 / 2 < d then f + 1 else if even f then f else f + 1)"

definition rnd :: "real \<Rightarrow> real" where
  "rnd x = (if x = 0 then 0
            else of_int (rne (x / 2 powi ulp_exp x)) * 2 powi ulp_exp x)"

text \<open>Reals that need no rounding.\<close>

definition repr64 :: "real \<Rightarrow> bool" where
  "repr64 x \<longleftrightarrow> x = 0 \<or> x / 2 powi ulp_exp x \<in> \<int>"

section \<open>Values and operations\<close>

datatype f64 = NaN | Infinity bool | Fin real

text \<open>\<open>Infinity True\<close> is \<open>-\<infinity>\<close>.\<close>

definition f64_lim :: real where
  "f64_lim = 2 ^ 1024"

definition f64_max_real :: real where
  "f64_max_real = (2 ^ 53 - 1) * 2 ^ 971"

definition mk64 :: "real \<Rightarrow> f64" where
  "mk64 x = (let y = rnd x in if \<bar>y\<bar> < f64_lim then Fin y else Infinity (y < 0))"

definition f64_ok :: "f64 \<Rightarrow> bool" where
  "f64_ok v = (case v of Fin x \<Rightarrow> repr64 x \<and> \<bar>x\<bar> < f64_lim | _ \<Rightarrow> True)"

definition f64_MAX :: f64 where
  "f64_MAX = Fin f64_max_real"

definition f64_EPSILON :: f64 where
  "f64_EPSILON = Fin (1 / 2 ^ 52)"

fun is_finite :: "f64 \<Rightarrow> bool" where
  "is_finite (Fin _) = True"
| "is_finite _ = False"

instantiation f64 :: "{zero, one, plus, minus, times, inverse, uminus, abs}"
begin

definition zero_f64 :: f64 where "zero_f64 = Fin 0"
definition one_f64 :: f64 where "one_f64 = Fin 1"

fun uminus_f64 :: "f64 \<Rightarrow> f64" where
  "uminus_f64 NaN = NaN"
| "uminus_f64 (Infinity s) = Infinity (\<not> s)"
| "uminus_f64 (Fin x) = Fin (- x)"

fun plus_f64 :: "f64 \<Rightarrow> f64 \<Rightarrow> f64" where
  "plus_f64 (Fin x) (Fin y) = mk64 (x + y)"
| "plus_f64 (Infinity s) (Fin y) = Infinity s"
| "plus_f64 (Fin x) (Infinity t) = Infinity t"
| "plus_f64 (Infinity s) (Infinity t) = (if s = t then Infinity s else NaN)"
| "plus_f64 _ _ = NaN"

definition minus_f64 :: "f64 \<Rightarrow> f64 \<Rightarrow> f64" where
  "minus_f64 a b = a + (- b)"

fun times_f64 :: "f64 \<Rightarrow> f64 \<Rightarrow> f64" where
  "times_f64 (Fin x) (Fin y) = mk64 (x * y)"
| "times_f64 (Infinity s) (Fin y) = (if y = 0 then NaN else Infinity (s \<noteq> (y < 0)))"
| "times_f64 (Fin x) (Infinity t) = (if x = 0 then NaN else Infinity ((x < 0) \<noteq> t))"
| "times_f64 (Infinity s) (Infinity t) = Infinity (s \<noteq> t)"
| "times_f64 _ _ = NaN"

fun divide_f64 :: "f64 \<Rightarrow> f64 \<Rightarrow> f64" where
  "divide_f64 (Fin x) (Fin y) =
     (if y = 0 then (if x = 0 then NaN else Infinity (x < 0)) else mk64 (x / y))"
| "divide_f64 (Infinity s) (Fin y) = Infinity (s \<noteq> (y < 0))"
| "divide_f64 (Fin x) (Infinity t) = Fin 0"
| "divide_f64 _ _ = NaN"

definition inverse_f64 :: "f64 \<Rightarrow> f64" where
  "inverse_f64 a = divide (Fin 1) a"

fun abs_f64 :: "f64 \<Rightarrow> f64" where
  "abs_f64 NaN = NaN"
| "abs_f64 (Infinity s) = Infinity False"
| "abs_f64 (Fin x) = Fin \<bar>x\<bar>"

instance ..

end

text \<open>\<open>f64::total_cmp\<close> as the class order.\<close>

instantiation f64 :: linorder
begin

fun less_eq_f64 :: "f64 \<Rightarrow> f64 \<Rightarrow> bool" where
  "less_eq_f64 _ NaN = True"
| "less_eq_f64 NaN _ = False"
| "less_eq_f64 _ (Infinity False) = True"
| "less_eq_f64 (Infinity True) _ = True"
| "less_eq_f64 (Fin x) (Fin y) = (x \<le> y)"
| "less_eq_f64 _ _ = False"

definition less_f64 :: "f64 \<Rightarrow> f64 \<Rightarrow> bool" where
  "less_f64 a b = (a \<le> b \<and> \<not> b \<le> a)"

instance
proof
  fix x y z :: f64
  show "(x < y) = (x \<le> y \<and> \<not> y \<le> x)" by (simp add: less_f64_def)
  show "x \<le> x" by (cases x; cases "x = Infinity True") auto
  show "x \<le> y \<Longrightarrow> y \<le> z \<Longrightarrow> x \<le> z"
    by (cases x; cases y; cases z) (auto elim!: less_eq_f64.elims)
  show "x \<le> y \<Longrightarrow> y \<le> x \<Longrightarrow> x = y"
    by (cases x; cases y) (auto elim!: less_eq_f64.elims)
  show "x \<le> y \<or> y \<le> x"
    by (cases x; cases y; cases "x = Infinity True"; cases "y = Infinity True") auto
qed

end

text \<open>The IEEE comparisons.\<close>

definition flt :: "f64 \<Rightarrow> f64 \<Rightarrow> bool" where
  "flt a b = (a \<noteq> NaN \<and> b \<noteq> NaN \<and> a < b)"

definition fle :: "f64 \<Rightarrow> f64 \<Rightarrow> bool" where
  "fle a b = (a \<noteq> NaN \<and> b \<noteq> NaN \<and> a \<le> b)"

text \<open>\<open>f64::max\<close> and \<open>f64::min\<close> ignore a NaN operand; \<open>f64::clamp\<close> keeps a NaN.\<close>

definition fmax :: "f64 \<Rightarrow> f64 \<Rightarrow> f64" where
  "fmax a b = (if a = NaN then b else if b = NaN then a else if flt a b then b else a)"

definition fmin :: "f64 \<Rightarrow> f64 \<Rightarrow> f64" where
  "fmin a b = (if a = NaN then b else if b = NaN then a else if flt b a then b else a)"

definition fclamp :: "f64 \<Rightarrow> f64 \<Rightarrow> f64 \<Rightarrow> f64" where
  "fclamp x lo hi = (if flt x lo then lo else if flt hi x then hi else x)"

fun fceil :: "f64 \<Rightarrow> f64" where
  "fceil (Fin x) = Fin (of_int \<lceil>x\<rceil>)"
| "fceil v = v"

text \<open>\<open>f64::round\<close>: half away from zero.\<close>

fun fround :: "f64 \<Rightarrow> f64" where
  "fround (Fin x) = Fin (if 0 \<le> x then of_int \<lfloor>x + 1 / 2\<rfloor> else of_int \<lceil>x - 1 / 2\<rceil>)"
| "fround v = v"

fun fsqrt :: "f64 \<Rightarrow> f64" where
  "fsqrt (Fin x) = (if x < 0 then NaN else mk64 (sqrt x))"
| "fsqrt (Infinity False) = Infinity False"
| "fsqrt _ = NaN"

text \<open>The casts \<open>n as f64\<close> and \<open>x as u64\<close>; the latter truncates and saturates, NaN gives 0.\<close>

definition f64_of_nat :: "nat \<Rightarrow> f64" where
  "f64_of_nat n = mk64 (real n)"

abbreviation f64_of_u64 :: "u64 \<Rightarrow> f64" where
  "f64_of_u64 w \<equiv> f64_of_nat (unat w)"

fun nat_of_f64 :: "f64 \<Rightarrow> nat" where
  "nat_of_f64 NaN = 0"
| "nat_of_f64 (Infinity s) = (if s then 0 else 2 ^ 64 - 1)"
| "nat_of_f64 (Fin x) = min (nat \<lfloor>x\<rfloor>) (2 ^ 64 - 1)"

definition u64_of_f64 :: "f64 \<Rightarrow> u64" where
  "u64_of_f64 v = of_nat (nat_of_f64 v)"

section \<open>Facts about rounding\<close>

lemma bexp_bounds:
  assumes "0 < x"
  shows "2 powi bexp x \<le> x" and "x < 2 powi (bexp x + 1)"
proof -
  have "2 powi bexp x \<le> x \<and> x < 2 powi (bexp x + 1)"
  proof (cases "1 \<le> x")
    case True
    define n where "n = nat \<lfloor>x\<rfloor>"
    have n: "0 < n" "real n \<le> x" "x < real n + 1"
      using True by (auto simp: n_def)
    have fl: "2 ^ (floorlog 2 n - 1) \<le> n" "n < 2 ^ floorlog 2 n"
      using floorlog_bounds [of n 2] n(1) by auto
    have pos: "0 < floorlog 2 n"
      using n(1) by (simp add: floorlog_eq_zero_iff flip: neq0_conv)
    have e: "bexp x = int (floorlog 2 n - 1)" "bexp x + 1 = int (floorlog 2 n)"
      using True pos by (auto simp: bexp_def n_def)
    have "real (2 ^ (floorlog 2 n - 1)) \<le> real n"
      using fl(1) by (rule of_nat_mono)
    moreover have "real n + 1 \<le> real (2 ^ floorlog 2 n)"
      using fl(2) of_nat_mono [of "n + 1" "2 ^ floorlog 2 n", where 'a = real] by simp
    moreover have "2 powi bexp x = real (2 ^ (floorlog 2 n - 1))"
      by (simp only: e(1) power_int_of_nat of_nat_power of_nat_numeral)
    moreover have "2 powi (bexp x + 1) = real (2 ^ floorlog 2 n)"
      by (simp only: e(2) power_int_of_nat of_nat_power of_nat_numeral)
    ultimately have "2 powi bexp x \<le> x" "x < 2 powi (bexp x + 1)" using n by linarith+
    then show ?thesis ..
  next
    case False
    define n where "n = nat (\<lceil>1 / x\<rceil> - 1)"
    have gt: "1 < 1 / x" using False assms by simp
    have c: "1 < \<lceil>1 / x\<rceil>" using gt by linarith
    have n: "0 < n" "real n < 1 / x" "1 / x \<le> real n + 1"
      using c by (auto simp: n_def) linarith+
    have fl: "2 ^ (floorlog 2 n - 1) \<le> n" "n < 2 ^ floorlog 2 n"
      using floorlog_bounds [of n 2] n(1) by auto
    define k where "k = floorlog 2 n"
    have pos: "0 < k"
      using n(1) by (simp add: k_def floorlog_eq_zero_iff flip: neq0_conv)
    have e: "bexp x = - int k" using False by (simp add: bexp_def n_def k_def)
    have "real (n + 1) \<le> real (2 ^ k)"
      using fl(2) unfolding k_def by (intro of_nat_mono) simp
    then have "1 / x \<le> 2 ^ k" using n(3) by simp
    then have A: "1 / 2 ^ k \<le> x" using assms by (simp add: field_simps)
    have "(2::real) ^ (k - 1) \<le> real n"
      using fl(1) unfolding k_def by (metis of_nat_mono of_nat_numeral of_nat_power)
    then have "2 ^ (k - 1) < 1 / x" using n(2) by linarith
    then have B: "x < 1 / 2 ^ (k - 1)" using assms by (simp add: field_simps)
    have e2: "bexp x + 1 = - int (k - 1)" using e pos by simp
    have "2 powi bexp x = 1 / (2::real) ^ k"
      by (simp only: e power_int_minus power_int_of_nat inverse_eq_divide)
    moreover have "2 powi (bexp x + 1) = 1 / (2::real) ^ (k - 1)"
      by (simp only: e2 power_int_minus power_int_of_nat inverse_eq_divide)
    ultimately show ?thesis using A B by simp
  qed
  then show "2 powi bexp x \<le> x" "x < 2 powi (bexp x + 1)" by auto
qed

lemma powi2_le_iff: "(2::real) powi a \<le> 2 powi b \<longleftrightarrow> a \<le> b"
  using power_int_increasing [of a b "2::real"] power_int_strict_increasing[of b a "2::real"] by force

lemma powi2_less_iff: "(2::real) powi a < 2 powi b \<longleftrightarrow> a < b"
  by (meson linorder_not_le powi2_le_iff)

lemma bexp_unique:
  assumes "2 powi k \<le> x" "x < 2 powi (k + 1)"
  shows "bexp x = k"
proof -
  have x: "0 < x" using assms(1) by (meson less_le_trans zero_less_numeral zero_less_power_int)
  have "2 powi bexp x < (2::real) powi (k + 1)" "2 powi k < (2::real) powi (bexp x + 1)"
    using bexp_bounds [OF x] assms by linarith+
  then show ?thesis by (simp add: powi2_less_iff)
qed

lemma bexp_mono: "0 < x \<Longrightarrow> x \<le> y \<Longrightarrow> bexp x \<le> bexp y"
proof -
  assume a: "0 < x" "x \<le> y"
  then have "2 powi bexp x < (2::real) powi (bexp y + 1)"
    using bexp_bounds(1) [of x] bexp_bounds(2) [of y] by linarith
  then show ?thesis by (simp add: powi2_less_iff)
qed

lemma rne_of_int [simp]: "rne (of_int n) = n"
  by (simp add: rne_def)

lemma rne_err: "\<bar>of_int (rne x) - x\<bar> \<le> 1 / 2"
  unfolding rne_def Let_def by (auto split: if_splits; linarith)

lemma rne_mono: assumes "x \<le> y" shows "rne x \<le> rne y"
proof (cases "\<lfloor>x\<rfloor> = \<lfloor>y\<rfloor>")
  case True
  then show ?thesis using assms unfolding rne_def Let_def by auto
next
  case False
  then have "\<lfloor>x\<rfloor> + 1 \<le> \<lfloor>y\<rfloor>" using floor_mono[OF assms] by linarith
  moreover have "rne x \<le> \<lfloor>x\<rfloor> + 1" "\<lfloor>y\<rfloor> \<le> rne y" by (auto simp: rne_def Let_def)
  ultimately show ?thesis by linarith
qed

lemma rne_minus: "rne (- x) = - rne x"
proof (cases "x \<in> \<int>")
  case True
  then obtain n where "x = of_int n" by (auto elim: Ints_cases)
  then show ?thesis using rne_of_int[of "- n"] by simp
next
  case False
  then have "\<lfloor>- x\<rfloor> = - \<lfloor>x\<rfloor> - 1"
    by (metis floor_minus ceiling_altdef Ints_of_int diff_minus_eq_add minus_diff_eq add.commute minus_add_distrib uminus_add_conv_diff)
  moreover have "x \<noteq> of_int \<lfloor>x\<rfloor>" using False by (metis Ints_of_int)
  ultimately show ?thesis unfolding rne_def Let_def by auto
qed

lemma rne_nonneg: "0 \<le> x \<Longrightarrow> 0 \<le> rne x"
  using rne_mono [of 0 x] rne_of_int [of 0] by simp

lemma powi2_pos [simp]: "0 < (2::real) powi k" by simp

lemma rnd_0 [simp]: "rnd 0 = 0" by (simp add: rnd_def)

lemma rnd_minus: "rnd (- x) = - rnd x"
  by (simp add: rnd_def ulp_exp_def rne_minus)

lemma rnd_repr: "repr64 x \<Longrightarrow> rnd x = x"
proof (cases "x = 0")
  case False
  assume "repr64 x"
  with False obtain z where z: "x / 2 powi ulp_exp x = of_int z"
    by (auto simp: repr64_def elim!: Ints_cases)
  then have "x = of_int z * 2 powi ulp_exp x" by (simp add: field_simps)
  then show ?thesis using False z by (simp add: rnd_def)
qed simp

lemma repr64_minus [simp]: "repr64 (- x) = repr64 x"
  by (auto simp: repr64_def ulp_exp_def)

lemma repr64_intro:
  assumes x: "x = of_int m * 2 powi e" and m: "\<bar>m\<bar> \<le> 2 ^ 53" and e: "-1074 \<le> e"
  shows "repr64 x"
proof (cases "m = 0")
  case True then show ?thesis using x by (simp add: repr64_def)
next
  case False
  define k where "k = ulp_exp x"
  have ax: "\<bar>x\<bar> = of_int \<bar>m\<bar> * 2 powi e" using x by (simp add: abs_mult)
  have pos: "0 < \<bar>x\<bar>" using False ax by simp
  show ?thesis
  proof (cases "\<bar>m\<bar> = 2 ^ 53")
    case True
    have "\<bar>x\<bar> = 2 powi (e + 53)" using ax True by (simp add: power_int_add)
    then have b: "bexp \<bar>x\<bar> = e + 53" by (intro bexp_unique) (simp_all add: powi2_less_iff)
    then have "k = e + 1" using e by (simp add: k_def ulp_exp_def)
    moreover have "m = 2 * (m div 2)" using True by (auto simp: abs_if split: if_splits; presburger)
    ultimately have "x / 2 powi k = of_int (m div 2)"
      unfolding x by (subst \<open>m = 2 * (m div 2)\<close>) (simp add: power_int_add)
    then show ?thesis by (simp add: repr64_def k_def)
  next
    case F: False
    have "\<bar>x\<bar> < 2 ^ 53 * 2 powi e" using ax m F
      by (metis abs_ge_zero linorder_neqE_linordered_idom mult_less_cancel_right_pos not_less of_int_less_numeral_power_cancel_iff powi2_pos)
    also have "\<dots> = 2 powi (e + 53)" by (simp add: power_int_add)
    finally have "2 powi bexp \<bar>x\<bar> < (2::real) powi (e + 53)" using bexp_bounds(1)[OF pos] by linarith
    then have "bexp \<bar>x\<bar> - 52 \<le> e" by (simp add: powi2_less_iff)
    then have k: "k \<le> e" using e by (simp add: k_def ulp_exp_def)
    have "x / 2 powi k = of_int m * 2 powi (e - k)" using x by (simp add: power_int_diff)
    also have "\<dots> = of_int (m * 2 ^ nat (e - k))" using k by (simp add: power_int_def)
    finally show ?thesis by (simp add: repr64_def k_def)
  qed
qed

lemma rnd_le_grid:
  assumes "z / 2 powi ulp_exp x \<in> \<int>" "x \<le> z" "x \<noteq> 0"
  shows "rnd x \<le> z"
proof -
  let ?u = "2 powi ulp_exp x :: real"
  obtain n where n: "z / ?u = of_int n" using assms(1) by (auto elim: Ints_cases)
  have "x / ?u \<le> of_int n" unfolding n[symmetric] using assms(2) by (simp add: divide_right_mono)
  then have "rne (x / ?u) \<le> n" using rne_mono[of "x / ?u" "of_int n"] by simp
  then have "of_int (rne (x / ?u)) * ?u \<le> of_int n * ?u" by simp
  also have "\<dots> = z" using n by (simp add: field_simps)
  finally show ?thesis using assms(3) by (simp add: rnd_def)
qed

lemma rnd_ge_grid:
  assumes "z / 2 powi ulp_exp x \<in> \<int>" "z \<le> x" "x \<noteq> 0"
  shows "z \<le> rnd x"
  using rnd_le_grid[of "- z" "- x"] assms by (simp add: rnd_minus ulp_exp_def)

lemma rnd_nonneg: "0 \<le> x \<Longrightarrow> 0 \<le> rnd x"
  by (cases "x = 0") (auto intro: rnd_ge_grid)

lemma powi2_grid: "e \<le> k \<Longrightarrow> (2::real) powi k / 2 powi e \<in> \<int>"
proof -
  assume "e \<le> k"
  have "(2::real) powi k / 2 powi e = 2 powi (k - e)" by (simp add: power_int_diff)
  also have "\<dots> = of_int (2 ^ nat (k - e))" using \<open>e \<le> k\<close> by (simp add: power_int_def)
  finally have "(2::real) powi k / 2 powi e = of_int (2 ^ nat (k - e))" .
  then show ?thesis by (metis Ints_of_int)
qed

lemma rnd_mono_pos:
  assumes "0 < x" "x \<le> y"
  shows "rnd x \<le> rnd y"
proof (cases "ulp_exp x = ulp_exp y")
  case True
  have "x / 2 powi ulp_exp y \<le> y / 2 powi ulp_exp y" using assms by (simp add: divide_right_mono)
  then show ?thesis using assms True rne_mono by (auto simp: rnd_def)
next
  case False
  have le: "bexp x \<le> bexp y" using assms by (rule bexp_mono)
  with False assms have u: "ulp_exp y = bexp y - 52" "ulp_exp x < ulp_exp y"
    by (auto simp: ulp_exp_def max_def split: if_splits)
  then have b: "bexp x + 1 \<le> bexp y" using assms by (auto simp: ulp_exp_def)
  let ?z = "2 powi bexp y :: real"
  have "?z \<le> rnd y" using bexp_bounds(1)[of y] assms u by (intro rnd_ge_grid powi2_grid) auto
  moreover have "x \<le> ?z" using bexp_bounds(2)[OF assms(1)] b powi2_le_iff[of "bexp x + 1" "bexp y"] by linarith
  then have "rnd x \<le> ?z" using assms u by (intro rnd_le_grid powi2_grid) auto
  ultimately show ?thesis by linarith
qed

lemma rnd_mono: assumes "x \<le> y" shows "rnd x \<le> rnd y"
proof -
  consider "0 < x" | "x \<le> 0" "0 \<le> y" | "y < 0" using assms by linarith
  then show ?thesis
  proof cases
    case 1 then show ?thesis using assms by (rule rnd_mono_pos)
  next
    case 2
    then have "0 \<le> rnd (- x)" "0 \<le> rnd y" by (auto intro: rnd_nonneg)
    then show ?thesis by (simp add: rnd_minus)
  next
    case 3
    then have "rnd (- y) \<le> rnd (- x)" using assms by (intro rnd_mono_pos) auto
    then show ?thesis by (simp add: rnd_minus)
  qed
qed

lemma repr64_rnd [simp]: "repr64 (rnd x)"
proof (cases "x = 0")
  case False
  let ?e = "ulp_exp x"
  let ?m = "rne (x / 2 powi ?e)"
  have "bexp \<bar>x\<bar> + 1 \<le> ?e + 53" by (simp add: ulp_exp_def)
  then have "(2::real) powi (bexp \<bar>x\<bar> + 1) \<le> 2 powi (?e + 53)" by (simp only: powi2_le_iff)
  then have "\<bar>x\<bar> \<le> 2 ^ 53 * 2 powi ?e" using bexp_bounds(2)[of "\<bar>x\<bar>"] False by (simp add: power_int_add)
  then have "\<bar>x / 2 powi ?e\<bar> \<le> of_int (2 ^ 53)" by (simp add: field_simps abs_divide)
  then have "- of_int (2 ^ 53) \<le> x / 2 powi ?e" "x / 2 powi ?e \<le> of_int (2 ^ 53)" by linarith+
  then have "rne (of_int (- (2 ^ 53))) \<le> ?m" "?m \<le> rne (of_int (2 ^ 53))" by (auto intro!: rne_mono)
  then have "\<bar>?m\<bar> \<le> 2 ^ 53" unfolding rne_of_int by linarith
  then show ?thesis using False by (intro repr64_intro[of _ ?m ?e]) (auto simp: rnd_def ulp_exp_def)
qed (simp add: repr64_def)

lemma rnd_idem [simp]: "rnd (rnd x) = rnd x" by (simp add: rnd_repr)

lemma rnd_le_repr: "x \<le> y \<Longrightarrow> repr64 y \<Longrightarrow> rnd x \<le> y"
  using rnd_mono rnd_repr by metis

lemma rnd_ge_repr: "y \<le> x \<Longrightarrow> repr64 y \<Longrightarrow> y \<le> rnd x"
  using rnd_mono rnd_repr by metis

lemma rnd_pos: assumes "2 powi (-1074) \<le> x" shows "0 < rnd x"
proof -
  have "repr64 (2 powi (-1074))" by (rule repr64_intro[of _ 1 "-1074"]) auto
  then have "2 powi (-1074) \<le> rnd x" using assms by (intro rnd_ge_repr)
  then show ?thesis using powi2_pos[of "-1074"] by linarith
qed

lemma repr64_ge_min: assumes "repr64 x" "0 < x" shows "2 powi (-1074) \<le> x"
proof -
  have "x / 2 powi ulp_exp x \<in> \<int>" using assms by (auto simp: repr64_def)
  then obtain n where n: "x / 2 powi ulp_exp x = of_int n" by (auto elim: Ints_cases)
  then have "0 < real_of_int n" using assms(2) by (metis divide_pos_pos powi2_pos)
  then have "1 \<le> real_of_int n" by simp
  then have "1 * 2 powi ulp_exp x \<le> real_of_int n * 2 powi ulp_exp x" by (intro mult_right_mono) auto
  moreover have "x = real_of_int n * 2 powi ulp_exp x" using n by (simp add: field_simps)
  ultimately have "2 powi ulp_exp x \<le> x" by linarith
  moreover have "2 powi (-1074) \<le> (2::real) powi ulp_exp x" by (simp only: powi2_le_iff) (simp add: ulp_exp_def)
  ultimately show ?thesis by linarith
qed

lemma repr64_of_int: "\<bar>n\<bar> \<le> 2 ^ 53 \<Longrightarrow> repr64 (of_int n)"
  by (rule repr64_intro[of _ n 0]) auto

lemma repr64_powi2: "-1074 \<le> k \<Longrightarrow> repr64 (2 powi k)"
  by (rule repr64_intro[of _ 1 k]) auto

section \<open>Facts about the operations\<close>

lemma Fin_le_iff [simp]: "Fin x \<le> Fin y \<longleftrightarrow> x \<le> y"
  by simp

lemma Fin_less_iff [simp]: "Fin x < Fin y \<longleftrightarrow> x < y"
  by (auto simp: less_f64_def)

lemma flt_Fin [simp]: "flt (Fin x) (Fin y) \<longleftrightarrow> x < y"
  by (simp add: flt_def)

lemma fle_Fin [simp]: "fle (Fin x) (Fin y) \<longleftrightarrow> x \<le> y"
  by (simp add: fle_def)

lemma flt_NaN [simp]: "\<not> flt NaN y" "\<not> flt x NaN"
  by (auto simp: flt_def)

lemma fle_NaN [simp]: "\<not> fle NaN y" "\<not> fle x NaN"
  by (auto simp: fle_def)

lemma Inf_order [simp]:
  "Fin x < Infinity False" "Infinity True < Fin x" "\<not> Fin x < Infinity True"
  "\<not> Infinity False < Fin x" "Fin x < NaN" "Infinity s < NaN" "\<not> NaN < y"
  "Infinity True < Infinity False" "\<not> Infinity False \<le> Fin x"
  by (auto simp: less_f64_def)

lemma f64_lim_gt: "x \<le> 2 ^ 64 \<Longrightarrow> x < f64_lim" "x \<le> 2 ^ 53 \<Longrightarrow> x < f64_lim"
  by (auto simp: f64_lim_def)

lemma f64_lim_pos [simp]: "0 < f64_lim" "1 < f64_lim"
  by (auto simp: f64_lim_def)

lemma numeral_lt_f64_lim: "numeral k \<le> (2 ^ 64 :: real) \<Longrightarrow> numeral k < f64_lim"
  by (rule f64_lim_gt)

lemma Inf_extremes [simp]: "Infinity True \<le> v" "v \<le> Infinity False \<longleftrightarrow> v \<noteq> NaN"
proof -
  show "Infinity True \<le> v"
  proof (cases v)
    case (Infinity b) then show ?thesis by (cases b) auto
  qed auto
  show "v \<le> Infinity False \<longleftrightarrow> v \<noteq> NaN" by (cases v) auto
qed

lemma fle_trans: "fle a b \<Longrightarrow> fle b c \<Longrightarrow> fle a c"
  by (auto simp: fle_def)

lemma is_finite_iff: "is_finite v \<longleftrightarrow> (\<exists>x. v = Fin x)"
  by (cases v) auto

lemma is_finiteE [elim]: "is_finite v \<Longrightarrow> (\<And>x. v = Fin x \<Longrightarrow> P) \<Longrightarrow> P"
  by (cases v) auto

declare zero_f64_def [simp] one_f64_def [simp]

lemma mk64_small:
  assumes "\<bar>x\<bar> \<le> m" "repr64 m" "m < f64_lim"
  shows "mk64 x = Fin (rnd x)" and "\<bar>rnd x\<bar> \<le> m"
proof -
  have "rnd x \<le> m" using assms by (intro rnd_le_repr) auto
  moreover have "- m \<le> rnd x" using assms by (intro rnd_ge_repr) auto
  ultimately show b: "\<bar>rnd x\<bar> \<le> m" by linarith
  then show "mk64 x = Fin (rnd x)" using assms(3) by (simp add: mk64_def)
qed

lemma repr64_nat: "n \<le> 2 ^ 53 \<Longrightarrow> repr64 (real n)"
proof -
  assume "n \<le> 2 ^ 53"
  then have "int n \<le> int (2 ^ 53)" by (simp only: of_nat_le_iff)
  then have "\<bar>int n\<bar> \<le> 2 ^ 53" by simp
  then show ?thesis using repr64_of_int [of "int n"] by simp
qed

lemma repr64_0 [simp]: "repr64 0"
  by (simp add: repr64_def)

lemma repr64_1 [simp]: "repr64 1"
  using repr64_nat [of 1] by simp

lemma repr64_numeral: "(numeral k :: nat) \<le> 2 ^ 53 \<Longrightarrow> repr64 (numeral k)"
  using repr64_nat [of "numeral k"] by simp

lemma mk64_nat: "n \<le> 2 ^ 53 \<Longrightarrow> mk64 (real n) = Fin (real n)"
proof -
  assume n: "n \<le> 2 ^ 53"
  then have "real n \<le> 2 ^ 53" by (metis of_nat_le_iff of_nat_numeral of_nat_power)
  then have "real n < f64_lim" by (rule f64_lim_gt)
  then show ?thesis using rnd_repr [OF repr64_nat [OF n]] by (simp add: mk64_def)
qed

lemma mk64_repr: "repr64 x \<Longrightarrow> \<bar>x\<bar> < f64_lim \<Longrightarrow> mk64 x = Fin x"
  by (simp add: mk64_def rnd_repr)

lemma mk64_unit: "repr64 x \<Longrightarrow> \<bar>x\<bar> \<le> 1 \<Longrightarrow> mk64 x = Fin x"
  using f64_lim_pos(2) by (intro mk64_repr) linarith+

lemma mk64_ok [simp]: "f64_ok (mk64 x)"
  by (simp add: mk64_def f64_ok_def Let_def)

lemma mk64_not_NaN [simp]: "mk64 x \<noteq> NaN"
  by (simp add: mk64_def Let_def)

lemma mk64_mono: "x \<le> y \<Longrightarrow> mk64 x \<le> mk64 y"
  using rnd_mono [of x y] by (auto simp: mk64_def Let_def not_less abs_if split: if_splits)

lemma mk64_0 [simp]: "mk64 0 = Fin 0"
  by (simp add: mk64_def)

lemma ok_zero_one [simp]: "f64_ok 0" "f64_ok 1" "f64_ok NaN" "f64_ok (Infinity s)"
  by (auto simp: f64_ok_def zero_f64_def one_f64_def)

lemma ok_uminus [simp]: "f64_ok (- a) = f64_ok a"
  by (cases a) (auto simp: f64_ok_def)

lemma ok_plus [simp]: "f64_ok (a + b)"
  by (cases a; cases b) auto

lemma ok_minus [simp]: "f64_ok (a - b)"
  by (simp add: minus_f64_def)

lemma ok_times [simp]: "f64_ok (a * b)"
  by (cases a; cases b) auto

lemma ok_divide [simp]: "f64_ok (a / b)"
  by (cases a; cases b) (auto simp: f64_ok_def [of "Fin 0"])

lemma ok_fclamp: "f64_ok x \<Longrightarrow> f64_ok lo \<Longrightarrow> f64_ok hi \<Longrightarrow> f64_ok (fclamp x lo hi)"
  by (simp add: fclamp_def)

lemma ok_fmax: "f64_ok a \<Longrightarrow> f64_ok b \<Longrightarrow> f64_ok (fmax a b)"
  by (simp add: fmax_def)

lemma ok_of_nat [simp]: "f64_ok (f64_of_nat n)"
  by (simp add: f64_of_nat_def)

lemma repr64_le_MAX:
  assumes "repr64 x" "\<bar>x\<bar> < f64_lim"
  shows "x \<le> f64_max_real"
proof (rule ccontr)
  assume "\<not> x \<le> f64_max_real"
  then have gt: "(2 ^ 53 - 1) * 2 ^ 971 < x" by (simp add: f64_max_real_def)
  have pos: "0 < x" using gt by (rule less_trans [rotated]) simp
  have b: "bexp x = 1023"
  proof (rule bexp_unique)
    have "(2::real) powi 1023 = 2 ^ 1023" by (simp add: power_int_def)
    also have "\<dots> \<le> (2 ^ 53 - 1) * 2 ^ 971" by simp
    finally show "2 powi 1023 \<le> x" using gt by linarith
    have "(2::real) powi (1023 + 1) = f64_lim" by (simp add: power_int_def f64_lim_def)
    then show "x < 2 powi (1023 + 1)" using assms(2) by linarith
  qed
  then have u: "2 powi ulp_exp x = (2::real) ^ 971" using pos by (simp add: ulp_exp_def power_int_def)
  obtain n where n: "x / 2 ^ 971 = of_int n"
    using assms(1) pos u by (auto simp: repr64_def elim!: Ints_cases)
  then have x: "x = of_int n * 2 ^ 971" by (simp add: field_simps)
  have "of_int (2 ^ 53 - 1) < (of_int n :: real)" using gt unfolding x by simp
  moreover have "of_int n * 2 ^ 971 < (2 ^ 53 * 2 ^ 971 :: real)"
    using assms(2) unfolding x f64_lim_def by simp
  then have "of_int n < (of_int (2 ^ 53) :: real)" by simp
  ultimately have "2 ^ 53 - 1 < n" "n < 2 ^ 53" by (simp_all only: of_int_less_iff)
  then show False by simp
qed

lemma f64_max_real_facts:
  "repr64 f64_max_real" "f64_max_real < f64_lim" "1 < f64_max_real"
proof -
  have "f64_max_real = of_int (2 ^ 53 - 1) * 2 powi 971"
    by (simp only: f64_max_real_def power_int_def) simp
  then show "repr64 f64_max_real" by (rule repr64_intro) auto
  show "f64_max_real < f64_lim" "1 < f64_max_real" by (simp_all add: f64_max_real_def f64_lim_def)
qed

lemma ok_MAX [simp]: "f64_ok f64_MAX" "is_finite f64_MAX"
  using f64_max_real_facts by (auto simp: f64_ok_def f64_MAX_def)

lemma ok_FinD: "f64_ok (Fin x) \<Longrightarrow> repr64 x" "f64_ok (Fin x) \<Longrightarrow> \<bar>x\<bar> < f64_lim"
  by (auto simp: f64_ok_def)

lemma ok_le_MAX: "f64_ok v \<Longrightarrow> is_finite v \<Longrightarrow> v \<le> f64_MAX"
  by (cases v) (auto simp: f64_MAX_def intro!: repr64_le_MAX dest: ok_FinD)

lemma ok_Fin_simps [simp]: "f64_ok (Fin 0)" "f64_ok (Fin 1)" "f64_ok (Fin f64_max_real)"
  using f64_max_real_facts by (auto simp: f64_ok_def)

text \<open>Dyadic bounds carry over from the exact result to the rounded one.\<close>

lemma repr64_dyadic: "\<bar>m\<bar> \<le> 2 ^ 53 \<Longrightarrow> k \<le> 1074 \<Longrightarrow> repr64 (of_int m / 2 ^ k)"
  by (rule repr64_intro [of _ m "- int k"]) (auto simp: power_int_minus field_simps)

lemma mk64_between:
  assumes "a \<le> x" "x \<le> b" "repr64 a" "repr64 b" "- (2 ^ 64) \<le> a" "b \<le> 2 ^ 64"
  obtains y where "mk64 x = Fin y" "y = rnd x" "a \<le> y" "y \<le> b" "repr64 y" "f64_ok (Fin y)"
proof -
  have "a \<le> rnd x" "rnd x \<le> b" using assms by (auto intro: rnd_ge_repr rnd_le_repr)
  moreover from this have "\<bar>rnd x\<bar> < f64_lim"
    using assms(5,6) by (intro f64_lim_gt(1)) linarith
  ultimately show thesis by (intro that [of "rnd x"]) (auto simp: mk64_def f64_ok_def)
qed

lemma plus_f64_mono:
  assumes "a \<le> a'" "b \<le> b'" "a' + b' \<noteq> NaN" "a + b \<noteq> NaN"
  shows "a + b \<le> a' + (b' :: f64)"
proof -
  have "a' \<noteq> NaN" "b' \<noteq> NaN" "a \<noteq> NaN" "b \<noteq> NaN"
    using assms by (cases a; cases b; cases a'; cases b'; auto)+
  then show ?thesis
    using assms by (cases a; cases a'; cases b; cases b')
      (auto intro: mk64_mono elim!: less_eq_f64.elims split: if_splits)
qed

lemma f64_cases4 [case_names NaN PosInf NegInf Fin]:
  obtains "a = NaN" | "a = Infinity False" | "a = Infinity True" | x where "a = Fin x"
  by (metis (full_types) f64.exhaust)

lemma Fin_plus_not_NaN [simp]: "b \<noteq> NaN \<Longrightarrow> Fin x + b \<noteq> NaN"
  by (cases b) simp_all

lemma is_finite_plusD: "is_finite (a + b) \<Longrightarrow> is_finite a \<and> is_finite b"
  by (cases a; cases b) (auto split: if_splits)

lemma mk64_ok_Fin: "f64_ok (Fin x) \<Longrightarrow> mk64 x = Fin x"
  by (rule mk64_repr [OF ok_FinD(1) ok_FinD(2)])

lemma plus_0_right [simp]: "f64_ok a \<Longrightarrow> a + Fin 0 = a"
  by (cases a) (simp_all add: mk64_ok_Fin)

lemma f64_of_nat_not_NaN [simp]: "f64_of_nat n \<noteq> NaN"
  by (simp add: f64_of_nat_def)

text \<open>Adding a non-negative value never decreases, a non-positive one never increases.\<close>

lemma plus_nonneg_ge: "f64_ok a \<Longrightarrow> Fin 0 \<le> b \<Longrightarrow> a + b \<noteq> NaN \<Longrightarrow> a \<le> a + b"
  using plus_f64_mono [of a a "Fin 0" b] plus_0_right [of a] by (cases "a = NaN") simp_all

lemma plus_nonpos_le: "f64_ok a \<Longrightarrow> b \<le> Fin 0 \<Longrightarrow> a \<noteq> NaN \<Longrightarrow> a + b \<noteq> NaN \<Longrightarrow> a + b \<le> a"
  using plus_f64_mono [of a a b "Fin 0"] plus_0_right [of a] by simp

text \<open>Adding two finite values whose magnitudes are bounded by integers does not overflow.\<close>

lemma Fin_plus_bound:
  assumes "\<bar>x\<bar> \<le> real m" "\<bar>y\<bar> \<le> real n" "m + n \<le> 2 ^ 53"
  shows "\<exists>z. Fin x + Fin y = Fin z \<and> \<bar>z\<bar> \<le> real (m + n)"
proof -
  have "\<bar>x + y\<bar> \<le> real (m + n)" using assms(1,2) by simp
  moreover have "real (m + n) \<le> 2 ^ 53" using assms(3) by (metis of_nat_le_iff of_nat_numeral of_nat_power)
  then have "real (m + n) < f64_lim" by (rule f64_lim_gt)
  ultimately show ?thesis using mk64_small [of "x + y" "real (m + n)"] repr64_nat [OF assms(3)] by auto
qed

lemma fclamp_bounds:
  assumes "x \<noteq> NaN" "fle lo hi"
  shows "fle lo (fclamp x lo hi)" "fle (fclamp x lo hi) hi"
  using assms by (auto simp: fclamp_def fle_def flt_def)

lemma fclamp_Fin:
  assumes "a \<le> b"
  shows "fclamp f (Fin a) (Fin b) = NaN \<and> f = NaN \<or> (\<exists>y. fclamp f (Fin a) (Fin b) = Fin y \<and> a \<le> y \<and> y \<le> b)"
  using assms by (cases f rule: f64_cases4) (auto simp: fclamp_def flt_def)

lemma fclamp_NaN [simp]: "fclamp NaN lo hi = NaN"
  by (simp add: fclamp_def)

lemma fmax_ge: "fle a (fmax a b) \<or> a = NaN" "fle b (fmax a b) \<or> b = NaN"
  by (auto simp: fmax_def fle_def flt_def)

lemma fmax_Fin [simp]: "fmax (Fin x) (Fin y) = Fin (max x y)"
  by (simp add: fmax_def max_def)

lemma fmax_not_NaN: "a \<noteq> NaN \<or> b \<noteq> NaN \<Longrightarrow> fmax a b \<noteq> NaN"
  by (auto simp: fmax_def)

lemma f64_of_nat_exact: "n \<le> 2 ^ 53 \<Longrightarrow> f64_of_nat n = Fin (real n)"
  by (simp add: f64_of_nat_def mk64_nat)

lemma f64_of_nat_mono: "m \<le> n \<Longrightarrow> f64_of_nat m \<le> f64_of_nat n"
  by (simp add: f64_of_nat_def mk64_mono)

lemma zero_div_of_nat:
  assumes "0 < n"
  shows "f64_of_nat 0 / f64_of_nat n = Fin 0"
proof -
  have "1 \<le> real n" using assms by linarith
  then have "1 \<le> rnd (real n)" using ok_FinD(1) [of 1] by (intro rnd_ge_repr) simp_all
  then show ?thesis by (simp add: f64_of_nat_def mk64_ok_Fin) (simp add: mk64_def Let_def mk64_ok_Fin)
qed

text \<open>Every \<open>u64\<close> converts to a finite value; rounding keeps it in \<open>[0, 2 ^ 64]\<close>.\<close>

lemma f64_of_nat_Fin:
  assumes "n \<le> 2 ^ 64"
  shows "f64_of_nat n = Fin (rnd (real n))" "0 \<le> rnd (real n)" "rnd (real n) \<le> 2 ^ 64"
proof -
  have r: "repr64 (2 ^ 64)" using repr64_powi2 [of 64] by (simp add: power_int_def)
  have "\<bar>real n\<bar> \<le> 2 ^ 64" using assms by (metis abs_of_nat of_nat_le_iff of_nat_numeral of_nat_power)
  from mk64_small [OF this r f64_lim_gt(1) [OF order_refl]] show "f64_of_nat n = Fin (rnd (real n))" "rnd (real n) \<le> 2 ^ 64"
    by (auto simp: f64_of_nat_def)
  show "0 \<le> rnd (real n)" by (simp add: rnd_nonneg)
qed

lemma f64_of_u64_Fin: "f64_of_u64 w = Fin (rnd (real (unat w)))"
  using f64_of_nat_Fin(1) [of "unat w"] unat_lt_2p64 [of w] by simp

lemma nat_of_f64_le [simp]: "nat_of_f64 v \<le> 18446744073709551615"
  by (cases v) auto

lemma unat_u64_of_f64 [u64_simps]: "unat (u64_of_f64 v) = nat_of_f64 v"
  by (simp add: u64_of_f64_def unat_of_nat le_less_trans [OF nat_of_f64_le])

lemma nat_of_f64_mono: "a \<le> b \<Longrightarrow> b \<noteq> NaN \<Longrightarrow> nat_of_f64 a \<le> nat_of_f64 b"
  using nat_mono [OF floor_mono]
  by (cases a; cases b) (fastforce simp: min_le_iff_disj elim!: less_eq_f64.elims split: if_splits)+

section \<open>The logarithm\<close>

text \<open>
  What the proofs use of \<open>f64::ln\<close>: it is exact at 1, monotone on positive finite values, and
  bounded there (the extreme arguments are \<open>2 ^ -1074\<close> and just under \<open>2 ^ 1024\<close>).
\<close>

locale libm_ln =
  fixes lg :: "f64 \<Rightarrow> f64"
  assumes ln_one: "lg (Fin 1) = Fin 0"
    and ln_bound: "f64_ok (Fin x) \<Longrightarrow> 0 < x \<Longrightarrow> \<exists>r. lg (Fin x) = Fin r \<and> \<bar>r\<bar> \<le> 1074 \<and> f64_ok (Fin r)"
    and ln_mono: "f64_ok (Fin x) \<Longrightarrow> f64_ok (Fin y) \<Longrightarrow> 0 < x \<Longrightarrow> x \<le> y \<Longrightarrow> lg (Fin x) \<le> lg (Fin y)"
begin

lemma ln_finite: "f64_ok (Fin x) \<Longrightarrow> 0 < x \<Longrightarrow> is_finite (lg (Fin x))"
  using ln_bound by fastforce

lemma ln_ge_0: "f64_ok (Fin x) \<Longrightarrow> 1 \<le> x \<Longrightarrow> Fin 0 \<le> lg (Fin x)"
  using ln_mono [of 1 x] ln_one by (simp add: f64_ok_def)

lemma ln_le_0: "f64_ok (Fin x) \<Longrightarrow> 0 < x \<Longrightarrow> x \<le> 1 \<Longrightarrow> lg (Fin x) \<le> Fin 0"
  using ln_mono [of x 1] ln_one by (simp add: f64_ok_def)

end

text \<open>The correctly rounded logarithm.\<close>

fun cr_ln :: "f64 \<Rightarrow> f64" where
  "cr_ln (Fin x) = (if 0 < x then mk64 (ln x) else if x = 0 then Infinity True else NaN)"
| "cr_ln (Infinity False) = Infinity False"
| "cr_ln _ = NaN"

lemma ln_bound_1074:
  assumes "repr64 x" "\<bar>x\<bar> < f64_lim" "0 < x"
  shows "\<bar>ln x\<bar> \<le> 1074"
proof -
  have l2: "0 < ln (2::real)" "ln (2::real) \<le> 1" using ln_2_less_1 by auto
  have "x \<le> 2 ^ 1024" using assms(2) by (simp only: f64_lim_def)
  then have "ln x \<le> ln (2 ^ 1024)" using assms(3) by (simp only: ln_le_cancel_iff zero_less_power zero_less_numeral)
  also have "\<dots> = 1024 * ln 2" by (simp only: ln_realpow zero_less_numeral of_nat_numeral)
  finally have up: "ln x \<le> 1074" using l2 by linarith
  have "(2::real) powi (-1074) = inverse (2 ^ 1074)"
    by (simp only: power_int_minus power_int_numeral)
  then have "inverse (2 ^ 1074) \<le> x" using repr64_ge_min [OF assms(1,3)] by simp
  then have "ln (inverse (2 ^ 1074)) \<le> ln x"
    using assms(3) by (simp only: ln_le_cancel_iff zero_less_power zero_less_numeral positive_imp_inverse_positive)
  moreover have "ln (inverse (2 ^ 1074)) = - (1074 * ln (2::real))"
    by (simp only: ln_inverse ln_realpow zero_less_numeral zero_less_power of_nat_numeral)
  ultimately have "- 1074 \<le> ln x" using l2 by linarith
  then show ?thesis using up by linarith
qed

interpretation cr: libm_ln cr_ln
proof
  show "cr_ln (Fin 1) = Fin 0" by simp
next
  fix x assume a: "f64_ok (Fin x)" "0 < x"
  then have "\<bar>ln x\<bar> \<le> 1074" by (intro ln_bound_1074) (auto dest: ok_FinD)
  moreover have "repr64 1074" by (rule repr64_numeral) simp
  ultimately show "\<exists>r. cr_ln (Fin x) = Fin r \<and> \<bar>r\<bar> \<le> 1074 \<and> f64_ok (Fin r)"
    using mk64_small [of "ln x" 1074] mk64_ok [of "ln x"] f64_lim_gt(1) [of 1074] a(2) by auto
next
  fix x y :: real assume "0 < x" "x \<le> y"
  then show "cr_ln (Fin x) \<le> cr_ln (Fin y)" by (auto intro: mk64_mono)
qed

end
