(* ===== verification/Params.thy ===== *)
theory Params
  imports F64
begin

text \<open>
  The canonical parameters (\<open>crates/demiurge-cost/src/generated_params.rs\<close>).  A decimal
  literal is the binary64 value nearest to it.
\<close>

abbreviation lit :: "real \<Rightarrow> f64" where
  "lit r \<equiv> mk64 r"

definition CACHE_BLOCK_TOKENS :: u64 where
  "CACHE_BLOCK_TOKENS = 256"

definition CACHE_CHBL_LOAD_FACTOR_C :: f64 where
  "CACHE_CHBL_LOAD_FACTOR_C = lit (125 / 100)"

definition CACHE_CUCKOO_MAX_LOADFACTOR :: f64 where
  "CACHE_CUCKOO_MAX_LOADFACTOR = lit (9 / 10)"

definition CORRECTOR_ALPHA :: f64 where
  "CORRECTOR_ALPHA = lit (2 / 10)"

definition DATAPLANE_ADMIT_BURST :: u64 where
  "DATAPLANE_ADMIT_BURST = 4096"

definition DATAPLANE_ADMIT_REFILL_PER_SEC :: u64 where
  "DATAPLANE_ADMIT_REFILL_PER_SEC = 4096"

definition DATAPLANE_MAX_CONNS :: u64 where
  "DATAPLANE_MAX_CONNS = 1024"

definition DATAPLANE_PREFILL_RESPONSE_MAX_BYTES :: u64 where
  "DATAPLANE_PREFILL_RESPONSE_MAX_BYTES = 1048576"

definition DATAPLANE_RCU_HEARTBEAT_MS :: u64 where
  "DATAPLANE_RCU_HEARTBEAT_MS = 250"

definition DATAPLANE_RCU_STALE_ALERT_MS :: u64 where
  "DATAPLANE_RCU_STALE_ALERT_MS = 500"

definition KV_ABANDONED_SESSION_TTL_S :: u64 where
  "KV_ABANDONED_SESSION_TTL_S = 300"

definition KV_FRAGMENTATION_SLACK :: f64 where
  "KV_FRAGMENTATION_SLACK = lit (5 / 100)"

definition KV_HANDOFF_BYTE_CEILING_MULTIPLE :: u64 where
  "KV_HANDOFF_BYTE_CEILING_MULTIPLE = 4"

definition KV_MAX_OUTSTANDING_PER_SOURCE_FRACTION :: f64 where
  "KV_MAX_OUTSTANDING_PER_SOURCE_FRACTION = lit (25 / 100)"

definition KV_METADATA_OVERHEAD_FRACTION :: f64 where
  "KV_METADATA_OVERHEAD_FRACTION = lit (8 / 100)"

definition MIGRATION_ITL_BUDGET_FRACTION_EPS :: f64 where
  "MIGRATION_ITL_BUDGET_FRACTION_EPS = lit (5 / 10)"

definition POOL_ACTUATION_ENABLED :: bool where
  "POOL_ACTUATION_ENABLED = False"

definition POOL_REBALANCE_COOLDOWN_S :: u64 where
  "POOL_REBALANCE_COOLDOWN_S = 300"

definition POOL_REBALANCE_HYSTERESIS :: f64 where
  "POOL_REBALANCE_HYSTERESIS = lit (1 / 10)"

definition POOL_WEIGHT_KV :: f64 where
  "POOL_WEIGHT_KV = lit (3 / 10)"

definition POOL_WEIGHT_QUEUE :: f64 where
  "POOL_WEIGHT_QUEUE = lit (35 / 100)"

definition POOL_WEIGHT_SLO :: f64 where
  "POOL_WEIGHT_SLO = lit (35 / 100)"

definition RDMA_BASE_LATENCY_CROSS_CLUSTER_US :: u64 where
  "RDMA_BASE_LATENCY_CROSS_CLUSTER_US = 500"

definition RDMA_BASE_LATENCY_SAME_CLUSTER_US :: u64 where
  "RDMA_BASE_LATENCY_SAME_CLUSTER_US = 40"

definition RDMA_BASE_LATENCY_SAME_NODE_US :: u64 where
  "RDMA_BASE_LATENCY_SAME_NODE_US = 5"

definition RDMA_BASE_LATENCY_SAME_RACK_US :: u64 where
  "RDMA_BASE_LATENCY_SAME_RACK_US = 15"

definition RDMA_LINK_GBPS :: f64 where
  "RDMA_LINK_GBPS = lit (200)"

definition RDMA_MIN_BARRIER :: f64 where
  "RDMA_MIN_BARRIER = lit (1)"

definition ROUTING_OBSERVED_LATENCY_EWMA_ALPHA :: f64 where
  "ROUTING_OBSERVED_LATENCY_EWMA_ALPHA = lit (25 / 100)"

definition ROUTING_SHORT_CONTEXT_TOKENS :: u64 where
  "ROUTING_SHORT_CONTEXT_TOKENS = 512"

definition ROUTING_SHORT_CONTEXT_WARMTH_OVERRIDE :: f64 where
  "ROUTING_SHORT_CONTEXT_WARMTH_OVERRIDE = lit (15 / 100)"

definition ROUTING_TRANSFER_PENALTY :: f64 where
  "ROUTING_TRANSFER_PENALTY = lit (105 / 100)"

definition TELEMETRY_FRAME_RATE_HZ :: u64 where
  "TELEMETRY_FRAME_RATE_HZ = 50"

definition TELEMETRY_FREE_BLOCK_INTERRUPT_PCT :: u64 where
  "TELEMETRY_FREE_BLOCK_INTERRUPT_PCT = 20"

definition TELEMETRY_GOSSIP_INTERVAL_MS :: u64 where
  "TELEMETRY_GOSSIP_INTERVAL_MS = 100"

definition TOPOLOGY_RDMA_CROSS_CLUSTER :: u64 where
  "TOPOLOGY_RDMA_CROSS_CLUSTER = 10"

definition TOPOLOGY_RDMA_SAME_CLUSTER :: u64 where
  "TOPOLOGY_RDMA_SAME_CLUSTER = 2"

definition TOPOLOGY_RDMA_SAME_NODE :: u64 where
  "TOPOLOGY_RDMA_SAME_NODE = 0"

definition TOPOLOGY_RDMA_SAME_RACK :: u64 where
  "TOPOLOGY_RDMA_SAME_RACK = 1"

definition WARMTH_MAX_DISCOUNT :: f64 where
  "WARMTH_MAX_DISCOUNT = lit (85 / 100)"


lemmas u64_params = CACHE_BLOCK_TOKENS_def DATAPLANE_ADMIT_BURST_def DATAPLANE_ADMIT_REFILL_PER_SEC_def DATAPLANE_MAX_CONNS_def DATAPLANE_PREFILL_RESPONSE_MAX_BYTES_def DATAPLANE_RCU_HEARTBEAT_MS_def DATAPLANE_RCU_STALE_ALERT_MS_def KV_ABANDONED_SESSION_TTL_S_def KV_HANDOFF_BYTE_CEILING_MULTIPLE_def POOL_REBALANCE_COOLDOWN_S_def RDMA_BASE_LATENCY_CROSS_CLUSTER_US_def RDMA_BASE_LATENCY_SAME_CLUSTER_US_def RDMA_BASE_LATENCY_SAME_NODE_US_def RDMA_BASE_LATENCY_SAME_RACK_US_def ROUTING_SHORT_CONTEXT_TOKENS_def TELEMETRY_FRAME_RATE_HZ_def TELEMETRY_FREE_BLOCK_INTERRUPT_PCT_def TELEMETRY_GOSSIP_INTERVAL_MS_def TOPOLOGY_RDMA_CROSS_CLUSTER_def TOPOLOGY_RDMA_SAME_CLUSTER_def TOPOLOGY_RDMA_SAME_NODE_def TOPOLOGY_RDMA_SAME_RACK_def

end
