(* ===== verification/Cost.thy ===== *)
theory Cost
  imports Params
begin

text \<open>
  The cost-factor algebra of \<open>crates/demiurge-cost/src/lib.rs\<close> and the warmth discount of
  \<open>warmth.rs\<close>: validated factors, the fail-expensive constructors, log-space composition and
  the service cost that live routing and shadow pairing share.

  The process-global gauge \<open>FACTOR_CLAMP_EVENTS\<close> is threaded through as the last argument and
  the second result of every function that may bump it.  \<open>lg\<close> is \<open>f64::ln\<close>.
\<close>

section \<open>Factors\<close>

definition ALPHA :: f64 where
  "ALPHA = CORRECTOR_ALPHA"

type_synonym clamp_events = u64

definition bump_clamp :: "clamp_events \<Rightarrow> clamp_events" where
  "bump_clamp ev = ev + 1"

datatype FactorError = NotFinite | OutOfRange

datatype TimeCore = TimeCore (TimeCore_get: f64)
datatype BarrierFactor = BarrierFactor (BarrierFactor_get: f64)
datatype Discount = Discount (Discount_get: f64)
datatype Corrector = Corrector (Corrector_get: f64)

record Cost =
  Cost_ln :: f64

definition TimeCore_new :: "f64 \<Rightarrow> FactorError + TimeCore" where
  "TimeCore_new seconds =
     (if \<not> is_finite seconds then Inl NotFinite
      else if fle seconds 0 then Inl OutOfRange
      else Inr (TimeCore seconds))"

definition TimeCore_clamped :: "f64 \<Rightarrow> clamp_events \<Rightarrow> TimeCore \<times> clamp_events" where
  "TimeCore_clamped seconds ev =
     (if is_finite seconds \<and> flt 0 seconds then (TimeCore seconds, ev)
      else (TimeCore f64_MAX, bump_clamp ev))"

definition BarrierFactor_new :: "f64 \<Rightarrow> FactorError + BarrierFactor" where
  "BarrierFactor_new x =
     (if \<not> is_finite x then Inl NotFinite
      else if flt x 1 then Inl OutOfRange
      else Inr (BarrierFactor x))"

definition BarrierFactor_clamped :: "f64 \<Rightarrow> clamp_events \<Rightarrow> BarrierFactor \<times> clamp_events" where
  "BarrierFactor_clamped x ev =
     (if is_finite x \<and> fle 1 x then (BarrierFactor x, ev)
      else (BarrierFactor f64_MAX, bump_clamp ev))"

definition Discount_new :: "f64 \<Rightarrow> FactorError + Discount" where
  "Discount_new x =
     (if \<not> is_finite x then Inl NotFinite
      else if fle x 0 \<or> flt 1 x then Inl OutOfRange
      else Inr (Discount x))"

definition Discount_clamped :: "f64 \<Rightarrow> clamp_events \<Rightarrow> Discount \<times> clamp_events" where
  "Discount_clamped x ev =
     (if is_finite x \<and> flt 0 x \<and> fle x 1 then (Discount x, ev)
      else (Discount 1, bump_clamp ev))"

definition Corrector_new :: "f64 \<Rightarrow> clamp_events \<Rightarrow> Corrector \<times> clamp_events" where
  "Corrector_new delta ev =
     (let lo = 1 - ALPHA; hi = 1 + ALPHA in
      if \<not> is_finite delta then (Corrector 1, bump_clamp ev)
      else if flt delta lo then (Corrector lo, bump_clamp ev)
      else if flt hi delta then (Corrector hi, bump_clamp ev)
      else (Corrector delta, ev))"

definition Corrector_identity :: Corrector where
  "Corrector_identity = Corrector 1"

section \<open>Cost\<close>

definition Cost_from_ln :: "f64 \<Rightarrow> clamp_events \<Rightarrow> Cost \<times> clamp_events" where
  "Cost_from_ln l ev =
     (if is_finite l then (\<lparr>Cost_ln = l\<rparr>, ev) else (\<lparr>Cost_ln = f64_MAX\<rparr>, bump_clamp ev))"

definition Cost_get :: "(f64 \<Rightarrow> f64) \<Rightarrow> Cost \<Rightarrow> f64" where
  "Cost_get ex c = ex (Cost_ln c)"

definition Cost_is_positive :: "Cost \<Rightarrow> bool" where
  "Cost_is_positive c = is_finite (Cost_ln c)"

definition add_lns :: "(f64 \<Rightarrow> f64) \<Rightarrow> ('a \<Rightarrow> f64) \<Rightarrow> f64 \<Rightarrow> 'a list \<Rightarrow> f64" where
  "add_lns lg get acc xs = foldl (\<lambda>l x. l + lg (get x)) acc xs"

definition compose ::
  "(f64 \<Rightarrow> f64) \<Rightarrow> TimeCore \<Rightarrow> BarrierFactor list \<Rightarrow> Discount list \<Rightarrow> Corrector \<Rightarrow> clamp_events
     \<Rightarrow> Cost \<times> clamp_events" where
  "compose lg core barriers discounts corrector ev =
     (let l = lg (TimeCore_get core);
          l = add_lns lg BarrierFactor_get l barriers;
          l = add_lns lg Discount_get l discounts;
          c = Corrector_get corrector;
          l = (if c \<noteq> 1 then l + lg c else l)
      in Cost_from_ln l ev)"

definition MAX_SERVICE_BARRIERS :: nat where
  "MAX_SERVICE_BARRIERS = 16"

text \<open>
  \<open>append_barriers_fail_expensive\<close>: \<open>buf\<close> is the slice, \<open>len\<close> the cursor; both are returned
  updated.  \<open>len \<ge> buf.len()\<close> with barriers left over replaces the last slot by a maximal
  barrier and stops.
\<close>

fun append_barriers_fail_expensive ::
  "BarrierFactor list \<Rightarrow> nat \<Rightarrow> BarrierFactor list \<Rightarrow> clamp_events
     \<Rightarrow> (BarrierFactor list \<times> nat) \<times> clamp_events" where
  "append_barriers_fail_expensive buf len [] ev = ((buf, len), ev)"
| "append_barriers_fail_expensive buf len (barrier # extras) ev =
     (if length buf \<le> len then
        (if buf \<noteq> [] then
           (let (mx, ev) = BarrierFactor_clamped f64_MAX ev
            in ((buf[length buf - 1 := mx], len), bump_clamp ev))
         else ((buf, len), ev))
      else append_barriers_fail_expensive (buf[len := barrier]) (len + 1) extras ev)"

definition service_cost ::
  "(f64 \<Rightarrow> f64) \<Rightarrow> f64 \<Rightarrow> nat \<Rightarrow> BarrierFactor list \<Rightarrow> Discount list \<Rightarrow> clamp_events
     \<Rightarrow> Cost \<times> clamp_events" where
  "service_cost lg core_seconds inflight extra_barriers discounts ev =
     (let (core, ev) = TimeCore_clamped core_seconds ev;
          (queue, ev) = BarrierFactor_clamped (1 + f64_of_nat inflight) ev;
          (unit_barrier, ev) = BarrierFactor_clamped 1 ev;
          barriers = (replicate MAX_SERVICE_BARRIERS unit_barrier)[0 := queue];
          ((barriers, len), ev) = append_barriers_fail_expensive barriers 1 extra_barriers ev
      in compose lg core (take len barriers) discounts Corrector_identity ev)"

section \<open>Warmth discount\<close>

definition warmth_discount :: "f64 \<Rightarrow> clamp_events \<Rightarrow> Discount option \<times> clamp_events" where
  "warmth_discount strength ev =
     (if \<not> is_finite strength \<or> fle strength 0 then (None, ev)
      else let factor = 1 - fclamp strength 0 1 * WARMTH_MAX_DISCOUNT;
               (d, ev) = Discount_clamped factor ev
           in (Some d, ev))"

section \<open>Well-formed factors\<close>

definition wf_core :: "TimeCore \<Rightarrow> bool" where
  "wf_core t \<longleftrightarrow> f64_ok (TimeCore_get t) \<and> is_finite (TimeCore_get t) \<and> flt 0 (TimeCore_get t)"

definition wf_barrier :: "BarrierFactor \<Rightarrow> bool" where
  "wf_barrier b \<longleftrightarrow> f64_ok (BarrierFactor_get b) \<and> is_finite (BarrierFactor_get b) \<and> fle 1 (BarrierFactor_get b)"

definition wf_discount :: "Discount \<Rightarrow> bool" where
  "wf_discount d \<longleftrightarrow> f64_ok (Discount_get d) \<and> is_finite (Discount_get d)
     \<and> flt 0 (Discount_get d) \<and> fle (Discount_get d) 1"

definition wf_corrector :: "Corrector \<Rightarrow> bool" where
  "wf_corrector c \<longleftrightarrow> f64_ok (Corrector_get c) \<and> is_finite (Corrector_get c)
     \<and> fle (1 - ALPHA) (Corrector_get c) \<and> fle (Corrector_get c) (1 + ALPHA)"

definition wf_cost :: "Cost \<Rightarrow> bool" where
  "wf_cost c \<longleftrightarrow> is_finite (Cost_ln c)"

lemma wf_TimeCore_clamped: "f64_ok s \<Longrightarrow> wf_core (fst (TimeCore_clamped s ev))"
  using f64_max_real_facts(3)
  by (auto simp: TimeCore_clamped_def wf_core_def f64_MAX_def)

lemma wf_BarrierFactor_clamped: "f64_ok x \<Longrightarrow> wf_barrier (fst (BarrierFactor_clamped x ev))"
  using f64_max_real_facts(3)
  by (auto simp: BarrierFactor_clamped_def wf_barrier_def f64_MAX_def)

lemma wf_Discount_clamped: "f64_ok x \<Longrightarrow> wf_discount (fst (Discount_clamped x ev))"
  by (auto simp: Discount_clamped_def wf_discount_def)

lemma ALPHA_bounds: "\<exists>a. ALPHA = Fin a \<and> repr64 a \<and> 1 / 8 \<le> a \<and> a \<le> 1 / 4"
proof -
  have "repr64 (1 / 8)" "repr64 (1 / 4)"
    using repr64_dyadic [of 1 3] repr64_dyadic [of 1 2] by auto
  then obtain y where "mk64 (1 / 5) = Fin y" "1 / 8 \<le> y" "y \<le> 1 / 4" "repr64 y"
    by (rule mk64_between [of "1 / 8" "1 / 5" "1 / 4", rotated 2]) auto
  then show ?thesis by (auto simp: ALPHA_def CORRECTOR_ALPHA_def)
qed

lemma envelope_bounds:
  obtains l h where "1 - ALPHA = Fin l" "1 + ALPHA = Fin h" "3 / 4 \<le> l" "l \<le> 1" "1 \<le> h" "h \<le> 5 / 4"
    "f64_ok (Fin l)" "f64_ok (Fin h)"
proof -
  obtain a where a: "ALPHA = Fin a" "1 / 8 \<le> a" "a \<le> 1 / 4" using ALPHA_bounds by blast
  have r: "repr64 (3 / 4)" "repr64 (5 / 4)"
    using repr64_dyadic [of 3 2] repr64_dyadic [of 5 2] by auto
  obtain l where l: "mk64 (1 - a) = Fin l" "3 / 4 \<le> l" "l \<le> 1" "f64_ok (Fin l)"
    using a r by (auto intro: mk64_between [of "3 / 4" "1 - a" 1])
  obtain h where h: "mk64 (1 + a) = Fin h" "1 \<le> h" "h \<le> 5 / 4" "f64_ok (Fin h)"
    using a r by (auto intro: mk64_between [of 1 "1 + a" "5 / 4"])
  show thesis using l h by (intro that [of l h]) (simp_all add: a(1) minus_f64_def)
qed

lemma wf_Corrector_new:
  assumes "f64_ok d"
  shows "wf_corrector (fst (Corrector_new d ev))"
proof (rule envelope_bounds)
  fix l h
  assume e: "1 - ALPHA = Fin l" "1 + ALPHA = Fin h" "3 / 4 \<le> l" "l \<le> 1" "1 \<le> h" "h \<le> 5 / 4"
    "f64_ok (Fin l)" "f64_ok (Fin h)"
  show ?thesis
    using assms e(3-8) unfolding Corrector_new_def wf_corrector_def Let_def e(1,2)
    by (cases d) auto
qed

lemma wf_Corrector_identity: "wf_corrector Corrector_identity"
proof (rule envelope_bounds)
  fix l h
  assume e: "1 - ALPHA = Fin l" "1 + ALPHA = Fin h" "3 / 4 \<le> l" "l \<le> 1" "1 \<le> h" "h \<le> 5 / 4"
  show ?thesis
    unfolding wf_corrector_def Corrector_identity_def e(1,2) using e(4,5) by simp
qed


section \<open>The barrier buffer\<close>

lemma append_barriers_fits:
  "len + length extras \<le> length buf \<Longrightarrow>
   append_barriers_fail_expensive buf len extras ev =
     ((take len buf @ extras @ drop (len + length extras) buf, len + length extras), ev)"
proof (induction extras arbitrary: buf len)
  case (Cons b extras)
  then have len: "len < length buf" by simp
  then have "append_barriers_fail_expensive buf len (b # extras) ev =
      ((take (Suc len) (buf[len := b]) @ extras @ drop (Suc len + length extras) (buf[len := b]),
        Suc len + length extras), ev)"
    using Cons.IH [of "Suc len" "buf[len := b]"] Cons.prems by simp
  also have "take (Suc len) (buf[len := b]) = take len buf @ [b]"
    using len by (simp add: take_Suc_conv_app_nth)
  finally show ?case by simp
qed simp

lemma append_barriers_overflow:
  "len \<le> length buf \<Longrightarrow> length buf < len + length extras \<Longrightarrow> buf \<noteq> [] \<Longrightarrow>
   append_barriers_fail_expensive buf len extras ev =
     (((take len buf @ take (length buf - len) extras)[length buf - 1 := BarrierFactor f64_MAX],
       length buf), bump_clamp ev)"
proof (induction extras arbitrary: buf len)
  case (Cons b extras)
  show ?case
  proof (cases "length buf \<le> len")
    case True
    then show ?thesis using Cons.prems f64_max_real_facts(3)
      by (simp add: BarrierFactor_clamped_def f64_MAX_def)
  next
    case False
    then have "append_barriers_fail_expensive buf len (b # extras) ev =
        (((take (Suc len) (buf[len := b]) @ take (length buf - Suc len) extras)
           [length buf - 1 := BarrierFactor f64_MAX], length buf), bump_clamp ev)"
      using Cons.IH [of "Suc len" "buf[len := b]"] Cons.prems by simp
    also have "take (Suc len) (buf[len := b]) @ take (length buf - Suc len) extras =
        take len buf @ take (length buf - len) (b # extras)"
      using False by (simp add: take_Suc_conv_app_nth take_Cons' Suc_diff_Suc [symmetric] not_le)
    finally show ?thesis .
  qed
qed simp

text \<open>The barriers a service cost is composed from.\<close>

definition service_barriers :: "nat \<Rightarrow> BarrierFactor list \<Rightarrow> BarrierFactor list" where
  "service_barriers inflight extras =
     (let queue = fst (BarrierFactor_clamped (1 + f64_of_nat inflight) 0)
      in if length extras < MAX_SERVICE_BARRIERS then queue # extras
         else queue # take (MAX_SERVICE_BARRIERS - 2) extras @ [BarrierFactor f64_MAX])"

lemma BarrierFactor_clamped_one [simp]: "BarrierFactor_clamped 1 ev = (BarrierFactor 1, ev)"
  by (simp add: BarrierFactor_clamped_def)

lemma fst_BarrierFactor_clamped: "fst (BarrierFactor_clamped x ev) = fst (BarrierFactor_clamped x 0)"
  by (simp add: BarrierFactor_clamped_def)

lemma fst_TimeCore_clamped: "fst (TimeCore_clamped x ev) = fst (TimeCore_clamped x 0)"
  by (simp add: TimeCore_clamped_def)

lemma append_service_barriers:
  "\<exists>buf len. append_barriers_fail_expensive
       ((replicate MAX_SERVICE_BARRIERS (BarrierFactor 1))[0 := queue]) 1 extras ev
     = ((buf, len), if length extras < MAX_SERVICE_BARRIERS then ev else bump_clamp ev)
   \<and> take len buf = (if length extras < MAX_SERVICE_BARRIERS then queue # extras
         else queue # take (MAX_SERVICE_BARRIERS - 2) extras @ [BarrierFactor f64_MAX])"
proof (cases "length extras < MAX_SERVICE_BARRIERS")
  case True
  then show ?thesis
    by (subst append_barriers_fits) (auto simp: MAX_SERVICE_BARRIERS_def numeral_eq_Suc)
next
  case False
  define es where "es = take 14 extras"
  have "take 15 extras = es @ [extras ! 14]"
    using False take_Suc_conv_app_nth [of 14 extras] by (simp add: es_def MAX_SERVICE_BARRIERS_def)
  moreover have "length es = 14" using False by (simp add: es_def MAX_SERVICE_BARRIERS_def)
  ultimately show ?thesis using False
    by (subst append_barriers_overflow)
       (auto simp: MAX_SERVICE_BARRIERS_def list_update_append es_def numeral_eq_Suc)
qed

lemma service_cost_compose:
  "\<exists>ev'. service_cost lg s n extras ds ev =
     compose lg (fst (TimeCore_clamped s 0)) (service_barriers n extras) ds Corrector_identity ev'"
proof -
  obtain tc ev1 where 1: "TimeCore_clamped s ev = (tc, ev1)" by fastforce
  obtain q ev2 where 2: "BarrierFactor_clamped (1 + f64_of_nat n) ev1 = (q, ev2)" by fastforce
  have tc: "fst (TimeCore_clamped s 0) = tc" by (metis 1 fst_TimeCore_clamped fst_conv)
  have q: "fst (BarrierFactor_clamped (1 + f64_of_nat n) 0) = q"
    by (metis 2 fst_BarrierFactor_clamped fst_conv)
  obtain buf len where 3: "append_barriers_fail_expensive
       ((replicate MAX_SERVICE_BARRIERS (BarrierFactor 1))[0 := q]) 1 extras ev2
     = ((buf, len), if length extras < MAX_SERVICE_BARRIERS then ev2 else bump_clamp ev2)"
    "take len buf = service_barriers n extras"
    using append_service_barriers [of q extras ev2] unfolding service_barriers_def Let_def q by blast
  show ?thesis
    using 3(1) unfolding service_cost_def tc
    by (auto simp add: 1 2 3(2) simp del: one_f64_def replicate_Suc)
qed

section \<open>Log-space composition\<close>

definition pos_ok :: "f64 \<Rightarrow> bool" where
  "pos_ok x \<longleftrightarrow> f64_ok x \<and> is_finite x \<and> flt 0 x"

lemma wf_pos_ok:
  "wf_core t \<Longrightarrow> pos_ok (TimeCore_get t)"
  "wf_barrier b \<Longrightarrow> pos_ok (BarrierFactor_get b)"
  "wf_discount d \<Longrightarrow> pos_ok (Discount_get d)"
  by (auto simp: wf_core_def wf_barrier_def wf_discount_def pos_ok_def elim: is_finite.elims)

lemma wf_corrector_pos_ok: "wf_corrector c \<Longrightarrow> pos_ok (Corrector_get c)"
proof (rule envelope_bounds)
  fix l h
  assume "wf_corrector c" "1 - ALPHA = Fin l" "1 + ALPHA = Fin h" "3 / 4 \<le> l"
  then show ?thesis by (cases "Corrector_get c") (auto simp: wf_corrector_def pos_ok_def)
qed

text \<open>A finite, representable logarithm of magnitude at most \<open>1074 * k\<close>.\<close>

definition ln_within :: "nat \<Rightarrow> f64 \<Rightarrow> bool" where
  "ln_within k l \<longleftrightarrow> (\<exists>r. l = Fin r \<and> f64_ok l \<and> \<bar>r\<bar> \<le> real (1074 * k))"

context libm_ln
begin

lemma ln_pos_ok: "pos_ok x \<Longrightarrow> ln_within 1 (lg x)"
  using ln_bound by (cases x) (fastforce simp: pos_ok_def ln_within_def)+

lemma ln_within_plus:
  assumes "ln_within m a" "ln_within n b" "m + n \<le> 2 ^ 42"
  shows "ln_within (m + n) (a + b)"
proof -
  from assms(1,2) obtain x y where xy: "a = Fin x" "b = Fin y" "\<bar>x\<bar> \<le> real (1074 * m)" "\<bar>y\<bar> \<le> real (1074 * n)"
    by (auto simp: ln_within_def)
  have "1074 * m + 1074 * n \<le> 2 ^ 53" using assms(3) by simp
  then obtain z where "a + b = Fin z" "\<bar>z\<bar> \<le> real (1074 * m + 1074 * n)"
    using Fin_plus_bound [OF xy(3,4)] xy(1,2) by auto
  moreover have "f64_ok (a + b)" using assms(1,2) by (simp add: ln_within_def ok_plus)
  ultimately show ?thesis by (simp add: ln_within_def algebra_simps)
qed

lemma add_lns_at_most:
  assumes "\<forall>x\<in>set xs. pos_ok (get x)" "ln_within k acc" "k + length xs \<le> 2 ^ 42"
  shows "ln_within (k + length xs) (add_lns lg get acc xs)"
  using assms
proof (induction xs arbitrary: k acc)
  case (Cons x xs)
  have "ln_within (k + 1) (acc + lg (get x))"
    using Cons.prems by (intro ln_within_plus ln_pos_ok) auto
  then show ?case using Cons.IH [of "k + 1"] Cons.prems by (simp add: add_lns_def)
qed (simp add: add_lns_def)

lemma add_lns_mono:
  assumes "list_all2 (\<lambda>x y. pos_ok (get x) \<and> pos_ok (get y) \<and> get x \<le> get y) xs ys"
    "ln_within k a" "ln_within k b" "a \<le> b" "k + length xs \<le> 2 ^ 42"
  shows "add_lns lg get a xs \<le> add_lns lg get b ys"
  using assms
proof (induction xs ys arbitrary: k a b rule: list_all2_induct)
  case (Cons x xs y ys)
  have m: "ln_within (k + 1) (a + lg (get x))" "ln_within (k + 1) (b + lg (get y))"
    using Cons.prems Cons.hyps by (intro ln_within_plus ln_pos_ok; auto)+
  have "lg (get x) \<le> lg (get y)"
    using Cons.hyps(1) ln_mono by (cases "get x"; cases "get y") (auto simp: pos_ok_def)
  then have "a + lg (get x) \<le> b + lg (get y)"
    using m Cons.prems by (intro plus_f64_mono) (auto simp: ln_within_def)
  then show ?case using Cons.IH [OF m] Cons.prems by (simp add: add_lns_def)
qed (simp add: add_lns_def)

text \<open>The skipped \<open>ln 1\<close> of an identity corrector is the addition of zero.\<close>

lemma compose_uniform:
  assumes "wf_core t" "\<forall>b\<in>set bs. wf_barrier b" "\<forall>d\<in>set ds. wf_discount d" "wf_corrector c"
    "length bs + length ds \<le> 2 ^ 40"
  shows "compose lg t bs ds c ev =
    (\<lparr>Cost_ln = add_lns lg Discount_get (add_lns lg BarrierFactor_get (lg (TimeCore_get t)) bs) ds
        + lg (Corrector_get c)\<rparr>, ev)"
    "ln_within (1 + length bs + length ds + 1)
       (add_lns lg Discount_get (add_lns lg BarrierFactor_get (lg (TimeCore_get t)) bs) ds + lg (Corrector_get c))"
proof -
  let ?l = "add_lns lg Discount_get (add_lns lg BarrierFactor_get (lg (TimeCore_get t)) bs) ds"
  have l: "ln_within (1 + length bs + length ds) ?l"
    using assms by (intro add_lns_at_most ln_pos_ok ballI) (auto intro: wf_pos_ok)
  show m: "ln_within (1 + length bs + length ds + 1) (?l + lg (Corrector_get c))"
    using l assms(4,5) by (intro ln_within_plus ln_pos_ok wf_corrector_pos_ok) auto
  have "(if Corrector_get c \<noteq> 1 then ?l + lg (Corrector_get c) else ?l) = ?l + lg (Corrector_get c)"
    using l ln_one by (auto simp: ln_within_def mk64_ok_Fin)
  then show "compose lg t bs ds c ev = (\<lparr>Cost_ln = ?l + lg (Corrector_get c)\<rparr>, ev)"
    using m by (auto simp: compose_def Let_def Cost_from_ln_def ln_within_def)
qed

lemma compose_mono:
  assumes "wf_core t" "\<forall>b\<in>set bs. wf_barrier b" "\<forall>d\<in>set ds. wf_discount d" "wf_corrector c"
    "wf_core t'" "\<forall>b\<in>set bs'. wf_barrier b" "\<forall>d\<in>set ds'. wf_discount d" "wf_corrector c'"
    "length bs + length ds \<le> 2 ^ 40"
    "TimeCore_get t \<le> TimeCore_get t'"
    "list_all2 (\<lambda>x y. BarrierFactor_get x \<le> BarrierFactor_get y) bs bs'"
    "list_all2 (\<lambda>x y. Discount_get x \<le> Discount_get y) ds ds'"
    "Corrector_get c \<le> Corrector_get c'"
  shows "Cost_ln (fst (compose lg t bs ds c ev)) \<le> Cost_ln (fst (compose lg t' bs' ds' c' ev'))"
proof -
  have len: "length bs' = length bs" "length ds' = length ds"
    using assms(11,12) by (simp_all add: list_all2_lengthD)
  note u = compose_uniform [OF assms(1-4)] compose_uniform [OF assms(5-8)]
  have pt: "pos_ok (TimeCore_get t)" "pos_ok (TimeCore_get t')"
    "pos_ok (Corrector_get c)" "pos_ok (Corrector_get c')"
    using assms by (auto intro: wf_pos_ok wf_corrector_pos_ok)
  have mono: "lg x \<le> lg y" if "pos_ok x" "pos_ok y" "x \<le> y" for x y
    using that ln_mono by (cases x; cases y) (auto simp: pos_ok_def)
  have lb: "list_all2 (\<lambda>x y. pos_ok (BarrierFactor_get x) \<and> pos_ok (BarrierFactor_get y)
      \<and> BarrierFactor_get x \<le> BarrierFactor_get y) bs bs'"
    using assms(2,6,11) by (auto simp: list_all2_conv_all_nth intro: wf_pos_ok)
  have ld: "list_all2 (\<lambda>x y. pos_ok (Discount_get x) \<and> pos_ok (Discount_get y)
      \<and> Discount_get x \<le> Discount_get y) ds ds'"
    using assms(3,7,12) by (auto simp: list_all2_conv_all_nth intro: wf_pos_ok)
  have b: "add_lns lg BarrierFactor_get (lg (TimeCore_get t)) bs
      \<le> add_lns lg BarrierFactor_get (lg (TimeCore_get t')) bs'"
    using lb assms(9,10) pt by (intro add_lns_mono [where k = 1] ln_pos_ok mono) auto
  have w: "ln_within (1 + length bs) (add_lns lg BarrierFactor_get (lg (TimeCore_get t)) bs)"
    using assms(2,9) pt by (intro add_lns_at_most ln_pos_ok ballI) (auto intro: wf_pos_ok)
  have "ln_within (1 + length bs') (add_lns lg BarrierFactor_get (lg (TimeCore_get t')) bs')"
    using assms(6,9) pt len by (intro add_lns_at_most ln_pos_ok ballI) (auto intro: wf_pos_ok)
  then have d: "add_lns lg Discount_get (add_lns lg BarrierFactor_get (lg (TimeCore_get t)) bs) ds
      \<le> add_lns lg Discount_get (add_lns lg BarrierFactor_get (lg (TimeCore_get t')) bs') ds'"
    using ld b w assms(9) len by (intro add_lns_mono [OF ld, where k = "1 + length bs"]) auto
  show ?thesis
    using u assms(9) len d mono [OF pt(3,4) assms(13)]
    by (simp add: ln_within_def) (intro plus_f64_mono; force)
qed

end

lemma wf_service_barriers:
  assumes "\<forall>b\<in>set extras. wf_barrier b"
  shows "\<forall>b\<in>set (service_barriers n extras). wf_barrier b"
    "length (service_barriers n extras) \<le> MAX_SERVICE_BARRIERS"
proof -
  have "wf_barrier (BarrierFactor f64_MAX)"
    using f64_max_real_facts(3) by (simp add: wf_barrier_def f64_MAX_def)
  moreover have "wf_barrier (fst (BarrierFactor_clamped (1 + f64_of_nat n) 0))"
    by (intro wf_BarrierFactor_clamped ok_plus)
  ultimately show "\<forall>b\<in>set (service_barriers n extras). wf_barrier b"
    using assms by (auto simp: service_barriers_def Let_def dest: in_set_takeD)
  show "length (service_barriers n extras) \<le> MAX_SERVICE_BARRIERS"
    by (simp add: service_barriers_def Let_def MAX_SERVICE_BARRIERS_def)
qed

lemma wf_barrier_le_MAX: "wf_barrier b \<Longrightarrow> BarrierFactor_get b \<le> f64_MAX"
  by (cases "BarrierFactor_get b") (auto simp: wf_barrier_def intro: ok_le_MAX)

lemma wf_core_le_MAX: "wf_core t \<Longrightarrow> TimeCore_get t \<le> f64_MAX"
  by (cases "TimeCore_get t") (auto simp: wf_core_def intro: ok_le_MAX)

text \<open>The queue barrier grows with the number of requests in flight.\<close>

lemma queue_barrier_mono:
  assumes "m \<le> n"
  shows "BarrierFactor_get (fst (BarrierFactor_clamped (1 + f64_of_nat m) 0))
    \<le> BarrierFactor_get (fst (BarrierFactor_clamped (1 + f64_of_nat n) 0))"
proof -
  have "1 + f64_of_nat m \<le> 1 + f64_of_nat n"
    using f64_of_nat_mono [OF assms] by (intro plus_f64_mono) (auto simp: Fin_plus_not_NaN)
  moreover have ge1: "Fin 1 \<le> Fin 1 + f64_of_nat k" for k
    using f64_of_nat_mono [of 0 k] by (intro plus_nonneg_ge) (simp_all add: f64_of_nat_exact)
  moreover have "f64_ok (Fin 1 + f64_of_nat m)" by simp
  then have "is_finite (Fin 1 + f64_of_nat m) \<Longrightarrow> Fin 1 + f64_of_nat m \<le> f64_MAX"
    by (rule ok_le_MAX)
  ultimately show ?thesis
    using ge1 [of m] ge1 [of n]
    by (cases "Fin 1 + f64_of_nat m" rule: f64_cases4; cases "Fin 1 + f64_of_nat n" rule: f64_cases4)
       (auto simp: BarrierFactor_clamped_def)
qed

lemma list_all2_barrier_refl: "list_all2 (\<lambda>x y. BarrierFactor_get x \<le> BarrierFactor_get y) bs bs"
  by (simp add: list_all2_conv_all_nth)

lemma list_all2_discount_refl: "list_all2 (\<lambda>x y. Discount_get x \<le> Discount_get y) ds ds"
  by (simp add: list_all2_conv_all_nth)

lemma service_barriers_mono:
  "m \<le> n \<Longrightarrow> list_all2 (\<lambda>x y. BarrierFactor_get x \<le> BarrierFactor_get y)
     (service_barriers m extras) (service_barriers n extras)"
  using queue_barrier_mono [of m n] by (simp add: service_barriers_def Let_def list_all2_barrier_refl)

text \<open>
  One more barrier either extends the composed list, or replaces its last element by a
  maximal one, or changes nothing.
\<close>

lemma service_barriers_snoc:
  "length extras + 1 < MAX_SERVICE_BARRIERS \<Longrightarrow>
     service_barriers n (extras @ [b]) = service_barriers n extras @ [b]"
  "MAX_SERVICE_BARRIERS \<le> length extras \<Longrightarrow> service_barriers n (extras @ [b]) = service_barriers n extras"
  by (auto simp: service_barriers_def Let_def MAX_SERVICE_BARRIERS_def)

lemma service_barriers_snoc_full:
  assumes "length extras + 1 = MAX_SERVICE_BARRIERS" "\<forall>b\<in>set extras. wf_barrier b"
  shows "list_all2 (\<lambda>x y. BarrierFactor_get x \<le> BarrierFactor_get y)
    (service_barriers n extras) (service_barriers n (extras @ [b]))"
proof -
  obtain es e where e: "extras = es @ [e]" "length es = 14"
    using assms(1) by (cases extras rule: rev_cases) (auto simp: MAX_SERVICE_BARRIERS_def)
  then show ?thesis using assms(2) wf_barrier_le_MAX [of e]
    by (simp add: service_barriers_def Let_def MAX_SERVICE_BARRIERS_def list_all2_appendI list_all2_barrier_refl)
qed

context libm_ln
begin

lemma compose_snoc_barrier:
  assumes "wf_core t" "\<forall>x\<in>set bs. wf_barrier x" "wf_barrier b" "\<forall>d\<in>set ds. wf_discount d" "wf_corrector c"
    "length bs + length ds + 1 \<le> 2 ^ 40"
  shows "Cost_ln (fst (compose lg t bs ds c ev)) \<le> Cost_ln (fst (compose lg t (bs @ [b]) ds c ev'))"
proof -
  let ?l = "add_lns lg BarrierFactor_get (lg (TimeCore_get t)) bs"
  let ?m = "?l + lg (BarrierFactor_get b)"
  note u = compose_uniform [OF assms(1,2,4,5)] compose_uniform [OF assms(1) _ assms(4,5), of "bs @ [b]"]
  have l: "ln_within (1 + length bs) ?l" and m: "ln_within (2 + length bs) ?m"
    using assms compose_uniform(2)
    by (auto intro!: add_lns_at_most [where k = 1, simplified] ln_within_plus
          [where m = "1 + length bs" and n = 1, simplified] ln_pos_ok [simplified] wf_pos_ok)
  have "?l \<le> ?m"
    using l m assms(3) ln_ge_0
    by (intro plus_nonneg_ge) (auto simp: ln_within_def wf_barrier_def elim!: is_finite.elims)
  moreover have "list_all2 (\<lambda>x y. pos_ok (Discount_get x) \<and> pos_ok (Discount_get y)
      \<and> Discount_get x \<le> Discount_get y) ds ds"
    using assms(4) by (auto simp: list_all2_conv_all_nth intro: wf_pos_ok)
  moreover have "ln_within (2 + length bs) ?l" using l by (auto simp: ln_within_def)
  ultimately have "add_lns lg Discount_get ?l ds \<le> add_lns lg Discount_get ?m ds"
    using m assms(6) by (intro add_lns_mono [where k = "2 + length bs"]) auto
  then show ?thesis using u assms(2,3,6)
    by (simp add: ln_within_def add_lns_def) (intro plus_f64_mono; force)
qed

end

section \<open>Warmth bounds\<close>

lemma WARMTH_bounds:
  obtains w where "WARMTH_MAX_DISCOUNT = Fin w" "1 / 2 \<le> w" "w \<le> 7 / 8" "repr64 w"
proof -
  have "repr64 (1 / 2)" "repr64 (7 / 8)" using repr64_dyadic [of 1 1] repr64_dyadic [of 7 3] by auto
  then show thesis
    using that by (auto simp: WARMTH_MAX_DISCOUNT_def intro: mk64_between [of "1 / 2" "85 / 100" "7 / 8"])
qed

lemma warmth_discount_value:
  assumes w: "WARMTH_MAX_DISCOUNT = Fin w" "1 / 2 \<le> w" "w \<le> 7 / 8" "repr64 w" and x: "0 < x"
  obtains y where "warmth_discount (Fin x) ev = (Some (Discount (Fin y)), ev)"
    "y = rnd (1 - rnd (min x 1 * w))" "1 / 8 \<le> y" "y \<le> 1" "rnd (1 - w) \<le> y" "f64_ok (Fin y)"
proof -
  let ?c = "min x 1"
  have c: "fclamp (Fin x) (Fin 0) (Fin 1) = Fin ?c" using x by (auto simp: fclamp_def min_def)
  have "repr64 0" using ok_FinD(1) [of 0] by simp
  then obtain p where p: "mk64 (?c * w) = Fin p" "p = rnd (?c * w)" "0 \<le> p" "p \<le> w"
    using w x by (auto intro: mk64_between [of 0 "?c * w" w] simp: mult_left_le_one_le)
  have "repr64 1" "repr64 (1 / 8)" using ok_FinD(1) [of 1] repr64_dyadic [of 1 3] by auto
  then obtain y where y: "mk64 (1 - p) = Fin y" "y = rnd (1 - p)" "1 / 8 \<le> y" "y \<le> 1" "f64_ok (Fin y)"
    using p w by (auto intro: mk64_between [of "1 / 8" "1 - p" 1])
  moreover have "rnd (1 - w) \<le> y" using p(4) by (simp add: y(2) rnd_mono)
  moreover have "1 - fclamp (Fin x) 0 1 * WARMTH_MAX_DISCOUNT = Fin y"
    using p(1) y(1) by (simp add: c w(1) minus_f64_def)
  then have "warmth_discount (Fin x) ev = (Some (Discount (Fin y)), ev)"
    using x y(3,4) by (simp add: warmth_discount_def Discount_clamped_def del: one_f64_def zero_f64_def)
       (simp)
  ultimately show thesis using that p(2) by simp
qed

section \<open>Properties\<close>

text \<open>C8: composition never saturates: for validated factors (up to \<open>2^40\<close> of them) the log-cost
  is finite and representable, bounded by 1074 per factor, and no clamp event is recorded.\<close>

theorem compose_finite:
  assumes "libm_ln lg" "wf_core t" "\<forall>b\<in>set bs. wf_barrier b" "\<forall>d\<in>set ds. wf_discount d" "wf_corrector c"
    "length bs + length ds \<le> 2 ^ 40"
  shows "\<exists>r. compose lg t bs ds c ev = (\<lparr>Cost_ln = Fin r\<rparr>, ev)
    \<and> f64_ok (Fin r) \<and> \<bar>r\<bar> \<le> 1074 * real (2 + length bs + length ds)"
  using libm_ln.compose_uniform [OF assms] by (auto simp del: ok_plus simp: ln_within_def algebra_simps)

theorem compose_finite_witness:
  "\<exists>r. compose cr_ln (TimeCore (Fin 1)) [BarrierFactor (Fin 1)] [Discount (Fin 1)] Corrector_identity 7
        = (\<lparr>Cost_ln = Fin r\<rparr>, 7)
    \<and> f64_ok (Fin r) \<and> \<bar>r\<bar> \<le> 1074 * real (2 + 1 + 1)"
  using compose_finite [OF cr.libm_ln_axioms _ _ _ wf_Corrector_identity,
      of "TimeCore (Fin 1)" "[BarrierFactor (Fin 1)]" "[Discount (Fin 1)]" 7]
  by (simp add: wf_core_def wf_barrier_def wf_discount_def)

text \<open>Routing order is fail-expensive: the service cost grows with the core time and with
  the queue depth, and a core that is not finite and positive costs at least as much as any
  admissible core.\<close>

theorem service_cost_mono:
  assumes "libm_ln lg" "f64_ok s" "f64_ok s'" "\<forall>b\<in>set extras. wf_barrier b" "\<forall>d\<in>set ds. wf_discount d"
    "length ds \<le> 2 ^ 39" "m \<le> n"
    "(is_finite s \<and> flt 0 s \<and> fle s s') \<or> \<not> (is_finite s' \<and> flt 0 s')"
  shows "Cost_ln (fst (service_cost lg s m extras ds ev)) \<le> Cost_ln (fst (service_cost lg s' n extras ds ev'))"
proof -
  obtain e1 e2 where e: "service_cost lg s m extras ds ev =
      compose lg (fst (TimeCore_clamped s 0)) (service_barriers m extras) ds Corrector_identity e1"
    "service_cost lg s' n extras ds ev' =
      compose lg (fst (TimeCore_clamped s' 0)) (service_barriers n extras) ds Corrector_identity e2"
    using service_cost_compose by blast
  have "TimeCore_get (fst (TimeCore_clamped s 0)) \<le> TimeCore_get (fst (TimeCore_clamped s' 0))"
    using assms(8) wf_core_le_MAX [OF wf_TimeCore_clamped [OF assms(2), of 0]]
    by (auto simp: TimeCore_clamped_def fle_def flt_def)
  moreover have "length (service_barriers m extras) + length ds \<le> 2 ^ 40"
    using wf_service_barriers(2) [OF assms(4), of m] assms(6) by (simp add: MAX_SERVICE_BARRIERS_def)
  ultimately show ?thesis unfolding e
    by (intro libm_ln.compose_mono [OF assms(1) wf_TimeCore_clamped [OF assms(2)]
            wf_service_barriers(1) [OF assms(4)] assms(5) wf_Corrector_identity
            wf_TimeCore_clamped [OF assms(3)] wf_service_barriers(1) [OF assms(4)] assms(5) wf_Corrector_identity]
          service_barriers_mono [OF assms(7)] list_all2_discount_refl order_refl)
qed

theorem service_cost_mono_witness:
  "Cost_ln (fst (service_cost cr_ln (Fin 1) 2 [] [] 0)) \<le> Cost_ln (fst (service_cost cr_ln NaN 3 [] [] 0))"
  using service_cost_mono [OF cr.libm_ln_axioms, of "Fin 1" NaN "[]" "[]" 2 3 0 0] by simp

text \<open>An extra barrier never makes a candidate cheaper, also when the barrier buffer
  overflows and its last slot becomes the maximal barrier.\<close>

theorem service_cost_extra_barrier:
  assumes "libm_ln lg" "f64_ok s" "\<forall>b\<in>set extras. wf_barrier b" "wf_barrier b" "\<forall>d\<in>set ds. wf_discount d"
    "length ds \<le> 2 ^ 39"
  shows "Cost_ln (fst (service_cost lg s n extras ds ev)) \<le> Cost_ln (fst (service_cost lg s n (extras @ [b]) ds ev'))"
proof -
  let ?t = "fst (TimeCore_clamped s 0)"
  obtain e1 e2 where e: "service_cost lg s n extras ds ev =
      compose lg ?t (service_barriers n extras) ds Corrector_identity e1"
    "service_cost lg s n (extras @ [b]) ds ev' =
      compose lg ?t (service_barriers n (extras @ [b])) ds Corrector_identity e2"
    using service_cost_compose by blast
  note wf = wf_TimeCore_clamped [OF assms(2)] wf_service_barriers [OF assms(3), of n]
    wf_service_barriers [of "extras @ [b]" n] wf_Corrector_identity
  have len: "length (service_barriers n extras) + length ds + 1 \<le> 2 ^ 40"
    using wf(3) assms(6) by (simp add: MAX_SERVICE_BARRIERS_def)
  consider "length extras + 1 < MAX_SERVICE_BARRIERS" | "length extras + 1 = MAX_SERVICE_BARRIERS"
    | "MAX_SERVICE_BARRIERS \<le> length extras" by linarith
  then show ?thesis
  proof cases
    case 1
    show ?thesis unfolding e service_barriers_snoc(1) [OF 1]
      using len by (rule libm_ln.compose_snoc_barrier [OF assms(1) wf(1,2) assms(4,5) wf(6)])
  next
    case 2
    show ?thesis unfolding e
      using wf(4) assms(3,4) len
      by (intro libm_ln.compose_mono [OF assms(1) wf(1,2) assms(5) wf(6) wf(1) _ assms(5) wf(6)]
            service_barriers_snoc_full [OF 2 assms(3)] list_all2_discount_refl order_refl) simp_all
  next
    case 3
    show ?thesis unfolding e service_barriers_snoc(2) [OF 3]
      using len
      by (intro libm_ln.compose_mono [OF assms(1) wf(1,2) assms(5) wf(6) wf(1,2) assms(5) wf(6)]
            list_all2_barrier_refl list_all2_discount_refl order_refl) simp
  qed
qed

theorem service_cost_extra_barrier_witness:
  "Cost_ln (fst (service_cost cr_ln (Fin 1) 2 (replicate 15 (BarrierFactor (Fin 1))) [] 0))
    \<le> Cost_ln (fst (service_cost cr_ln (Fin 1) 2 (replicate 15 (BarrierFactor (Fin 1)) @ [BarrierFactor (Fin 1)]) [] 0))"
  using service_cost_extra_barrier [OF cr.libm_ln_axioms, of "Fin 1" "replicate 15 (BarrierFactor (Fin 1))"
      "BarrierFactor (Fin 1)" "[]" 2 0 0]
  by (simp add: wf_barrier_def)

text \<open>C9: a learned corrector has bounded authority: whatever the model outputs, NaN and
  infinities included, the corrected cost stays between the costs at the ends of the
  \<open>[1 - ALPHA, 1 + ALPHA]\<close> envelope, and a non-finite output is the identity.\<close>

theorem corrector_bounded_authority:
  assumes "libm_ln lg" "wf_core t" "\<forall>b\<in>set bs. wf_barrier b" "\<forall>d\<in>set ds. wf_discount d"
    "length bs + length ds \<le> 2 ^ 40" "f64_ok delta"
  shows "Cost_ln (fst (compose lg t bs ds (Corrector (1 - ALPHA)) 0))
        \<le> Cost_ln (fst (compose lg t bs ds (fst (Corrector_new delta ev)) ev'))
    \<and> Cost_ln (fst (compose lg t bs ds (fst (Corrector_new delta ev)) ev'))
        \<le> Cost_ln (fst (compose lg t bs ds (Corrector (1 + ALPHA)) 0))
    \<and> (\<not> is_finite delta \<longrightarrow> Corrector_new delta ev = (Corrector_identity, bump_clamp ev))"
proof -
  have lh: "wf_corrector (Corrector (1 - ALPHA))" "wf_corrector (Corrector (1 + ALPHA))"
    by (rule envelope_bounds; auto simp: wf_corrector_def)+
  have wf: "wf_corrector (fst (Corrector_new delta ev))" by (rule wf_Corrector_new [OF assms(6)])
  then have "1 - ALPHA \<le> Corrector_get (fst (Corrector_new delta ev))"
    "Corrector_get (fst (Corrector_new delta ev)) \<le> 1 + ALPHA"
    by (auto simp: wf_corrector_def fle_def)
  then show ?thesis
    using libm_ln.compose_mono [OF assms(1-4) lh(1) assms(2-4) wf assms(5)]
      libm_ln.compose_mono [OF assms(1-4) wf assms(2-4) lh(2) assms(5)]
    by (simp add: list_all2_barrier_refl list_all2_discount_refl Corrector_new_def Corrector_identity_def)
qed

theorem corrector_bounded_authority_witness:
  "Cost_ln (fst (compose cr_ln (TimeCore 1) [] [] (Corrector (1 - ALPHA)) 0))
     \<le> Cost_ln (fst (compose cr_ln (TimeCore 1) [] [] (fst (Corrector_new NaN 0)) 0))"
  using corrector_bounded_authority [OF cr.libm_ln_axioms, of "TimeCore 1" "[]" "[]" NaN 0 0]
  by (simp only: list.set ball_empty list.size wf_core_def) auto

text \<open>The warmth discount: no discount without finite positive strength; otherwise a valid
  discount, never below \<open>1 - WARMTH_MAX_DISCOUNT\<close>, that only deepens as the strength grows, and
  whose clamp never fires.\<close>

theorem warmth_discount_spec:
  assumes "is_finite s" "is_finite s'" "fle s s'"
  shows "(fst (warmth_discount s ev) = None \<longleftrightarrow> fle s 0)
    \<and> (flt 0 s \<longrightarrow> (\<exists>d d'. warmth_discount s ev = (Some d, ev) \<and> warmth_discount s' ev' = (Some d', ev')
         \<and> wf_discount d \<and> wf_discount d' \<and> fle (1 - WARMTH_MAX_DISCOUNT) (Discount_get d')
         \<and> fle (Discount_get d') (Discount_get d)))"
proof (rule WARMTH_bounds)
  fix w
  assume w: "WARMTH_MAX_DISCOUNT = Fin w" "1 / 2 \<le> w" "w \<le> 7 / 8" "repr64 w"
  obtain x x' where x: "s = Fin x" "s' = Fin x'" "x \<le> x'" using assms by (cases s; cases s') auto
  have min: "rnd (min x 1 * w) \<le> rnd (min x' 1 * w)"
    using w x(3) by (intro rnd_mono mult_right_mono) auto
  have lo: "Fin 1 - WARMTH_MAX_DISCOUNT = Fin (rnd (1 - w))"
  proof -
    have "repr64 (1 / 8)" "repr64 (1 / 2)" using repr64_dyadic [of 1 3] repr64_dyadic [of 1 1] by auto
    then have "mk64 (1 - w) = Fin (rnd (1 - w))"
      using w(2,3) by (elim mk64_between [of "1 / 8" "1 - w" "1 / 2", rotated 2]) simp_all
    then show ?thesis by (simp add: w(1) minus_f64_def)
  qed
  show ?thesis
  proof (cases "0 < x")
    case True
    obtain y where y: "warmth_discount (Fin x) ev = (Some (Discount (Fin y)), ev)"
      "y = rnd (1 - rnd (min x 1 * w))" "1 / 8 \<le> y" "y \<le> 1" "rnd (1 - w) \<le> y" "f64_ok (Fin y)"
      by (rule warmth_discount_value [OF w True])
    obtain y' where y': "warmth_discount (Fin x') ev' = (Some (Discount (Fin y')), ev')"
      "y' = rnd (1 - rnd (min x' 1 * w))" "1 / 8 \<le> y'" "y' \<le> 1" "rnd (1 - w) \<le> y'" "f64_ok (Fin y')"
      by (rule warmth_discount_value [OF w order_less_le_trans [OF True x(3)]])
    have "y' \<le> y" unfolding y(2) y'(2) using min by (intro rnd_mono) simp
    then show ?thesis
      using y y' x True by (simp add: wf_discount_def lo)
  next
    case False
    then show ?thesis using x by (simp add: warmth_discount_def)
  qed
qed

theorem warmth_discount_spec_witness:
  "\<exists>d. warmth_discount (Fin (1 / 2)) 0 = (Some d, 0) \<and> wf_discount d"
  using warmth_discount_spec [of "Fin (1 / 2)" "Fin 1" 0 0] by auto

end
