(* ===== verification/Auth.thy ===== *)
theory Auth
  imports Prelude
begin

text \<open>
  Shared-prefix cache authorization (\<open>crates/demiurge-auth/src/lib.rs\<close>, \<open>secret.rs\<close>): tenants,
  groups, cache-domain keys, the group registry and the keyed hash behind salts and
  fingerprints.

  BLAKE3 is not part of the repository: its key derivation and keyed digest are the record
  \<open>blake3\<close>, an argument of the definitions that hash.  The two \<open>OnceLock\<close> statics are the record
  \<open>auth_statics\<close>; \<open>env\<close> is the reading of the environment variable \<open>DEMIURGE_AUTH_SECRET\<close>.
\<close>

section \<open>Bytes\<close>

text \<open>\<open>u64::to_le_bytes\<close> and \<open>u64::from_le_bytes\<close>.\<close>

definition to_le_bytes :: "u64 \<Rightarrow> u8 list" where
  "to_le_bytes w = map (\<lambda>i. ucast (drop_bit (8 * i) w)) [0..<8]"

definition from_le_bytes :: "u8 list \<Rightarrow> u64" where
  "from_le_bytes bs = foldr (\<lambda>b acc. ucast b + 256 * acc) bs 0"

section \<open>Secret and keyed hash\<close>

record blake3 =
  derive_key :: "string \<Rightarrow> u8 list \<Rightarrow> u8 list"
  keyed_digest :: "u8 list \<Rightarrow> u8 list \<Rightarrow> u8 list"

record auth_statics =
  AUTH_SECRET :: "u8 list option"
  AUTH_KEY :: "u8 list option"

definition AUTH_KEY_CONTEXT :: string where
  "AUTH_KEY_CONTEXT = ''demiurge auth 2026-07-17 keyed salt/fp v1''"

definition bytes_of :: "string \<Rightarrow> u8 list" where
  "bytes_of s = map (\<lambda>c. of_nat (of_char c)) s"

definition dev_secret :: "u8 list" where
  "dev_secret = bytes_of ''demiurge-unkeyed-dev-only''"

definition configure_auth_secret :: "u8 list \<Rightarrow> auth_statics \<Rightarrow> auth_statics" where
  "configure_auth_secret secret st =
     (case AUTH_SECRET st of Some _ \<Rightarrow> st | None \<Rightarrow> st\<lparr>AUTH_SECRET := Some secret\<rparr>)"

definition configure_auth_secret_from_env :: "u8 list option \<Rightarrow> auth_statics \<Rightarrow> auth_statics" where
  "configure_auth_secret_from_env env st =
     (case env of Some secret \<Rightarrow> if secret \<noteq> [] then configure_auth_secret secret st else st
      | None \<Rightarrow> st)"

definition auth_secret :: "u8 list option \<Rightarrow> auth_statics \<Rightarrow> u8 list \<times> auth_statics" where
  "auth_secret env st =
     (case AUTH_SECRET st of Some s \<Rightarrow> (s, st)
      | None \<Rightarrow> let s = (case env of Some s \<Rightarrow> if s \<noteq> [] then s else dev_secret | None \<Rightarrow> dev_secret)
                in (s, st\<lparr>AUTH_SECRET := Some s\<rparr>))"

definition auth_key :: "blake3 \<Rightarrow> u8 list option \<Rightarrow> auth_statics \<Rightarrow> u8 list \<times> auth_statics" where
  "auth_key b3 env st =
     (case AUTH_KEY st of Some k \<Rightarrow> (k, st)
      | None \<Rightarrow> let (s, st) = auth_secret env st; k = derive_key b3 AUTH_KEY_CONTEXT s
                in (k, st\<lparr>AUTH_KEY := Some k\<rparr>))"

definition hash_message :: "u8 list \<Rightarrow> u8 list \<Rightarrow> u8 list" where
  "hash_message domain data = domain @ [0] @ data"

definition keyed_hash ::
  "blake3 \<Rightarrow> u8 list option \<Rightarrow> u8 list \<Rightarrow> u8 list \<Rightarrow> auth_statics \<Rightarrow> u64 \<times> auth_statics" where
  "keyed_hash b3 env domain data st =
     (let (k, st) = auth_key b3 env st
      in (from_le_bytes (take 8 (keyed_digest b3 k (hash_message domain data))), st))"

section \<open>Keys and the group registry\<close>

datatype TenantId = TenantId (tenant_raw: u64)
datatype GroupId = GroupId (group_raw: u64)
datatype PrefixFingerprint = PrefixFingerprint (fingerprint_raw: u64)

definition PrefixFingerprint_of ::
  "blake3 \<Rightarrow> u8 list option \<Rightarrow> u8 list \<Rightarrow> auth_statics \<Rightarrow> PrefixFingerprint \<times> auth_statics" where
  "PrefixFingerprint_of b3 env bytes st =
     (let (h, st) = keyed_hash b3 env (bytes_of ''prefix-fp'') bytes st in (PrefixFingerprint h, st))"

record CacheDomainKey =
  owner :: u64
  domain :: u64
  shared :: bool

definition salt_payload :: "CacheDomainKey \<Rightarrow> u8 list" where
  "salt_payload k = to_le_bytes (owner k) @ to_le_bytes (domain k) @ [if shared k then 1 else 0]"

definition salt ::
  "blake3 \<Rightarrow> u8 list option \<Rightarrow> CacheDomainKey \<Rightarrow> auth_statics \<Rightarrow> u64 \<times> auth_statics" where
  "salt b3 env k st = keyed_hash b3 env (bytes_of ''cache-domain-salt'') (salt_payload k) st"

definition private_domain_key :: "TenantId \<Rightarrow> u64 \<Rightarrow> CacheDomainKey" where
  "private_domain_key tenant d = \<lparr>owner = tenant_raw tenant, domain = d, shared = False\<rparr>"

record GroupEntry =
  members :: "TenantId set"
  template :: PrefixFingerprint
  entry_domain :: u64

record SharedPrefixGroupRegistry =
  groups :: "(GroupId \<times> GroupEntry) list"

definition SharedPrefixGroupRegistry_new :: SharedPrefixGroupRegistry where
  "SharedPrefixGroupRegistry_new = \<lparr>groups = []\<rparr>"

definition register_template ::
  "GroupId \<Rightarrow> TenantId list \<Rightarrow> PrefixFingerprint \<Rightarrow> u64 \<Rightarrow> SharedPrefixGroupRegistry \<Rightarrow> SharedPrefixGroupRegistry" where
  "register_template grp ms tmpl d reg =
     reg\<lparr>groups := AList.update grp \<lparr>members = set ms, template = tmpl, entry_domain = d\<rparr> (groups reg)\<rparr>"

definition is_member :: "SharedPrefixGroupRegistry \<Rightarrow> GroupId \<Rightarrow> TenantId \<Rightarrow> bool" where
  "is_member reg grp tenant =
     (case map_of (groups reg) grp of Some g \<Rightarrow> tenant \<in> members g | None \<Rightarrow> False)"

definition matches_template :: "SharedPrefixGroupRegistry \<Rightarrow> GroupId \<Rightarrow> PrefixFingerprint \<Rightarrow> bool" where
  "matches_template reg grp fp =
     (case map_of (groups reg) grp of Some g \<Rightarrow> template g = fp | None \<Rightarrow> False)"

definition resolve_shared_key ::
  "SharedPrefixGroupRegistry \<Rightarrow> TenantId \<Rightarrow> GroupId \<Rightarrow> PrefixFingerprint \<Rightarrow> CacheDomainKey option" where
  "resolve_shared_key reg requester grp content_fp =
     do { entry \<leftarrow> map_of (groups reg) grp;
          if requester \<notin> members entry then None
          else if template entry \<noteq> content_fp then None
          else Some \<lparr>owner = group_raw grp, domain = entry_domain entry, shared = True\<rparr> }"

definition resolve_domain_key ::
  "SharedPrefixGroupRegistry \<Rightarrow> TenantId \<Rightarrow> GroupId \<Rightarrow> PrefixFingerprint \<Rightarrow> CacheDomainKey" where
  "resolve_domain_key reg requester grp content_fp =
     (case resolve_shared_key reg requester grp content_fp of
        Some k \<Rightarrow> k | None \<Rightarrow> private_domain_key requester 0)"

section \<open>Lemmas\<close>

lemma length_to_le_bytes [simp]: "length (to_le_bytes w) = 8"
  by (simp add: to_le_bytes_def)

lemma to_le_bytes_inj: "to_le_bytes v = to_le_bytes w \<Longrightarrow> v = w"
proof (rule bit_word_eqI)
  fix n
  assume eq: "to_le_bytes v = to_le_bytes w" and n: "n < LENGTH(64)"
  let ?i = "n div 8"
  have i: "?i < 8" using n by simp
  have "(ucast (drop_bit (8 * ?i) v) :: u8) = ucast (drop_bit (8 * ?i) w)"
    using arg_cong [OF eq, of "\<lambda>l. l ! ?i"] i by (simp add: to_le_bytes_def)
  then have "bit (ucast (drop_bit (8 * ?i) v) :: u8) (n mod 8) = bit (ucast (drop_bit (8 * ?i) w) :: u8) (n mod 8)"
    by simp
  then show "bit v n \<longleftrightarrow> bit w n" by (simp add: bit_ucast_iff bit_drop_bit_eq)
qed

lemma salt_payload_inj: "salt_payload k = salt_payload k' \<Longrightarrow> k = k'"
  by (auto simp: salt_payload_def dest!: to_le_bytes_inj intro!: CacheDomainKey.equality split: if_splits)

lemma keyed_hash_set:
  "AUTH_KEY st = Some k \<Longrightarrow>
   keyed_hash b3 env d m st = (from_le_bytes (take 8 (keyed_digest b3 k (hash_message d m))), st)"
  by (simp add: keyed_hash_def auth_key_def)

section \<open>Sequences of calls\<close>

text \<open>The calls that touch the statics, in the order the process makes them.\<close>

datatype auth_call =
  Configure "u8 list"
| ConfigureFromEnv "u8 list option"
| Hash "u8 list option" "u8 list" "u8 list"

fun auth_step :: "blake3 \<Rightarrow> auth_call \<Rightarrow> auth_statics \<Rightarrow> auth_statics" where
  "auth_step b3 (Configure s) st = configure_auth_secret s st"
| "auth_step b3 (ConfigureFromEnv env) st = configure_auth_secret_from_env env st"
| "auth_step b3 (Hash env d m) st = snd (keyed_hash b3 env d m st)"

lemma auth_step_keeps_key: "AUTH_KEY st = Some k \<Longrightarrow> AUTH_KEY (auth_step b3 c st) = Some k"
  by (cases c) (auto simp: configure_auth_secret_from_env_def configure_auth_secret_def keyed_hash_set split: option.splits)

lemma auth_run_keeps_key: "AUTH_KEY st = Some k \<Longrightarrow> AUTH_KEY (fold (auth_step b3) cs st) = Some k"
  by (induction cs arbitrary: st) (simp_all add: auth_step_keeps_key)

type_synonym registration = "GroupId \<times> TenantId list \<times> PrefixFingerprint \<times> u64"

definition run_registrations :: "registration list \<Rightarrow> SharedPrefixGroupRegistry" where
  "run_registrations rs = fold (\<lambda>(g, ms, t, d). register_template g ms t d) rs SharedPrefixGroupRegistry_new"

text \<open>What the registry answers for a group: the latest registration, if any.\<close>

definition latest_registration :: "registration list \<Rightarrow> GroupId \<Rightarrow> registration option" where
  "latest_registration rs g = find (\<lambda>r. fst r = g) (rev rs)"

lemma registry_latest:
  "map_of (groups (run_registrations rs)) g =
     map_option (\<lambda>(_, ms, t, d). \<lparr>members = set ms, template = t, entry_domain = d\<rparr>) (latest_registration rs g)"
proof (induction rs rule: rev_induct)
  case Nil
  show ?case by (simp add: run_registrations_def latest_registration_def SharedPrefixGroupRegistry_new_def)
next
  case (snoc r rs)
  then show ?case
    by (cases r) (auto simp: run_registrations_def latest_registration_def register_template_def update_conv')
qed

section \<open>Properties\<close>

text \<open>C11: cache-domain authorization: after any sequence of registrations, a request resolves to
  the shared domain of its group exactly when the latest registration of the group lists the
  tenant and its template matches; in every other case it resolves to the tenant's own private
  domain.\<close>

theorem resolve_domain_key_latest:
  "resolve_domain_key (run_registrations rs) requester g fp =
     (case latest_registration rs g of
        Some (_, ms, t, d) \<Rightarrow>
          if requester \<in> set ms \<and> t = fp then \<lparr>owner = group_raw g, domain = d, shared = True\<rparr>
          else private_domain_key requester 0
      | None \<Rightarrow> private_domain_key requester 0)"
  by (auto simp: resolve_domain_key_def resolve_shared_key_def registry_latest split: option.splits)

text \<open>Salts are domain separated: two different cache-domain keys never present the same
  message to the keyed hash, and no salt message is also a prefix-fingerprint message, so equal
  salts can only come from a collision of the hash itself.\<close>

theorem salt_messages_separated:
  assumes "k \<noteq> k'"
  shows "hash_message (bytes_of ''cache-domain-salt'') (salt_payload k)
       \<noteq> hash_message (bytes_of ''cache-domain-salt'') (salt_payload k')
    \<and> hash_message (bytes_of ''cache-domain-salt'') (salt_payload k)
       \<noteq> hash_message (bytes_of ''prefix-fp'') bytes"
  using assms salt_payload_inj by (auto simp: hash_message_def bytes_of_def)

theorem salt_messages_separated_witness:
  "hash_message (bytes_of ''cache-domain-salt'') (salt_payload (private_domain_key (TenantId 1) 0))
     \<noteq> hash_message (bytes_of ''cache-domain-salt'') (salt_payload \<lparr>owner = 1, domain = 0, shared = True\<rparr>)"
  using salt_messages_separated [of "private_domain_key (TenantId 1) 0" "\<lparr>owner = 1, domain = 0, shared = True\<rparr>" "[]"]
  by (simp add: private_domain_key_def)

text \<open>Salts and fingerprints are stable for the life of the process: once a hash has been
  taken, no later configuration of the secret changes the value of any hash.\<close>

theorem keyed_hash_stable:
  assumes "keyed_hash b3 env d m st = (h, st1)"
  shows "fst (keyed_hash b3 env' d m (fold (auth_step b3) calls st1)) = h"
proof -
  obtain k where k: "AUTH_KEY st1 = Some k" "h = from_le_bytes (take 8 (keyed_digest b3 k (hash_message d m)))"
    using assms by (auto simp: keyed_hash_def auth_key_def Let_def split: option.splits prod.splits)
  then show ?thesis using keyed_hash_set [OF auth_run_keeps_key [OF k(1)]] by simp
qed

theorem keyed_hash_stable_witness:
  "fst (keyed_hash \<lparr>derive_key = \<lambda>_ s. s, keyed_digest = \<lambda>k m. k @ m\<rparr> (Some [7]) [1] [2]
     (fold (auth_step \<lparr>derive_key = \<lambda>_ s. s, keyed_digest = \<lambda>k m. k @ m\<rparr>) [Configure [9]]
       \<lparr>AUTH_SECRET = Some [5], AUTH_KEY = Some [5]\<rparr>)) = from_le_bytes [5, 1, 0, 2]"
  using keyed_hash_stable [of "\<lparr>derive_key = \<lambda>_ s. s, keyed_digest = \<lambda>k m. k @ m\<rparr>" None "[1]" "[2]"
      "\<lparr>AUTH_SECRET = Some [5], AUTH_KEY = None\<rparr>" "from_le_bytes [5, 1, 0, 2]"
      "\<lparr>AUTH_SECRET = Some [5], AUTH_KEY = Some [5]\<rparr>" "Some [7]" "[Configure [9]]"]
  by (simp add: keyed_hash_def auth_key_def auth_secret_def hash_message_def)

end
