(* ===== verification/StatePlane.thy ===== *)
theory StatePlane
  imports Auth Params
begin

text \<open>
  The state plane (\<open>crates/demiurge-state\<close>): block-granular warmth maps (\<open>warmth.rs\<close>), the
  published fleet snapshot (\<open>snapshot.rs\<close>) and its gossip merge (\<open>gossip.rs\<close>).

  \<open>hashing\<close> gathers what block salting depends on: BLAKE3, the installed key (stable once the
  first hash is taken, see \<open>keyed_hash_stable\<close>) and \<open>DefaultHasher\<close> on a pair, whose algorithm
  the standard library leaves unspecified.  The \<open>HashSet\<close> of a warmth map is a distinct list:
  its order is the iteration order.
\<close>

section \<open>Warmth maps\<close>

record hashing =
  b3 :: blake3
  installed_key :: "u8 list"
  default_hasher :: "u64 \<times> u64 \<Rightarrow> u64"

definition key_salt :: "hashing \<Rightarrow> CacheDomainKey \<Rightarrow> u64" where
  "key_salt h k = fst (salt (b3 h) None k \<lparr>AUTH_SECRET = None, AUTH_KEY = Some (installed_key h)\<rparr>)"

definition salt_block :: "hashing \<Rightarrow> u64 \<Rightarrow> u64 \<Rightarrow> u64" where
  "salt_block h block_id s = default_hasher h (block_id, s)"

definition salted_blocks :: "hashing \<Rightarrow> u64 list \<Rightarrow> CacheDomainKey \<Rightarrow> u64 list" where
  "salted_blocks h blocks key = (let s = key_salt h key in map (\<lambda>b. salt_block h b s) blocks)"

definition routing_blocks :: "u64 \<Rightarrow> u64 \<Rightarrow> u64 list" where
  "routing_blocks prompt_tokens block_tokens =
     (let block = max block_tokens 1; blocks = div_ceil prompt_tokens block
      in map (\<lambda>i. saturating_mul (of_nat i) block) [0..<unat blocks])"

definition default_routing_blocks :: "u64 \<Rightarrow> u64 list" where
  "default_routing_blocks prompt_tokens = routing_blocks prompt_tokens CACHE_BLOCK_TOKENS"

record WarmthMap =
  keys :: "u64 list"
  capacity :: nat

definition WarmthMap_with_capacity :: "nat \<Rightarrow> WarmthMap" where
  "WarmthMap_with_capacity c = \<lparr>keys = [], capacity = max c 1\<rparr>"

definition WarmthMap_default :: WarmthMap where
  "WarmthMap_default = WarmthMap_with_capacity 1024"

definition load_factor :: "WarmthMap \<Rightarrow> f64" where
  "load_factor m = f64_of_nat (length (keys m)) / f64_of_nat (capacity m)"

definition WarmthMap_insert :: "u64 \<Rightarrow> WarmthMap \<Rightarrow> bool \<times> WarmthMap" where
  "WarmthMap_insert block_id m =
     (if block_id \<in> set (keys m) then (True, m)
      else if fle CACHE_CUCKOO_MAX_LOADFACTOR (load_factor m) then (False, m)
      else (True, m\<lparr>keys := keys m @ [block_id]\<rparr>))"

definition WarmthMap_contains :: "WarmthMap \<Rightarrow> u64 \<Rightarrow> bool" where
  "WarmthMap_contains m block_id \<longleftrightarrow> block_id \<in> set (keys m)"

definition hit_strength :: "WarmthMap \<Rightarrow> u64 list \<Rightarrow> f64" where
  "hit_strength m blocks =
     (if blocks = [] then 0
      else let hits = length (filter (\<lambda>b. b \<in> set (keys m)) blocks)
           in f64_of_nat hits / f64_of_nat (length blocks))"

definition insert_all :: "u64 list \<Rightarrow> WarmthMap \<Rightarrow> WarmthMap" where
  "insert_all ks m = fold (\<lambda>k m. snd (WarmthMap_insert k m)) ks m"

definition WarmthMap_merge :: "WarmthMap \<Rightarrow> WarmthMap \<Rightarrow> WarmthMap" where
  "WarmthMap_merge m other = insert_all (keys other) m"

definition insert_salted :: "hashing \<Rightarrow> u64 \<Rightarrow> CacheDomainKey \<Rightarrow> WarmthMap \<Rightarrow> bool \<times> WarmthMap" where
  "insert_salted h block_id key m = WarmthMap_insert (salt_block h block_id (key_salt h key)) m"

definition hit_strength_salted :: "hashing \<Rightarrow> WarmthMap \<Rightarrow> u64 list \<Rightarrow> CacheDomainKey \<Rightarrow> f64" where
  "hit_strength_salted h m blocks key =
     (if blocks = [] then 0
      else let s = key_salt h key;
               hits = length (filter (\<lambda>b. salt_block h b s \<in> set (keys m)) blocks)
           in f64_of_nat hits / f64_of_nat (length blocks))"

definition gated_hit_strength ::
  "hashing \<Rightarrow> WarmthMap \<Rightarrow> SharedPrefixGroupRegistry \<Rightarrow> TenantId \<Rightarrow> GroupId \<Rightarrow> PrefixFingerprint \<Rightarrow> u64 list \<Rightarrow> f64" where
  "gated_hit_strength h warmth registry requester grp content_fp blocks =
     (let key = resolve_domain_key registry requester grp content_fp
      in hit_strength_salted h warmth blocks key)"

section \<open>Snapshots\<close>

type_synonym IsolationCtx = "SharedPrefixGroupRegistry \<times> TenantId \<times> GroupId \<times> PrefixFingerprint"

record BackendSnapshot =
  snap_label :: string
  warmth :: WarmthMap
  occupancy :: f64
  kv_bytes_live :: u64
  kv_capacity_bytes :: u64

definition BackendSnapshot_new :: "string \<Rightarrow> u64 \<Rightarrow> BackendSnapshot" where
  "BackendSnapshot_new l cap =
     \<lparr>snap_label = l, warmth = WarmthMap_default, occupancy = 0, kv_bytes_live = 0, kv_capacity_bytes = cap\<rparr>"

definition kv_pressure :: "BackendSnapshot \<Rightarrow> f64" where
  "kv_pressure b =
     (if kv_capacity_bytes b = 0 then 0
      else fclamp (f64_of_u64 (kv_bytes_live b) / f64_of_u64 (kv_capacity_bytes b)) 0 1)"

type_synonym pool = "(string \<times> BackendSnapshot) list"

record StateSnapshot =
  generation :: u64
  prefill :: pool
  decode :: pool

definition StateSnapshot_empty :: StateSnapshot where
  "StateSnapshot_empty = \<lparr>generation = 0, prefill = [], decode = []\<rparr>"

definition pool_hit_strength ::
  "hashing \<Rightarrow> StateSnapshot \<Rightarrow> bool \<Rightarrow> string \<Rightarrow> u64 list \<Rightarrow> IsolationCtx option \<Rightarrow> f64" where
  "pool_hit_strength h s decode_pool l blocks isolation =
     (let pool = (if decode_pool then decode s else prefill s)
      in case map_of pool l of None \<Rightarrow> 0
         | Some bs \<Rightarrow> (case isolation of
              Some (registry, tenant, grp, content_fp) \<Rightarrow>
                gated_hit_strength h (warmth bs) registry tenant grp content_fp blocks
            | None \<Rightarrow> hit_strength (warmth bs) blocks))"

definition new_pool :: "string list \<Rightarrow> u64 \<Rightarrow> pool" where
  "new_pool ls cap = fold (\<lambda>l p. AList.update l (BackendSnapshot_new l cap) p) ls []"

text \<open>The plane holds one snapshot pointer; its value is the state passed along.\<close>

definition StatePlane_new :: "string list \<Rightarrow> string list \<Rightarrow> StateSnapshot" where
  "StatePlane_new prefill_labels decode_labels =
     \<lparr>generation = 0, prefill = new_pool prefill_labels 0, decode = new_pool decode_labels 120000000\<rparr>"

definition publish_snapshot :: "StateSnapshot \<Rightarrow> StateSnapshot \<Rightarrow> StateSnapshot" where
  "publish_snapshot snap plane = snap"

definition update_snapshot :: "(StateSnapshot \<Rightarrow> StateSnapshot) \<Rightarrow> StateSnapshot \<Rightarrow> StateSnapshot" where
  "update_snapshot f plane = publish_snapshot (f plane) plane"

definition bump_generation :: "StateSnapshot \<Rightarrow> u64 \<times> StateSnapshot" where
  "bump_generation plane =
     (let plane' = update_snapshot (\<lambda>s. s\<lparr>generation := generation s + 1\<rparr>) plane in (generation plane', plane'))"

section \<open>Gossip\<close>

record GossipUpdate =
  backend_label :: string
  is_decode :: bool
  warmth_blocks :: "u64 list"
  upd_occupancy :: f64
  upd_kv_bytes_live :: u64
  epoch :: u64

definition gossip_backend :: "GossipUpdate \<Rightarrow> BackendSnapshot \<Rightarrow> BackendSnapshot" where
  "gossip_backend u b =
     b\<lparr>warmth := insert_all (warmth_blocks u) (warmth b),
       occupancy := fclamp (upd_occupancy u) 0 1,
       kv_bytes_live := upd_kv_bytes_live u\<rparr>"

definition apply_gossip :: "GossipUpdate \<Rightarrow> StateSnapshot \<Rightarrow> StateSnapshot" where
  "apply_gossip u = update_snapshot (\<lambda>s.
     let s = (if is_decode u then s\<lparr>decode := AList.map_entry (backend_label u) (gossip_backend u) (decode s)\<rparr>
              else s\<lparr>prefill := AList.map_entry (backend_label u) (gossip_backend u) (prefill s)\<rparr>)
     in s\<lparr>generation := max (generation s) (epoch u)\<rparr>)"

definition merge_backend :: "BackendSnapshot \<Rightarrow> BackendSnapshot \<Rightarrow> BackendSnapshot" where
  "merge_backend b remote_b =
     b\<lparr>warmth := WarmthMap_merge (warmth b) (warmth remote_b),
       occupancy := fmax (occupancy b) (occupancy remote_b),
       kv_bytes_live := max (kv_bytes_live b) (kv_bytes_live remote_b)\<rparr>"

definition merge_pool :: "pool \<Rightarrow> pool \<Rightarrow> pool" where
  "merge_pool local remote =
     fold (\<lambda>(l, remote_b) loc.
        (case map_of loc l of
           Some b \<Rightarrow> AList.update l (merge_backend b remote_b) loc
         | None \<Rightarrow> AList.update l remote_b loc)) remote local"

definition heal_merge :: "StateSnapshot \<Rightarrow> StateSnapshot \<Rightarrow> StateSnapshot" where
  "heal_merge remote = update_snapshot (\<lambda>local.
     \<lparr>generation = max (generation local) (generation remote),
      prefill = merge_pool (prefill local) (prefill remote),
      decode = merge_pool (decode local) (decode remote)\<rparr>)"

definition stale_probe :: "WarmthMap \<Rightarrow> u64 list \<Rightarrow> f64" where
  "stale_probe stale blocks = hit_strength stale blocks"

section \<open>Warmth map lemmas\<close>

definition warmth_wf :: "WarmthMap \<Rightarrow> bool" where
  "warmth_wf m \<longleftrightarrow> distinct (keys m) \<and> length (keys m) \<le> capacity m \<and> 0 < capacity m \<and> capacity m \<le> 2 ^ 53"

lemma capacity_insert [simp]: "capacity (snd (WarmthMap_insert k m)) = capacity m"
  by (simp add: WarmthMap_insert_def)

lemma keys_insert_superset: "set (keys m) \<subseteq> set (keys (snd (WarmthMap_insert k m)))"
  by (auto simp: WarmthMap_insert_def)

lemma max_load: "\<exists>c. CACHE_CUCKOO_MAX_LOADFACTOR = Fin c \<and> repr64 c \<and> 1 / 2 \<le> c \<and> c < 1"
proof -
  have "repr64 (1 / 2)" "repr64 (15 / 16)" using repr64_dyadic [of 1 1] repr64_dyadic [of 15 4] by auto
  then obtain c where "mk64 (9 / 10) = Fin c" "1 / 2 \<le> c" "c \<le> 15 / 16" "repr64 c"
    by (elim mk64_between [of "1 / 2" "9 / 10" "15 / 16", rotated 2]) auto
  then show ?thesis by (auto simp: CACHE_CUCKOO_MAX_LOADFACTOR_def)
qed

lemma load_factor_value:
  assumes "warmth_wf m"
  shows "load_factor m = Fin (rnd (real (length (keys m)) / real (capacity m)))"
proof -
  have le: "length (keys m) \<le> 2 ^ 53" "capacity m \<le> 2 ^ 53" "0 < capacity m" "length (keys m) \<le> capacity m"
    using assms by (auto simp: warmth_wf_def)
  have "repr64 0" "repr64 1" using ok_FinD(1) [of 0] ok_FinD(1) [of 1] by auto
  then have "mk64 (real (length (keys m)) / real (capacity m)) = Fin (rnd (real (length (keys m)) / real (capacity m)))"
    using le by (elim mk64_between [of 0 _ 1, rotated 2]) auto
  then show ?thesis using le by (simp add: load_factor_def f64_of_nat_exact)
qed

lemma WarmthMap_insert_wf:
  assumes "warmth_wf m"
  shows "warmth_wf (snd (WarmthMap_insert k m))"
proof (cases "k \<in> set (keys m) \<or> fle CACHE_CUCKOO_MAX_LOADFACTOR (load_factor m)")
  case True
  then show ?thesis using assms by (auto simp: WarmthMap_insert_def)
next
  case False
  obtain c where c: "CACHE_CUCKOO_MAX_LOADFACTOR = Fin c" "repr64 c" "c < 1" using max_load by blast
  have "rnd (real (length (keys m)) / real (capacity m)) < c"
    using False by (simp add: load_factor_value [OF assms] c(1))
  then have "real (length (keys m)) / real (capacity m) < 1" using rnd_ge_repr [OF _ c(2)] c(3)
    by (meson less_le_trans linorder_not_less less_imp_le order_less_trans)
  then have "length (keys m) < capacity m" using assms by (simp add: warmth_wf_def divide_less_eq)
  then show ?thesis using assms False by (simp add: WarmthMap_insert_def warmth_wf_def)
qed

lemma insert_all_wf: "warmth_wf m \<Longrightarrow> warmth_wf (insert_all ks m)"
  unfolding insert_all_def by (induction ks arbitrary: m) (simp_all add: WarmthMap_insert_wf)

lemma insert_all_superset: "set (keys m) \<subseteq> set (keys (insert_all ks m))"
  unfolding insert_all_def
  by (induction ks arbitrary: m) (auto dest: keys_insert_superset [THEN subsetD])

lemma insert_all_capacity [simp]: "capacity (insert_all ks m) = capacity m"
  unfolding insert_all_def by (induction ks arbitrary: m) simp_all

lemma WarmthMap_merge_wf: "warmth_wf m \<Longrightarrow> warmth_wf (WarmthMap_merge m other)"
  by (simp add: WarmthMap_merge_def insert_all_wf)

text \<open>A key is absorbed when inserting it changes nothing; inserting never undoes that.\<close>

definition absorbed :: "u64 \<Rightarrow> WarmthMap \<Rightarrow> bool" where
  "absorbed k m \<longleftrightarrow> k \<in> set (keys m) \<or> fle CACHE_CUCKOO_MAX_LOADFACTOR (load_factor m)"

lemma absorbed_noop: "absorbed k m \<Longrightarrow> snd (WarmthMap_insert k m) = m"
  by (auto simp: absorbed_def WarmthMap_insert_def)

lemma absorbed_insert: "absorbed k (snd (WarmthMap_insert k m))"
  by (auto simp: absorbed_def WarmthMap_insert_def)

lemma absorbed_mono: "absorbed k m \<Longrightarrow> absorbed k (snd (WarmthMap_insert j m))"
  by (auto simp: absorbed_def WarmthMap_insert_def)

lemma absorbed_insert_all_mono: "absorbed k m \<Longrightarrow> absorbed k (insert_all ks m)"
  unfolding insert_all_def by (induction ks arbitrary: m) (simp_all add: absorbed_mono)

lemma absorbed_insert_all: "k \<in> set ks \<Longrightarrow> absorbed k (insert_all ks m)"
proof (induction ks arbitrary: m)
  case (Cons j ks)
  have "insert_all (j # ks) m = insert_all ks (snd (WarmthMap_insert j m))" by (simp add: insert_all_def)
  then show ?case using Cons absorbed_insert_all_mono [OF absorbed_insert] by auto
qed simp

lemma insert_all_noop: "\<forall>k\<in>set ks. absorbed k m \<Longrightarrow> insert_all ks m = m"
  unfolding insert_all_def by (induction ks) (simp_all add: absorbed_noop)

lemma insert_all_idem: "insert_all ks (insert_all ks m) = insert_all ks m"
  by (rule insert_all_noop) (simp add: absorbed_insert_all)

lemma insert_all_self: "insert_all (keys m) m = m"
  by (rule insert_all_noop) (simp add: absorbed_def)

section \<open>Hit strength\<close>

text \<open>A fraction of at most \<open>2^53\<close> parts, and its rounding.\<close>

lemma fraction_value:
  assumes "h \<le> n" "0 < n" "n \<le> 2 ^ 53"
  shows "f64_of_nat h / f64_of_nat n = Fin (rnd (real h / real n))"
    "0 \<le> rnd (real h / real n)" "rnd (real h / real n) \<le> 1"
    "rnd (real h / real n) = 0 \<longleftrightarrow> h = 0" "rnd (real h / real n) = 1 \<longleftrightarrow> h = n"
proof -
  have r: "repr64 0" "repr64 1" using ok_FinD(1) [of 0] ok_FinD(1) [of 1] by auto
  have q: "0 \<le> real h / real n" "real h / real n \<le> 1" using assms by auto
  show 1: "0 \<le> rnd (real h / real n)" "rnd (real h / real n) \<le> 1"
    using q r by (auto intro: rnd_nonneg rnd_le_repr)
  have "\<bar>rnd (real h / real n)\<bar> < f64_lim" using 1 by (intro f64_lim_gt(1)) simp
  then show "f64_of_nat h / f64_of_nat n = Fin (rnd (real h / real n))"
    using assms by (simp add: f64_of_nat_exact mk64_def Let_def)
  have n: "real n \<le> 2 ^ 53" using assms(3) by (metis of_nat_le_iff of_nat_numeral of_nat_power)
  have "0 < rnd (real h / real n)" if "h \<noteq> 0"
  proof -
    have "1 / 2 ^ 53 \<le> 1 / real n" using n assms(2) by (intro frac_le) auto
    also have "\<dots> \<le> real h / real n" using that by (intro divide_right_mono) auto
    finally have "1 / 2 ^ 53 \<le> rnd (real h / real n)"
      using repr64_dyadic [of 1 53] by (intro rnd_ge_repr) auto
    moreover have "0 < (1 / 2 ^ 53 :: real)" by simp
    ultimately show ?thesis by linarith
  qed
  then show "rnd (real h / real n) = 0 \<longleftrightarrow> h = 0" by force
  have "rnd (real h / real n) < 1" if "h < n"
  proof -
    have "real h \<le> real n - 1" using that by linarith
    then have "real h / real n \<le> (real n - 1) / real n" by (intro divide_right_mono) auto
    also have "\<dots> = 1 - 1 / real n" using assms(2) by (simp add: field_simps)
    also have "\<dots> \<le> 1 - 1 / 2 ^ 53" using n assms(2) by (simp add: frac_le)
    also have "\<dots> = of_int (2 ^ 53 - 1) / 2 ^ 53" by simp
    finally have "rnd (real h / real n) \<le> of_int (2 ^ 53 - 1) / 2 ^ 53"
      using repr64_dyadic [of "2 ^ 53 - 1" 53] by (intro rnd_le_repr) auto
    also have "\<dots> < (1 :: real)" by simp
    finally show ?thesis .
  qed
  then show "rnd (real h / real n) = 1 \<longleftrightarrow> h = n"
    using assms rnd_repr [OF r(2)] by (cases "h = n") fastforce+
qed

lemma filter_eq_length: "length (filter P xs) = length xs \<longleftrightarrow> (\<forall>x\<in>set xs. P x)"
  by (metis filter_id_conv length_filter_less less_irrefl_nat)

lemma filter_length_mono: "(\<And>x. P x \<Longrightarrow> Q x) \<Longrightarrow> length (filter P xs) \<le> length (filter Q xs)"
  by (induction xs) (auto simp: le_SucI)

section \<open>Merging\<close>

lemma merge_backend_idem: "merge_backend (merge_backend b r) r = merge_backend b r"
  by (simp add: merge_backend_def WarmthMap_merge_def insert_all_idem fmax_def flt_def)

lemma merge_backend_self: "merge_backend b b = b"
  by (simp add: merge_backend_def WarmthMap_merge_def insert_all_self fmax_def)

lemma merge_pool_lookup:
  assumes "distinct (map fst remote)"
  shows "map_of (merge_pool loc remote) l =
    (case map_of remote l of None \<Rightarrow> map_of loc l
     | Some r \<Rightarrow> Some (case map_of loc l of Some b \<Rightarrow> merge_backend b r | None \<Rightarrow> r))"
  using assms
proof (induction remote arbitrary: loc)
  case (Cons p remote)
  obtain m r where p: "p = (m, r)" by fastforce
  have "map_of remote m = None" using Cons.prems p by (simp add: map_of_eq_None_iff)
  then show ?case using Cons by (auto simp: merge_pool_def p update_conv' split: option.splits)
qed (simp add: merge_pool_def)

lemma merge_pool_distinct: "distinct (map fst loc) \<Longrightarrow> distinct (map fst (merge_pool loc remote))"
  unfolding merge_pool_def by (induction remote arbitrary: loc) (auto split: option.splits)

text \<open>A well-formed snapshot: distinct labels, well-formed warmth maps, occupancies in \<open>[0, 1]\<close>.\<close>

definition backend_wf :: "BackendSnapshot \<Rightarrow> bool" where
  "backend_wf b \<longleftrightarrow> warmth_wf (warmth b) \<and> fle 0 (occupancy b) \<and> fle (occupancy b) 1"

definition pool_wf :: "pool \<Rightarrow> bool" where
  "pool_wf p \<longleftrightarrow> distinct (map fst p) \<and> list_all (\<lambda>x. backend_wf (snd x)) p"

definition snapshot_wf :: "StateSnapshot \<Rightarrow> bool" where
  "snapshot_wf s \<longleftrightarrow> pool_wf (prefill s) \<and> pool_wf (decode s)"

lemma pool_wf_lookup:
  "pool_wf p \<longleftrightarrow> distinct (map fst p) \<and> (\<forall>l b. map_of p l = Some b \<longrightarrow> backend_wf b)"
  by (cases "distinct (map fst p)") (force simp: pool_wf_def list_all_iff)+

lemma backend_wf_new: "backend_wf (BackendSnapshot_new l cap)"
  by (simp add: backend_wf_def BackendSnapshot_new_def WarmthMap_default_def WarmthMap_with_capacity_def warmth_wf_def)

lemma backend_wf_gossip: "backend_wf b \<Longrightarrow> upd_occupancy u \<noteq> NaN \<Longrightarrow> backend_wf (gossip_backend u b)"
  using fclamp_bounds [of "upd_occupancy u" 0 1]
  by (simp add: backend_wf_def gossip_backend_def insert_all_wf)

lemma backend_wf_merge: "backend_wf b \<Longrightarrow> backend_wf r \<Longrightarrow> backend_wf (merge_backend b r)"
  by (auto simp: backend_wf_def merge_backend_def WarmthMap_merge_wf fmax_def)

lemma pool_wf_update: "pool_wf p \<Longrightarrow> backend_wf b \<Longrightarrow> pool_wf (AList.update l b p)"
  by (simp add: pool_wf_lookup update_conv' del: map_of_eq_Some_iff)

lemma pool_wf_new: "pool_wf (new_pool ls cap)"
proof -
  have "pool_wf p \<Longrightarrow> pool_wf (fold (\<lambda>l p. AList.update l (BackendSnapshot_new l cap) p) ls p)" for p
    by (induction ls arbitrary: p) (simp_all add: pool_wf_update backend_wf_new)
  then show ?thesis by (simp add: new_pool_def pool_wf_def)
qed

lemma map_of_map_entry_fun: "map_of (AList.map_entry l f p) m = (if m = l then map_option f (map_of p l) else map_of p m)"
  by (induction p) auto

lemma pool_wf_map_entry:
  "pool_wf p \<Longrightarrow> (\<And>b. backend_wf b \<Longrightarrow> backend_wf (f b)) \<Longrightarrow> pool_wf (AList.map_entry l f p)"
proof -
  assume a: "pool_wf p" "\<And>b. backend_wf b \<Longrightarrow> backend_wf (f b)"
  have "map fst (AList.map_entry l f p) = map fst p" by (induction p) auto
  then show ?thesis using a by (simp add: pool_wf_lookup map_of_map_entry_fun del: map_of_eq_Some_iff) metis
qed

lemma pool_wf_merge:
  assumes "pool_wf loc" "pool_wf remote"
  shows "pool_wf (merge_pool loc remote)"
proof -
  have d: "distinct (map fst remote)" using assms(2) by (simp add: pool_wf_def)
  have "backend_wf b" if "map_of (merge_pool loc remote) l = Some b" for l b
    using that assms
    by (auto simp: merge_pool_lookup [OF d] pool_wf_lookup simp del: map_of_eq_Some_iff
        intro!: backend_wf_merge split: option.splits)
  then show ?thesis using assms(1) by (simp add: pool_wf_lookup merge_pool_distinct)
qed

text \<open>
  \<open>update_snapshot\<close> is a load, a local change and an unconditional store.  Two updaters that both
  load before either stores:
\<close>

definition racing_updates :: "(StateSnapshot \<Rightarrow> StateSnapshot) \<Rightarrow> (StateSnapshot \<Rightarrow> StateSnapshot) \<Rightarrow> StateSnapshot \<Rightarrow> StateSnapshot" where
  "racing_updates f g plane =
     (let mine = f plane; yours = g plane in publish_snapshot yours (publish_snapshot mine plane))"

lemma update_snapshot_lost:
  "generation (racing_updates (snd \<circ> bump_generation) (snd \<circ> bump_generation) s) = generation s + 1"
  by (simp add: racing_updates_def publish_snapshot_def bump_generation_def update_snapshot_def Let_def)

text \<open>The block list grows with the token count of the request: nothing bounds it.\<close>

lemma routing_blocks_length: "length (routing_blocks t b) = unat (div_ceil t (max b 1))"
  by (simp add: routing_blocks_def Let_def)

lemma routing_blocks_unbounded: "length (default_routing_blocks u64_max) = 2 ^ 56"
proof -
  have "max (256 :: u64) 1 = 256" by code_simp
  then show ?thesis by (simp add: default_routing_blocks_def routing_blocks_length CACHE_BLOCK_TOKENS_def unat_div_ceil unat_u64_max)
qed

section \<open>Properties\<close>

text \<open>warmth insertion keeps the map duplicate free and within its capacity, never evicts,
  and reports whether the block is now present.\<close>

theorem WarmthMap_insert_spec:
  assumes "warmth_wf m" "WarmthMap_insert k m = (ok, m')"
  shows "warmth_wf m' \<and> capacity m' = capacity m \<and> set (keys m) \<subseteq> set (keys m')
    \<and> set (keys m') \<subseteq> insert k (set (keys m)) \<and> (ok \<longleftrightarrow> WarmthMap_contains m' k)"
  using WarmthMap_insert_wf [OF assms(1), of k] assms
  by (auto simp: WarmthMap_insert_def WarmthMap_contains_def split: if_splits)

theorem WarmthMap_insert_spec_witness:
  "warmth_wf (WarmthMap_with_capacity 4) \<and> warmth_wf (snd (WarmthMap_insert 7 (WarmthMap_with_capacity 4)))"
  using WarmthMap_insert_spec [of "WarmthMap_with_capacity 4" 7 "fst (WarmthMap_insert 7 (WarmthMap_with_capacity 4))"
      "snd (WarmthMap_insert 7 (WarmthMap_with_capacity 4))"]
  by (simp add: warmth_wf_def WarmthMap_with_capacity_def)

text \<open>The warmth hit strength is a fraction: finite, in \<open>[0, 1]\<close>, zero exactly when no block is
  warm, one exactly when all are, and it never falls when blocks are added to the map.\<close>

theorem hit_strength_fraction:
  assumes "blocks \<noteq> []" "length blocks \<le> 2 ^ 53"
  shows "\<exists>x y. hit_strength m blocks = Fin x \<and> hit_strength (insert_all ks m) blocks = Fin y
    \<and> 0 \<le> x \<and> x \<le> y \<and> y \<le> 1
    \<and> (x = 0 \<longleftrightarrow> (\<forall>b\<in>set blocks. \<not> WarmthMap_contains m b))
    \<and> (x = 1 \<longleftrightarrow> (\<forall>b\<in>set blocks. WarmthMap_contains m b))"
proof -
  let ?hits = "\<lambda>m. length (filter (\<lambda>b. b \<in> set (keys m)) blocks)"
  let ?n = "length blocks"
  have n: "?hits m' \<le> ?n" "0 < ?n" for m' :: WarmthMap using assms(1) by simp_all
  note v = fraction_value [OF n assms(2)]
  have "?hits m \<le> ?hits (insert_all ks m)" using insert_all_superset by (intro filter_length_mono) blast
  then have "rnd (real (?hits m) / real ?n) \<le> rnd (real (?hits (insert_all ks m)) / real ?n)"
    by (intro rnd_mono divide_right_mono) auto
  then show ?thesis using v assms(1) filter_eq_length [of "\<lambda>b. b \<in> set (keys m)" blocks]
    by (simp add: hit_strength_def WarmthMap_contains_def filter_empty_conv)
qed

theorem hit_strength_fraction_witness:
  "\<exists>x. hit_strength \<lparr>keys = [0], capacity = 4\<rparr> [0, 256] = Fin x \<and> 0 \<le> x \<and> x \<noteq> 0 \<and> x \<noteq> 1"
  using hit_strength_fraction [of "[0, 256]" "\<lparr>keys = [0], capacity = 4\<rparr>" "[]"]
  by (auto simp: WarmthMap_contains_def)

text \<open>C12: cache-domain isolation: a tenant whom the registry does not authorize for the group
  sees no warmth recorded under other domains, as long as the hashes of the blocks and domains
  involved do not collide.\<close>

theorem gated_hit_strength_isolated:
  assumes "m = fold (\<lambda>(b, d) m. snd (insert_salted h b d m)) recs (WarmthMap_with_capacity c)"
    "resolve_shared_key reg r g fp = None"
    "private_domain_key r 0 \<notin> snd ` set recs"
    "inj_on (key_salt h) (insert (private_domain_key r 0) (snd ` set recs))"
    "inj_on (default_hasher h) ((set blocks \<union> fst ` set recs) \<times> key_salt h ` insert (private_domain_key r 0) (snd ` set recs))"
  shows "gated_hit_strength h m reg r g fp blocks = 0"
proof -
  have keys: "set (keys (fold (\<lambda>(b, d) m. snd (insert_salted h b d m)) recs m0)) \<subseteq>
      set (keys m0) \<union> (\<lambda>(b, d). salt_block h b (key_salt h d)) ` set recs" for m0
    by (induction recs arbitrary: m0) (fastforce simp: insert_salted_def WarmthMap_insert_def split: if_splits)+
  let ?s = "key_salt h (private_domain_key r 0)"
  have "salt_block h b ?s \<notin> set (keys m)" if b: "b \<in> set blocks" for b
  proof
    assume "salt_block h b ?s \<in> set (keys m)"
    then obtain b' d where d: "(b', d) \<in> set recs" "default_hasher h (b, ?s) = default_hasher h (b', key_salt h d)"
      using keys [of "WarmthMap_with_capacity c"] assms(1)
      by (fastforce simp: WarmthMap_with_capacity_def salt_block_def)
    then have "?s = key_salt h d" using assms(5) b by (force dest!: inj_onD)
    then have "private_domain_key r 0 = d" using assms(4) d(1) by (force dest!: inj_onD)
    then show False using assms(3) d(1) by force
  qed
  then have none: "filter (\<lambda>b. salt_block h b ?s \<in> set (keys m)) blocks = []" by (simp add: filter_empty_conv)
  have key: "resolve_domain_key reg r g fp = private_domain_key r 0"
    using assms(2) by (simp add: resolve_domain_key_def)
  have "f64_of_nat 0 / f64_of_nat (length blocks) = Fin 0" if "blocks \<noteq> []"
    using that by (intro zero_div_of_nat) simp
  then show ?thesis by (auto simp: gated_hit_strength_def hit_strength_salted_def key none Let_def)
qed

theorem gated_hit_strength_isolated_witness:
  "gated_hit_strength \<lparr>b3 = \<lparr>derive_key = \<lambda>_ s. s, keyed_digest = \<lambda>k m. drop 18 m\<rparr>, installed_key = [],
       default_hasher = \<lambda>(b, s). b + s\<rparr>
     (fold (\<lambda>(b, d) m. snd (insert_salted \<lparr>b3 = \<lparr>derive_key = \<lambda>_ s. s, keyed_digest = \<lambda>k m. drop 18 m\<rparr>,
         installed_key = [], default_hasher = \<lambda>(b, s). b + s\<rparr> b d m))
       [(0, \<lparr>owner = 2, domain = 0, shared = True\<rparr>)] (WarmthMap_with_capacity 8))
     SharedPrefixGroupRegistry_new (TenantId 1) (GroupId 2) (PrefixFingerprint 3) [0] = 0"
proof -
  let ?h = "\<lparr>b3 = \<lparr>derive_key = \<lambda>_ s. s, keyed_digest = \<lambda>k m. drop 18 m\<rparr>,
         installed_key = [], default_hasher = \<lambda>(b, s). b + s\<rparr> :: hashing"
  let ?d = "\<lparr>owner = 2, domain = 0, shared = True\<rparr>"
  have "key_salt ?h (private_domain_key (TenantId 1) 0) = 1" "key_salt ?h ?d = 2" by code_simp+
  then show ?thesis
    by (intro gated_hit_strength_isolated [OF refl])
       (auto simp: inj_on_def resolve_shared_key_def SharedPrefixGroupRegistry_new_def private_domain_key_def)
qed

text \<open>Gossip is idempotent and monotone: healing with a snapshot twice is the same as once,
  merging a snapshot with itself changes nothing, the generation never goes back, and the merged
  pools stay well-formed.\<close>

theorem heal_merge_idempotent:
  assumes "snapshot_wf local" "snapshot_wf remote"
  shows "map_of (prefill (heal_merge remote (heal_merge remote local))) = map_of (prefill (heal_merge remote local))
    \<and> map_of (decode (heal_merge remote (heal_merge remote local))) = map_of (decode (heal_merge remote local))
    \<and> map_of (decode (heal_merge local local)) = map_of (decode local)
    \<and> map_of (prefill (heal_merge local local)) = map_of (prefill local)
    \<and> generation (heal_merge remote (heal_merge remote local)) = generation (heal_merge remote local)
    \<and> generation local \<le> generation (heal_merge remote local)
    \<and> snapshot_wf (heal_merge remote local)"
proof -
  have d: "distinct (map fst (prefill local))" "distinct (map fst (decode local))"
    "distinct (map fst (prefill remote))" "distinct (map fst (decode remote))"
    using assms by (simp_all add: snapshot_wf_def pool_wf_def)
  have idem: "map_of (merge_pool (merge_pool l r) r) = map_of (merge_pool l r)" if "distinct (map fst r)" for l r
    using merge_pool_lookup [OF that]
    by (intro ext) (auto simp: merge_backend_idem merge_backend_self simp del: map_of_eq_Some_iff split: option.splits)
  have self: "map_of (merge_pool l l) = map_of l" if "distinct (map fst l)" for l
    using merge_pool_lookup [OF that]
    by (intro ext) (auto simp: merge_backend_self simp del: map_of_eq_Some_iff split: option.splits)
  show ?thesis using assms
    by (simp add: heal_merge_def update_snapshot_def publish_snapshot_def idem [OF d(3)] idem [OF d(4)]
        self [OF d(1)] self [OF d(2)] snapshot_wf_def pool_wf_merge max.assoc)
qed

theorem heal_merge_idempotent_witness:
  "snapshot_wf (heal_merge (StatePlane_new [''p''] [''d'']) (StatePlane_new [] [''d'']))"
  using heal_merge_idempotent [of "StatePlane_new [] [''d'']" "StatePlane_new [''p''] [''d'']"]
  by (simp add: snapshot_wf_def StatePlane_new_def pool_wf_new)

text \<open>A gossip update touches the named backend only: every other backend of either pool is
  unchanged, an unknown backend is ignored, the named one takes the reported load with its
  occupancy clamped, and the snapshot stays well-formed.\<close>

theorem apply_gossip_spec:
  assumes "snapshot_wf s" "upd_occupancy u \<noteq> NaN"
  shows "snapshot_wf (apply_gossip u s)
    \<and> map_of (if is_decode u then decode (apply_gossip u s) else prefill (apply_gossip u s)) l =
        (if l = backend_label u
         then map_option (gossip_backend u) (map_of (if is_decode u then decode s else prefill s) l)
         else map_of (if is_decode u then decode s else prefill s) l)
    \<and> (if is_decode u then prefill (apply_gossip u s) = prefill s else decode (apply_gossip u s) = decode s)
    \<and> generation s \<le> generation (apply_gossip u s) \<and> epoch u \<le> generation (apply_gossip u s)"
  using assms backend_wf_gossip [OF _ assms(2)]
  by (simp add: apply_gossip_def update_snapshot_def publish_snapshot_def Let_def snapshot_wf_def
      pool_wf_map_entry map_of_map_entry_fun)

theorem apply_gossip_spec_witness:
  "snapshot_wf (apply_gossip \<lparr>backend_label = ''d'', is_decode = True, warmth_blocks = [1], upd_occupancy = Fin 2,
      upd_kv_bytes_live = 5, epoch = 3\<rparr> (StatePlane_new [] [''d'']))"
  using apply_gossip_spec [of "StatePlane_new [] [''d'']" "\<lparr>backend_label = ''d'', is_decode = True,
      warmth_blocks = [1], upd_occupancy = Fin 2, upd_kv_bytes_live = 5, epoch = 3\<rparr>" "''d''"]
  by (simp add: snapshot_wf_def StatePlane_new_def pool_wf_new)

end
