(* ===== verification/Pairing.thy ===== *)
theory Pairing
  imports Cost StatePlane
begin

text \<open>
  Greedy prefill/decode pairing and its shadow regret (\<open>demiurge-control/src/pairing.rs\<close>,
  \<open>scored.rs\<close>).  The trait \<open>PairingTarget\<close> is a record of its methods; the generic functions take
  that record, as the code is generic in the trait.  Costs are read without the clamp gauge, which
  only counts.  \<open>lg\<close> and \<open>ex\<close> are the logarithm and exponential of the maths library.
\<close>

definition plain_cost :: "Cost \<times> clamp_events \<Rightarrow> f64" where
  "plain_cost c = Cost_ln (fst c)"

definition plain_discount :: "f64 \<Rightarrow> Discount option" where
  "plain_discount strength = fst (warmth_discount strength 0)"

definition plain_barrier :: "f64 \<Rightarrow> BarrierFactor" where
  "plain_barrier x = fst (BarrierFactor_clamped x 0)"

section \<open>Scored backends\<close>

record ScoredBackend =
  sb_label :: string
  sb_addr :: string
  sb_base_service_seconds :: f64
  sb_inflight :: nat

definition ScoredBackend_new :: "string \<Rightarrow> string \<Rightarrow> f64 \<Rightarrow> ScoredBackend" where
  "ScoredBackend_new l a base =
     \<lparr>sb_label = l, sb_addr = a, sb_base_service_seconds = base, sb_inflight = 0\<rparr>"

definition base_cost :: "(f64 \<Rightarrow> f64) \<Rightarrow> ScoredBackend \<Rightarrow> BarrierFactor list \<Rightarrow> Discount list \<Rightarrow> Cost \<times> clamp_events" where
  "base_cost lg b extra_barriers discounts =
     service_cost lg (sb_base_service_seconds b) (sb_inflight b) extra_barriers discounts 0"

section \<open>The pairing interface\<close>

record 't PairingTarget =
  pt_label :: "'t \<Rightarrow> string"
  prefill_ln :: "StateSnapshot option \<Rightarrow> u64 list \<Rightarrow> 't \<Rightarrow> f64"
  decode_ln :: "StateSnapshot option \<Rightarrow> u64 list \<Rightarrow> string \<Rightarrow> f64 \<Rightarrow> BarrierFactor list \<Rightarrow> 't \<Rightarrow> f64"

definition DEFAULT_TRANSFER_PENALTY :: f64 where
  "DEFAULT_TRANSFER_PENALTY = ROUTING_TRANSFER_PENALTY"

definition select_prefill_target :: "'t PairingTarget \<Rightarrow> 't list \<Rightarrow> StateSnapshot option \<Rightarrow> u64 \<Rightarrow> 't option" where
  "select_prefill_target T candidates snapshot prompt_tokens =
     (let blocks = default_routing_blocks prompt_tokens
      in min_by (prefill_ln T snapshot blocks) candidates)"

definition select_decode_target ::
    "'t PairingTarget \<Rightarrow> string \<Rightarrow> 't list \<Rightarrow> StateSnapshot option \<Rightarrow> u64 \<Rightarrow> f64 \<Rightarrow> BarrierFactor list \<Rightarrow> 't option" where
  "select_decode_target T prefill_label candidates snapshot prompt_tokens transfer_penalty extra_barriers =
     (let blocks = default_routing_blocks prompt_tokens
      in min_by (decode_ln T snapshot blocks prefill_label transfer_penalty extra_barriers) candidates)"

definition joint_ln_targets ::
    "'t PairingTarget \<Rightarrow> 't \<Rightarrow> 't \<Rightarrow> StateSnapshot option \<Rightarrow> u64 list \<Rightarrow> f64 \<Rightarrow> BarrierFactor list \<Rightarrow> f64" where
  "joint_ln_targets T pf dc snapshot blocks transfer_penalty extra_barriers =
     prefill_ln T snapshot blocks pf
       + decode_ln T snapshot blocks (pt_label T pf) transfer_penalty extra_barriers dc"

definition oracle_cost ::
    "'t PairingTarget \<Rightarrow> 't list \<Rightarrow> 't list \<Rightarrow> StateSnapshot option \<Rightarrow> u64 list \<Rightarrow> f64 \<Rightarrow> f64" where
  "oracle_cost T prefill_pool decode_pool snapshot blocks transfer_penalty =
     foldl (\<lambda>oracle_c p. foldl (\<lambda>oracle_c d.
         fmin oracle_c (joint_ln_targets T p d snapshot blocks transfer_penalty [])) oracle_c decode_pool)
       (Infinity False) prefill_pool"

text \<open>\<open>expect\<close> on an empty pool would panic; the guard makes both lookups succeed.\<close>

definition pairing_regret_targets ::
    "(f64 \<Rightarrow> f64) \<Rightarrow> 't PairingTarget \<Rightarrow> 't list \<Rightarrow> 't list \<Rightarrow> StateSnapshot option \<Rightarrow> u64 \<Rightarrow> f64 \<Rightarrow> f64 option" where
  "pairing_regret_targets ex T prefill_pool decode_pool snapshot prompt_tokens transfer_penalty =
     (if prefill_pool = [] \<or> decode_pool = [] then Some 0
      else do { pf \<leftarrow> select_prefill_target T prefill_pool snapshot prompt_tokens;
                dc \<leftarrow> select_decode_target T (pt_label T pf) decode_pool snapshot prompt_tokens transfer_penalty [];
                let blocks = default_routing_blocks prompt_tokens;
                let greedy_c = joint_ln_targets T pf dc snapshot blocks transfer_penalty [];
                let oracle_c = oracle_cost T prefill_pool decode_pool snapshot blocks transfer_penalty;
                Some (ex (greedy_c - oracle_c) - 1) })"

section \<open>Scored backends as targets\<close>

definition pool_discounts :: "StateSnapshot option \<Rightarrow> bool \<Rightarrow> hashing \<Rightarrow> string \<Rightarrow> u64 list \<Rightarrow> Discount list" where
  "pool_discounts snapshot decode_pool h l blocks =
     (case snapshot of None \<Rightarrow> []
      | Some snap \<Rightarrow>
          (case plain_discount (pool_hit_strength h snap decode_pool l blocks None) of Some d \<Rightarrow> [d] | None \<Rightarrow> []))"

definition prefill_cost :: "(f64 \<Rightarrow> f64) \<Rightarrow> hashing \<Rightarrow> ScoredBackend \<Rightarrow> StateSnapshot option \<Rightarrow> u64 list \<Rightarrow> Cost \<times> clamp_events" where
  "prefill_cost lg h b snapshot blocks = base_cost lg b [] (pool_discounts snapshot False h (sb_label b) blocks)"

text \<open>The buffer of a decode cost: the extra barriers, then the transfer penalty when the pools differ.\<close>

definition decode_barriers :: "BarrierFactor list \<Rightarrow> string \<Rightarrow> string \<Rightarrow> f64 \<Rightarrow> BarrierFactor list" where
  "decode_barriers extra_barriers prefill_label l transfer_penalty =
     (let buf = replicate MAX_SERVICE_BARRIERS (plain_barrier 1);
          ((buf, len), ev) = append_barriers_fail_expensive buf 0 extra_barriers 0;
          ((buf, len), ev) =
            (if prefill_label \<noteq> l
             then append_barriers_fail_expensive buf len [plain_barrier (fmax transfer_penalty 1)] ev
             else ((buf, len), ev))
      in take len buf)"

definition decode_cost ::
    "(f64 \<Rightarrow> f64) \<Rightarrow> hashing \<Rightarrow> ScoredBackend \<Rightarrow> StateSnapshot option \<Rightarrow> u64 list \<Rightarrow> string \<Rightarrow> f64 \<Rightarrow> BarrierFactor list \<Rightarrow> Cost \<times> clamp_events" where
  "decode_cost lg h b snapshot blocks prefill_label transfer_penalty extra_barriers =
     base_cost lg b (decode_barriers extra_barriers prefill_label (sb_label b) transfer_penalty)
       (pool_discounts snapshot True h (sb_label b) blocks)"

definition scored_target :: "(f64 \<Rightarrow> f64) \<Rightarrow> hashing \<Rightarrow> ScoredBackend PairingTarget" where
  "scored_target lg h =
     \<lparr>pt_label = sb_label,
      prefill_ln = (\<lambda>snapshot blocks b. plain_cost (prefill_cost lg h b snapshot blocks)),
      decode_ln = (\<lambda>snapshot blocks prefill_label transfer_penalty extra b.
        plain_cost (decode_cost lg h b snapshot blocks prefill_label transfer_penalty extra))\<rparr>"

definition select_prefill :: "(f64 \<Rightarrow> f64) \<Rightarrow> hashing \<Rightarrow> ScoredBackend list \<Rightarrow> StateSnapshot option \<Rightarrow> u64 \<Rightarrow> ScoredBackend option" where
  "select_prefill lg h candidates snapshot prompt_tokens =
     select_prefill_target (scored_target lg h) candidates snapshot prompt_tokens"

definition select_decode ::
    "(f64 \<Rightarrow> f64) \<Rightarrow> hashing \<Rightarrow> ScoredBackend \<Rightarrow> ScoredBackend list \<Rightarrow> StateSnapshot option \<Rightarrow> u64 \<Rightarrow> f64 \<Rightarrow> ScoredBackend option" where
  "select_decode lg h pf candidates snapshot prompt_tokens transfer_penalty =
     select_decode_target (scored_target lg h) (sb_label pf) candidates snapshot prompt_tokens transfer_penalty []"

definition oracle_pair ::
    "(f64 \<Rightarrow> f64) \<Rightarrow> hashing \<Rightarrow> ScoredBackend list \<Rightarrow> ScoredBackend list \<Rightarrow> StateSnapshot option \<Rightarrow> u64 \<Rightarrow> f64
       \<Rightarrow> (ScoredBackend \<times> ScoredBackend) option" where
  "oracle_pair lg h prefill_pool decode_pool snapshot prompt_tokens transfer_penalty =
     (let blocks = default_routing_blocks prompt_tokens
      in map_option snd (foldl (\<lambda>best pf. foldl (\<lambda>best dc.
           let l = joint_ln_targets (scored_target lg h) pf dc snapshot blocks transfer_penalty []
           in if (case best of None \<Rightarrow> True | Some (b, _) \<Rightarrow> flt l b) then Some (l, pf, dc) else best)
           best decode_pool) None prefill_pool))"

definition greedy_pair ::
    "(f64 \<Rightarrow> f64) \<Rightarrow> hashing \<Rightarrow> ScoredBackend list \<Rightarrow> ScoredBackend list \<Rightarrow> StateSnapshot option \<Rightarrow> u64 \<Rightarrow> f64
       \<Rightarrow> (ScoredBackend \<times> ScoredBackend) option" where
  "greedy_pair lg h prefill_pool decode_pool snapshot prompt_tokens transfer_penalty =
     do { pf \<leftarrow> select_prefill lg h prefill_pool snapshot prompt_tokens;
          dc \<leftarrow> select_decode lg h pf decode_pool snapshot prompt_tokens transfer_penalty;
          Some (pf, dc) }"

definition pairing_regret ::
    "(f64 \<Rightarrow> f64) \<Rightarrow> (f64 \<Rightarrow> f64) \<Rightarrow> hashing \<Rightarrow> ScoredBackend list \<Rightarrow> ScoredBackend list \<Rightarrow> StateSnapshot option \<Rightarrow> u64 \<Rightarrow> f64 \<Rightarrow> f64 option" where
  "pairing_regret ex lg h = pairing_regret_targets ex (scored_target lg h)"

section \<open>Greedy against oracle\<close>

lemma fmin_le: "a \<noteq> NaN \<Longrightarrow> b \<noteq> NaN \<Longrightarrow> fmin a b \<noteq> NaN \<and> fmin a b \<le> a \<and> fmin a b \<le> b"
  by (auto simp: fmin_def flt_def)

lemma foldl_fmin:
  assumes "\<forall>x \<in> set xs. f x \<noteq> NaN" "a \<noteq> NaN"
  shows "foldl (\<lambda>a x. fmin a (f x)) a xs \<noteq> NaN
    \<and> foldl (\<lambda>a x. fmin a (f x)) a xs \<le> a
    \<and> foldl (\<lambda>a x. fmin a (f x)) a xs \<in> insert a (f ` set xs)
    \<and> (\<forall>x \<in> set xs. foldl (\<lambda>a x. fmin a (f x)) a xs \<le> f x)"
  using assms
proof (induction xs arbitrary: a)
  case (Cons x xs)
  have m: "fmin a (f x) \<noteq> NaN" "fmin a (f x) \<le> a" "fmin a (f x) \<le> f x" using fmin_le [of a "f x"] Cons.prems by auto
  moreover have "fmin a (f x) \<in> {a, f x}" by (simp add: fmin_def)
  ultimately show ?case using Cons.IH [of "fmin a (f x)"] Cons.prems by fastforce
qed simp

lemma foldl_foldl_concat: "foldl (\<lambda>a p. foldl (\<lambda>a d. g a p d) a ds) z ps = foldl (\<lambda>a (p, d). g a p d) z (List.product ps ds)"
proof (induction ps arbitrary: z)
  case (Cons p ps)
  have "foldl (\<lambda>a (p, d). g a p d) z (map (Pair p) ds) = foldl (\<lambda>a d. g a p d) z ds" by (induction ds arbitrary: z) auto
  then show ?case using Cons by simp
qed simp

text \<open>
  The contract of a pairing target: its log-costs are finite and far from the overflow threshold.
  Every instance of the trait satisfies it; the greedy choice can then be compared with the oracle.
\<close>

definition moderate :: "f64 \<Rightarrow> bool" where
  "moderate v \<longleftrightarrow> (\<exists>x. v = Fin x \<and> \<bar>x\<bar> \<le> 2 ^ 50)"

locale pairing_costs =
  fixes T :: "'t PairingTarget" and ok :: "'t \<Rightarrow> bool"
  assumes prefill_moderate: "ok t \<Longrightarrow> moderate (prefill_ln T snapshot blocks t)"
    and decode_moderate: "ok t \<Longrightarrow> f64_ok pen \<Longrightarrow> moderate (decode_ln T snapshot blocks l pen [] t)"
begin

lemma joint_Fin: "ok p \<Longrightarrow> ok d \<Longrightarrow> f64_ok pen \<Longrightarrow> \<exists>x. joint_ln_targets T p d snapshot blocks pen [] = Fin x \<and> \<bar>x\<bar> \<le> 2 ^ 51"
  using prefill_moderate [of p snapshot blocks] decode_moderate [of d pen snapshot blocks "pt_label T p"]
    Fin_plus_bound [of _ "2 ^ 50" _ "2 ^ 50"]
  by (auto simp: joint_ln_targets_def moderate_def)

lemma oracle_le:
  assumes "list_all ok ps" "list_all ok ds" "f64_ok pen" "p \<in> set ps" "d \<in> set ds"
  shows "oracle_cost T ps ds snapshot blocks pen \<le> joint_ln_targets T p d snapshot blocks pen []"
    "\<exists>x. oracle_cost T ps ds snapshot blocks pen = Fin x \<and> \<bar>x\<bar> \<le> 2 ^ 51"
proof -
  let ?f = "\<lambda>(p, d). joint_ln_targets T p d snapshot blocks pen []"
  have "\<forall>x \<in> set (List.product ps ds). ?f x \<noteq> NaN"
  proof (clarify)
    fix p d assume "(p, d) \<in> set (List.product ps ds)" "joint_ln_targets T p d snapshot blocks pen [] = NaN"
    moreover from this have "ok p" "ok d" using assms(1,2) by (auto simp: list_all_iff)
    ultimately show False using joint_Fin [of p d pen snapshot blocks] assms(3) by auto
  qed
  moreover have "oracle_cost T ps ds snapshot blocks pen = foldl (\<lambda>a x. fmin a (?f x)) (Infinity False) (List.product ps ds)"
    by (simp add: oracle_cost_def foldl_foldl_concat split_def)
  moreover have "(p, d) \<in> set (List.product ps ds)" using assms(4,5) by simp
  ultimately have o: "oracle_cost T ps ds snapshot blocks pen \<le> ?f (p, d)"
    "oracle_cost T ps ds snapshot blocks pen \<in> insert (Infinity False) (?f ` set (List.product ps ds))"
    using foldl_fmin [of "List.product ps ds" ?f "Infinity False"] by (metis f64.distinct(1))+
  then show "oracle_cost T ps ds snapshot blocks pen \<le> joint_ln_targets T p d snapshot blocks pen []" by simp
  have "ok p" "ok d" using assms by (auto simp: list_all_iff)
  then obtain g where "?f (p, d) = Fin g" using joint_Fin [of p d pen snapshot blocks] assms(3) by auto
  then have "oracle_cost T ps ds snapshot blocks pen \<noteq> Infinity False" using o(1) by auto
  then obtain p' d' where "p' \<in> set ps" "d' \<in> set ds" "oracle_cost T ps ds snapshot blocks pen = ?f (p', d')" using o(2) by auto
  then show "\<exists>x. oracle_cost T ps ds snapshot blocks pen = Fin x \<and> \<bar>x\<bar> \<le> 2 ^ 51"
    using joint_Fin [of p' d' pen snapshot blocks] assms(1-3) by (auto simp: list_all_iff)
qed

text \<open>The regret of the greedy pair is never negative.\<close>

lemma regret_nonneg:
  assumes ps: "list_all ok ps" and ds: "list_all ok ds" and pen: "f64_ok pen"
    and ex: "\<And>x. 0 \<le> x \<Longrightarrow> Fin 1 \<le> ex (Fin x) \<and> ex (Fin x) \<noteq> NaN"
  shows "\<exists>r. pairing_regret_targets ex T ps ds snapshot tokens pen = Some r \<and> r \<noteq> NaN \<and> Fin 0 \<le> r"
proof (cases "ps = [] \<or> ds = []")
  case True
  then show ?thesis by (auto simp: pairing_regret_targets_def)
next
  case False
  let ?b = "default_routing_blocks tokens"
  obtain pf where pf: "select_prefill_target T ps snapshot tokens = Some pf" "pf \<in> set ps"
    using False min_by_Some_ex [of ps] min_by_in_set unfolding select_prefill_target_def Let_def by metis
  obtain dc where dc: "select_decode_target T (pt_label T pf) ds snapshot tokens pen [] = Some dc" "dc \<in> set ds"
    using False min_by_Some_ex [of ds] min_by_in_set unfolding select_decode_target_def Let_def by metis
  obtain g where g: "joint_ln_targets T pf dc snapshot ?b pen [] = Fin g" "\<bar>g\<bar> \<le> 2 ^ 51"
    using joint_Fin [of pf dc pen snapshot ?b] pf dc ps ds pen by (auto simp: list_all_iff)
  obtain q where q: "oracle_cost T ps ds snapshot ?b pen = Fin q" "\<bar>q\<bar> \<le> 2 ^ 51" "q \<le> g"
    using oracle_le [OF ps ds pen pf(2) dc(2), of snapshot ?b] g(1) by auto
  have "\<bar>g\<bar> \<le> real (2 ^ 51)" "\<bar>- q\<bar> \<le> real (2 ^ 51)" using g(2) q(2) by simp_all
  then obtain z where z: "Fin g + Fin (- q) = Fin z" using Fin_plus_bound [of g "2 ^ 51" "- q" "2 ^ 51"] by auto
  have "Fin 0 \<le> mk64 (g - q)" using mk64_mono [of 0 "g - q"] q(3) by simp
  then have "0 \<le> z" using z by simp
  then have e: "Fin 1 \<le> ex (Fin z)" "ex (Fin z) \<noteq> NaN" using ex by auto
  have "Fin 0 \<le> ex (Fin z) - 1 \<and> ex (Fin z) - 1 \<noteq> NaN"
    using e mk64_mono [of 0] by (cases "ex (Fin z)" rule: f64_cases4) (auto simp: minus_f64_def)
  then show ?thesis using False pf dc g q z by (simp add: pairing_regret_targets_def minus_f64_def)
qed

end

section \<open>Scored backends satisfy the contract\<close>

lemma ln_within_moderate: "ln_within k v \<Longrightarrow> k \<le> 2 ^ 20 \<Longrightarrow> moderate v"
proof -
  assume k: "ln_within k v" "k \<le> 2 ^ 20"
  then obtain r where r: "v = Fin r" "\<bar>r\<bar> \<le> real (1074 * k)" by (auto simp: ln_within_def)
  have "1074 * k \<le> 2 ^ 50" using k(2) by simp
  then have "real (1074 * k) \<le> 2 ^ 50" by (metis of_nat_le_iff of_nat_numeral of_nat_power)
  then show "moderate v" using r by (auto simp: moderate_def)
qed

lemma moderate_service_cost:
  assumes "libm_ln lg" "f64_ok s" "\<forall>b \<in> set extras. wf_barrier b" "\<forall>d \<in> set ds. wf_discount d" "length ds \<le> 1"
  shows "moderate (plain_cost (service_cost lg s n extras ds ev))"
proof -
  obtain ev' where e: "service_cost lg s n extras ds ev =
     compose lg (fst (TimeCore_clamped s 0)) (service_barriers n extras) ds Corrector_identity ev'"
    using service_cost_compose by blast
  have len: "length (service_barriers n extras) \<le> 16"
    using wf_service_barriers(2) [OF assms(3)] by (simp add: MAX_SERVICE_BARRIERS_def)
  note c = libm_ln.compose_uniform [OF assms(1) wf_TimeCore_clamped [OF assms(2)] wf_service_barriers(1) [OF assms(3)]
      assms(4) wf_Corrector_identity]
  show ?thesis unfolding e plain_cost_def
    using c(1) [of n 0 ev'] ln_within_moderate [OF c(2) [of n 0]] len assms(5) by simp
qed

lemma wf_plain_barrier: "f64_ok x \<Longrightarrow> wf_barrier (plain_barrier x)"
  by (simp add: plain_barrier_def wf_BarrierFactor_clamped)

lemma hit_strength_ok: "f64_ok (hit_strength m blocks)"
  by (simp add: hit_strength_def Let_def)

lemma wf_plain_discount: "f64_ok v \<Longrightarrow> plain_discount v = Some d \<Longrightarrow> wf_discount d"
  using wf_Discount_clamped [of "1 - fclamp v 0 1 * WARMTH_MAX_DISCOUNT" 0]
  by (auto simp: plain_discount_def warmth_discount_def Let_def split_def split: if_splits)

lemma pool_hit_strength_ok: "f64_ok (pool_hit_strength h s dp l blocks isol)"
  by (auto simp: pool_hit_strength_def Let_def hit_strength_ok gated_hit_strength_def hit_strength_salted_def
      split: option.splits)

lemma pool_discounts_ok: "\<forall>d \<in> set (pool_discounts snapshot dp h l blocks). wf_discount d" "length (pool_discounts snapshot dp h l blocks) \<le> Suc 0"
  using wf_plain_discount [OF pool_hit_strength_ok]
  by (auto simp: pool_discounts_def split: option.splits)

lemma decode_barriers_plain:
  "decode_barriers [] pl l pen = (if pl \<noteq> l then [plain_barrier (fmax pen 1)] else [])"
  by (simp add: decode_barriers_def MAX_SERVICE_BARRIERS_def numeral_eq_Suc)

definition scored_ok :: "ScoredBackend \<Rightarrow> bool" where
  "scored_ok b \<longleftrightarrow> f64_ok (sb_base_service_seconds b)"

lemma scored_costs: "libm_ln lg \<Longrightarrow> pairing_costs (scored_target lg h) scored_ok"
  by unfold_locales
    (auto simp: scored_target_def scored_ok_def prefill_cost_def decode_cost_def base_cost_def decode_barriers_plain
      pool_discounts_ok wf_plain_barrier ok_fmax simp del: one_f64_def intro!: moderate_service_cost)

interpretation scored: pairing_costs "scored_target cr_ln h" scored_ok for h
  by (rule scored_costs) (rule cr.libm_ln_axioms)

section \<open>Properties\<close>

text \<open>The shadow monitor is sound: for any two pools the regret of the greedy pair against the best
  pair is defined and never negative, and zero when a pool is empty.  Of the exponential it is used
  only that it is at least one on non-negative arguments.\<close>

theorem pairing_regret_nonneg:
  assumes "libm_ln lg" "\<And>x. 0 \<le> x \<Longrightarrow> Fin 1 \<le> ex (Fin x) \<and> ex (Fin x) \<noteq> NaN"
    and "list_all scored_ok ps" "list_all scored_ok ds" "f64_ok pen"
  shows "\<exists>r. pairing_regret ex lg h ps ds snapshot tokens pen = Some r \<and> r \<noteq> NaN \<and> Fin 0 \<le> r
    \<and> (ps = [] \<or> ds = [] \<longrightarrow> r = 0)"
  using pairing_costs.regret_nonneg [where ex = ex, OF scored_costs [OF assms(1)] assms(3-5,2), of h snapshot tokens]
  by (auto simp: pairing_regret_def pairing_regret_targets_def)

text \<open>A correctly rounded exponential.\<close>

fun cr_exp :: "f64 \<Rightarrow> f64" where
  "cr_exp (Fin x) = mk64 (exp x)"
| "cr_exp (Infinity s) = (if s then Fin 0 else Infinity s)"
| "cr_exp NaN = NaN"

lemma cr_exp_ge_1: "0 \<le> x \<Longrightarrow> Fin 1 \<le> cr_exp (Fin x) \<and> cr_exp (Fin x) \<noteq> NaN"
  using mk64_mono [of 1 "exp x"] mk64_repr [OF repr64_1] by simp

theorem pairing_regret_nonneg_witness:
  "\<forall>h. \<exists>r. pairing_regret cr_exp cr_ln h [ScoredBackend_new ''pf0'' ''a'' (Fin 1)] [ScoredBackend_new ''dc0'' ''b'' (Fin 1)] None 512 (Fin 1)
      = Some r \<and> Fin 0 \<le> r"
proof
  fix h
  show "\<exists>r. pairing_regret cr_exp cr_ln h [ScoredBackend_new ''pf0'' ''a'' (Fin 1)] [ScoredBackend_new ''dc0'' ''b'' (Fin 1)] None 512 (Fin 1)
      = Some r \<and> Fin 0 \<le> r"
  using pairing_regret_nonneg [where ex = cr_exp, OF cr.libm_ln_axioms cr_exp_ge_1,
      of "[ScoredBackend_new ''pf0'' ''a'' (Fin 1)]" "[ScoredBackend_new ''dc0'' ''b'' (Fin 1)]" "Fin 1" h None 512]
  by (auto simp: scored_ok_def ScoredBackend_new_def)
qed

end
