(* ===== verification/Text.thy ===== *)
theory Text
  imports Prelude
begin

text \<open>
  The text functions of the standard library that the sources call: byte-string helpers
  (\<open>is_ascii_whitespace\<close>, \<open>eq_ignore_ascii_case\<close>, \<open>split\<close>, \<open>windows\<close>), \<open>String::from_utf8_lossy\<close>,
  and on decoded text \<open>lines\<close>, \<open>trim\<close>, \<open>to_ascii_lowercase\<close>, \<open>strip_prefix\<close>, \<open>parse::<u64>\<close> and
  \<open>from_str_radix\<close>.  Bytes are \<open>u8\<close>; decoded text is a list of Unicode scalar values.
\<close>

section \<open>Bytes\<close>

type_synonym bytes = "u8 list"

definition ascii :: "string \<Rightarrow> bytes" where
  "ascii s = map (\<lambda>c. of_nat (of_char c)) s"

definition is_ascii_whitespace :: "u8 \<Rightarrow> bool" where
  "is_ascii_whitespace b \<longleftrightarrow> b = 32 \<or> b = 9 \<or> b = 10 \<or> b = 12 \<or> b = 13"

definition is_ascii_digit :: "u8 \<Rightarrow> bool" where
  "is_ascii_digit b \<longleftrightarrow> 48 \<le> b \<and> b \<le> 57"

definition to_ascii_lower :: "u8 \<Rightarrow> u8" where
  "to_ascii_lower b = (if 65 \<le> b \<and> b \<le> 90 then b + 32 else b)"

text \<open>\<open>slice::strip_prefix\<close>, \<open>strip_suffix\<close>, \<open>starts_with\<close>, \<open>ends_with\<close>.\<close>

fun strip_prefix :: "'a list \<Rightarrow> 'a list \<Rightarrow> 'a list option" where
  "strip_prefix [] xs = Some xs"
| "strip_prefix (p # ps) (x # xs) = (if p = x then strip_prefix ps xs else None)"
| "strip_prefix (p # ps) [] = None"

definition strip_suffix :: "'a list \<Rightarrow> 'a list \<Rightarrow> 'a list option" where
  "strip_suffix s xs = map_option rev (strip_prefix (rev s) (rev xs))"

definition starts_with :: "'a list \<Rightarrow> 'a list \<Rightarrow> bool" where
  "starts_with p xs \<longleftrightarrow> strip_prefix p xs \<noteq> None"

definition ends_with :: "'a list \<Rightarrow> 'a list \<Rightarrow> bool" where
  "ends_with s xs \<longleftrightarrow> strip_suffix s xs \<noteq> None"

text \<open>\<open>slice::split\<close> on a predicate: \<open>n\<close> separators give \<open>n + 1\<close> pieces.\<close>

fun split_on :: "('a \<Rightarrow> bool) \<Rightarrow> 'a list \<Rightarrow> 'a list list" where
  "split_on P [] = [[]]"
| "split_on P (x # xs) =
     (if P x then [] # split_on P xs
      else (case split_on P xs of [] \<Rightarrow> [[x]] | y # ys \<Rightarrow> (x # y) # ys))"

text \<open>First index at which a pattern occurs (\<open>windows(n).position(..)\<close>).\<close>

fun find_sub :: "'a list \<Rightarrow> 'a list \<Rightarrow> nat option" where
  "find_sub pat [] = (if pat = [] then Some 0 else None)"
| "find_sub pat (x # xs) = (if starts_with pat (x # xs) then Some 0 else map_option Suc (find_sub pat xs))"

lemma strip_prefix_Some: "strip_prefix p xs = Some r \<longleftrightarrow> xs = p @ r"
  by (induction p xs rule: strip_prefix.induct) auto

lemma starts_with_iff: "starts_with p xs \<longleftrightarrow> (\<exists>r. xs = p @ r)"
  using strip_prefix_Some by (auto simp: starts_with_def)

lemma strip_suffix_Some: "strip_suffix s xs = Some r \<longleftrightarrow> xs = r @ s"
proof -
  have "strip_suffix s xs = Some r \<longleftrightarrow> strip_prefix (rev s) (rev xs) = Some (rev r)"
    by (cases "strip_prefix (rev s) (rev xs)") (auto simp: strip_suffix_def)
  also have "\<dots> \<longleftrightarrow> xs = r @ s" by (metis strip_prefix_Some rev_append rev_rev_ident)
  finally show ?thesis .
qed

lemma split_on_nonempty [simp]: "split_on P xs \<noteq> []"
  by (induction xs) (auto split: list.splits)

lemma split_on_cons:
  "split_on P xs = takeWhile (\<lambda>x. \<not> P x) xs #
     (case dropWhile (\<lambda>x. \<not> P x) xs of [] \<Rightarrow> [] | _ # ys \<Rightarrow> split_on P ys)"
  by (induction xs) auto

text \<open>Pieces put together with a separator, and split again.\<close>

fun join :: "'a \<Rightarrow> 'a list list \<Rightarrow> 'a list" where
  "join sep [] = []"
| "join sep [x] = x"
| "join sep (x # y # ys) = x @ sep # join sep (y # ys)"

lemma split_on_append: "\<forall>c \<in> set x. \<not> P c \<Longrightarrow> P sep \<Longrightarrow> split_on P (x @ sep # ys) = x # split_on P ys"
  by (induction x) auto

lemma split_on_plain: "\<forall>c \<in> set x. \<not> P c \<Longrightarrow> split_on P x = [x]"
  by (induction x) auto

lemma split_on_join: "xs \<noteq> [] \<Longrightarrow> \<forall>x \<in> set xs. \<forall>c \<in> set x. \<not> P c \<Longrightarrow> P sep \<Longrightarrow> split_on P (join sep xs) = xs"
  by (induction sep xs rule: join.induct) (simp_all add: split_on_append split_on_plain)

text \<open>\<open>str::replace\<close> of one character.\<close>

definition replace_char :: "'a \<Rightarrow> 'a list \<Rightarrow> 'a list \<Rightarrow> 'a list" where
  "replace_char c r s = concat (map (\<lambda>x. if x = c then r else [x]) s)"

lemma replace_char_simps [simp]:
  "replace_char c r [] = []"
  "replace_char c r (x # xs) = (if x = c then r else [x]) @ replace_char c r xs"
  "replace_char c r (xs @ ys) = replace_char c r xs @ replace_char c r ys"
  by (simp_all add: replace_char_def)

lemma find_sub_sound: "find_sub pat xs = Some i \<Longrightarrow> \<exists>r. xs = take i xs @ pat @ r \<and> i \<le> length xs"
proof (induction xs arbitrary: i)
  case Nil
  then show ?case by (auto split: if_splits)
next
  case (Cons x xs)
  then show ?case by (auto simp: starts_with_iff split: if_splits)
qed

lemma find_sub_append: "find_sub pat xs = Some i \<Longrightarrow> find_sub pat (xs @ ys) = Some i"
proof (induction xs arbitrary: i)
  case Nil
  then have "i = 0" "pat = []" by (auto split: if_splits)
  then show ?case by (cases ys) (auto simp: starts_with_def)
next
  case (Cons x xs)
  show ?case
  proof (cases "starts_with pat (x # xs)")
    case True
    then have "starts_with pat (x # xs @ ys)" by (auto simp: starts_with_iff) (metis append_Cons append_assoc)
    then show ?thesis using True Cons.prems by simp
  next
    case False
    then obtain j where j: "find_sub pat xs = Some j" "i = Suc j" using Cons.prems by auto
    then obtain r where r: "xs = take j xs @ pat @ r" using find_sub_sound by metis
    have "\<not> starts_with pat (x # xs @ ys)"
    proof
      assume "starts_with pat (x # xs @ ys)"
      then obtain t where t: "x # xs @ ys = pat @ t" by (auto simp: starts_with_iff)
      have "length pat \<le> length (x # xs)" using arg_cong [OF r, of length] by simp
      then have "x # xs = pat @ drop (length pat) (x # xs)"
        using t by (metis append_Cons append_eq_append_conv_if append_take_drop_id)
      then show False using False by (metis starts_with_iff)
    qed
    then show ?thesis using j Cons.IH by simp
  qed
qed

section \<open>UTF-8\<close>

text \<open>
  \<open>String::from_utf8_lossy\<close>: well-formed sequences are decoded, every maximal ill-formed
  subsequence becomes one U+FFFD.  \<open>utf8_next\<close> returns the scalar value and the number of
  bytes consumed.
\<close>

definition cont :: "nat \<Rightarrow> bool" where
  "cont b \<longleftrightarrow> 128 \<le> b \<and> b \<le> 191"

definition utf8_next :: "nat \<Rightarrow> nat list \<Rightarrow> nat \<times> nat" where
  "utf8_next b rest =
     (if b < 128 then (b, 1)
      else if 194 \<le> b \<and> b \<le> 223 then
        (case rest of c # _ \<Rightarrow> if cont c then ((b - 192) * 64 + (c - 128), 2) else (65533, 1) | [] \<Rightarrow> (65533, 1))
      else if 224 \<le> b \<and> b \<le> 239 then
        (case rest of
           c # more \<Rightarrow>
             if (if b = 224 then 160 \<le> c \<and> c \<le> 191 else if b = 237 then 128 \<le> c \<and> c \<le> 159 else cont c) then
               (case more of d # _ \<Rightarrow>
                    if cont d then ((b - 224) * 4096 + (c - 128) * 64 + (d - 128), 3) else (65533, 2)
                | [] \<Rightarrow> (65533, 2))
             else (65533, 1)
         | [] \<Rightarrow> (65533, 1))
      else if 240 \<le> b \<and> b \<le> 244 then
        (case rest of
           c # more \<Rightarrow>
             if (if b = 240 then 144 \<le> c \<and> c \<le> 191 else if b = 244 then 128 \<le> c \<and> c \<le> 143 else cont c) then
               (case more of
                  d # more2 \<Rightarrow>
                    if cont d then
                      (case more2 of e # _ \<Rightarrow>
                           if cont e
                           then ((b - 240) * 262144 + (c - 128) * 4096 + (d - 128) * 64 + (e - 128), 4)
                           else (65533, 3)
                       | [] \<Rightarrow> (65533, 3))
                    else (65533, 2)
                | [] \<Rightarrow> (65533, 2))
             else (65533, 1)
         | [] \<Rightarrow> (65533, 1))
      else (65533, 1))"

fun utf8_lossy_nat :: "nat \<Rightarrow> nat list \<Rightarrow> nat list" where
  "utf8_lossy_nat 0 bs = []"
| "utf8_lossy_nat (Suc fuel) [] = []"
| "utf8_lossy_nat (Suc fuel) (b # bs) =
     (let (u, n) = utf8_next b bs in u # utf8_lossy_nat fuel (drop (n - 1) bs))"

definition from_utf8_lossy :: "bytes \<Rightarrow> nat list" where
  "from_utf8_lossy bs = utf8_lossy_nat (length bs) (map unat bs)"

lemma utf8_ascii_nat: "length bs \<le> n \<Longrightarrow> \<forall>b\<in>set bs. b < 128 \<Longrightarrow> utf8_lossy_nat n bs = bs"
  by (induction n bs rule: utf8_lossy_nat.induct) (auto simp: utf8_next_def)

text \<open>ASCII bytes are decoded one by one.\<close>

lemma utf8_ascii: "\<forall>b\<in>set bs. unat b < 128 \<Longrightarrow> from_utf8_lossy bs = map unat bs"
  by (simp add: from_utf8_lossy_def utf8_ascii_nat)

section \<open>Decoded text\<close>

type_synonym utext = "nat list"

definition of_ascii :: "string \<Rightarrow> utext" where
  "of_ascii s = map of_char s"

definition is_whitespace :: "nat \<Rightarrow> bool" where
  "is_whitespace c \<longleftrightarrow> (9 \<le> c \<and> c \<le> 13) \<or> c = 32 \<or> c = 133 \<or> c = 160 \<or> c = 5760 \<or> (8192 \<le> c \<and> c \<le> 8202)
     \<or> c = 8232 \<or> c = 8233 \<or> c = 8239 \<or> c = 8287 \<or> c = 12288"

definition trim :: "utext \<Rightarrow> utext" where
  "trim t = rev (dropWhile is_whitespace (rev (dropWhile is_whitespace t)))"

definition lower :: "utext \<Rightarrow> utext" where
  "lower t = map (\<lambda>c. if 65 \<le> c \<and> c \<le> 90 then c + 32 else c) t"

text \<open>\<open>str::lines\<close>: the last piece is dropped when empty, one trailing carriage return is stripped.\<close>

definition strip_cr :: "utext \<Rightarrow> utext" where
  "strip_cr l = (case strip_suffix [13] l of Some l' \<Rightarrow> l' | None \<Rightarrow> l)"

definition lines :: "utext \<Rightarrow> utext list" where
  "lines t =
     (let ps = split_on (\<lambda>c. c = 10) t
      in map strip_cr (butlast ps) @ (if last ps = [] then [] else [last ps]))"

text \<open>\<open>str::parse::<u64>\<close> and \<open>u64::from_str_radix\<close>: an optional plus sign, at least one digit.\<close>

definition digit_value :: "nat \<Rightarrow> nat \<Rightarrow> nat option" where
  "digit_value radix c =
     (let v = (if 48 \<le> c \<and> c \<le> 57 then c - 48
               else if 97 \<le> c \<and> c \<le> 122 then c - 87
               else if 65 \<le> c \<and> c \<le> 90 then c - 55
               else 99)
      in if v < radix then Some v else None)"

fun digits_value :: "nat \<Rightarrow> u64 \<Rightarrow> utext \<Rightarrow> u64 option" where
  "digits_value radix acc [] = Some acc"
| "digits_value radix acc (c # cs) =
     do { d \<leftarrow> digit_value radix c;
          m \<leftarrow> checked_mul acc (of_nat radix);
          a \<leftarrow> checked_add m (of_nat d);
          digits_value radix a cs }"

definition from_str_radix :: "nat \<Rightarrow> utext \<Rightarrow> u64 option" where
  "from_str_radix radix t =
     (let ds = (case t of [] \<Rightarrow> [] | c # cs \<Rightarrow> if c = 43 then cs else t)
      in if ds = [] then None else digits_value radix 0 ds)"

definition parse_u64 :: "utext \<Rightarrow> u64 option" where
  "parse_u64 t = from_str_radix 10 t"

section \<open>Escaping\<close>

text \<open>The contract of an escape that works character by character: no character vanishes and the replacements
  form a prefix-free code.  Escaped text then determines the text.\<close>

locale escape_code =
  fixes esc :: "'a \<Rightarrow> 'a list"
  assumes esc_nonempty: "esc c \<noteq> []"
    and esc_prefix_free: "esc c @ xs = esc d @ ys \<Longrightarrow> c = d \<and> xs = ys"
begin

lemma escaped_inj: "concat (map esc s) = concat (map esc t) \<Longrightarrow> s = t"
proof (induction s arbitrary: t)
  case Nil
  then show ?case using esc_nonempty by (cases t) auto
next
  case (Cons c s)
  then obtain x t' where t: "t = x # t'" using esc_nonempty by (cases t) auto
  then have "c = x \<and> concat (map esc s) = concat (map esc t')" using Cons.prems esc_prefix_free [of c _ x] by simp
  then show ?case using Cons.IH t by blast
qed

end

end
