(* ===== verification/Dataplane.thy ===== *)
theory Dataplane
  imports Params Text
begin

text \<open>
  The data plane (\<open>crates/demiurge-dataplane\<close>): the admission bucket with its compare-and-swap
  loops as a step relation over threads (\<open>admission.rs\<close>), the choice between the userspace bucket
  and the kernel shed (\<open>admit_mode.rs\<close>), the published routing snapshot (\<open>rcu.rs\<close>), the decision of
  the forwarder (\<open>forwarder.rs\<close>) and the configuration of the kernel shed (\<open>xdp.rs\<close>).  The wall
  clock in milliseconds and the environment are arguments.
\<close>

section \<open>Admission bucket\<close>

datatype ShedReason = BucketExhausted

definition ShedReason_fmt :: "ShedReason \<Rightarrow> string" where
  "ShedReason_fmt r = (case r of BucketExhausted \<Rightarrow> ''admit bucket exhausted'')"

record AdmitBucket =
  tokens :: u64
  ab_capacity :: u64
  ab_shed_total :: u64

definition AdmitBucket_new :: "u64 \<Rightarrow> AdmitBucket" where
  "AdmitBucket_new cap0 = (let cap = max cap0 1 in \<lparr>tokens = cap, ab_capacity = cap, ab_shed_total = 0\<rparr>)"

definition available :: "AdmitBucket \<Rightarrow> u64" where
  "available b = tokens b"

text \<open>
  One call without interference.  \<open>try_admit\<close>, \<open>release\<close> and \<open>reseed\<close> below are what a thread does
  when no other thread runs between its load and its exchange.
\<close>

definition try_admit :: "AdmitBucket \<Rightarrow> (ShedReason + unit) \<times> AdmitBucket" where
  "try_admit b =
     (if tokens b = 0 then (Inl BucketExhausted, b\<lparr>ab_shed_total := ab_shed_total b + 1\<rparr>)
      else (Inr (), b\<lparr>tokens := tokens b - 1\<rparr>))"

definition release :: "u64 \<Rightarrow> AdmitBucket \<Rightarrow> AdmitBucket" where
  "release n b = (if n = 0 then b else b\<lparr>tokens := min (tokens b + n) (ab_capacity b)\<rparr>)"

definition reseed :: "u64 \<Rightarrow> AdmitBucket \<Rightarrow> AdmitBucket" where
  "reseed cap0 b = (let cap = max cap0 1 in b\<lparr>ab_capacity := cap, tokens := cap\<rparr>)"

text \<open>
  The same methods under interleaving: one constructor per point at which the thread is about to
  touch an atomic.  \<open>Admitted\<close> is the state after \<open>Ok(())\<close>, in which the caller holds its guard.
\<close>

datatype admit_pc =
  Idle
| Admit_load
| Admit_shed
| Admit_cas u64
| Admitted
| Release_load u64
| Release_cap u64 u64
| Release_cas u64 u64 u64
| Reseed_capacity u64
| Reseed_tokens u64

definition release_call :: "u64 \<Rightarrow> admit_pc" where
  "release_call n = (if n = 0 then Idle else Release_load n)"

definition reseed_call :: "u64 \<Rightarrow> admit_pc" where
  "reseed_call cap0 = Reseed_capacity (max cap0 1)"

text \<open>One atomic access of a thread; \<open>spurious\<close> lets \<open>compare_exchange_weak\<close> fail without a reason.\<close>

fun atomic_step :: "bool \<Rightarrow> admit_pc \<Rightarrow> AdmitBucket \<Rightarrow> admit_pc \<times> AdmitBucket" where
  "atomic_step spurious Admit_load b =
     (if tokens b = 0 then Admit_shed else Admit_cas (tokens b), b)"
| "atomic_step spurious Admit_shed b = (Idle, b\<lparr>ab_shed_total := ab_shed_total b + 1\<rparr>)"
| "atomic_step spurious (Admit_cas cur) b =
     (if tokens b = cur \<and> \<not> spurious then (Admitted, b\<lparr>tokens := cur - 1\<rparr>) else (Admit_load, b))"
| "atomic_step spurious (Release_load n) b = (Release_cap n (tokens b), b)"
| "atomic_step spurious (Release_cap n cur) b = (Release_cas n cur (min (cur + n) (ab_capacity b)), b)"
| "atomic_step spurious (Release_cas n cur next) b =
     (if tokens b = cur \<and> \<not> spurious then (Idle, b\<lparr>tokens := next\<rparr>) else (Release_load n, b))"
| "atomic_step spurious (Reseed_capacity cap) b = (Reseed_tokens cap, b\<lparr>ab_capacity := cap\<rparr>)"
| "atomic_step spurious (Reseed_tokens cap) b = (Idle, b\<lparr>tokens := cap\<rparr>)"
| "atomic_step spurious Idle b = (Idle, b)"
| "atomic_step spurious Admitted b = (Admitted, b)"

text \<open>
  Connections: any number of threads (named by natural numbers), each of which calls \<open>try_admit\<close> and,
  once admitted, eventually drops its guard, which calls \<open>release(1)\<close> (\<open>AdmitGuard\<close>).
\<close>

type_synonym admit_world = "AdmitBucket \<times> (nat \<Rightarrow> admit_pc)"

inductive conn_step :: "admit_world \<Rightarrow> admit_world \<Rightarrow> bool" where
  call_admit: "pc t = Idle \<Longrightarrow> conn_step (b, pc) (b, pc(t := Admit_load))"
| drop_guard: "pc t = Admitted \<Longrightarrow> conn_step (b, pc) (b, pc(t := release_call 1))"
| atomic: "atomic_step spurious (pc t) b = (p, b') \<Longrightarrow> conn_step (b, pc) (b', pc(t := p))"

inductive bucket_step :: "admit_world \<Rightarrow> admit_world \<Rightarrow> bool" where
  conn: "conn_step w w' \<Longrightarrow> bucket_step w w'"
| call_reseed: "pc t = Idle \<Longrightarrow> bucket_step (b, pc) (b, pc(t := reseed_call cap0))"

definition admit_start :: "u64 \<Rightarrow> admit_world" where
  "admit_start cap0 = (AdmitBucket_new cap0, \<lambda>_. Idle)"

fun holds_token :: "admit_pc \<Rightarrow> bool" where
  "holds_token Admitted = True"
| "holds_token (Release_load n) = True"
| "holds_token (Release_cap n cur) = True"
| "holds_token (Release_cas n cur next) = True"
| "holds_token p = False"

definition holders :: "(nat \<Rightarrow> admit_pc) \<Rightarrow> nat set" where
  "holders pc = {t. holds_token (pc t)}"

section \<open>Admission mode\<close>

datatype AdmitMode = Userspace | KernelXdp | Hybrid

definition AdmitMode_parse :: "utext \<Rightarrow> AdmitMode option" where
  "AdmitMode_parse s =
     (let v = lower (trim s)
      in if v \<in> {of_ascii ''userspace'', of_ascii ''user'', of_ascii ''bucket''} then Some Userspace
         else if v \<in> {of_ascii ''xdp'', of_ascii ''kernel'', of_ascii ''kernel_xdp''} then Some KernelXdp
         else if v = of_ascii ''hybrid'' then Some Hybrid
         else None)"

definition AdmitMode_from_env :: "utext option \<Rightarrow> AdmitMode" where
  "AdmitMode_from_env env =
     (case Option.bind env AdmitMode_parse of Some m \<Rightarrow> m | None \<Rightarrow> Userspace)"

definition uses_userspace_admit :: "AdmitMode \<Rightarrow> bool \<Rightarrow> bool" where
  "uses_userspace_admit m kernel_attached =
     (case m of Userspace \<Rightarrow> True | KernelXdp \<Rightarrow> \<not> kernel_attached | Hybrid \<Rightarrow> \<not> kernel_attached)"

definition wants_kernel :: "AdmitMode \<Rightarrow> bool" where
  "wants_kernel m = (case m of Userspace \<Rightarrow> False | KernelXdp \<Rightarrow> True | Hybrid \<Rightarrow> True)"

section \<open>Published routing table\<close>

record DataPlaneSnapshot =
  dp_generation :: u64
  dp_pi :: f64
  published_at_ms :: u64

definition DataPlaneSnapshot_new :: "u64 \<Rightarrow> u64 \<Rightarrow> f64 \<Rightarrow> DataPlaneSnapshot" where
  "DataPlaneSnapshot_new now_ms g p = \<lparr>dp_generation = g, dp_pi = fclamp p 0 1, published_at_ms = now_ms\<rparr>"

text \<open>\<open>SystemTime\<close> is the signed number of milliseconds since the epoch; \<open>as u64\<close> truncates.\<close>

definition now_ms_of :: "int \<Rightarrow> u64" where
  "now_ms_of since_epoch = (if 0 \<le> since_epoch then of_int since_epoch else 0)"

record RcuRoutingTable =
  rcu_current :: DataPlaneSnapshot

definition RcuRoutingTable_new :: "u64 \<Rightarrow> f64 \<Rightarrow> RcuRoutingTable" where
  "RcuRoutingTable_new now_ms initial_pi = \<lparr>rcu_current = DataPlaneSnapshot_new now_ms 0 initial_pi\<rparr>"

definition rcu_read :: "RcuRoutingTable \<Rightarrow> DataPlaneSnapshot" where
  "rcu_read t = rcu_current t"

definition read_pi :: "RcuRoutingTable \<Rightarrow> f64" where
  "read_pi t = dp_pi (rcu_current t)"

definition rcu_generation :: "RcuRoutingTable \<Rightarrow> u64" where
  "rcu_generation t = dp_generation (rcu_current t)"

definition rcu_publish :: "DataPlaneSnapshot \<Rightarrow> RcuRoutingTable \<Rightarrow> RcuRoutingTable" where
  "rcu_publish s t = t\<lparr>rcu_current := s\<rparr>"

definition publish_pi :: "u64 \<Rightarrow> u64 \<Rightarrow> f64 \<Rightarrow> RcuRoutingTable \<Rightarrow> RcuRoutingTable" where
  "publish_pi now_ms g p t = rcu_publish (DataPlaneSnapshot_new now_ms g p) t"

definition age_ms :: "u64 \<Rightarrow> RcuRoutingTable \<Rightarrow> u64" where
  "age_ms now_ms t = saturating_sub now_ms (published_at_ms (rcu_current t))"

definition is_stale :: "u64 \<Rightarrow> u64 \<Rightarrow> RcuRoutingTable \<Rightarrow> bool" where
  "is_stale now_ms alert_ms t \<longleftrightarrow> alert_ms < age_ms now_ms t"

definition pool_core_scale :: "f64 \<Rightarrow> f64 \<Rightarrow> bool \<Rightarrow> f64" where
  "pool_core_scale base_seconds p0 prefill =
     (let p = fclamp p0 (lit (5 / 100)) (lit (95 / 100))
      in if prefill then base_seconds * (1 - p) / p else base_seconds * p / (1 - p))"

section \<open>Forwarder\<close>

record ForwardDecision =
  fd_pi :: f64
  fd_generation :: u64

definition forward_decision :: "RcuRoutingTable \<Rightarrow> ForwardDecision" where
  "forward_decision rcu = (let snap = rcu_read rcu in \<lparr>fd_pi = dp_pi snap, fd_generation = dp_generation snap\<rparr>)"

definition current_pi :: "RcuRoutingTable \<Rightarrow> f64" where
  "current_pi rcu = read_pi rcu"

definition io_uring_enabled_from_env :: "string option \<Rightarrow> bool" where
  "io_uring_enabled_from_env env =
     (case env of Some v \<Rightarrow> v = ''1'' \<or> v = ''true'' \<or> v = ''yes'' | None \<Rightarrow> False)"

definition admit_capacity_for_pi :: "u64 \<Rightarrow> f64 \<Rightarrow> u64" where
  "admit_capacity_for_pi base_burst p =
     (let scaled = fround (f64_of_u64 base_burst * fclamp p (lit (1 / 10)) 1)
      in max (u64_of_f64 scaled) 1)"

section \<open>Kernel shed\<close>

definition OBJECT_FILE :: string where
  "OBJECT_FILE = ''admit_shed.o''"

definition PROGRAM_NAME :: string where
  "PROGRAM_NAME = ''xdp_admit_shed''"

definition DEFAULT_CAPACITY :: u64 where
  "DEFAULT_CAPACITY = DATAPLANE_ADMIT_BURST"

record XdpAdmitConfig =
  xc_capacity :: u64
  refill_per_sec :: u64
  listen_port :: "u16 option"

definition with_capacity :: "u64 \<Rightarrow> XdpAdmitConfig" where
  "with_capacity c = \<lparr>xc_capacity = c, refill_per_sec = DATAPLANE_ADMIT_REFILL_PER_SEC, listen_port = None\<rparr>"

definition XdpAdmitConfig_default :: XdpAdmitConfig where
  "XdpAdmitConfig_default = with_capacity DEFAULT_CAPACITY"

datatype XdpAttachError = UnsupportedPlatform | ObjectNotBuilt | LoadFailed string | AttachFailed string

definition XdpAttachError_fmt :: "XdpAttachError \<Rightarrow> string" where
  "XdpAttachError_fmt e =
     (case e of UnsupportedPlatform \<Rightarrow> ''XDP attach requires Linux''
      | ObjectNotBuilt \<Rightarrow> ''missing BPF object ('' @ PROGRAM_NAME @ ''); run ./scripts/build-bpf.sh''
      | LoadFailed msg \<Rightarrow> msg
      | AttachFailed msg \<Rightarrow> msg)"

section \<open>Lemmas\<close>

lemma holders_upd:
  "holders (pc(t := p)) = (if holds_token p then insert t (holders pc) else holders pc - {t})"
  by (auto simp: holders_def)

lemma in_holders [simp]: "t \<in> holders pc \<longleftrightarrow> holds_token (pc t)"
  by (simp add: holders_def)

fun pc_ok :: "u64 \<Rightarrow> admit_pc \<Rightarrow> bool" where
  "pc_ok cap (Admit_cas cur) = (cur \<noteq> 0)"
| "pc_ok cap (Release_load n) = (n = 1)"
| "pc_ok cap (Release_cap n cur) = (n = 1)"
| "pc_ok cap (Release_cas n cur next) = (n = 1 \<and> next = min (cur + 1) cap)"
| "pc_ok cap (Reseed_capacity c) = False"
| "pc_ok cap (Reseed_tokens c) = False"
| "pc_ok cap p = True"

text \<open>Every token is in the bucket or held by exactly one thread.\<close>

definition admit_inv :: "u64 \<Rightarrow> admit_world \<Rightarrow> bool" where
  "admit_inv cap0 = (\<lambda>(b, pc). ab_capacity b = max cap0 1 \<and> finite (holders pc)
     \<and> unat (tokens b) + card (holders pc) = unat (ab_capacity b) \<and> (\<forall>t. pc_ok (ab_capacity b) (pc t)))"

lemma admit_inv_start: "admit_inv cap0 (admit_start cap0)"
  by (simp add: admit_inv_def admit_start_def AdmitBucket_new_def Let_def holders_def)

lemma unat_dec: "(w :: u64) \<noteq> 0 \<Longrightarrow> unat (w - 1) = unat w - 1"
  by (simp add: unat_minus_one)

text \<open>A release by a holder never meets the cap and never wraps.\<close>

lemma release_min:
  assumes "unat cur < unat (cap :: u64)"
  shows "unat (min (cur + 1) cap) = unat cur + 1"
proof -
  have "unat cur + 1 < 18446744073709551616" using assms unat_lt_2p64 [of cap] by linarith
  then have "unat cur + 1 < 2 ^ 64" by simp
  then have "unat cur + unat (1 :: u64) < 2 ^ 64" unfolding unat_1 .
  then have "unat (cur + 1) = unat cur + 1" using unat_add_no_wrap by fastforce
  then show ?thesis using assms by (simp add: min_def word_le_nat_alt)
qed

lemma admit_inv_local:
  assumes inv: "admit_inv cap0 (b, pc)" and p: "pc_ok (ab_capacity b) p"
    and cap: "ab_capacity b' = ab_capacity b"
    and bal: "unat (tokens b') + card (holders (pc(t := p))) = unat (tokens b) + card (holders pc)"
  shows "admit_inv cap0 (b', pc(t := p))"
proof -
  have i: "ab_capacity b = max cap0 1" "finite (holders pc)"
    "unat (tokens b) + card (holders pc) = unat (ab_capacity b)" "\<forall>t. pc_ok (ab_capacity b) (pc t)"
    using inv by (auto simp: admit_inv_def)
  have "finite (holders (pc(t := p)))" using i(2) by (simp add: holders_upd)
  then show ?thesis using i p cap bal by (simp add: admit_inv_def)
qed

lemma card_holders_leave:
  "finite (holders pc) \<Longrightarrow> holds_token (pc t) \<Longrightarrow> \<not> holds_token p \<Longrightarrow>
   card (holders pc) = Suc (card (holders (pc(t := p))))"
  using card.remove [of "holders pc" t] by (simp add: holders_upd)

lemma card_holders_enter:
  "finite (holders pc) \<Longrightarrow> \<not> holds_token (pc t) \<Longrightarrow> holds_token p \<Longrightarrow>
   card (holders (pc(t := p))) = Suc (card (holders pc))"
  by (simp add: holders_upd)

lemma holders_same:
  "holds_token (pc t) = holds_token p \<Longrightarrow> holders (pc(t := p)) = holders pc"
  by (auto simp: holders_upd)

lemma admit_inv_atomic:
  assumes inv: "admit_inv cap0 (b, pc)" and st: "atomic_step spurious (pc t) b = (p, b')"
  shows "admit_inv cap0 (b', pc(t := p))"
proof -
  have fin: "finite (holders pc)" and ok: "pc_ok (ab_capacity b) (pc t)"
    and sum: "unat (tokens b) + card (holders pc) = unat (ab_capacity b)"
    using inv by (auto simp: admit_inv_def)
  show ?thesis
  proof (cases "pc t")
    case (Admit_cas cur)
    show ?thesis
    proof (cases "tokens b = cur \<and> \<not> spurious")
      case True
      then have p: "p = Admitted" "b' = b\<lparr>tokens := cur - 1\<rparr>" using st Admit_cas by auto
      have c: "cur \<noteq> 0" "0 < unat cur" using ok Admit_cas by (auto simp: unat_gt_0)
      have "card (holders (pc(t := p))) = Suc (card (holders pc))"
        using card_holders_enter [OF fin] Admit_cas p by simp
      then show ?thesis using p c True by (intro admit_inv_local [OF inv]) (simp_all add: unat_dec)
    next
      case False
      then have "p = Admit_load" "b' = b" using st Admit_cas by auto
      then show ?thesis using Admit_cas by (intro admit_inv_local [OF inv]) (simp_all add: holders_same)
    qed
  next
    case (Release_cas n cur nxt)
    show ?thesis
    proof (cases "tokens b = cur \<and> \<not> spurious")
      case True
      then have p: "p = Idle" "b' = b\<lparr>tokens := nxt\<rparr>" using st Release_cas by auto
      have k: "card (holders pc) = Suc (card (holders (pc(t := p))))"
        using card_holders_leave [OF fin] Release_cas p by simp
      then have "unat cur < unat (ab_capacity b)" using sum True by simp
      then have "unat nxt = unat cur + 1" using ok Release_cas by (simp add: release_min)
      then show ?thesis using p k True by (intro admit_inv_local [OF inv]) simp_all
    next
      case False
      then have "p = Release_load n" "b' = b" using st Release_cas by auto
      then show ?thesis using Release_cas ok by (intro admit_inv_local [OF inv]) (simp_all add: holders_same)
    qed
  qed (use st ok in \<open>auto intro!: admit_inv_local [OF inv] simp: holders_same unat_gt_0\<close>)
qed

lemma admit_inv_step: "conn_step w w' \<Longrightarrow> admit_inv cap0 w \<Longrightarrow> admit_inv cap0 w'"
proof (induction rule: conn_step.induct)
  case (call_admit pc t b)
  then show ?case by (intro admit_inv_local) (auto simp: holders_same)
next
  case (drop_guard pc t b)
  then show ?case by (intro admit_inv_local) (auto simp: release_call_def holders_same)
next
  case (atomic spurious pc t b p b')
  then show ?case by (rule admit_inv_atomic [rotated])
qed

lemma admit_inv_reachable: "conn_step\<^sup>*\<^sup>* (admit_start cap0) w \<Longrightarrow> admit_inv cap0 w"
  by (induction rule: rtranclp_induct) (auto intro: admit_inv_start admit_inv_step)

text \<open>A thread running alone.\<close>

fun solo :: "nat \<Rightarrow> admit_pc \<times> AdmitBucket \<Rightarrow> admit_pc \<times> AdmitBucket" where
  "solo 0 s = s"
| "solo (Suc n) s = solo n (case s of (p, b) \<Rightarrow> atomic_step False p b)"

lemma rtranclp_three: "r a b \<Longrightarrow> r b c \<Longrightarrow> r c d \<Longrightarrow> r\<^sup>*\<^sup>* a d"
  by (simp add: converse_rtranclp_into_rtranclp r_into_rtranclp)

lemma conn_atomic: "pc t = q \<Longrightarrow> atomic_step False q b = (p, b') \<Longrightarrow> conn_step (b, pc) (b', pc(t := p))"
  using atomic by fastforce

lemma admit_run:
  assumes "pc t = Idle" "tokens b \<noteq> 0"
  shows "conn_step\<^sup>*\<^sup>* (b, pc) (b\<lparr>tokens := tokens b - 1\<rparr>, pc(t := Admitted))"
proof -
  have 1: "conn_step (b, pc) (b, pc(t := Admit_load))" using assms(1) by (rule call_admit)
  have "conn_step (b, pc(t := Admit_load)) (b, (pc(t := Admit_load))(t := Admit_cas (tokens b)))"
    by (rule conn_atomic [of _ _ Admit_load]) (simp_all add: assms)
  then have 2: "conn_step (b, pc(t := Admit_load)) (b, pc(t := Admit_cas (tokens b)))" by simp
  have "conn_step (b, pc(t := Admit_cas (tokens b)))
      (b\<lparr>tokens := tokens b - 1\<rparr>, (pc(t := Admit_cas (tokens b)))(t := Admitted))"
    by (rule conn_atomic [of _ _ "Admit_cas (tokens b)"]) simp_all
  then have 3: "conn_step (b, pc(t := Admit_cas (tokens b))) (b\<lparr>tokens := tokens b - 1\<rparr>, pc(t := Admitted))" by simp
  show ?thesis using 1 2 3 by (rule rtranclp_three)
qed

lemma reseed_run:
  assumes "pc t = Idle"
  shows "bucket_step\<^sup>*\<^sup>* (b, pc) (reseed cap0 b, pc)"
proof -
  let ?c = "max cap0 1"
  have 1: "bucket_step (b, pc) (b, pc(t := Reseed_capacity ?c))"
    using call_reseed [of pc t b cap0] assms by (simp add: reseed_call_def)
  have "conn_step (b, pc(t := Reseed_capacity ?c)) (b\<lparr>ab_capacity := ?c\<rparr>, (pc(t := Reseed_capacity ?c))(t := Reseed_tokens ?c))"
    by (rule conn_atomic [of _ _ "Reseed_capacity ?c"]) simp_all
  then have 2: "bucket_step (b, pc(t := Reseed_capacity ?c)) (b\<lparr>ab_capacity := ?c\<rparr>, pc(t := Reseed_tokens ?c))"
    by (intro conn) simp
  have "conn_step (b\<lparr>ab_capacity := ?c\<rparr>, pc(t := Reseed_tokens ?c)) (b\<lparr>ab_capacity := ?c, tokens := ?c\<rparr>, (pc(t := Reseed_tokens ?c))(t := Idle))"
    by (rule conn_atomic [of _ _ "Reseed_tokens ?c"]) simp_all
  then have "conn_step (b\<lparr>ab_capacity := ?c\<rparr>, pc(t := Reseed_tokens ?c)) (reseed cap0 b, pc)"
    by (simp add: reseed_def Let_def fun_upd_idem assms)
  then have 3: "bucket_step (b\<lparr>ab_capacity := ?c\<rparr>, pc(t := Reseed_tokens ?c)) (reseed cap0 b, pc)" by (rule conn)
  show ?thesis using 1 2 3 by (rule rtranclp_three)
qed

lemma conn_bucket: "conn_step\<^sup>*\<^sup>* w w' \<Longrightarrow> bucket_step\<^sup>*\<^sup>* w w'"
  by (rule mono_rtranclp [rule_format, of conn_step]) (auto intro: conn)

section \<open>Properties\<close>

text \<open>C5: whatever the interleaving of admissions and guard drops, the bucket never admits more than its
  capacity: at most \<open>max cap 1\<close> connections hold a token at any time, every token is either in the
  bucket or held, and once all guards are dropped the bucket is full again.\<close>

theorem admit_never_oversubscribes:
  assumes "conn_step\<^sup>*\<^sup>* (admit_start cap0) (b, pc)"
  shows "card (holders pc) \<le> unat (max cap0 1)
    \<and> unat (available b) = unat (max cap0 1) - card (holders pc)
    \<and> (holders pc = {} \<longrightarrow> available b = max cap0 1)"
proof -
  have inv: "admit_inv cap0 (b, pc)" using assms by (rule admit_inv_reachable)
  then have "unat (tokens b) + card (holders pc) = unat (max cap0 1)" by (simp add: admit_inv_def)
  then show ?thesis by (auto simp: available_def word_unat_eq_iff)
qed

theorem admit_never_oversubscribes_witness:
  "conn_step\<^sup>*\<^sup>* (admit_start 1) (\<lparr>tokens = 0, ab_capacity = 1, ab_shed_total = 0\<rparr>, (\<lambda>_. Idle)(7 := Admitted))
   \<and> available \<lparr>tokens = 0, ab_capacity = 1, ab_shed_total = 0\<rparr> = 0"
proof -
  let ?i = "\<lambda>_ :: nat. Idle"
  have r: "conn_step\<^sup>*\<^sup>* (admit_start 1) (\<lparr>tokens = 0, ab_capacity = 1, ab_shed_total = 0\<rparr>, ?i(7 := Admitted))"
    using admit_run [of ?i 7 "AdmitBucket_new 1"] by (simp add: admit_start_def AdmitBucket_new_def)
  have "holders (?i(7 := Admitted)) = {7}" by (auto simp: holders_def)
  then show ?thesis using r admit_never_oversubscribes [OF r] by (simp add: unat_eq_0)
qed



text \<open>Reseeding while guards are outstanding fills the bucket again: capacity one, two holders.\<close>

lemma reseed_oversubscribes:
  "\<exists>b pc. bucket_step\<^sup>*\<^sup>* (admit_start 1) (b, pc) \<and> ab_capacity b = 1 \<and> card (holders pc) = 2"
proof -
  let ?B = "\<lambda>n. \<lparr>tokens = n, ab_capacity = 1, ab_shed_total = 0\<rparr> :: AdmitBucket" and ?i = "\<lambda>_ :: nat. Idle"
  have "bucket_step\<^sup>*\<^sup>* (?B 1, ?i) (?B 0, ?i(0 := Admitted))"
    using conn_bucket [OF admit_run [of ?i 0 "?B 1"]] by simp
  also have "bucket_step\<^sup>*\<^sup>* (?B 0, ?i(0 := Admitted)) (?B 1, ?i(0 := Admitted))"
    using reseed_run [of "?i(0 := Admitted)" 9 "?B 0" 1] by (simp add: reseed_def)
  also have "bucket_step\<^sup>*\<^sup>* (?B 1, ?i(0 := Admitted)) (?B 0, ?i(0 := Admitted, 1 := Admitted))"
    using conn_bucket [OF admit_run [of "?i(0 := Admitted)" 1 "?B 1"]] by simp
  finally have "bucket_step\<^sup>*\<^sup>* (admit_start 1) (?B 0, ?i(0 := Admitted, 1 := Admitted))"
    by (simp add: admit_start_def AdmitBucket_new_def)
  moreover have "holders (?i(0 := Admitted, 1 := Admitted)) = {0, 1}" by (auto simp: holders_def)
  ultimately show ?thesis by (intro exI [of _ "?B 0"] exI [of _ "?i(0 := Admitted, 1 := Admitted)"]) simp
qed

text \<open>At an even split the core cost is unchanged in both phases, whenever halving it is exact.\<close>

lemma pool_core_scale_half:
  assumes "f64_ok (Fin x)" "repr64 (x / 2)"
  shows "pool_core_scale (Fin x) (Fin (1 / 2)) prefill = Fin x"
proof -
  have r: "repr64 (1 / 2)" using repr64_dyadic [of 1 1] by simp
  have q: "repr64 (1 / 4)" using repr64_dyadic [of 1 2] by simp
  have q3: "repr64 (3 / 4)" using repr64_dyadic [of 3 2] by simp
  have h: "mk64 (1 / 2) = Fin (1 / 2)" using r f64_lim_pos(2) by (intro mk64_repr) linarith+
  obtain a where a: "lit (5 / 100) = Fin a" "a \<le> 1 / 4"
    by (rule mk64_between [of 0 "5 / 100" "1 / 4"]) (auto simp: q)
  obtain b where b: "lit (95 / 100) = Fin b" "3 / 4 \<le> b"
    by (rule mk64_between [of "3 / 4" "95 / 100" 1]) (auto simp: q3)
  have c: "fclamp (Fin (1 / 2)) (lit (5 / 100)) (lit (95 / 100)) = Fin (1 / 2)"
    using a b by (simp add: fclamp_def)
  have "\<bar>x / 2\<bar> < f64_lim" using ok_FinD(2) [OF assms(1)] by simp
  then have "mk64 (x / 2) = Fin (x / 2)" using assms(2) by (intro mk64_repr)
  then show ?thesis unfolding pool_core_scale_def Let_def c
    by (simp add: minus_f64_def h mk64_ok_Fin [OF assms(1)])
qed

text \<open>The scaled burst stays between one and the base burst, and is the base burst at full share.\<close>

lemma admit_capacity_for_pi_bounds:
  assumes "0 < base_burst" "unat base_burst \<le> 2 ^ 53"
  shows "1 \<le> admit_capacity_for_pi base_burst p" "admit_capacity_for_pi base_burst p \<le> base_burst"
    "fle 1 p \<Longrightarrow> admit_capacity_for_pi base_burst p = base_burst"
proof -
  show "1 \<le> admit_capacity_for_pi base_burst p" by (simp add: admit_capacity_for_pi_def)
  define n where "n = unat base_burst"
  have n: "f64_of_u64 base_burst = Fin (real n)" using f64_of_nat_exact [OF assms(2)] by (simp add: n_def)
  have np: "1 \<le> n" using assms(1) by (simp add: n_def unat_gt_0 Suc_le_eq)
  have one: "(1 :: u64) \<le> base_burst" using assms(1) by (simp add: word_le_nat_alt unat_gt_0 Suc_le_eq)
  have n53: "n \<le> 2 ^ 53" using assms(2) by (simp only: n_def)
  have rn: "repr64 (real n)" using n53 by (rule repr64_nat)
  have n64: "n \<le> 18446744073709551616" using n53 by simp
  then have "n \<le> 2 ^ 64" by simp
  then have nb: "real n \<le> 2 ^ 64" by (metis of_nat_le_iff of_nat_numeral of_nat_power)
  obtain a where a: "lit (1 / 10) = Fin a" "0 \<le> a" "a \<le> 1"
    by (rule mk64_between [of 0 "1 / 10" 1]) auto
  have le: "nat_of_f64 (fround (Fin (real n) * fclamp p (lit (1 / 10)) 1)) \<le> n"
  proof (cases "fclamp p (Fin a) (Fin 1)")
    case (Fin y)
    then have y: "0 \<le> y" "y \<le> 1" using fclamp_Fin [OF a(3), of p] a by auto
    have "0 \<le> real n * y" "real n * y \<le> real n" using y np by (auto simp: mult_left_le)
    then obtain z where z: "mk64 (real n * y) = Fin z" "0 \<le> z" "z \<le> real n"
      by (rule mk64_between [of 0 "real n * y" "real n"]) (auto simp: rn n64)
    have "\<lfloor>z + 1 / 2\<rfloor> \<le> int n" using z(3) by linarith
    then show ?thesis using z a Fin by simp
  qed (use fclamp_Fin [OF a(3), of p] a in auto)
  have "u64_of_f64 (fround (Fin (real n) * fclamp p (lit (1 / 10)) 1)) \<le> base_burst"
    using le by (simp add: word_le_nat_alt u64_simps n_def)
  then show "admit_capacity_for_pi base_burst p \<le> base_burst"
    unfolding admit_capacity_for_pi_def Let_def n using one by simp
  assume "fle 1 p"
  then have "fclamp p (lit (1 / 10)) 1 = Fin 1"
    using a by (cases p rule: f64_cases4) (auto simp: fclamp_def flt_def fle_def)
  moreover have "mk64 (real n) = Fin (real n)" using n53 by (rule mk64_nat)
  moreover have "\<lfloor>real n + 1 / 2\<rfloor> = int n" by linarith
  moreover have "n \<le> 18446744073709551615" by (simp add: n_def)
  ultimately have "u64_of_f64 (fround (Fin (real n) * fclamp p (lit (1 / 10)) 1)) = of_nat n"
    by (simp add: u64_of_f64_def)
  also have "\<dots> = base_burst" by (simp add: n_def)
  finally have "u64_of_f64 (fround (Fin (real n) * fclamp p (lit (1 / 10)) 1)) = base_burst" .
  then show "admit_capacity_for_pi base_burst p = base_burst"
    unfolding admit_capacity_for_pi_def Let_def n using one by simp
qed

text \<open>Some layer always enforces admission: the bucket, or an attached kernel shed the mode asked for.\<close>

lemma admission_layer_present: "uses_userspace_admit m attached \<or> (attached \<and> wants_kernel m)"
  by (cases m) (simp_all add: uses_userspace_admit_def wants_kernel_def)

end
