(* ===== verification/Http.thy ===== *)
theory Http
  imports Text StatePlane
begin

text \<open>
  The bounded HTTP head parser (\<open>crates/demiurge-router/src/http.rs\<close>): header lookup, token
  estimation, phase declaration and the trusted-edge identity headers, on raw bytes.  A socket
  read is a value of the list passed to \<open>read_head\<close>: an error, or the bytes delivered (none at
  the end of the stream).
\<close>

section \<open>Parsers\<close>

definition MAX_HEAD :: nat where
  "MAX_HEAD = 64 * 1024"

definition HDR_TOKENS :: bytes where "HDR_TOKENS = ascii ''x-demiurge-tokens''"
definition HDR_PHASE :: bytes where "HDR_PHASE = ascii ''x-demiurge-phase''"
definition HDR_TENANT :: bytes where "HDR_TENANT = ascii ''x-demiurge-tenant''"
definition HDR_GROUP :: bytes where "HDR_GROUP = ascii ''x-demiurge-group''"
definition HDR_PREFIX_FP :: bytes where "HDR_PREFIX_FP = ascii ''x-demiurge-prefix-fp''"
definition HDR_PREFIX_CONTENT :: bytes where "HDR_PREFIX_CONTENT = ascii ''x-demiurge-prefix-content''"

definition trim_ascii_ws :: "bytes \<Rightarrow> bytes" where
  "trim_ascii_ws bs = rev (dropWhile is_ascii_whitespace (rev (dropWhile is_ascii_whitespace bs)))"

definition ascii_eq_ci :: "bytes \<Rightarrow> bytes \<Rightarrow> bool" where
  "ascii_eq_ci a b \<longleftrightarrow> length a = length b \<and> list_all (\<lambda>(x, y). to_ascii_lower x = to_ascii_lower y) (zip a b)"

text \<open>What one line of the head yields for a header name.\<close>

definition header_line :: "bytes \<Rightarrow> bytes \<Rightarrow> bytes option" where
  "header_line name line =
     (let line = (case strip_suffix [13] line of Some stripped \<Rightarrow> stripped | None \<Rightarrow> line)
      in if length name < length line \<and> line ! length name = 58 \<and> ascii_eq_ci (take (length name) line) name
         then Some (trim_ascii_ws (drop (length name + 1) line)) else None)"

text \<open>The scan over the lines of the head; the argument is the slice from the cursor on.\<close>

function header_value_ci :: "bytes \<Rightarrow> bytes \<Rightarrow> bytes option" where
  "header_value_ci head name =
     (if head = [] then None
      else let line = takeWhile (\<lambda>b. b \<noteq> 10) head
           in case header_line name line of
                Some v \<Rightarrow> Some v
              | None \<Rightarrow> (case dropWhile (\<lambda>b. b \<noteq> 10) head of [] \<Rightarrow> None | _ # rest \<Rightarrow> header_value_ci rest name))"
  by pat_completeness auto

termination
proof (relation "measure (\<lambda>(head, _). length head)")
  fix head line name :: bytes and x rest
  assume "dropWhile (\<lambda>b. b \<noteq> 10) head = x # rest"
  then have "Suc (length rest) \<le> length head" by (metis length_Cons length_dropWhile_le)
  then show "((rest, name), head, name) \<in> measure (\<lambda>(head, _). length head)" by simp
qed simp

declare header_value_ci.simps [simp del]

fun parse_u64_digits_loop :: "u64 \<Rightarrow> bool \<Rightarrow> bytes \<Rightarrow> u64 option" where
  "parse_u64_digits_loop n any [] = (if any then Some n else None)"
| "parse_u64_digits_loop n any (b # bs) =
     (if \<not> is_ascii_digit b then (if any then Some n else None)
      else do { m \<leftarrow> checked_mul n 10; n \<leftarrow> checked_add m (ucast (b - 48)); parse_u64_digits_loop n True bs })"

definition parse_u64_digits :: "bytes \<Rightarrow> u64 option" where
  "parse_u64_digits bs = parse_u64_digits_loop 0 False bs"

text \<open>A byte above 127 makes \<open>from_utf8\<close> fail or decodes to a character that is no hex digit.\<close>

definition parse_u64_maybe_hex :: "bytes \<Rightarrow> u64 option" where
  "parse_u64_maybe_hex bs =
     (case (case strip_prefix (ascii ''0x'') bs of Some h \<Rightarrow> Some h | None \<Rightarrow> strip_prefix (ascii ''0X'') bs) of
        Some h \<Rightarrow> (if list_all (\<lambda>b. b < 128) h then from_str_radix 16 (map unat h) else None)
      | None \<Rightarrow> parse_u64_digits bs)"

definition contains_subslice :: "bytes \<Rightarrow> bytes \<Rightarrow> bool" where
  "contains_subslice hay needle \<longleftrightarrow> length needle \<le> length hay \<and> find_sub needle hay \<noteq> None"

definition parse_prompt_tokens :: "bytes \<Rightarrow> u64 option" where
  "parse_prompt_tokens head = Option.bind (header_value_ci head HDR_TOKENS) parse_u64_digits"

definition first_line :: "bytes \<Rightarrow> bytes" where
  "first_line head = hd (split_on (\<lambda>b. b = 13 \<or> b = 10) head)"

definition request_line_parts :: "bytes \<Rightarrow> (bytes \<times> bytes) option" where
  "request_line_parts head =
     (case filter (\<lambda>p. p \<noteq> []) (split_on (\<lambda>b. b = 32) (first_line head)) of
        m # p # _ \<Rightarrow> Some (m, p) | _ \<Rightarrow> None)"

definition parse_path_tokens :: "bytes \<Rightarrow> u64 option" where
  "parse_path_tokens head =
     (case filter (\<lambda>p. p \<noteq> []) (split_on (\<lambda>b. b = 32) (first_line head)) of
        _ # path # _ \<Rightarrow>
          (case strip_prefix (ascii ''/prefill/'') path of
             Some rest \<Rightarrow> parse_u64_digits rest
           | None \<Rightarrow> (case strip_prefix (ascii ''/long/'') path of
                Some rest \<Rightarrow> parse_u64_digits rest | None \<Rightarrow> None))
      | _ \<Rightarrow> None)"

definition estimate_prompt_tokens :: "bytes \<Rightarrow> u64" where
  "estimate_prompt_tokens head =
     (case parse_prompt_tokens head of Some n \<Rightarrow> n
      | None \<Rightarrow> (case parse_path_tokens head of Some n \<Rightarrow> n
         | None \<Rightarrow> ROUTING_SHORT_CONTEXT_TOKENS + 1))"

record RequestIdentity =
  tenant :: TenantId
  group_id :: GroupId
  content_fp :: PrefixFingerprint

definition fingerprint_of :: "hashing \<Rightarrow> bytes \<Rightarrow> PrefixFingerprint" where
  "fingerprint_of h bs =
     fst (PrefixFingerprint_of (b3 h) None bs \<lparr>AUTH_SECRET = None, AUTH_KEY = Some (installed_key h)\<rparr>)"

definition parse_request_identity :: "hashing \<Rightarrow> bytes \<Rightarrow> RequestIdentity option" where
  "parse_request_identity h head =
     do { t \<leftarrow> Option.bind (header_value_ci head HDR_TENANT) parse_u64_maybe_hex;
          g \<leftarrow> Option.bind (header_value_ci head HDR_GROUP) parse_u64_maybe_hex;
          fp \<leftarrow> Option.bind (header_value_ci head HDR_PREFIX_FP) parse_u64_maybe_hex;
          let cfp = PrefixFingerprint fp;
          let id = \<lparr>tenant = TenantId t, group_id = GroupId g, content_fp = cfp\<rparr>;
          case header_value_ci head HDR_PREFIX_CONTENT of
            Some content \<Rightarrow> if fingerprint_of h content \<noteq> cfp then None else Some id
          | None \<Rightarrow> Some id }"

definition is_admin_probe_request :: "bytes \<Rightarrow> bool" where
  "is_admin_probe_request head =
     (case request_line_parts head of
        None \<Rightarrow> False
      | Some (meth, path) \<Rightarrow>
          if ascii_eq_ci meth (ascii ''POST'') then False
          else let path = hd (split_on (\<lambda>b. b = 63) path)
               in ends_with (ascii ''/models'') path \<or> ends_with (ascii ''/version'') path
                  \<or> path \<in> {ascii ''/health'', ascii ''/healthz'', ascii ''/ready'', ascii ''/readyz'', ascii ''/metrics''})"

definition is_decode_only :: "bytes \<Rightarrow> bool" where
  "is_decode_only head =
     (if (case header_value_ci head HDR_PHASE of Some v \<Rightarrow> ascii_eq_ci v (ascii ''decode'') | None \<Rightarrow> False) then True
      else if contains_subslice (first_line head) (ascii '' /decode'') then True
      else is_admin_probe_request head)"

fun read_head_loop :: "bytes \<Rightarrow> ('e + bytes) list \<Rightarrow> 'e + bytes" where
  "read_head_loop buf [] = Inr buf"
| "read_head_loop buf (Inl e # rs) = Inl e"
| "read_head_loop buf (Inr d # rs) =
     (if d = [] then Inr buf
      else let n = min (length d) (MAX_HEAD - length buf);
               buf = buf @ take n d
           in if find_sub [13, 10, 13, 10] buf \<noteq> None \<or> MAX_HEAD \<le> length buf then Inr buf
              else read_head_loop buf rs)"

definition read_head :: "('e + bytes) list \<Rightarrow> 'e + bytes" where
  "read_head rs = read_head_loop [] rs"

section \<open>Lemmas\<close>

text \<open>The scan is a first-match search over the lines of the head.\<close>

definition first_match :: "('a \<Rightarrow> 'b option) \<Rightarrow> 'a list \<Rightarrow> 'b option" where
  "first_match f xs = (case List.map_filter f xs of [] \<Rightarrow> None | y # _ \<Rightarrow> Some y)"

lemma first_match_simps [simp]:
  "first_match f [] = None"
  "first_match f (x # xs) = (case f x of Some y \<Rightarrow> Some y | None \<Rightarrow> first_match f xs)"
  by (auto simp: first_match_def map_filter_simps split: option.splits)

lemma header_line_Nil [simp]: "header_line name [] = None"
  by (auto simp: header_line_def strip_suffix_def split: option.splits dest!: strip_prefix_Some [THEN iffD1])

lemma header_value_ci_first: "header_value_ci head name = first_match (header_line name) (split_on (\<lambda>b. b = 10) head)"
proof (induction head name rule: header_value_ci.induct)
  case (1 head name)
  show ?case
    unfolding header_value_ci.simps [of head name] split_on_cons [of _ head]
    using "1.IH"
    by (cases "dropWhile (\<lambda>b. b \<noteq> 10) head")
       (auto simp: Let_def simp del: dropWhile_eq_Nil_conv split: option.splits)
qed

definition dec_value :: "nat \<Rightarrow> bytes \<Rightarrow> nat" where
  "dec_value acc ds = foldl (\<lambda>a b. 10 * a + (unat b - 48)) acc ds"

lemma dec_value_ge: "acc \<le> dec_value acc ds"
proof (induction ds arbitrary: acc)
  case (Cons d ds)
  have "acc \<le> 10 * acc + (unat d - 48)" by simp
  also have "\<dots> \<le> dec_value acc (d # ds)" using Cons by (simp add: dec_value_def)
  finally show ?case .
qed (simp add: dec_value_def)

lemma digit_unat: "is_ascii_digit b \<Longrightarrow> unat (ucast (b - 48) :: u64) = unat b - 48"
  by (simp add: is_ascii_digit_def word_le_nat_alt unat_sub unsigned_ucast_eq take_bit_nat_eq_self_iff
      less_imp_diff_less less_le_trans [OF unsigned_less])

lemma parse_digits_loop:
  "parse_u64_digits_loop n any bs =
     (let ds = takeWhile is_ascii_digit bs; v = dec_value (unat n) ds
      in if \<not> any \<and> ds = [] then None else if v < 2 ^ 64 then Some (of_nat v) else None)"
proof (induction n any bs rule: parse_u64_digits_loop.induct)
  case (1 n any)
  show ?case by (simp add: dec_value_def)
next
  case (2 n any b bs)
  show ?case
  proof (cases "is_ascii_digit b")
    case False
    then show ?thesis by (simp add: dec_value_def)
  next
    case True
    let ?ds = "takeWhile is_ascii_digit bs"
    have step: "dec_value (unat n) (b # ?ds) = dec_value (10 * unat n + (unat b - 48)) ?ds" by (simp add: dec_value_def)
    show ?thesis
    proof (cases "checked_mul n 10")
      case None
      then have "2 ^ 64 \<le> 10 * unat n + (unat b - 48)" by (simp add: checked_mul_None mult.commute)
      then have "2 ^ 64 \<le> dec_value (unat n) (b # ?ds)" using dec_value_ge order_trans unfolding step by blast
      then show ?thesis using True None by simp
    next
      case (Some m)
      have m: "unat m = 10 * unat n" using unat_checked_mul [OF Some] by simp
      show ?thesis
      proof (cases "checked_add m (ucast (b - 48))")
        case None
        then have "2 ^ 64 \<le> 10 * unat n + (unat b - 48)" using digit_unat [OF True] by (simp add: checked_add_None m)
        then have "2 ^ 64 \<le> dec_value (unat n) (b # ?ds)" using dec_value_ge order_trans unfolding step by blast
        then show ?thesis using True Some None by simp
      next
        case (Some k)
        have "unat k = 10 * unat n + (unat b - 48)" using unat_checked_add [OF Some] digit_unat [OF True] by (simp add: m)
        then show ?thesis
          using "2.IH" [of m k] True Some \<open>checked_mul n 10 = Some m\<close> by (simp add: step Let_def)
      qed
    qed
  qed
qed

lemma read_head_loop_spec:
  assumes "read_head_loop buf (map Inr ds) = (Inr out :: 'e + bytes)" "\<forall>d\<in>set ds. d \<noteq> []" "length buf \<le> MAX_HEAD"
  shows "length out \<le> MAX_HEAD \<and> (\<exists>rest. buf @ concat ds = out @ rest)
    \<and> (out = buf @ concat ds \<or> find_sub [13, 10, 13, 10] out \<noteq> None \<or> length out = MAX_HEAD)"
  using assms
proof (induction ds arbitrary: buf)
  case (Cons d ds)
  let ?n = "min (length d) (MAX_HEAD - length buf)"
  let ?b = "buf @ take ?n d"
  have b: "length ?b \<le> MAX_HEAD" using Cons.prems(3) by simp
  show ?case
  proof (cases "find_sub [13, 10, 13, 10] ?b \<noteq> None \<or> MAX_HEAD \<le> length ?b")
    case True
    then have "out = ?b" using Cons.prems by (auto simp: Let_def)
    moreover have "buf @ concat (d # ds) = ?b @ drop ?n d @ concat ds" by simp
    ultimately show ?thesis using True b by (metis le_antisym)
  next
    case False
    then have "?n = length d" using Cons.prems(3) by (auto simp: min_def split: if_splits)
    then have e: "?b = buf @ d" by simp
    have "read_head_loop ?b (map Inr ds) = (Inr out :: 'e + bytes)" using Cons.prems False by (auto simp: Let_def)
    then show ?thesis using Cons.IH [of ?b] Cons.prems(2) b unfolding e by simp
  qed
qed auto

section \<open>Properties\<close>

text \<open>Header lookup is case insensitive first match: it returns the trimmed value of the first
  line of the head whose text before the colon equals the name up to ASCII case.\<close>

theorem header_value_ci_spec:
  "header_value_ci head name = first_match (header_line name) (split_on (\<lambda>b. b = 10) head)"
  by (rule header_value_ci_first)

text \<open>decimal parsing never wraps: the leading digits are read as a number, and a value outside
  64 bits, like the absence of digits, is rejected.\<close>

theorem parse_u64_digits_spec:
  "parse_u64_digits bs =
     (if takeWhile is_ascii_digit bs = [] \<or> 2 ^ 64 \<le> dec_value 0 (takeWhile is_ascii_digit bs) then None
      else Some (of_nat (dec_value 0 (takeWhile is_ascii_digit bs))))"
  by (auto simp: parse_u64_digits_def parse_digits_loop Let_def)

text \<open>C17: the request head is bounded: reading stops at the head terminator, at the end of the
  stream or at \<open>MAX_HEAD\<close> bytes, and returns a prefix of what the peer sent.\<close>

theorem read_head_bounded:
  assumes "read_head (map Inr ds) = (Inr out :: unit + bytes)" "\<forall>d\<in>set ds. d \<noteq> []"
  shows "length out \<le> MAX_HEAD \<and> (\<exists>rest. concat ds = out @ rest)
    \<and> (out = concat ds \<or> find_sub [13, 10, 13, 10] out \<noteq> None \<or> length out = MAX_HEAD)"
  using read_head_loop_spec [of "[]" ds out] assms by (simp add: read_head_def)

theorem read_head_bounded_witness:
  "length (ascii ''GET / HTTP/1.1'') \<le> MAX_HEAD \<and> read_head [Inr (ascii ''GET / HTTP/1.1'')] = (Inr (ascii ''GET / HTTP/1.1'') :: unit + bytes)"
proof -
  have "read_head (map Inr [ascii ''GET / HTTP/1.1'']) = (Inr (ascii ''GET / HTTP/1.1'') :: unit + bytes)"
    by (simp add: read_head_def ascii_def MAX_HEAD_def Let_def starts_with_def)
  then show ?thesis using read_head_bounded [of "[ascii ''GET / HTTP/1.1'']"] by (simp add: ascii_def)
qed


definition sample_head :: bytes where
  "sample_head = ascii ''X-Demiurge-Tenant: 7'' @ [13, 10] @ ascii ''x-demiurge-group: 0x1f'' @ [13, 10]
     @ ascii ''x-demiurge-prefix-fp:3'' @ [13, 10, 13, 10]"

definition sample_hashing :: hashing where
  "sample_hashing = \<lparr>b3 = \<lparr>derive_key = \<lambda>_ s. s, keyed_digest = \<lambda>k m. m\<rparr>, installed_key = [], default_hasher = fst\<rparr>"


end
