(* ===== verification/Kv.thy ===== *)
theory Kv
  imports Cost
begin

text \<open>
  KV reservation accounting and the fleet memory-pressure barrier
  (\<open>crates/demiurge-cost/src/kv.rs\<close>), and the RDMA topology cost of \<open>rdma.rs\<close>.
\<close>

section \<open>KV accounting\<close>

record KvBreakdown =
  prompt_tokens :: u64
  kv_tokens :: u64
  kv_payload :: u64
  kv_metadata :: u64
  kv_fragment :: u64
  kv_reserved :: u64

definition kv_breakdown :: "u64 \<Rightarrow> u64 \<Rightarrow> KvBreakdown" where
  "kv_breakdown tokens bytes_per_token =
     (let block = max CACHE_BLOCK_TOKENS 1;
          toks = div_ceil tokens block * block;
          payload = saturating_mul toks bytes_per_token;
          meta = u64_of_f64 (fceil (f64_of_u64 payload * KV_METADATA_OVERHEAD_FRACTION));
          fragment = u64_of_f64 (fceil (f64_of_u64 payload * KV_FRAGMENTATION_SLACK))
      in \<lparr> prompt_tokens = tokens, kv_tokens = toks, kv_payload = payload, kv_metadata = meta,
           kv_fragment = fragment, kv_reserved = payload + meta + fragment \<rparr>)"

text \<open>
  \<open>percentile90\<close>: the index expression on its own, then the lookup in the sorted sample.  The
  lookup is in range for every non-empty sample (lemma \<open>percentile90_idx\<close>), so the slice
  indexing does not panic.
\<close>

definition percentile90_index :: "nat \<Rightarrow> nat" where
  "percentile90_index n = nat_of_f64 (fceil (f64_of_nat n * lit (9 / 10))) - 1"

definition percentile90 :: "u64 list \<Rightarrow> u64" where
  "percentile90 samples =
     (if samples = [] then 0 else sort samples ! percentile90_index (length samples))"

definition fleet_marginal_bytes :: "u64 \<Rightarrow> u64 \<Rightarrow> u64" where
  "fleet_marginal_bytes fleet_reserved p90_increment = saturating_add fleet_reserved p90_increment"

definition fleet_marginal_bytes_wrong :: "u64 \<Rightarrow> u64 \<Rightarrow> u64 \<Rightarrow> u64" where
  "fleet_marginal_bytes_wrong fleet_reserved p90_increment n =
     saturating_add fleet_reserved (saturating_mul p90_increment n)"

definition phi_barrier :: "u64 \<Rightarrow> u64 \<Rightarrow> clamp_events \<Rightarrow> BarrierFactor \<times> clamp_events" where
  "phi_barrier fleet_reserved capacity_bytes ev =
     (if capacity_bytes = 0 then BarrierFactor_clamped f64_MAX ev
      else let util = fclamp (f64_of_u64 fleet_reserved / f64_of_u64 capacity_bytes) 0 (lit (999 / 1000));
               penalty = 1 / (1 - util)
           in BarrierFactor_clamped penalty ev)"

definition phi_barrier_marginal ::
  "u64 \<Rightarrow> u64 \<Rightarrow> u64 \<Rightarrow> clamp_events \<Rightarrow> BarrierFactor \<times> clamp_events" where
  "phi_barrier_marginal fleet_reserved p90_increment capacity_bytes ev =
     phi_barrier (fleet_marginal_bytes fleet_reserved p90_increment) capacity_bytes ev"

section \<open>RDMA distance and transfer time\<close>

record TopologyId =
  node :: string
  rack :: string
  cluster :: string

definition rdma_distance :: "TopologyId \<Rightarrow> TopologyId \<Rightarrow> u64" where
  "rdma_distance a b =
     (if node a = node b then TOPOLOGY_RDMA_SAME_NODE
      else if rack a = rack b \<and> cluster a = cluster b then TOPOLOGY_RDMA_SAME_RACK
      else if cluster a = cluster b then TOPOLOGY_RDMA_SAME_CLUSTER
      else TOPOLOGY_RDMA_CROSS_CLUSTER)"

definition base_latency_us :: "u64 \<Rightarrow> u64" where
  "base_latency_us d =
     (if d = TOPOLOGY_RDMA_SAME_NODE then RDMA_BASE_LATENCY_SAME_NODE_US
      else if d = TOPOLOGY_RDMA_SAME_RACK then RDMA_BASE_LATENCY_SAME_RACK_US
      else if d = TOPOLOGY_RDMA_SAME_CLUSTER then RDMA_BASE_LATENCY_SAME_CLUSTER_US
      else RDMA_BASE_LATENCY_CROSS_CLUSTER_US)"

definition rdma_transfer_seconds :: "u64 \<Rightarrow> u64 \<Rightarrow> f64" where
  "rdma_transfer_seconds bytes distance =
     (let base = f64_of_u64 (base_latency_us distance) / lit 1000000;
          bw_bytes_per_s = RDMA_LINK_GBPS * lit 1000000000 / lit 8
      in base + f64_of_u64 bytes / bw_bytes_per_s)"

definition rdma_transfer_ln ::
  "(f64 \<Rightarrow> f64) \<Rightarrow> u64 \<Rightarrow> TopologyId \<Rightarrow> TopologyId \<Rightarrow> clamp_events \<Rightarrow> f64 \<times> clamp_events" where
  "rdma_transfer_ln lg bytes pf dc ev =
     (let distance = rdma_distance pf dc;
          (core, ev) = TimeCore_clamped (rdma_transfer_seconds bytes distance) ev
      in (lg (TimeCore_get core), ev))"

definition rdma_transfer_barrier ::
  "u64 \<Rightarrow> TopologyId \<Rightarrow> TopologyId \<Rightarrow> clamp_events \<Rightarrow> BarrierFactor \<times> clamp_events" where
  "rdma_transfer_barrier bytes pf dc ev =
     (let distance = rdma_distance pf dc;
          seconds = rdma_transfer_seconds bytes distance;
          nominal = f64_of_u64 RDMA_BASE_LATENCY_SAME_NODE_US / lit 1000000;
          ratio = fmax (seconds / nominal) RDMA_MIN_BARRIER
      in BarrierFactor_clamped ratio ev)"

section \<open>Lemmas on KV accounting\<close>

lemma block_256: "max CACHE_BLOCK_TOKENS 1 = 256"
  by (simp add: CACHE_BLOCK_TOKENS_def max_def word_le_nat_alt)

lemma div_ceil_256:
  assumes "unat t \<le> 2 ^ 64 - 256"
  shows "unat (div_ceil t 256 * 256) = (unat t + 255) div 256 * 256"
proof -
  have "unat (div_ceil t 256) = (unat t + 255) div 256" by (simp add: unat_div_ceil)
  then show ?thesis using assms by (simp add: unat_word_ariths)
qed

text \<open>A fraction of a payload up to \<open>2^63\<close> rounds up to a count that stays below it.\<close>

lemma overhead_bounds:
  assumes c: "phi = Fin c" "1 / 32 \<le> c" "c \<le> 1 / 8" and p: "unat p \<le> 2 ^ 63"
  shows "unat (u64_of_f64 (fceil (f64_of_u64 p * phi))) \<le> 2 ^ 60"
    "0 < p \<Longrightarrow> 0 < unat (u64_of_f64 (fceil (f64_of_u64 p * phi)))"
proof -
  have r: "repr64 (2 ^ 63)" "repr64 (2 ^ 60)" "repr64 0" "repr64 (1 / 32)" "repr64 1"
    using repr64_intro [of "2 ^ 63" 1 63] repr64_intro [of "2 ^ 60" 1 60] ok_FinD(1) [of 0] ok_FinD(1) [of 1]
      repr64_dyadic [of 1 5] by auto
  define v where "v = rnd (real (unat p))"
  have v: "f64_of_u64 p = Fin v" "0 \<le> v" using f64_of_nat_Fin [of "unat p"] p
    by (auto simp: v_def)
  have "real (unat p) \<le> 2 ^ 63" using p by (metis of_nat_le_iff of_nat_numeral of_nat_power)
  then have "v \<le> 2 ^ 63" unfolding v_def using r by (intro rnd_le_repr)
  then have "v * c \<le> 2 ^ 63 * (1 / 8)" using c v by (intro mult_mono) auto
  then obtain q where q: "mk64 (v * c) = Fin q" "q = rnd (v * c)" "0 \<le> q" "q \<le> 2 ^ 60"
    using r c v by (auto intro: mk64_between [of 0 "v * c" "2 ^ 60"])
  have val: "nat_of_f64 (fceil (f64_of_u64 p * phi)) = min (nat \<lceil>q\<rceil>) (2 ^ 64 - 1)"
    using q(1) by (simp add: v c(1))
  have "nat \<lceil>q\<rceil> \<le> 2 ^ 60" using q(4) by (simp add: ceiling_le_iff)
  then show "unat (u64_of_f64 (fceil (f64_of_u64 p * phi))) \<le> 2 ^ 60"
    by (simp add: unat_u64_of_f64 val)
  show "0 < unat (u64_of_f64 (fceil (f64_of_u64 p * phi)))" if "0 < p"
  proof -
    have "0 < unat p" using that by (simp add: unat_gt_0 word_gt_0)
    then have "1 \<le> real (unat p)" by linarith
    then have "1 \<le> v" unfolding v_def using r by (intro rnd_ge_repr)
    then have "1 * (1 / 32) \<le> v * c" using c v by (intro mult_mono) auto
    then have "1 / 32 \<le> q" unfolding q(2) using r by (intro rnd_ge_repr) auto
    then have "0 < \<lceil>q\<rceil>" by simp
    then show ?thesis by (simp add: unat_u64_of_f64 val)
  qed
qed

lemma overhead_fractions:
  "\<exists>c. KV_METADATA_OVERHEAD_FRACTION = Fin c \<and> 1 / 32 \<le> c \<and> c \<le> 1 / 8"
  "\<exists>c. KV_FRAGMENTATION_SLACK = Fin c \<and> 1 / 32 \<le> c \<and> c \<le> 1 / 8"
proof -
  have r: "repr64 (1 / 32)" "repr64 (1 / 8)" using repr64_dyadic [of 1 5] repr64_dyadic [of 1 3] by auto
  show "\<exists>c. KV_METADATA_OVERHEAD_FRACTION = Fin c \<and> 1 / 32 \<le> c \<and> c \<le> 1 / 8"
    using r by (auto simp: KV_METADATA_OVERHEAD_FRACTION_def intro: mk64_between [of "1 / 32" "8 / 100" "1 / 8"])
  show "\<exists>c. KV_FRAGMENTATION_SLACK = Fin c \<and> 1 / 32 \<le> c \<and> c \<le> 1 / 8"
    using r by (auto simp: KV_FRAGMENTATION_SLACK_def intro: mk64_between [of "1 / 32" "5 / 100" "1 / 8"])
qed

lemma round_up:
  assumes "c = b - 1" "0 < (b :: nat)"
  shows "n \<le> (n + c) div b * b" "(n + c) div b * b < n + b"
proof -
  have "n + c = (n + c) div b * b + (n + c) mod b" by simp
  moreover have "(n + c) mod b < b" using assms(2) by simp
  ultimately show "n \<le> (n + c) div b * b" "(n + c) div b * b < n + b" using assms by linarith+
qed

lemma ceil_div:
  assumes "x mod b \<noteq> 0" "0 < (b :: nat)"
  shows "(x + (b - 1)) div b = x div b + 1"
proof -
  have "x + (b - 1) = (x div b + 1) * b + (x mod b - 1)"
    using assms div_mult_mod_eq [of x b] unfolding add_mult_distrib by linarith
  moreover have "x mod b - 1 < b" using assms by (simp add: less_imp_diff_less)
  ultimately show ?thesis by (metis div_mult_add_lt)
qed

lemma kv_breakdown_no_wrap:
  assumes "unat t \<le> 2 ^ 64 - 256" "(unat t + 255) div 256 * 256 * unat b \<le> 2 ^ 63"
  defines "k \<equiv> kv_breakdown t b"
  shows "unat (kv_tokens k) = (unat t + 255) div 256 * 256"
    "unat (kv_payload k) = unat (kv_tokens k) * unat b"
    "unat (kv_reserved k) = unat (kv_payload k) + unat (kv_metadata k) + unat (kv_fragment k)"
    "kv_payload k \<noteq> 0 \<Longrightarrow> 0 < unat (kv_metadata k) \<and> 0 < unat (kv_fragment k)"
proof -
  show tok: "unat (kv_tokens k) = (unat t + 255) div 256 * 256"
    using div_ceil_256 [OF assms(1)] by (simp add: k_def kv_breakdown_def Let_def block_256)
  show pay: "unat (kv_payload k) = unat (kv_tokens k) * unat b"
    using assms(2) tok by (simp add: k_def kv_breakdown_def Let_def block_256 u64_simps min_def mult.commute)
  have p: "unat (kv_payload k) \<le> 2 ^ 63" using assms(2) by (simp add: pay tok)
  have m: "unat (kv_metadata k) \<le> 2 ^ 60" "0 < kv_payload k \<Longrightarrow> 0 < unat (kv_metadata k)"
    using overhead_bounds [of KV_METADATA_OVERHEAD_FRACTION _ "kv_payload k"] overhead_fractions(1) p
    by (auto simp: k_def kv_breakdown_def Let_def)
  have f: "unat (kv_fragment k) \<le> 2 ^ 60" "0 < kv_payload k \<Longrightarrow> 0 < unat (kv_fragment k)"
    using overhead_bounds [of KV_FRAGMENTATION_SLACK _ "kv_payload k"] overhead_fractions(2) p
    by (auto simp: k_def kv_breakdown_def Let_def)
  have "kv_reserved k = kv_payload k + kv_metadata k + kv_fragment k"
    by (simp add: k_def kv_breakdown_def Let_def)
  then show "unat (kv_reserved k) = unat (kv_payload k) + unat (kv_metadata k) + unat (kv_fragment k)"
    using p m(1) f(1) by (simp add: unat_word_ariths)
  show "kv_payload k \<noteq> 0 \<Longrightarrow> 0 < unat (kv_metadata k) \<and> 0 < unat (kv_fragment k)"
    using m(2) f(2) by (simp add: word_gt_0)
qed

lemma rnd_9_10: "rnd (9 / 10) = 8106479329266893 / 2 ^ 53"
  by code_simp

lemma rne_near: "0 \<le> t \<Longrightarrow> t < 1 / 2 \<Longrightarrow> rne (of_int z + t) = z"
proof -
  assume t: "0 \<le> t" "t < 1 / 2"
  then have "\<lfloor>of_int z + t\<rfloor> = z" by (intro floor_unique) auto
  then show ?thesis using t unfolding rne_def Let_def by auto
qed

text \<open>A real just above a small integer rounds to it.\<close>

lemma rnd_near_int:
  fixes k :: int
  assumes "0 < k" "k \<le> 2 ^ 40" "0 \<le> d" "d * 2 ^ 53 < of_int k / 2"
  shows "rnd (of_int k + d) = of_int k"
proof -
  let ?x = "of_int k + d"
  let ?e = "ulp_exp ?x"
  let ?u = "2 powi ?e :: real"
  have "1 \<le> (of_int k :: real)" using assms(1) by linarith
  moreover have "(of_int k :: real) \<le> 2 ^ 40" using assms(2) by (metis of_int_le_iff of_int_numeral of_int_power)
  moreover from this have "d < 1" using assms(4) by simp
  ultimately have x: "1 \<le> ?x" "?x < 2 ^ 41" using assms(3) by simp_all
  have b: "bexp ?x \<le> 40" "0 \<le> bexp ?x"
    using bexp_mono [of 1 ?x] bexp_mono [of ?x "2 ^ 41 - 1"] bexp_unique [of 0 1] bexp_unique [of 40 "2 ^ 41 - 1"] x
      \<open>(of_int k :: real) \<le> 2 ^ 40\<close> assms(4)
    by simp_all
  have e: "?e = bexp ?x - 52" using b x by (simp add: ulp_exp_def)
  have "?x < 2 powi (bexp ?x + 1)" using bexp_bounds(2) [of ?x] x by linarith
  also have "\<dots> = ?u * 2 ^ 53" by (simp add: e power_int_diff power_int_add)
  finally have "d < ?u / 2" using assms(4,3) by (simp add: field_simps)
  have "of_int k * (2 powi 0 / ?u) \<in> \<int>" using e b by (intro Ints_mult Ints_of_int powi2_grid) simp
  then obtain z where z: "(of_int k :: real) / ?u = of_int z" by (auto elim: Ints_cases)
  have "?x / ?u = of_int z + d / ?u" by (simp add: add_divide_distrib z)
  moreover have "0 \<le> d / ?u" "d / ?u < 1 / 2" using \<open>d < ?u / 2\<close> assms(3) by (auto simp: field_simps)
  ultimately have "rne (?x / ?u) = z" using rne_near by metis
  moreover have "of_int z * ?u = (of_int k :: real)" using z by (simp add: field_simps)
  ultimately show ?thesis using x by (simp add: rnd_def)
qed

lemma percentile90_idx:
  assumes "0 < n" "n \<le> 2 ^ 40"
  shows "percentile90_index n = (9 * n + 9) div 10 - 1"
proof -
  let ?c = "8106479329266893 / 2 ^ 53 :: real"
  let ?k = "9 * n div 10"
  have c: "lit (9 / 10) = Fin ?c" "?c * real n = 9 * real n / 10 + real n / (5 * 2 ^ 53)"
    using mk64_between [of "1 / 2" "9 / 10" 1] repr64_dyadic [of 1 1] ok_FinD(1) [of 1] rnd_9_10
    by (auto simp: field_simps)
  have n: "f64_of_nat n = Fin (real n)" using assms by (intro f64_of_nat_exact) simp
  have rn: "real n \<le> 2 ^ 40" using assms(2) by (metis of_nat_le_iff of_nat_numeral of_nat_power)
  define q where "q = rnd (real n * ?c)"
  have q_lim: "\<bar>q\<bar> < f64_lim"
  proof -
    have "0 \<le> q" "q \<le> 2 ^ 40" unfolding q_def
      using rn repr64_intro [of "2 ^ 40" 1 40] by (auto intro!: rnd_nonneg rnd_le_repr)
    then show ?thesis by (intro f64_lim_gt(1)) simp
  qed
  have idx: "percentile90_index n = min (nat \<lceil>q\<rceil>) (2 ^ 64 - 1) - 1"
  proof -
    have "f64_of_nat n * lit (9 / 10) = Fin q" 
      unfolding n c(1) times_f64.simps by (simp only: mk64_def Let_def q_lim if_True flip: q_def)
    then show ?thesis by (simp only: percentile90_index_def fceil.simps nat_of_f64.simps floor_of_int)
  qed
  show ?thesis
  proof (cases "n mod 10 = 0")
    case True
    then obtain m where m: "n = 10 * m" by auto
    have "q = rnd (of_int (int (9 * m)) + real n / (5 * 2 ^ 53))"
      using c(2) by (simp add: q_def m mult.commute)
    also have "\<dots> = of_int (int (9 * m))"
      using assms m by (intro rnd_near_int) auto
    finally have "\<lceil>q\<rceil> = int (9 * m)" by (simp only: ceiling_of_int)
    moreover have "(9 * n + 9) div 10 = 9 * m" using m by simp
    ultimately show ?thesis using assms m unfolding idx by simp
  next
    case False
    define k where "k = int (9 * n div 10)"
    have "\<not> 10 dvd 9 * n" using False coprime_dvd_mult_right_iff [of 10 9 n] by (auto simp: coprime_iff_gcd_eq_1 gcd_nat.simps)
    then have "9 * n mod 10 \<noteq> 0" by (simp add: mod_eq_0_iff_dvd)
    have nk: "real_of_int k + 1 / 10 \<le> 9 * real n / 10" "9 * real n / 10 \<le> real_of_int k + 9 / 10"
    proof -
      have "9 * n = 10 * (9 * n div 10) + 9 * n mod 10" by simp
      moreover have "1 \<le> 9 * n mod 10" "9 * n mod 10 \<le> 9"
        using \<open>9 * n mod 10 \<noteq> 0\<close> mod_less_divisor [of 10 "9 * n"] by linarith+
      ultimately have "10 * (9 * n div 10) + 1 \<le> 9 * n" "9 * n \<le> 10 * (9 * n div 10) + 9" by linarith+
      then have "10 * k + 1 \<le> 9 * int n" "9 * int n \<le> 10 * k + 9" unfolding k_def by linarith+
      then have "real_of_int (10 * k + 1) \<le> real_of_int (9 * int n)" "real_of_int (9 * int n) \<le> real_of_int (10 * k + 9)"
        by (simp_all only: of_int_le_iff)
      then show "real_of_int k + 1 / 10 \<le> 9 * real n / 10" "9 * real n / 10 \<le> real_of_int k + 9 / 10" by simp_all
    qed
    have k: "0 \<le> k" "k \<le> 2 ^ 40" using assms by (simp_all add: k_def)
    have "repr64 (of_int (16 * k + 1) / 2 ^ 4)" "repr64 (of_int (k + 1) / 2 ^ 0)"
      using k by (intro repr64_dyadic; simp)+
    moreover have "of_int (16 * k + 1) / 2 ^ 4 \<le> real n * ?c" "real n * ?c \<le> of_int (k + 1) / 2 ^ 0"
      using nk rn c(2) by (simp_all add: mult.commute)
    ultimately have "of_int (16 * k + 1) / 2 ^ 4 \<le> q" "q \<le> of_int (k + 1) / 2 ^ 0"
      unfolding q_def by (blast intro: rnd_ge_repr rnd_le_repr)+
    then have "\<lceil>q\<rceil> = k + 1" by (intro ceiling_unique) auto
    moreover have "(9 * n + 9) div 10 = 9 * n div 10 + 1"
      using ceil_div [of "9 * n" 10] \<open>9 * n mod 10 \<noteq> 0\<close> by simp
    ultimately show ?thesis using k assms unfolding idx by (simp add: k_def)
  qed
qed

text \<open>
  Outside that range the unchecked \<open>div_ceil * block\<close> wraps: the largest token count reserves
  nothing at all.
\<close>

lemma kv_breakdown_wraps: "kv_tokens (kv_breakdown u64_max b) = 0" "kv_reserved (kv_breakdown u64_max b) = 0"
proof -
  have "unat (div_ceil u64_max (256 :: u64)) = 2 ^ 56" by (simp add: unat_div_ceil unat_u64_max)
  then have "unat (div_ceil u64_max 256 * 256 :: u64) = 0" by (simp add: unat_word_ariths)
  then have z: "div_ceil u64_max 256 * 256 = (0 :: u64)" by (simp only: unat_eq_0)
  then show "kv_tokens (kv_breakdown u64_max b) = 0" by (simp add: kv_breakdown_def Let_def block_256)
  have "fceil (f64_of_nat 0 * Fin c) = Fin 0" for c by (simp add: f64_of_nat_exact mk64_ok_Fin)
  then have "fceil (f64_of_nat 0 * KV_METADATA_OVERHEAD_FRACTION) = Fin 0" "fceil (f64_of_nat 0 * KV_FRAGMENTATION_SLACK) = Fin 0"
    using overhead_fractions by metis+
  then show "kv_reserved (kv_breakdown u64_max b) = 0"
    using z by (simp add: kv_breakdown_def Let_def block_256 saturating_mul_def u64_of_f64_def)
qed

section \<open>The pressure barrier\<close>

lemma util_cap: obtains u where "lit (999 / 1000) = Fin u" "1 / 2 \<le> u" "u \<le> 1023 / 1024" "repr64 u"
proof -
  have "repr64 (1 / 2)" "repr64 (1023 / 1024)" using repr64_dyadic [of 1 1] repr64_dyadic [of 1023 10] by auto
  then show thesis using that by (auto intro: mk64_between [of "1 / 2" "999 / 1000" "1023 / 1024"])
qed

text \<open>The penalty as a function of the clamped utilisation.\<close>

definition phi_util :: "u64 \<Rightarrow> u64 \<Rightarrow> real" where
  "phi_util r c = (case fclamp (f64_of_u64 r / f64_of_u64 c) 0 (lit (999 / 1000)) of Fin u \<Rightarrow> u | _ \<Rightarrow> 0)"

lemma u64_ratio:
  assumes "c \<noteq> 0"
  shows "f64_of_u64 r / f64_of_u64 c = mk64 (rnd (real (unat r)) / rnd (real (unat c)))"
    "0 \<le> rnd (real (unat r))" "1 \<le> rnd (real (unat c))"
proof -
  have "0 < unat c" using assms by (simp add: unat_gt_0)
  then have "1 \<le> real (unat c)" by linarith
  then show *: "1 \<le> rnd (real (unat c))" using ok_FinD(1) [of 1] by (intro rnd_ge_repr) simp_all
  then show "f64_of_u64 r / f64_of_u64 c = mk64 (rnd (real (unat r)) / rnd (real (unat c)))"
    by (simp add: f64_of_u64_Fin)
  show "0 \<le> rnd (real (unat r))" by (intro rnd_nonneg of_nat_0_le_iff)
qed

lemma mk64_nonneg_cases:
  assumes "0 \<le> x"
  shows "mk64 x = Fin (rnd x) \<and> 0 \<le> rnd x \<or> mk64 x = Infinity False"
  using rnd_nonneg [OF assms] by (auto simp: mk64_def Let_def)

lemma phi_util:
  assumes "c \<noteq> 0" "lit (999 / 1000) = Fin u" "0 \<le> u"
  shows "fclamp (f64_of_u64 r / f64_of_u64 c) 0 (lit (999 / 1000)) = Fin (phi_util r c)"
    "0 \<le> phi_util r c" "phi_util r c \<le> u"
proof -
  have q: "0 \<le> rnd (real (unat r)) / rnd (real (unat c))"
    using u64_ratio(2,3) [OF assms(1)] by (meson divide_nonneg_nonneg order_trans zero_le_one)
  have "\<exists>v. fclamp (mk64 (rnd (real (unat r)) / rnd (real (unat c)))) (Fin 0) (Fin u) = Fin v \<and> 0 \<le> v \<and> v \<le> u"
    using mk64_nonneg_cases [OF q] assms(3) by (auto simp: fclamp_def flt_def)
  then show "fclamp (f64_of_u64 r / f64_of_u64 c) 0 (lit (999 / 1000)) = Fin (phi_util r c)"
    "0 \<le> phi_util r c" "phi_util r c \<le> u"
    by (auto simp: phi_util_def u64_ratio(1) [OF assms(1)] assms(2))
qed

lemma fclamp_mono: "a \<le> b \<Longrightarrow> b \<noteq> NaN \<Longrightarrow> lo \<le> hi \<Longrightarrow> lo \<noteq> NaN \<Longrightarrow> hi \<noteq> NaN \<Longrightarrow> fclamp a lo hi \<le> fclamp b lo hi"
  by (cases "a = NaN"; cases b) (auto simp: fclamp_def flt_def)

lemma phi_util_mono:
  assumes "c \<noteq> 0" "unat r \<le> unat r'" "lit (999 / 1000) = Fin u" "0 \<le> u"
  shows "phi_util r c \<le> phi_util r' c"
proof -
  have "rnd (real (unat r)) \<le> rnd (real (unat r'))" using assms(2) by (intro rnd_mono of_nat_mono)
  then have "f64_of_u64 r / f64_of_u64 c \<le> f64_of_u64 r' / f64_of_u64 c"
    unfolding u64_ratio(1) [OF assms(1)] using u64_ratio(3) [OF assms(1)]
    by (intro mk64_mono divide_right_mono) auto
  moreover have "f64_of_u64 r' / f64_of_u64 c \<noteq> NaN" by (simp add: u64_ratio(1) [OF assms(1)])
  ultimately have "fclamp (f64_of_u64 r / f64_of_u64 c) 0 (lit (999 / 1000))
      \<le> fclamp (f64_of_u64 r' / f64_of_u64 c) 0 (lit (999 / 1000))"
    using assms(3,4) by (intro fclamp_mono) auto
  then show ?thesis by (simp only: phi_util(1) [OF assms(1,3,4)] less_eq_f64.simps)
qed

lemma phi_barrier_value:
  assumes "c \<noteq> 0"
  shows "phi_barrier r c ev = (BarrierFactor (Fin (rnd (1 / rnd (1 - phi_util r c)))), ev)"
    "1 \<le> rnd (1 / rnd (1 - phi_util r c))" "rnd (1 / rnd (1 - phi_util r c)) \<le> 1024"
    "f64_ok (Fin (rnd (1 / rnd (1 - phi_util r c))))" "1 / 1024 \<le> rnd (1 - phi_util r c)"
proof -
  obtain u where u: "lit (999 / 1000) = Fin u" "1 / 2 \<le> u" "u \<le> 1023 / 1024" "repr64 u" by (rule util_cap)
  have u0: "0 \<le> u" using u(2) by simp
  let ?v = "phi_util r c"
  note v = phi_util [OF assms u(1) u0, of r]
  have r: "repr64 1" "repr64 (1 / 1024)" "repr64 1024"
    using ok_FinD(1) [of 1] repr64_dyadic [of 1 10] repr64_intro [of 1024 1 10] by auto
  have "?v \<le> 1023 / 1024" using v(3) u(3) by (rule order_trans)
  then have "1 / 1024 \<le> 1 - ?v" "1 - ?v \<le> 1" using v(2) by simp_all
  then obtain d where d: "mk64 (1 - ?v) = Fin d" "d = rnd (1 - ?v)" "1 / 1024 \<le> d" "d \<le> 1"
    using r by (auto intro: mk64_between [of "1 / 1024" "1 - ?v" 1])
  have "1 \<le> 1 / d" "1 / d \<le> 1024" using d(3,4) by (auto simp: field_simps)
  then obtain y where y: "mk64 (1 / d) = Fin y" "y = rnd (1 / d)" "1 \<le> y" "y \<le> 1024" "f64_ok (Fin y)"
    using r by (auto intro: mk64_between [of 1 "1 / d" 1024])
  have "1 - fclamp (f64_of_u64 r / f64_of_u64 c) 0 (lit (999 / 1000)) = Fin d"
    unfolding v(1) using d(1) by (simp add: minus_f64_def)
  then have "phi_barrier r c ev = BarrierFactor_clamped (1 / Fin d) ev"
    by (simp only: phi_barrier_def assms if_False Let_def)
  also have "1 / Fin d = Fin y" using d(3) y(1) by simp
  finally show "phi_barrier r c ev = (BarrierFactor (Fin (rnd (1 / rnd (1 - ?v)))), ev)"
    using y by (simp add: BarrierFactor_clamped_def d(2))
  show "1 \<le> rnd (1 / rnd (1 - ?v))" "rnd (1 / rnd (1 - ?v)) \<le> 1024" "f64_ok (Fin (rnd (1 / rnd (1 - ?v))))"
    "1 / 1024 \<le> rnd (1 - ?v)"
    using y(2-5) d(2,3) by simp_all
qed

section \<open>Properties\<close>



text \<open>\<open>percentile90\<close> is the nearest-rank 90th percentile of a sample of up to \<open>2^40\<close> values,
  in spite of the floating-point rank, and its index is in range.\<close>

theorem percentile90_nearest_rank:
  assumes "samples \<noteq> []" "length samples \<le> 2 ^ 40"
  shows "percentile90 samples = sort samples ! ((9 * length samples + 9) div 10 - 1)
    \<and> percentile90_index (length samples) < length samples"
proof -
  have "0 < length samples" using assms(1) by simp
  then have "percentile90_index (length samples) = (9 * length samples + 9) div 10 - 1"
    using assms(2) by (rule percentile90_idx)
  moreover have "(9 * length samples + 9) div 10 - 1 < length samples" 
    using \<open>0 < length samples\<close> less_mult_imp_div_less [of "9 * length samples + 9" "length samples + 1" 10] by linarith
  ultimately show ?thesis using assms(1) by (simp add: percentile90_def)
qed

theorem percentile90_nearest_rank_witness: "percentile90 [5, 1, 4, 2, 3, 9, 8, 6, 7, 10] = 9"
proof -
  have "percentile90 [5, 1, 4, 2, 3, 9, 8, 6, 7, 10] = sort [5, 1, 4, 2, 3, 9, 8, 6, 7, 10] ! 8"
    using percentile90_nearest_rank [of "[5, 1, 4, 2, 3, 9, 8, 6, 7, 10]"] by simp
  also have "\<dots> = 9" by code_simp
  finally show ?thesis .
qed

text \<open>The fleet pressure barrier is a valid barrier that grows with the reserved bytes,
  saturates at the maximal barrier only for a fleet without capacity, and never fires a clamp.\<close>

theorem phi_barrier_pressure:
  assumes "unat r \<le> unat r'"
  shows "wf_barrier (fst (phi_barrier r c ev)) \<and> snd (phi_barrier r c ev) = ev
    \<and> BarrierFactor_get (fst (phi_barrier r c ev)) \<le> BarrierFactor_get (fst (phi_barrier r' c ev'))
    \<and> (if c = 0 then BarrierFactor_get (fst (phi_barrier r c ev)) = f64_MAX
       else BarrierFactor_get (fst (phi_barrier r c ev)) \<le> Fin 1024)"
proof (cases "c = 0")
  case True
  then show ?thesis using f64_max_real_facts(3)
    by (simp add: phi_barrier_def BarrierFactor_clamped_def wf_barrier_def f64_MAX_def)
next
  case False
  obtain u where u: "lit (999 / 1000) = Fin u" "1 / 2 \<le> u" by (rule util_cap)
  have "phi_util r c \<le> phi_util r' c" using u by (intro phi_util_mono [OF False assms]) auto
  then have "rnd (1 - phi_util r' c) \<le> rnd (1 - phi_util r c)" by (intro rnd_mono) simp
  moreover have "0 < rnd (1 - phi_util r' c)" using phi_barrier_value(5) [OF False, of r'] by linarith
  ultimately have "rnd (1 / rnd (1 - phi_util r c)) \<le> rnd (1 / rnd (1 - phi_util r' c))"
    by (intro rnd_mono) (simp add: frac_le)
  then show ?thesis using phi_barrier_value [OF False] by (simp add: False wf_barrier_def)
qed

theorem phi_barrier_pressure_witness:
  "BarrierFactor_get (fst (phi_barrier 1 4 0)) \<le> BarrierFactor_get (fst (phi_barrier 3 4 0))"
  using phi_barrier_pressure [of 1 3 4 0 0] by simp

end
