(* ===== verification/Backend.thy ===== *)
theory Backend
  imports Pairing Dataplane Http Kv
begin

text \<open>
  The cost surface of the live backends and the minimum-cost selections
  (\<open>demiurge-router/src/backend.rs\<close>).  A backend is a record of the values its atomics hold; an
  \<open>Arc\<close> is the value itself.  The observed average is stored as float bits with zero for "unset";
  samples are positive, so the bits are zero exactly when the value is zero.
\<close>

section \<open>Backends\<close>

record Backend =
  label :: string
  addr :: string
  topology :: TopologyId
  base_service_seconds :: f64
  ln_base_field :: f64
  observed_ewma :: f64
  inflight :: nat

definition queue_ln :: "(f64 \<Rightarrow> f64) \<Rightarrow> nat \<Rightarrow> f64" where
  "queue_ln lg n = lg (1 + f64_of_nat n)"

type_synonym isolation = "SharedPrefixGroupRegistry \<times> RequestIdentity"

definition isolation_ctx :: "isolation option \<Rightarrow> IsolationCtx option" where
  "isolation_ctx = map_option (\<lambda>(reg, i). (reg, tenant i, group_id i, content_fp i))"

definition warmth_discount_for ::
    "hashing \<Rightarrow> StateSnapshot option \<Rightarrow> bool \<Rightarrow> string \<Rightarrow> u64 list \<Rightarrow> isolation option \<Rightarrow> Discount option" where
  "warmth_discount_for h snapshot decode_pool l blocks isol =
     do { snap \<leftarrow> snapshot;
          plain_discount (pool_hit_strength h snap decode_pool l blocks (isolation_ctx isol)) }"

definition new_with_topology :: "(f64 \<Rightarrow> f64) \<Rightarrow> string \<Rightarrow> string \<Rightarrow> f64 \<Rightarrow> TopologyId \<Rightarrow> Backend" where
  "new_with_topology lg l a base topo =
     (let ln_base = (if is_finite base \<and> flt 0 base then lg base else lg f64_MAX)
      in \<lparr>label = l, addr = a, topology = topo, base_service_seconds = base, ln_base_field = ln_base,
          observed_ewma = 0, inflight = 0\<rparr>)"

definition Backend_new :: "(f64 \<Rightarrow> f64) \<Rightarrow> string \<Rightarrow> string \<Rightarrow> f64 \<Rightarrow> Backend" where
  "Backend_new lg l a base = new_with_topology lg l a base \<lparr>node = '''', rack = '''', cluster = ''''\<rparr>"

text \<open>\<open>usize\<close> counters wrap.\<close>

definition incr_inflight :: "Backend \<Rightarrow> Backend" where
  "incr_inflight b = b\<lparr>inflight := (inflight b + 1) mod 2 ^ 64\<rparr>"

definition decr_inflight :: "Backend \<Rightarrow> Backend" where
  "decr_inflight b = b\<lparr>inflight := (if inflight b = 0 then 2 ^ 64 - 1 else inflight b - 1)\<rparr>"

definition note_observed_seconds :: "f64 \<Rightarrow> Backend \<Rightarrow> Backend" where
  "note_observed_seconds secs b =
     (if \<not> is_finite secs \<or> fle secs 0 then b
      else let alpha = fclamp ROUTING_OBSERVED_LATENCY_EWMA_ALPHA 0 1;
               prev = observed_ewma b;
               nxt = (if prev = 0 then secs else alpha * secs + (1 - alpha) * prev)
           in b\<lparr>observed_ewma := nxt\<rparr>)"

definition claimed_seconds :: "Backend \<Rightarrow> f64" where
  "claimed_seconds b =
     (if is_finite (base_service_seconds b) \<and> flt 0 (base_service_seconds b) then base_service_seconds b else f64_MAX)"

definition effective_base_seconds :: "Backend \<Rightarrow> f64" where
  "effective_base_seconds b =
     (let claimed = claimed_seconds b; observed = observed_ewma b
      in if observed = 0 then claimed
         else if is_finite observed \<and> flt claimed observed then observed else claimed)"

definition effective_ln_base :: "(f64 \<Rightarrow> f64) \<Rightarrow> Backend \<Rightarrow> f64" where
  "effective_ln_base lg b =
     (let effective = effective_base_seconds b
      in if flt (abs (effective - base_service_seconds b)) f64_EPSILON then ln_base_field b
         else if is_finite effective \<and> flt 0 effective then lg effective
         else lg f64_MAX)"

definition backend_cost :: "(f64 \<Rightarrow> f64) \<Rightarrow> Backend \<Rightarrow> Cost \<times> clamp_events" where
  "backend_cost lg b = Cost_from_ln (effective_ln_base lg b + queue_ln lg (inflight b)) 0"

definition selection_ln :: "(f64 \<Rightarrow> f64) \<Rightarrow> f64 \<Rightarrow> bool \<Rightarrow> Backend \<Rightarrow> f64" where
  "selection_ln lg pool_pi is_prefill b =
     effective_ln_base lg b + lg (pool_core_scale 1 pool_pi is_prefill) + queue_ln lg (inflight b)"

definition cost_with_isolation_pi ::
    "(f64 \<Rightarrow> f64) \<Rightarrow> hashing \<Rightarrow> BarrierFactor list \<Rightarrow> StateSnapshot option \<Rightarrow> u64 list \<Rightarrow> bool \<Rightarrow> f64 \<Rightarrow> isolation option
       \<Rightarrow> Backend \<Rightarrow> Cost \<times> clamp_events" where
  "cost_with_isolation_pi lg h extra snapshot blocks decode_pool pool_pi isol b =
     (let discount = warmth_discount_for h snapshot decode_pool (label b) blocks isol
      in if extra = [] \<and> discount = None then Cost_from_ln (selection_ln lg pool_pi (\<not> decode_pool) b) 0
         else let scaled = pool_core_scale (effective_base_seconds b) pool_pi (\<not> decode_pool);
                  discounts = (case discount of Some d \<Rightarrow> [d] | None \<Rightarrow> [])
              in service_cost lg scaled (inflight b) extra discounts 0)"

definition cost_with_warmth_pi ::
    "(f64 \<Rightarrow> f64) \<Rightarrow> hashing \<Rightarrow> BarrierFactor list \<Rightarrow> StateSnapshot option \<Rightarrow> u64 list \<Rightarrow> bool \<Rightarrow> f64 \<Rightarrow> Backend \<Rightarrow> Cost \<times> clamp_events" where
  "cost_with_warmth_pi lg h extra snapshot blocks decode_pool pool_pi b =
     cost_with_isolation_pi lg h extra snapshot blocks decode_pool pool_pi None b"

definition cost_with_warmth ::
    "(f64 \<Rightarrow> f64) \<Rightarrow> hashing \<Rightarrow> BarrierFactor list \<Rightarrow> StateSnapshot option \<Rightarrow> u64 list \<Rightarrow> bool \<Rightarrow> Backend \<Rightarrow> Cost \<times> clamp_events" where
  "cost_with_warmth lg h extra snapshot blocks decode_pool b =
     cost_with_warmth_pi lg h extra snapshot blocks decode_pool (lit (1 / 2)) b"

definition cost_with_barriers_pi :: "(f64 \<Rightarrow> f64) \<Rightarrow> BarrierFactor list \<Rightarrow> f64 \<Rightarrow> bool \<Rightarrow> Backend \<Rightarrow> Cost \<times> clamp_events" where
  "cost_with_barriers_pi lg extra pool_pi is_prefill b =
     (if extra = [] then Cost_from_ln (selection_ln lg pool_pi is_prefill b) 0
      else let scaled = pool_core_scale (effective_base_seconds b) pool_pi is_prefill
           in service_cost lg scaled (inflight b) extra [] 0)"

definition cost_with_barriers :: "(f64 \<Rightarrow> f64) \<Rightarrow> BarrierFactor list \<Rightarrow> Backend \<Rightarrow> Cost \<times> clamp_events" where
  "cost_with_barriers lg extra b = cost_with_barriers_pi lg extra (lit (1 / 2)) True b"

section \<open>Selections\<close>

definition backend_target :: "(f64 \<Rightarrow> f64) \<Rightarrow> hashing \<Rightarrow> Backend PairingTarget" where
  "backend_target lg h =
     \<lparr>pt_label = label,
      prefill_ln = (\<lambda>snapshot blocks b. plain_cost (cost_with_warmth lg h [] snapshot blocks False b)),
      decode_ln = (\<lambda>snapshot blocks prefill_label transfer_penalty extra b.
        plain_cost (cost_with_warmth lg h (decode_barriers extra prefill_label (label b) transfer_penalty) snapshot blocks True b))\<rparr>"

definition select_with_barriers_pi :: "(f64 \<Rightarrow> f64) \<Rightarrow> Backend list \<Rightarrow> BarrierFactor list \<Rightarrow> f64 \<Rightarrow> bool \<Rightarrow> Backend option" where
  "select_with_barriers_pi lg candidates extra pool_pi is_prefill =
     (if extra = [] then
        let ln_scale = lg (pool_core_scale 1 pool_pi is_prefill)
        in min_by (\<lambda>b. effective_ln_base lg b + ln_scale + queue_ln lg (inflight b)) candidates
      else min_by (\<lambda>b. plain_cost (cost_with_barriers_pi lg extra pool_pi is_prefill b)) candidates)"

definition select_with_barriers :: "(f64 \<Rightarrow> f64) \<Rightarrow> Backend list \<Rightarrow> BarrierFactor list \<Rightarrow> Backend option" where
  "select_with_barriers lg candidates extra = select_with_barriers_pi lg candidates extra (lit (1 / 2)) True"

definition select :: "(f64 \<Rightarrow> f64) \<Rightarrow> Backend list \<Rightarrow> Backend option" where
  "select lg candidates = select_with_barriers lg candidates []"

definition select_with_warmth_pi ::
    "(f64 \<Rightarrow> f64) \<Rightarrow> hashing \<Rightarrow> Backend list \<Rightarrow> BarrierFactor list \<Rightarrow> StateSnapshot option \<Rightarrow> u64 list \<Rightarrow> bool \<Rightarrow> f64 \<Rightarrow> Backend option" where
  "select_with_warmth_pi lg h candidates extra snapshot blocks decode_pool pool_pi =
     min_by (\<lambda>b. plain_cost (cost_with_warmth_pi lg h extra snapshot blocks decode_pool pool_pi b)) candidates"

definition select_with_warmth ::
    "(f64 \<Rightarrow> f64) \<Rightarrow> hashing \<Rightarrow> Backend list \<Rightarrow> BarrierFactor list \<Rightarrow> StateSnapshot option \<Rightarrow> u64 list \<Rightarrow> bool \<Rightarrow> Backend option" where
  "select_with_warmth lg h candidates extra snapshot blocks decode_pool =
     min_by (\<lambda>b. plain_cost (cost_with_warmth lg h extra snapshot blocks decode_pool b)) candidates"

definition select_prefill_with_identity_pi ::
    "(f64 \<Rightarrow> f64) \<Rightarrow> hashing \<Rightarrow> Backend list \<Rightarrow> StateSnapshot option \<Rightarrow> u64 \<Rightarrow> f64 \<Rightarrow> isolation option \<Rightarrow> Backend option" where
  "select_prefill_with_identity_pi lg h candidates snapshot toks pool_pi isol =
     (if snapshot = None then select_with_barriers_pi lg candidates [] pool_pi True
      else let blocks = default_routing_blocks toks
           in min_by (\<lambda>b. plain_cost (cost_with_isolation_pi lg h [] snapshot blocks False pool_pi isol b)) candidates)"

record DecodePlacementCtx =
  ctx_prefill_label :: string
  ctx_pf_topo :: TopologyId
  ctx_kv_bytes :: u64
  use_rdma_routing :: bool

definition transfer_penalty :: "(f64 \<Rightarrow> f64) \<Rightarrow> (f64 \<Rightarrow> f64) \<Rightarrow> DecodePlacementCtx \<Rightarrow> Backend \<Rightarrow> f64 option" where
  "transfer_penalty lg ex ctx candidate =
     (if ctx_prefill_label ctx = label candidate then None
      else Some (if use_rdma_routing ctx
                 then fmax (ex (fst (rdma_transfer_ln lg (ctx_kv_bytes ctx) (ctx_pf_topo ctx) (topology candidate) 0))) 1
                 else fmax ROUTING_TRANSFER_PENALTY 1))"

text \<open>The cost of one candidate in the decode loop, and the loop itself.\<close>

definition decode_candidate_ln ::
    "(f64 \<Rightarrow> f64) \<Rightarrow> (f64 \<Rightarrow> f64) \<Rightarrow> hashing \<Rightarrow> DecodePlacementCtx \<Rightarrow> StateSnapshot option \<Rightarrow> u64 list \<Rightarrow> BarrierFactor list \<Rightarrow> f64 \<Rightarrow> Backend \<Rightarrow> f64" where
  "decode_candidate_ln lg ex h ctx snapshot blocks extra_barriers pool_pi candidate =
     (let barriers = extra_barriers @
            (case transfer_penalty lg ex ctx candidate of Some penalty \<Rightarrow> [plain_barrier penalty] | None \<Rightarrow> [])
      in plain_cost (cost_with_warmth_pi lg h barriers snapshot blocks True pool_pi candidate))"

definition select_decode_with_pi ::
    "(f64 \<Rightarrow> f64) \<Rightarrow> (f64 \<Rightarrow> f64) \<Rightarrow> hashing \<Rightarrow> DecodePlacementCtx \<Rightarrow> Backend list \<Rightarrow> StateSnapshot option \<Rightarrow> u64 \<Rightarrow> BarrierFactor list \<Rightarrow> f64
       \<Rightarrow> Backend option" where
  "select_decode_with_pi lg ex h ctx candidates snapshot toks extra_barriers pool_pi =
     (let blocks = default_routing_blocks toks
      in map_option snd (foldl (\<lambda>best candidate.
           let l = decode_candidate_ln lg ex h ctx snapshot blocks extra_barriers pool_pi candidate
           in if (case best of None \<Rightarrow> True | Some (b, _) \<Rightarrow> flt l b) then Some (l, candidate) else best) None candidates))"

section \<open>Lemmas\<close>

lemma plain_cost_finite: "is_finite (plain_cost (Cost_from_ln l ev))"
  by (simp add: plain_cost_def Cost_from_ln_def)

lemma plain_cost_from_ln: "is_finite l \<Longrightarrow> plain_cost (Cost_from_ln l ev) = l"
  by (simp add: plain_cost_def Cost_from_ln_def)

lemma service_cost_finite: "is_finite (plain_cost (service_cost lg s n extra ds ev))"
proof -
  obtain ev' where "service_cost lg s n extra ds ev =
      compose lg (fst (TimeCore_clamped s 0)) (service_barriers n extra) ds Corrector_identity ev'"
    using service_cost_compose by blast
  then show ?thesis by (simp add: compose_def Let_def plain_cost_finite del: one_f64_def)
qed

lemma decode_candidate_finite: "is_finite (decode_candidate_ln lg ex h ctx snapshot blocks extra pool_pi b)"
  by (simp add: decode_candidate_ln_def cost_with_warmth_pi_def cost_with_isolation_pi_def Let_def
      plain_cost_finite service_cost_finite)

text \<open>A running best with a strict comparison is \<open>min_by\<close>, when no key is NaN.\<close>

lemma best_loop_min_by:
  assumes "\<And>x. key x \<noteq> NaN"
  shows "map_option snd (foldl (\<lambda>best x. if (case best of None \<Rightarrow> True | Some (b, _) \<Rightarrow> flt (key x) b) then Some (key x, x) else best) None xs)
    = min_by key xs"
proof -
  have *: "foldl (\<lambda>best x. if (case best of None \<Rightarrow> True | Some (b, _) \<Rightarrow> flt (key x) b) then Some (key x, x) else best) (Some (key m, m)) ys
      = Some (key (foldl (\<lambda>a b. if key b < key a then b else a) m ys), foldl (\<lambda>a b. if key b < key a then b else a) m ys)" for m ys
    using assms by (induction ys arbitrary: m) (auto simp: flt_def)
  show ?thesis by (cases xs) (simp_all add: min_by_def *)
qed

text \<open>The state a backend is in after any history: valid floats and the logarithm fixed at construction.\<close>

definition backend_ok :: "(f64 \<Rightarrow> f64) \<Rightarrow> Backend \<Rightarrow> bool" where
  "backend_ok lg b \<longleftrightarrow> f64_ok (base_service_seconds b) \<and> f64_ok (observed_ewma b) \<and> Fin 0 \<le> observed_ewma b \<and> observed_ewma b \<noteq> NaN
     \<and> ln_base_field b = (if is_finite (base_service_seconds b) \<and> flt 0 (base_service_seconds b)
                          then lg (base_service_seconds b) else lg f64_MAX)"

lemma backend_ok_new: "f64_ok base \<Longrightarrow> backend_ok lg (new_with_topology lg l a base topo)"
  by (simp add: backend_ok_def new_with_topology_def Let_def)

lemma backend_ok_inflight: "backend_ok lg b \<Longrightarrow> backend_ok lg (incr_inflight b)" "backend_ok lg b \<Longrightarrow> backend_ok lg (decr_inflight b)"
  by (simp_all add: backend_ok_def incr_inflight_def decr_inflight_def)

lemma alpha_quarter: "ROUTING_OBSERVED_LATENCY_EWMA_ALPHA = Fin (1 / 4)"
  using repr64_dyadic [of 1 2] mk64_unit [of "1 / 4"] by (simp add: ROUTING_OBSERVED_LATENCY_EWMA_ALPHA_def)

lemma nonneg_mk64_cases: "0 \<le> x \<Longrightarrow> Fin 0 \<le> mk64 x \<and> mk64 x \<noteq> NaN"
  using mk64_mono [of 0 x] by simp

lemma backend_ok_note:
  assumes "backend_ok lg b" "f64_ok secs"
  shows "backend_ok lg (note_observed_seconds secs b)"
proof (cases "is_finite secs \<and> \<not> fle secs 0")
  case True
  then obtain s where s: "secs = Fin s" "0 < s" by (cases secs) auto
  have q: "mk64 (3 / 4) = Fin (3 / 4)" using repr64_dyadic [of 3 2] by (intro mk64_unit) auto
  have "Fin 0 \<le> Fin (1 / 4) * secs + Fin (3 / 4) * v \<and> Fin (1 / 4) * secs + Fin (3 / 4) * v \<noteq> NaN"
    if v: "Fin 0 \<le> v" "v \<noteq> NaN" for v
  proof (cases v rule: f64_cases4)
    case (Fin y)
    have a: "Fin 0 \<le> mk64 (s / 4)" "mk64 (s / 4) \<noteq> NaN" using nonneg_mk64_cases [of "s / 4"] s by auto
    have b: "Fin 0 \<le> mk64 (y * 3 / 4)" "mk64 (y * 3 / 4) \<noteq> NaN" using nonneg_mk64_cases [of "y * 3 / 4"] v Fin by auto
    show ?thesis using a b nonneg_mk64_cases
      by (cases "mk64 (s / 4)" rule: f64_cases4; cases "mk64 (y * 3 / 4)" rule: f64_cases4) (auto simp: s Fin mult.commute)
  next
    case PosInf
    have a: "Fin 0 \<le> mk64 (s / 4)" "mk64 (s / 4) \<noteq> NaN" using nonneg_mk64_cases [of "s / 4"] s by auto
    then show ?thesis by (cases "mk64 (s / 4)" rule: f64_cases4) (auto simp: s PosInf mult.commute)
  qed (use v in auto)
  moreover have "1 - Fin (1 / 4) = Fin (3 / 4)" using q by (simp add: minus_f64_def)
  moreover have "fclamp (Fin (1 / 4)) 0 1 = Fin (1 / 4)" by (simp add: fclamp_def)
  ultimately show ?thesis using assms True s unfolding note_observed_seconds_def Let_def alpha_quarter
    by (auto simp: backend_ok_def simp del: zero_f64_def one_f64_def)
next
  case False
  then show ?thesis using assms(1) by (auto simp: note_observed_seconds_def)
qed

lemma pool_core_scale_pos:
  assumes "pool_pi \<noteq> NaN"
  shows "pos_ok (pool_core_scale 1 pool_pi is_prefill)"
proof -
  have r: "repr64 (1 / 32)" "repr64 (31 / 32)" "repr64 32" using repr64_dyadic [of 1 5] repr64_dyadic [of 31 5] repr64_dyadic [of 32 0] by auto
  obtain a where a: "lit (5 / 100) = Fin a" "1 / 32 \<le> a" "a \<le> 1 / 2"
    by (rule mk64_between [of "1 / 32" "5 / 100" "1 / 2"]) (use repr64_dyadic [of 1 1] in \<open>auto simp: r\<close>)
  obtain b where b: "lit (95 / 100) = Fin b" "1 / 2 \<le> b" "b \<le> 31 / 32"
    by (rule mk64_between [of "1 / 2" "95 / 100" "31 / 32"]) (use repr64_dyadic [of 1 1] in \<open>auto simp: r\<close>)
  obtain y where y: "fclamp pool_pi (Fin a) (Fin b) = Fin y" "1 / 32 \<le> y" "y \<le> 31 / 32"
    using fclamp_Fin [of a b pool_pi] a b assms by force
  obtain c where c: "mk64 (1 - y) = Fin c" "1 / 32 \<le> c" "c \<le> 31 / 32" "f64_ok (Fin c)"
    by (rule mk64_between [of "1 / 32" "1 - y" "31 / 32"]) (use y in \<open>auto simp: r\<close>)
  have unit_quot: "pos_ok (Fin u * Fin 1 / Fin v)" if uv: "1 / 32 \<le> u" "u \<le> 1" "1 / 32 \<le> v" "v \<le> 1" for u v
  proof -
    obtain w where w: "mk64 u = Fin w" "1 / 32 \<le> w" "w \<le> 1"
      by (rule mk64_between [of "1 / 32" u 1]) (use uv in \<open>auto simp: r\<close>)
    have "1 / 32 \<le> w / v" using w(2) uv by (simp add: le_divide_eq)
    moreover have "w / v \<le> 32" using w uv by (simp add: divide_le_eq)
    ultimately obtain q where q: "mk64 (w / v) = Fin q" "1 / 32 \<le> q" "f64_ok (Fin q)"
      by (rule mk64_between [of "1 / 32" "w / v" 32]) (auto simp: r)
    show ?thesis using w q uv by (simp add: pos_ok_def)
  qed
  show ?thesis unfolding pool_core_scale_def Let_def a b y(1) using unit_quot [of c y] unit_quot [of y c] c y
    by (simp add: minus_f64_def)
qed

lemma effective_pos_ok:
  assumes "backend_ok lg b"
  shows "pos_ok (effective_base_seconds b)" "pos_ok (claimed_seconds b)"
proof -
  have m: "pos_ok f64_MAX" using f64_max_real_facts(3) by (simp add: pos_ok_def f64_MAX_def)
  show c: "pos_ok (claimed_seconds b)"
    using assms m by (cases "base_service_seconds b") (auto simp: claimed_seconds_def pos_ok_def backend_ok_def)
  have "pos_ok v" if "f64_ok v" "is_finite v" "flt (claimed_seconds b) v" for v
    using that c by (cases v; cases "claimed_seconds b") (auto simp: pos_ok_def)
  then show "pos_ok (effective_base_seconds b)"
    using assms c by (auto simp: effective_base_seconds_def Let_def backend_ok_def)
qed

context libm_ln
begin

lemma effective_ln_within: "backend_ok lg b \<Longrightarrow> ln_within 1 (effective_ln_base lg b)"
proof -
  assume b: "backend_ok lg b"
  have "ln_base_field b = lg (claimed_seconds b)" using b by (simp add: backend_ok_def claimed_seconds_def)
  moreover have "is_finite (effective_base_seconds b) \<and> flt 0 (effective_base_seconds b)"
    using effective_pos_ok(1) [OF b] by (simp add: pos_ok_def)
  ultimately show "ln_within 1 (effective_ln_base lg b)"
    using ln_pos_ok [OF effective_pos_ok(1) [OF b]] ln_pos_ok [OF effective_pos_ok(2) [OF b]]
    by (simp add: effective_ln_base_def Let_def)
qed

lemma queue_ln_within: "n < 2 ^ 64 \<Longrightarrow> ln_within 1 (queue_ln lg n)"
proof -
  assume n: "n < 2 ^ 64"
  obtain x where x: "f64_of_nat n = Fin x" "0 \<le> x" "x \<le> 2 ^ 64" using f64_of_nat_Fin [of n] n by auto
  have r: "repr64 (2 ^ 65)" using repr64_powi2 [of 65] by (simp add: power_int_def)
  have "pos_ok (1 + f64_of_nat n)"
  proof -
    have "1 \<le> rnd (1 + x)" using x by (intro rnd_ge_repr) auto
    moreover have "rnd (1 + x) \<le> 2 ^ 65" using x(3) by (intro rnd_le_repr [OF _ r]) simp
    moreover have "(2::real) ^ 65 < f64_lim" by (simp add: f64_lim_def)
    ultimately show ?thesis by (simp add: x mk64_def pos_ok_def f64_ok_def)
  qed
  then show ?thesis unfolding queue_ln_def by (rule ln_pos_ok)
qed

lemma selection_ln_within:
  "backend_ok lg b \<Longrightarrow> inflight b < 2 ^ 64 \<Longrightarrow> pool_pi \<noteq> NaN \<Longrightarrow> ln_within 3 (selection_ln lg pool_pi is_prefill b)"
proof -
  assume a: "backend_ok lg b" "inflight b < 2 ^ 64" "pool_pi \<noteq> NaN"
  have "ln_within (1 + 1) (effective_ln_base lg b + lg (pool_core_scale 1 pool_pi is_prefill))"
    using a by (intro ln_within_plus effective_ln_within ln_pos_ok pool_core_scale_pos) simp_all
  then have "ln_within (1 + 1 + 1) (selection_ln lg pool_pi is_prefill b)"
    unfolding selection_ln_def using a by (intro ln_within_plus [of "1 + 1"] queue_ln_within) simp_all
  then show "ln_within 3 (selection_ln lg pool_pi is_prefill b)" by (simp add: numeral_3_eq_3)
qed

end

lemma pool_core_scale_ok: "f64_ok (pool_core_scale base pool_pi is_prefill)"
  by (simp add: pool_core_scale_def Let_def)

lemma isolation_cost_moderate:
  assumes "libm_ln lg" "backend_ok lg b" "inflight b < 2 ^ 64" "pool_pi \<noteq> NaN" "\<forall>x \<in> set extra. wf_barrier x"
  shows "moderate (plain_cost (cost_with_isolation_pi lg h extra snapshot blocks dp pool_pi isol b))"
proof -
  have d: "wf_discount d" if "warmth_discount_for h snapshot dp (label b) blocks isol = Some d" for d
    using that wf_plain_discount [OF pool_hit_strength_ok] by (auto simp: warmth_discount_for_def bind_eq_Some_conv)
  have w: "ln_within 3 (selection_ln lg pool_pi (\<not> dp) b)" using libm_ln.selection_ln_within assms by blast
  then have "is_finite (selection_ln lg pool_pi (\<not> dp) b)" by (auto simp: ln_within_def)
  then have "moderate (plain_cost (Cost_from_ln (selection_ln lg pool_pi (\<not> dp) b) 0))"
    using ln_within_moderate [OF w] by (simp add: plain_cost_from_ln)
  then show ?thesis using d assms(1,5)
    by (auto simp: cost_with_isolation_pi_def Let_def split: option.splits intro!: moderate_service_cost pool_core_scale_ok)
qed

lemma half: "lit (1 / 2) = Fin (1 / 2)"
  using repr64_dyadic [of 1 1] by (intro mk64_unit) auto

definition live :: "(f64 \<Rightarrow> f64) \<Rightarrow> Backend \<Rightarrow> bool" where
  "live lg b \<longleftrightarrow> backend_ok lg b \<and> inflight b < 2 ^ 64"

text \<open>The live backends satisfy the contract of the pairing monitor too.\<close>

lemma backend_costs: "libm_ln lg \<Longrightarrow> pairing_costs (backend_target lg h) (live lg)"
  by unfold_locales
    (auto simp: backend_target_def live_def cost_with_warmth_def cost_with_warmth_pi_def half decode_barriers_plain
      wf_plain_barrier ok_fmax simp del: one_f64_def intro!: isolation_cost_moderate)

interpretation backends: pairing_costs "backend_target cr_ln h" "live cr_ln" for h
  by (rule backend_costs) (rule cr.libm_ln_axioms)

section \<open>Properties\<close>


definition sample_backend :: Backend where
  "sample_backend = new_with_topology cr_ln ''pf0'' ''127.0.0.1:1'' (Fin 1) \<lparr>node = ''n'', rack = ''r'', cluster = ''c''\<rparr>"

lemma sample_backend_live: "live cr_ln sample_backend"
  by (simp add: live_def sample_backend_def backend_ok_new) (simp add: new_with_topology_def)


text \<open>Decode placement optimises: the single pass with a reused barrier buffer returns the first
  candidate of minimal cost, transfer penalty included, and fails only on an empty pool.\<close>

theorem select_decode_min_cost:
  "select_decode_with_pi lg ex h ctx candidates snapshot toks extra pool_pi
     = min_by (decode_candidate_ln lg ex h ctx snapshot (default_routing_blocks toks) extra pool_pi) candidates
   \<and> (select_decode_with_pi lg ex h ctx candidates snapshot toks extra pool_pi = None \<longleftrightarrow> candidates = [])"
proof -
  have "decode_candidate_ln lg ex h ctx snapshot (default_routing_blocks toks) extra pool_pi b \<noteq> NaN" for b
    using decode_candidate_finite by (metis is_finite.simps(2))
  then have "select_decode_with_pi lg ex h ctx candidates snapshot toks extra pool_pi
     = min_by (decode_candidate_ln lg ex h ctx snapshot (default_routing_blocks toks) extra pool_pi) candidates"
    unfolding select_decode_with_pi_def Let_def by (rule best_loop_min_by)
  then show ?thesis by simp
qed

text \<open>A backend cannot buy traffic by under-reporting: the service time used for selection is never
  below the measured average nor below the claim, a first measurement above the claim replaces it, and
  invalid samples and invalid claims never make a backend cheaper.\<close>

theorem effective_base_floor:
  assumes "backend_ok lg b" "is_finite (observed_ewma b)"
  shows "fle (observed_ewma b) (effective_base_seconds b) \<and> fle (claimed_seconds b) (effective_base_seconds b)
    \<and> (observed_ewma b = 0 \<and> is_finite secs \<and> flt (claimed_seconds b) secs \<longrightarrow>
         effective_base_seconds (note_observed_seconds secs b) = secs)
    \<and> (\<not> is_finite secs \<or> fle secs 0 \<longrightarrow> note_observed_seconds secs b = b)
    \<and> (\<not> (is_finite (base_service_seconds b) \<and> flt 0 (base_service_seconds b)) \<longrightarrow> claimed_seconds b = f64_MAX)"
proof -
  obtain c where c: "claimed_seconds b = Fin c" "0 < c" using effective_pos_ok(2) [OF assms(1)] by (auto simp: pos_ok_def)
  obtain v where v: "observed_ewma b = Fin v" using assms(2) by blast
  have "fle (observed_ewma b) (effective_base_seconds b)" "fle (claimed_seconds b) (effective_base_seconds b)"
    using c v by (auto simp: effective_base_seconds_def Let_def)
  moreover have "effective_base_seconds (note_observed_seconds secs b) = secs"
    if m: "observed_ewma b = 0" "is_finite secs" "flt (claimed_seconds b) secs"
  proof -
    obtain t where t: "secs = Fin t" "c < t" using m c by auto
    have "claimed_seconds (b\<lparr>observed_ewma := secs\<rparr>) = claimed_seconds b" by (simp add: claimed_seconds_def)
    then show ?thesis using t c m by (simp add: note_observed_seconds_def effective_base_seconds_def)
  qed
  ultimately show ?thesis by (simp add: note_observed_seconds_def claimed_seconds_def)
qed

theorem effective_base_floor_witness:
  "effective_base_seconds (note_observed_seconds (Fin 2) sample_backend) = Fin 2"
proof -
  have "backend_ok cr_ln sample_backend" using sample_backend_live by (simp add: live_def)
  moreover have "observed_ewma sample_backend = Fin 0" "claimed_seconds sample_backend = Fin 1"
    by (simp_all add: sample_backend_def new_with_topology_def claimed_seconds_def)
  ultimately show ?thesis using effective_base_floor [of cr_ln sample_backend "Fin 2"] by simp
qed

end
