(* ===== verification/Handoff.thy ===== *)
theory Handoff
  imports Text Kv
begin

text \<open>
  The KV hand-off between prefill and decode (\<open>crates/demiurge-handoff\<close>): handles, the parser of
  the prefill response, the registry with its transfer samples (\<open>lib.rs\<close>) and the transports
  (\<open>transport.rs\<close>).  The handle counter is a static threaded through; a \<open>Duration\<close> is a number of
  nanoseconds.  Labels are decoded text.
\<close>

section \<open>Handles and descriptors\<close>

definition TRANSFER_SAMPLES :: nat where
  "TRANSFER_SAMPLES = 1024"

definition NEXT_KV_HANDLE_init :: u64 where
  "NEXT_KV_HANDLE_init = 1"

datatype KvHandle = KvHandle (handle_raw: u64)

definition KvHandle_new :: "u64 \<Rightarrow> KvHandle \<times> u64" where
  "KvHandle_new next_kv_handle = (KvHandle next_kv_handle, next_kv_handle + 1)"

definition KvHandle_from_raw :: "u64 \<Rightarrow> KvHandle option" where
  "KvHandle_from_raw raw = (if raw = 0 then None else Some (KvHandle raw))"

record HandoffDescriptor =
  hd_request_id :: u64
  kv_handle :: KvHandle
  byte_len :: u64
  hd_source_label :: string
  decode_label :: "string option"

definition is_valid :: "HandoffDescriptor \<Rightarrow> bool" where
  "is_valid d \<longleftrightarrow> handle_raw (kv_handle d) \<noteq> 0 \<and> 0 < byte_len d"

section \<open>Parsing the prefill response\<close>

definition KV_HANDLE_PREFIX :: utext where
  "KV_HANDLE_PREFIX = of_ascii ''x-demiurge-kv-handle:''"

definition KV_BYTES_PREFIX :: utext where
  "KV_BYTES_PREFIX = of_ascii ''x-demiurge-kv-bytes:''"

definition header_end :: "bytes \<Rightarrow> nat" where
  "header_end response =
     (case find_sub [13, 10, 13, 10] response of Some i \<Rightarrow> i + 4 | None \<Rightarrow> length response)"

definition handoff_line :: "KvHandle option \<times> u64 option \<Rightarrow> utext \<Rightarrow> KvHandle option \<times> u64 option" where
  "handoff_line = (\<lambda>(handle, blen) line.
     let l = lower line in
     case strip_prefix KV_HANDLE_PREFIX l of
       Some rest \<Rightarrow> (Option.bind (parse_u64 (trim rest)) KvHandle_from_raw, blen)
     | None \<Rightarrow> (case strip_prefix KV_BYTES_PREFIX l of
           Some rest \<Rightarrow> (handle, parse_u64 (trim rest))
         | None \<Rightarrow> (handle, blen)))"

definition parse_prefill_handoff :: "bytes \<Rightarrow> u64 \<Rightarrow> string \<Rightarrow> HandoffDescriptor option" where
  "parse_prefill_handoff response rid src =
     (let txt = from_utf8_lossy (take (header_end response) response);
          (handle, blen) = foldl handoff_line (None, None) (lines txt)
      in do { h \<leftarrow> handle; b \<leftarrow> blen;
              Some \<lparr>hd_request_id = rid, kv_handle = h, byte_len = b, hd_source_label = src, decode_label = None\<rparr> })"

section \<open>Registry\<close>

record HandoffTransferMetrics =
  count :: u64
  bytes_p50 :: u64
  bytes_p99 :: u64
  wall_us_p50 :: u64
  wall_us_p99 :: u64

definition percentile :: "u64 list \<Rightarrow> f64 \<Rightarrow> u64" where
  "percentile sorted_xs p =
     (if sorted_xs = [] then 0
      else let idx = min (nat_of_f64 (f64_of_nat (length sorted_xs) * p)) (length sorted_xs - 1)
           in sorted_xs ! idx)"

record HandoffRegistry =
  handoffs :: "(u64 \<times> HandoffDescriptor) list"
  transfer_bytes :: "u64 list"
  transfer_wall_us :: "u64 list"

definition HandoffRegistry_new :: HandoffRegistry where
  "HandoffRegistry_new = \<lparr>handoffs = [], transfer_bytes = [], transfer_wall_us = []\<rparr>"

definition publish :: "HandoffDescriptor \<Rightarrow> HandoffRegistry \<Rightarrow> HandoffRegistry" where
  "publish d r = (if \<not> is_valid d then r else r\<lparr>handoffs := AList.update (hd_request_id d) d (handoffs r)\<rparr>)"

definition handoff_get :: "u64 \<Rightarrow> HandoffRegistry \<Rightarrow> HandoffDescriptor option" where
  "handoff_get rid r = map_of (handoffs r) rid"

definition handoff_take :: "u64 \<Rightarrow> HandoffRegistry \<Rightarrow> HandoffDescriptor option \<times> HandoffRegistry" where
  "handoff_take rid r = (map_of (handoffs r) rid, r\<lparr>handoffs := AList.delete rid (handoffs r)\<rparr>)"

definition push_transfer :: "u64 \<Rightarrow> u64 list \<Rightarrow> u64 list" where
  "push_transfer x xs = (if TRANSFER_SAMPLES \<le> length xs then tl xs else xs) @ [x]"

definition as_micros_u64 :: "nat \<Rightarrow> u64" where
  "as_micros_u64 wall = of_nat (min (wall div 1000) (2 ^ 64 - 1))"

definition record_transfer :: "u64 \<Rightarrow> nat \<Rightarrow> HandoffRegistry \<Rightarrow> HandoffRegistry" where
  "record_transfer b wall r =
     (if b = 0 then r
      else r\<lparr>transfer_bytes := push_transfer b (transfer_bytes r),
             transfer_wall_us := push_transfer (as_micros_u64 wall) (transfer_wall_us r)\<rparr>)"

definition transfer_metrics :: "HandoffRegistry \<Rightarrow> HandoffTransferMetrics" where
  "transfer_metrics r =
     (if transfer_bytes r = [] then \<lparr>count = 0, bytes_p50 = 0, bytes_p99 = 0, wall_us_p50 = 0, wall_us_p99 = 0\<rparr>
      else let bs = sort (transfer_bytes r); ws = sort (transfer_wall_us r)
           in \<lparr>count = of_nat (length bs),
               bytes_p50 = percentile bs (lit (50 / 100)), bytes_p99 = percentile bs (lit (99 / 100)),
               wall_us_p50 = percentile ws (lit (50 / 100)), wall_us_p99 = percentile ws (lit (99 / 100))\<rparr>)"

section \<open>Transports\<close>

record TransferOutcome =
  to_bytes :: u64
  wall :: nat

text \<open>The implementations of the trait \<open>HandoffTransport\<close>.\<close>

datatype HandoffTransport =
  HeaderPassthrough
| MockRdma u64
| ModeledRdma "(string \<times> TopologyId) list"

definition DEFAULT_LATENCY_US :: u64 where
  "DEFAULT_LATENCY_US = 50"

definition HeaderPassthrough_transfer :: "HandoffDescriptor \<Rightarrow> nat \<Rightarrow> TransferOutcome" where
  "HeaderPassthrough_transfer d prefill_wall = \<lparr>to_bytes = byte_len d, wall = prefill_wall\<rparr>"

definition MockRdma_transfer :: "u64 \<Rightarrow> HandoffDescriptor \<Rightarrow> nat \<Rightarrow> TransferOutcome" where
  "MockRdma_transfer latency_us d prefill_wall = \<lparr>to_bytes = byte_len d, wall = unat latency_us * 1000\<rparr>"

definition TopologyId_default :: TopologyId where
  "TopologyId_default = \<lparr>node = '''', rack = '''', cluster = ''''\<rparr>"

definition topology_of :: "(string \<times> TopologyId) list \<Rightarrow> string \<Rightarrow> TopologyId" where
  "topology_of topo l = (case map_of topo l of Some t \<Rightarrow> t | None \<Rightarrow> TopologyId_default)"

text \<open>
  \<open>Duration::from_secs_f64\<close> rounds to the nearest nanosecond and panics on a negative, NaN or
  too large argument: \<open>None\<close>.
\<close>

definition from_secs_f64 :: "f64 \<Rightarrow> nat option" where
  "from_secs_f64 s = (case s of Fin x \<Rightarrow> if 0 \<le> x \<and> x < 2 ^ 64 then Some (nat (rne (x * 1000000000))) else None | _ \<Rightarrow> None)"

definition ModeledRdma_transfer :: "(string \<times> TopologyId) list \<Rightarrow> HandoffDescriptor \<Rightarrow> nat \<Rightarrow> TransferOutcome option" where
  "ModeledRdma_transfer topo d prefill_wall =
     (let pf = topology_of topo (hd_source_label d);
          dc_label = (case decode_label d of Some l \<Rightarrow> l | None \<Rightarrow> hd_source_label d);
          dc = topology_of topo dc_label;
          seconds = rdma_transfer_seconds (byte_len d) (rdma_distance pf dc)
      in do { w \<leftarrow> from_secs_f64 seconds; Some \<lparr>to_bytes = byte_len d, wall = w\<rparr> })"

definition transfer :: "HandoffTransport \<Rightarrow> HandoffDescriptor \<Rightarrow> nat \<Rightarrow> TransferOutcome option" where
  "transfer tr d prefill_wall =
     (case tr of HeaderPassthrough \<Rightarrow> Some (HeaderPassthrough_transfer d prefill_wall)
      | MockRdma us \<Rightarrow> Some (MockRdma_transfer us d prefill_wall)
      | ModeledRdma topo \<Rightarrow> ModeledRdma_transfer topo d prefill_wall)"

definition ascii_lower_string :: "string \<Rightarrow> string" where
  "ascii_lower_string s = map (\<lambda>c. if 65 \<le> (of_char c :: nat) \<and> (of_char c :: nat) \<le> 90 then char_of (of_char c + 32 :: nat) else c) s"

definition handoff_transport_from_env :: "string option \<Rightarrow> (string \<times> TopologyId) list \<Rightarrow> HandoffTransport" where
  "handoff_transport_from_env env topo =
     (let v = ascii_lower_string (case env of Some s \<Rightarrow> s | None \<Rightarrow> '''')
      in if v = ''mock_rdma'' then MockRdma DEFAULT_LATENCY_US
         else if v = ''modeled_rdma'' then ModeledRdma topo
         else HeaderPassthrough)"

section \<open>Lemmas\<close>

interpretation transfers: bounded_log push_transfer "\<lambda>r. r" "\<lambda>_. TRANSFER_SAMPLES" "\<lambda>r. length r \<le> TRANSFER_SAMPLES"
  by unfold_locales (auto simp: push_transfer_def push_capped_def TRANSFER_SAMPLES_def)

lemma header_end_append:
  assumes "find_sub [13, 10, 13, 10] h \<noteq> None"
  shows "header_end (h @ body) = header_end h" "header_end h \<le> length h"
proof -
  obtain i where i: "find_sub [13, 10, 13, 10] h = Some i" using assms by blast
  then show "header_end (h @ body) = header_end h" by (simp add: header_end_def find_sub_append)
  obtain r where r: "h = take i h @ [13, 10, 13, 10] @ r" "i \<le> length h" using find_sub_sound [OF i] by blast
  have "length h = length (take i h @ [13, 10, 13, 10] @ r)" using r(1) by (rule arg_cong)
  then have "i + 4 \<le> length h" using r(2) by simp
  then show "header_end h \<le> length h" by (simp add: header_end_def i)
qed

text \<open>The parser keeps a handle only when it is not zero.\<close>

lemma handoff_line_handle:
  "(\<And>h. fst a = Some h \<Longrightarrow> handle_raw h \<noteq> 0) \<Longrightarrow> fst (foldl handoff_line a ls) = Some h \<Longrightarrow> handle_raw h \<noteq> 0"
proof (induction ls arbitrary: a)
  case (Cons l ls)
  have "handle_raw h \<noteq> 0" if "fst (handoff_line a l) = Some h" for h
    using that Cons.prems(1)
    by (cases a) (auto simp: handoff_line_def Let_def KvHandle_from_raw_def bind_eq_Some_conv split: option.splits if_splits)
  then show ?case using Cons.IH [of "handoff_line a l"] Cons.prems(2) by simp
qed simp

section \<open>Properties\<close>

text \<open>Only the head of a prefill response is read: whatever follows the first blank line, header
  look-alikes included, cannot change the hand-off that is parsed; and a parsed hand-off never has a
  zero handle.\<close>

theorem parse_prefill_handoff_ignores_body:
  assumes "find_sub [13, 10, 13, 10] h \<noteq> None"
  shows "parse_prefill_handoff (h @ body) rid src = parse_prefill_handoff h rid src
    \<and> (\<forall>d. parse_prefill_handoff h rid src = Some d \<longrightarrow> handle_raw (kv_handle d) \<noteq> 0)"
proof -
  have "take (header_end (h @ body)) (h @ body) = take (header_end h) h"
    using header_end_append [OF assms] by simp
  moreover have "handle_raw (kv_handle d) \<noteq> 0" if d: "parse_prefill_handoff h rid src = Some d" for d
  proof -
    let ?ls = "lines (from_utf8_lossy (take (header_end h) h))"
    have "fst (foldl handoff_line (None, None) ?ls) = Some (kv_handle d)"
      using d by (cases "foldl handoff_line (None, None) ?ls") (auto simp: parse_prefill_handoff_def Let_def bind_eq_Some_conv)
    then show ?thesis using handoff_line_handle [of "(None, None)"] by simp
  qed
  ultimately show ?thesis by (simp add: parse_prefill_handoff_def)
qed

theorem parse_prefill_handoff_ignores_body_witness:
  "parse_prefill_handoff ([13, 10, 13, 10] @ ascii ''x-demiurge-kv-bytes: 9'') 1 ''p''
     = parse_prefill_handoff [13, 10, 13, 10] 1 ''p''"
  using parse_prefill_handoff_ignores_body [of "[13, 10, 13, 10]" "ascii ''x-demiurge-kv-bytes: 9''" 1 "''p''"]
  by (simp add: starts_with_def)

text \<open>A hand-off is consumed at most once: a published valid descriptor is returned by the next
  take of its request, a second take finds nothing, other requests are not affected, and an invalid
  descriptor is never published.\<close>

theorem handoff_take_once:
  "fst (handoff_take rid (publish d r)) =
     (if is_valid d \<and> hd_request_id d = rid then Some d else handoff_get rid r)
   \<and> fst (handoff_take rid (snd (handoff_take rid r))) = None
   \<and> handoff_get rid' (snd (handoff_take rid r)) = (if rid' = rid then None else handoff_get rid' r)"
  by (simp add: handoff_take_def publish_def handoff_get_def update_conv' delete_conv')

end
