(* ===== verification/Ledger.thy ===== *)
theory Ledger
  imports Kv
begin

text \<open>
  The decode-pool KV reservation ledger (\<open>crates/demiurge-control/src/lib.rs\<close>): reservation with a
  fleet-wide and a per-source limit, release, TTL reclaim, and the guards that release on drop.

  Each public operation holds the \<open>reservations\<close> lock for its whole effect, so a concurrent
  execution is a sequence of these operations; the atomics it updates are fields of the record.
  \<open>Instant\<close> readings are nanosecond counts passed in by the caller; \<open>duration_since\<close> saturates at
  zero, which is subtraction on \<open>nat\<close>.
\<close>

section \<open>State\<close>

definition RECENT_SAMPLES :: nat where
  "RECENT_SAMPLES = 256"

record LedgerMetrics =
  kv_bytes_reserved :: u64
  kv_admit_rejects_total :: u64
  kv_reservation_error :: u64

datatype AdmitError = OverCapacity | DuplicateRequest

definition AdmitError_fmt :: "AdmitError \<Rightarrow> string" where
  "AdmitError_fmt e =
     (case e of OverCapacity \<Rightarrow> ''decode pool KV capacity exceeded''
      | DuplicateRequest \<Rightarrow> ''request already reserved'')"

record ReservationEntry =
  entry_bytes :: u64
  created :: nat
  source_label :: "string option"

record ReservationLedger =
  capacity_bytes :: u64
  max_per_source :: u64
  reserved_bytes :: u64
  admit_rejects :: u64
  reservation_errors :: u64
  reservations :: "(u64 \<times> ReservationEntry) list"
  source_outstanding :: "(string \<times> u64) list"
  recent_sizes :: "u64 list"

record ReservationGuard =
  request_id :: u64
  released :: bool

section \<open>Operations\<close>

definition ReservationLedger_new :: "u64 \<Rightarrow> ReservationLedger" where
  "ReservationLedger_new cap =
     (let fraction = fclamp KV_MAX_OUTSTANDING_PER_SOURCE_FRACTION 0 1;
          per_source = u64_of_f64 (fceil (f64_of_u64 cap * fraction))
      in \<lparr>capacity_bytes = cap, max_per_source = max per_source 1, reserved_bytes = 0, admit_rejects = 0,
          reservation_errors = 0, reservations = [], source_outstanding = [], recent_sizes = []\<rparr>)"

definition fleet_reserved :: "ReservationLedger \<Rightarrow> u64" where
  "fleet_reserved L = reserved_bytes L"

definition p90_increment :: "ReservationLedger \<Rightarrow> u64" where
  "p90_increment L = percentile90 (recent_sizes L)"

definition ledger_phi_barrier :: "ReservationLedger \<Rightarrow> clamp_events \<Rightarrow> BarrierFactor \<times> clamp_events" where
  "ledger_phi_barrier L ev = phi_barrier_marginal (fleet_reserved L) (p90_increment L) (capacity_bytes L) ev"

definition ledger_metrics :: "ReservationLedger \<Rightarrow> LedgerMetrics" where
  "ledger_metrics L = \<lparr>kv_bytes_reserved = fleet_reserved L, kv_admit_rejects_total = admit_rejects L,
                       kv_reservation_error = reservation_errors L\<rparr>"

definition push_recent :: "u64 \<Rightarrow> u64 list \<Rightarrow> u64 list" where
  "push_recent b recent = (if RECENT_SAMPLES \<le> length recent then tl recent else recent) @ [b]"

definition reject :: "ReservationLedger \<Rightarrow> ReservationLedger" where
  "reject L = L\<lparr>admit_rejects := admit_rejects L + 1\<rparr>"

definition try_reserve_from ::
  "string option \<Rightarrow> u64 \<Rightarrow> u64 \<Rightarrow> nat \<Rightarrow> ReservationLedger \<Rightarrow> (AdmitError + ReservationGuard) \<times> ReservationLedger" where
  "try_reserve_from src rid b now L =
     (if b = 0 then (Inl OverCapacity, reject L)
      else if map_of (reservations L) rid \<noteq> None then (Inl DuplicateRequest, L)
      else if capacity_bytes L < saturating_add (reserved_bytes L) b then (Inl OverCapacity, reject L)
      else
        let commit = (\<lambda>sources.
              (Inr \<lparr>request_id = rid, released = False\<rparr>,
               L\<lparr>reservations := AList.update rid \<lparr>entry_bytes = b, created = now, source_label = src\<rparr> (reservations L),
                 source_outstanding := sources,
                 reserved_bytes := reserved_bytes L + b,
                 recent_sizes := push_recent b (recent_sizes L)\<rparr>))
        in case src of
             None \<Rightarrow> commit (source_outstanding L)
           | Some l \<Rightarrow>
               let outstanding = (case map_of (source_outstanding L) l of Some v \<Rightarrow> v | None \<Rightarrow> 0)
               in if max_per_source L < saturating_add outstanding b then (Inl OverCapacity, reject L)
                  else commit (AList.update l (outstanding + b) (source_outstanding L)))"

definition try_reserve ::
  "u64 \<Rightarrow> u64 \<Rightarrow> nat \<Rightarrow> ReservationLedger \<Rightarrow> (AdmitError + ReservationGuard) \<times> ReservationLedger" where
  "try_reserve rid b now L = try_reserve_from None rid b now L"

definition reserve_for_prompt ::
  "u64 \<Rightarrow> u64 \<Rightarrow> u64 \<Rightarrow> nat \<Rightarrow> ReservationLedger \<Rightarrow> (AdmitError + ReservationGuard) \<times> ReservationLedger" where
  "reserve_for_prompt rid tokens bytes_per_token now L =
     (let b = kv_reserved (kv_breakdown tokens bytes_per_token) in try_reserve rid b now L)"

definition source_release :: "string \<Rightarrow> u64 \<Rightarrow> (string \<times> u64) list \<Rightarrow> (string \<times> u64) list" where
  "source_release l b sources =
     (case map_of sources l of
        Some out \<Rightarrow> let out' = saturating_sub out b
                    in if out' = 0 then AList.delete l sources else AList.update l out' sources
      | None \<Rightarrow> sources)"

definition release_inner :: "u64 \<Rightarrow> ReservationLedger \<Rightarrow> bool \<times> ReservationLedger" where
  "release_inner rid L =
     (case map_of (reservations L) rid of
        Some entry \<Rightarrow>
          (True, L\<lparr>reservations := AList.delete rid (reservations L),
                   reserved_bytes := reserved_bytes L - entry_bytes entry,
                   source_outstanding :=
                     (case source_label entry of
                        Some l \<Rightarrow> source_release l (entry_bytes entry) (source_outstanding L)
                      | None \<Rightarrow> source_outstanding L)\<rparr>)
      | None \<Rightarrow> (False, L\<lparr>reservation_errors := reservation_errors L + 1\<rparr>))"

definition ledger_release :: "u64 \<Rightarrow> ReservationLedger \<Rightarrow> ReservationLedger" where
  "ledger_release rid L = snd (release_inner rid L)"

definition ttl_ns :: nat where
  "ttl_ns = unat KV_ABANDONED_SESSION_TTL_S * 1000000000"

definition expired :: "nat \<Rightarrow> ReservationEntry \<Rightarrow> bool" where
  "expired now e \<longleftrightarrow> ttl_ns \<le> now - created e"

definition reclaim_expired :: "nat \<Rightarrow> ReservationLedger \<Rightarrow> nat \<times> ReservationLedger" where
  "reclaim_expired now L =
     (let dead = map fst (filter (\<lambda>p. expired now (snd p)) (reservations L))
      in (length dead, fold ledger_release dead L))"

definition guard_release :: "ReservationGuard \<Rightarrow> ReservationLedger \<Rightarrow> ReservationGuard \<times> ReservationLedger" where
  "guard_release g L =
     (if \<not> released g then (g\<lparr>released := True\<rparr>, ledger_release (request_id g) L) else (g, L))"

definition guard_drop :: "ReservationGuard \<Rightarrow> ReservationLedger \<Rightarrow> ReservationLedger" where
  "guard_drop g L = (if \<not> released g then ledger_release (request_id g) L else L)"

text \<open>\<open>ReservationGuard::release\<close> consumes the guard: the explicit release, then the drop.\<close>

definition guard_release_consume :: "ReservationGuard \<Rightarrow> ReservationLedger \<Rightarrow> ReservationLedger" where
  "guard_release_consume g L = (let (g, L) = guard_release g L in guard_drop g L)"

datatype MigrationDecision = Commit | Abort

definition resolve_migration ::
  "ReservationGuard \<Rightarrow> ReservationGuard \<Rightarrow> MigrationDecision \<Rightarrow> ReservationLedger \<Rightarrow> ReservationGuard \<times> ReservationLedger" where
  "resolve_migration self target decision L =
     (case decision of
        Commit \<Rightarrow> (target, guard_release_consume self L)
      | Abort \<Rightarrow> (self, guard_release_consume target L))"

section \<open>Invariant\<close>

definition source_weight :: "string \<Rightarrow> ReservationEntry \<Rightarrow> nat" where
  "source_weight l e = (if source_label e = Some l then unat (entry_bytes e) else 0)"

definition outstanding_of :: "ReservationLedger \<Rightarrow> string \<Rightarrow> nat" where
  "outstanding_of L l = (case map_of (source_outstanding L) l of Some v \<Rightarrow> unat v | None \<Rightarrow> 0)"

definition ledger_inv :: "ReservationLedger \<Rightarrow> bool" where
  "ledger_inv L \<longleftrightarrow>
     capacity_bytes L \<noteq> u64_max \<and>
     distinct (map fst (reservations L)) \<and>
     unat (reserved_bytes L) = alist_sum (unat \<circ> entry_bytes) (reservations L) \<and>
     reserved_bytes L \<le> capacity_bytes L \<and>
     (\<forall>l. outstanding_of L l = alist_sum (source_weight l) (reservations L)) \<and>
     (\<forall>l. outstanding_of L l \<le> unat (max_per_source L)) \<and>
     (\<forall>p\<in>set (reservations L). entry_bytes (snd p) \<noteq> 0) \<and>
     distinct (map fst (source_outstanding L)) \<and>
     length (recent_sizes L) \<le> RECENT_SAMPLES"

lemma ledger_invD:
  assumes "ledger_inv L"
  shows "capacity_bytes L \<noteq> u64_max" "distinct (map fst (reservations L))"
    "unat (reserved_bytes L) = alist_sum (unat \<circ> entry_bytes) (reservations L)"
    "reserved_bytes L \<le> capacity_bytes L"
    "outstanding_of L l = alist_sum (source_weight l) (reservations L)"
    "outstanding_of L l \<le> unat (max_per_source L)"
    "p \<in> set (reservations L) \<Longrightarrow> entry_bytes (snd p) \<noteq> 0"
    "distinct (map fst (source_outstanding L))" "length (recent_sizes L) \<le> RECENT_SAMPLES"
  using assms unfolding ledger_inv_def by blast+

lemma ledger_inv_new: "cap \<noteq> u64_max \<Longrightarrow> ledger_inv (ReservationLedger_new cap)"
  by (simp add: ledger_inv_def ReservationLedger_new_def outstanding_of_def Let_def)

lemma outstanding_of_reject [simp]: "outstanding_of (reject L) = outstanding_of L"
  by (rule ext) (simp add: outstanding_of_def reject_def)

lemma ledger_inv_reject: "ledger_inv L \<Longrightarrow> ledger_inv (reject L)"
  unfolding ledger_inv_def outstanding_of_reject unfolding reject_def by force

lemma length_push_recent: "length r \<le> RECENT_SAMPLES \<Longrightarrow> length (push_recent b r) \<le> RECENT_SAMPLES"
  by (auto simp: push_recent_def RECENT_SAMPLES_def)

interpretation recent: bounded_log push_recent "\<lambda>r. r" "\<lambda>_. RECENT_SAMPLES" "\<lambda>r. length r \<le> RECENT_SAMPLES"
  by unfold_locales (auto simp: push_recent_def push_capped_def RECENT_SAMPLES_def)

text \<open>Inserting a fresh entry, per weight.\<close>

lemma alist_sum_update_new:
  "map_of al k = None \<Longrightarrow> alist_sum w (AList.update k v al) = alist_sum w al + w v"
  by (simp add: alist_update_new)

lemma unat_add_le: "unat a + unat b \<le> unat c \<Longrightarrow> unat (a + b :: u64) = unat a + unat (b :: u64)" for c :: u64
  using le_less_trans [OF _ unat_lt_2p64 [of c]] by (simp add: unat_word_ariths)

lemma u64_max_iff: "(c :: u64) = u64_max \<longleftrightarrow> unat c = 2 ^ 64 - 1"
  using unat_u64_max by (metis unsigned_word_eqI)

lemma saturating_fits: "\<not> c < saturating_add a b \<Longrightarrow> c \<noteq> u64_max \<Longrightarrow> unat a + unat b \<le> unat c"
  unfolding u64_max_iff word_less_nat_alt unat_saturating_add using unat_le_u64_max [of c] by simp

text \<open>A successful reservation, as the change it makes.\<close>

lemma try_reserve_from_cases:
  assumes "try_reserve_from src rid b now L = (r, L')"
  obtains (ok) sources where "r = Inr \<lparr>request_id = rid, released = False\<rparr>" "b \<noteq> 0"
    "map_of (reservations L) rid = None" "\<not> capacity_bytes L < saturating_add (reserved_bytes L) b"
    "L' = L\<lparr>reservations := AList.update rid \<lparr>entry_bytes = b, created = now, source_label = src\<rparr> (reservations L),
        source_outstanding := sources, reserved_bytes := reserved_bytes L + b,
        recent_sizes := push_recent b (recent_sizes L)\<rparr>"
    "src = None \<and> sources = source_outstanding L \<or>
     (\<exists>l out. src = Some l \<and> out = (case map_of (source_outstanding L) l of Some v \<Rightarrow> v | None \<Rightarrow> 0)
        \<and> \<not> max_per_source L < saturating_add out b \<and> sources = AList.update l (out + b) (source_outstanding L))"
  | (over) "r = Inl OverCapacity" "L' = reject L"
  | (dup) "r = Inl DuplicateRequest" "L' = L" "map_of (reservations L) rid \<noteq> None"
  using assms unfolding try_reserve_from_def Let_def
  by (cases src) (auto split: if_splits simp del: map_of_eq_None_iff)

lemma source_weight_sum_le: "alist_sum (source_weight l) al \<le> alist_sum (unat \<circ> entry_bytes) al"
  by (rule alist_sum_le) (simp add: source_weight_def)

lemma ledger_inv_reserve:
  assumes inv: "ledger_inv L" and step: "try_reserve_from src rid b now L = (r, L')"
  shows "ledger_inv L'"
  using step
proof (cases rule: try_reserve_from_cases)
  case (ok sources)
  let ?e = "\<lparr>entry_bytes = b, created = now, source_label = src\<rparr>"
  let ?al = "AList.update rid ?e (reservations L)"
  have sum: "alist_sum w ?al = alist_sum w (reservations L) + w ?e" for w
    using ok(3) by (rule alist_sum_update_new)
  have fits: "unat (reserved_bytes L) + unat b \<le> unat (capacity_bytes L)"
    using ok(4) inv by (intro saturating_fits) (simp_all add: ledger_inv_def)
  note tot = unat_add_le [OF fits]
  have src: "outstanding_of (L\<lparr>source_outstanding := sources\<rparr>) l = outstanding_of L l + source_weight l ?e
      \<and> outstanding_of (L\<lparr>source_outstanding := sources\<rparr>) l \<le> unat (max_per_source L)" for l
  proof (cases src)
    case None
    then show ?thesis using ok(6) ledger_invD(6) [OF inv, of l] by (simp add: outstanding_of_def source_weight_def)
  next
    case (Some m)
    define out where "out = (case map_of (source_outstanding L) m of Some v \<Rightarrow> v | None \<Rightarrow> 0)"
    have s: "sources = AList.update m (out + b) (source_outstanding L)" "\<not> max_per_source L < saturating_add out b"
      using ok(6) Some by (auto simp: out_def)
    have out: "unat out = outstanding_of L m" by (auto simp: out_def outstanding_of_def split: option.splits)
    also have "\<dots> \<le> unat (reserved_bytes L)"
      unfolding ledger_invD(3) [OF inv] ledger_invD(5) [OF inv] by (rule source_weight_sum_le)
    finally have "unat out + unat b \<le> unat (capacity_bytes L)" using fits by linarith
    note add = unat_add_le [OF this]
    then have "unat out + unat b < 2 ^ 64" using unat_lt_2p64 [of "out + b"] by simp
    then have "outstanding_of L m + unat b \<le> unat (max_per_source L)"
      using s(2) unfolding word_less_nat_alt unat_saturating_add out by linarith
    then show ?thesis using ledger_invD(6) [OF inv, of l] add out Some
      by (auto simp: outstanding_of_def s(1) update_conv' source_weight_def)
  qed
  have out': "outstanding_of L' l = outstanding_of (L\<lparr>source_outstanding := sources\<rparr>) l" for l
    by (simp add: ok(5) outstanding_of_def)
  have dist: "distinct (map fst sources)" using ok(6) inv by (auto simp: ledger_inv_def)
  show ?thesis
    unfolding ledger_inv_def
  proof (intro conjI allI)
    show "capacity_bytes L' \<noteq> u64_max" "distinct (map fst (reservations L'))"
      "distinct (map fst (source_outstanding L'))" "length (recent_sizes L') \<le> RECENT_SAMPLES"
      using inv dist length_push_recent by (simp_all add: ok(5) ledger_inv_def)
    show "unat (reserved_bytes L') = alist_sum (unat \<circ> entry_bytes) (reservations L')"
      using inv by (simp add: ok(5) tot sum ledger_inv_def)
    show "reserved_bytes L' \<le> capacity_bytes L'" using fits by (simp add: ok(5) word_le_nat_alt tot)
    show "outstanding_of L' l = alist_sum (source_weight l) (reservations L')" for l
      using src [of l] ledger_invD(5) [OF inv, of l] unfolding out' by (simp add: ok(5) sum)
    show "outstanding_of L' l \<le> unat (max_per_source L')" for l
      using src [of l] unfolding out' by (simp add: ok(5))
    show "\<forall>p\<in>set (reservations L'). entry_bytes (snd p) \<noteq> 0"
      using inv ok(2,3) by (auto simp: ok(5) alist_update_new ledger_inv_def)
  qed
qed (use inv ledger_inv_reject in auto)

text \<open>Releasing a source's bytes, read through the lookup.\<close>

lemma source_release_lookup:
  "distinct (map fst so) \<Longrightarrow>
   (case map_of (source_release l b so) m of Some v \<Rightarrow> unat v | None \<Rightarrow> 0) =
   (case map_of so m of Some v \<Rightarrow> unat v | None \<Rightarrow> 0) - (if m = l then unat b else 0)"
  by (auto simp: source_release_def Let_def update_conv' delete_conv' u64_simps
      simp flip: unat_eq_0 split: option.splits simp del: map_of_eq_Some_iff)

lemma source_release_distinct: "distinct (map fst so) \<Longrightarrow> distinct (map fst (source_release l b so))"
  by (simp add: source_release_def Let_def split: option.splits)

lemma ledger_inv_release:
  assumes inv: "ledger_inv L"
  shows "ledger_inv (ledger_release rid L)"
proof (cases "map_of (reservations L) rid")
  case None
  have "outstanding_of (L\<lparr>reservation_errors := reservation_errors L + 1\<rparr>) = outstanding_of L"
    by (rule ext) (simp add: outstanding_of_def)
  then show ?thesis using inv None by (simp add: ledger_release_def release_inner_def ledger_inv_def) metis
next
  case (Some e)
  define L' where "L' = ledger_release rid L"
  have L': "L' = L\<lparr>reservations := AList.delete rid (reservations L), reserved_bytes := reserved_bytes L - entry_bytes e,
      source_outstanding := (case source_label e of Some l \<Rightarrow> source_release l (entry_bytes e) (source_outstanding L)
                      | None \<Rightarrow> source_outstanding L)\<rparr>"
    by (simp add: L'_def ledger_release_def release_inner_def Some)
  note sum = alist_sum_delete [OF ledger_invD(2) [OF inv] Some]
  have "entry_bytes e \<le> reserved_bytes L"
    using ledger_invD(3) [OF inv] sum [of "unat \<circ> entry_bytes"] by (simp add: word_le_nat_alt)
  then have tot: "unat (reserved_bytes L - entry_bytes e) = unat (reserved_bytes L) - unat (entry_bytes e)"
    by (simp add: unat_sub)
  have out: "outstanding_of L' l = outstanding_of L l - source_weight l e" for l
    by (cases "source_label e")
       (auto simp: L' outstanding_of_def source_weight_def source_release_lookup [OF ledger_invD(8) [OF inv]])
  show ?thesis unfolding L'_def [symmetric] ledger_inv_def
  proof (intro conjI allI)
    show "capacity_bytes L' \<noteq> u64_max" "distinct (map fst (reservations L'))" "length (recent_sizes L') \<le> RECENT_SAMPLES"
      "distinct (map fst (source_outstanding L'))"
      using ledger_invD [OF inv] by (auto simp: L' source_release_distinct split: option.splits)
    show "unat (reserved_bytes L') = alist_sum (unat \<circ> entry_bytes) (reservations L')"
      using ledger_invD(3) [OF inv] sum [of "unat \<circ> entry_bytes"] tot by (simp add: L')
    show "reserved_bytes L' \<le> capacity_bytes L'"
      using ledger_invD(4) [OF inv] tot by (simp add: L' word_le_nat_alt)
    show "outstanding_of L' l = alist_sum (source_weight l) (reservations L')" for l
      using ledger_invD(5) [OF inv, of l] sum [of "source_weight l"] unfolding out by (simp add: L')
    show "outstanding_of L' l \<le> unat (max_per_source L')" for l
      using ledger_invD(6) [OF inv, of l] unfolding out by (simp add: L')
    show "\<forall>p\<in>set (reservations L'). entry_bytes (snd p) \<noteq> 0"
      using ledger_invD(7) [OF inv] by (auto simp: L' AList.delete_eq)
  qed
qed

lemma reservations_release: "reservations (ledger_release rid L) = AList.delete rid (reservations L)"
  by (simp add: ledger_release_def release_inner_def alist_delete_absent split: option.splits)

lemma release_fold:
  "ledger_inv L \<Longrightarrow> ledger_inv (fold ledger_release ids L)"
  "reservations (fold ledger_release ids L) = filter (\<lambda>p. fst p \<notin> set ids) (reservations L)"
  by (induction ids arbitrary: L)
     (auto simp: ledger_inv_release reservations_release AList.delete_eq intro!: filter_cong)

lemma ledger_inv_reclaim: "ledger_inv L \<Longrightarrow> ledger_inv (snd (reclaim_expired now L))"
  by (simp add: reclaim_expired_def Let_def release_fold(1))

lemma reservations_reclaim:
  assumes "distinct (map fst (reservations L))"
  shows "reservations (snd (reclaim_expired now L)) = filter (\<lambda>p. \<not> expired now (snd p)) (reservations L)"
proof -
  have "(fst p \<notin> fst ` set (filter (\<lambda>p. expired now (snd p)) (reservations L))) = (\<not> expired now (snd p))"
    if "p \<in> set (reservations L)" for p
    using that assms by (force simp: distinct_map inj_on_def)
  then show ?thesis by (simp add: reclaim_expired_def Let_def release_fold(2) cong: filter_cong)
qed

section \<open>Executions\<close>

text \<open>
  One step of the ledger: a reservation attempt (from any source, successful or not), a release
  (explicit, by a dropped guard, or of an identifier that is not reserved), or a reclaim pass.
\<close>

inductive ledger_step :: "ReservationLedger \<Rightarrow> ReservationLedger \<Rightarrow> bool" where
  reserve: "try_reserve_from src rid b now L = (r, L') \<Longrightarrow> ledger_step L L'"
| release: "ledger_step L (ledger_release rid L)"
| reclaim: "ledger_step L (snd (reclaim_expired now L))"

inductive ledger_reachable :: "u64 \<Rightarrow> ReservationLedger \<Rightarrow> bool" for cap where
  init: "ledger_reachable cap (ReservationLedger_new cap)"
| step: "ledger_reachable cap L \<Longrightarrow> ledger_step L L' \<Longrightarrow> ledger_reachable cap L'"

inductive_cases ledger_stepE: "ledger_step L L'"

lemma ledger_step_inv: "ledger_step L L' \<Longrightarrow> ledger_inv L \<Longrightarrow> ledger_inv L'"
  by (auto elim: ledger_stepE intro: ledger_inv_reserve ledger_inv_release ledger_inv_reclaim)

lemma ledger_reachable_inv: "ledger_reachable cap L \<Longrightarrow> cap \<noteq> u64_max \<Longrightarrow> ledger_inv L"
  by (induction rule: ledger_reachable.induct) (auto intro: ledger_inv_new ledger_step_inv)

lemma release_limits: "capacity_bytes (ledger_release rid L) = capacity_bytes L \<and> max_per_source (ledger_release rid L) = max_per_source L"
  by (simp add: ledger_release_def release_inner_def split: option.splits)

lemma release_fold_limits:
  "capacity_bytes (fold ledger_release ids L) = capacity_bytes L \<and> max_per_source (fold ledger_release ids L) = max_per_source L"
  by (induction ids arbitrary: L) (simp_all add: release_limits)

lemma ledger_step_limits:
  "ledger_step L L' \<Longrightarrow> capacity_bytes L' = capacity_bytes L \<and> max_per_source L' = max_per_source L"
  by (auto elim!: ledger_stepE elim: try_reserve_from_cases
      simp: reject_def reclaim_expired_def Let_def release_limits release_fold_limits)

lemma ledger_reachable_limits:
  "ledger_reachable cap L \<Longrightarrow> capacity_bytes L = cap \<and> max_per_source L = max_per_source (ReservationLedger_new cap)"
  by (induction rule: ledger_reachable.induct) (auto simp: ReservationLedger_new_def Let_def dest: ledger_step_limits)

section \<open>Properties\<close>

lemma u64_100: "(100 :: u64) \<noteq> u64_max"
  by simp





text \<open>a reclaim pass removes exactly the reservations whose age has reached the TTL, reports
  how many there were, and keeps the accounting exact.\<close>

theorem reclaim_expired_spec:
  assumes "ledger_inv L" "reclaim_expired now L = (n, L')"
  shows "reservations L' = filter (\<lambda>p. \<not> expired now (snd p)) (reservations L)
    \<and> n + length (reservations L') = length (reservations L) \<and> ledger_inv L'
    \<and> unat (reserved_bytes L') = alist_sum (unat \<circ> entry_bytes) (filter (\<lambda>p. \<not> expired now (snd p)) (reservations L))"
proof -
  have r: "reservations L' = filter (\<lambda>p. \<not> expired now (snd p)) (reservations L)"
    using reservations_reclaim [OF ledger_invD(2) [OF assms(1)], of now] assms(2) by simp
  moreover have "n = length (filter (\<lambda>p. expired now (snd p)) (reservations L))"
    using assms(2) by (auto simp: reclaim_expired_def Let_def)
  moreover have "ledger_inv L'" using ledger_inv_reclaim [OF assms(1), of now] assms(2) by simp
  ultimately show ?thesis
    using ledger_invD(3) sum_length_filter_compl [of "\<lambda>p. expired now (snd p)" "reservations L"] by simp
qed

theorem reclaim_expired_spec_witness:
  "ledger_inv (snd (reclaim_expired 5 (ReservationLedger_new 100)))"
  using reclaim_expired_spec [OF ledger_inv_new [of 100], of 5 "fst (reclaim_expired 5 (ReservationLedger_new 100))"
      "snd (reclaim_expired 5 (ReservationLedger_new 100))"] by simp

text \<open>C14: resolving a migration leaves exactly one of the two reservations: the target on commit,
  the source on abort; the other's bytes leave the fleet total, and nothing is released twice.\<close>

theorem resolve_migration_single_count:
  assumes "ledger_inv L" "map_of (reservations L) (request_id self) = Some es"
    "map_of (reservations L) (request_id target) = Some et"
    "\<not> released self" "\<not> released target" "request_id self \<noteq> request_id target"
    "resolve_migration self target d L = (g, L')"
  shows "g = (case d of Commit \<Rightarrow> target | Abort \<Rightarrow> self) \<and> \<not> released g
    \<and> map_of (reservations L') (request_id self) = (case d of Commit \<Rightarrow> None | Abort \<Rightarrow> Some es)
    \<and> map_of (reservations L') (request_id target) = (case d of Commit \<Rightarrow> Some et | Abort \<Rightarrow> None)
    \<and> unat (reserved_bytes L') + unat (entry_bytes (case d of Commit \<Rightarrow> es | Abort \<Rightarrow> et)) = unat (reserved_bytes L)
    \<and> reservation_errors L' = reservation_errors L \<and> ledger_inv L'"
proof -
  have rel: "reservations (ledger_release i L) = AList.delete i (reservations L)"
    "unat (reserved_bytes (ledger_release i L)) + unat (entry_bytes e) = unat (reserved_bytes L)"
    "reservation_errors (ledger_release i L) = reservation_errors L" "ledger_inv (ledger_release i L)"
    if "map_of (reservations L) i = Some e" for i e
  proof -
    show "ledger_inv (ledger_release i L)" using assms(1) by (rule ledger_inv_release)
    then show "unat (reserved_bytes (ledger_release i L)) + unat (entry_bytes e) = unat (reserved_bytes L)"
      using ledger_invD(3) alist_sum_delete [OF ledger_invD(2) [OF assms(1)] that, of "unat \<circ> entry_bytes"] assms(1)
      by (simp add: reservations_release)
    show "reservations (ledger_release i L) = AList.delete i (reservations L)" by (rule reservations_release)
    show "reservation_errors (ledger_release i L) = reservation_errors L"
      using that by (simp add: ledger_release_def release_inner_def del: map_of_eq_Some_iff)
  qed
  have consume: "guard_release_consume g L = ledger_release (request_id g) L" if "\<not> released g" for g
    using that by (simp add: guard_release_consume_def guard_release_def guard_drop_def)
  show ?thesis
    using assms rel [OF assms(2)] rel [OF assms(3)]
    by (cases d) (auto simp: resolve_migration_def consume delete_conv' simp del: map_of_eq_Some_iff)
qed

theorem resolve_migration_single_count_witness:
  "\<not> released (fst (resolve_migration \<lparr>request_id = 1, released = False\<rparr> \<lparr>request_id = 2, released = False\<rparr> Commit
     (snd (try_reserve 2 20 0 (snd (try_reserve 1 30 0 (ReservationLedger_new 100)))))))"
proof -
  let ?L1 = "snd (try_reserve 1 30 0 (ReservationLedger_new 100))"
  let ?L2 = "snd (try_reserve 2 20 0 ?L1)"
  let ?s = "\<lparr>request_id = 1, released = False\<rparr>" and ?t = "\<lparr>request_id = 2, released = False\<rparr>"
  have "ledger_inv ?L2"
    unfolding try_reserve_def
    by (rule ledger_inv_reserve [OF ledger_inv_reserve [OF ledger_inv_new [OF u64_100] prod.collapse [symmetric]]
          prod.collapse [symmetric]])
  moreover have "map_of (reservations ?L2) 1 = Some \<lparr>entry_bytes = 30, created = 0, source_label = None\<rparr>"
    "map_of (reservations ?L2) 2 = Some \<lparr>entry_bytes = 20, created = 0, source_label = None\<rparr>"
    by (simp_all add: try_reserve_def try_reserve_from_def ReservationLedger_new_def Let_def saturating_add_def
        word_less_nat_alt)
  ultimately show ?thesis
    using resolve_migration_single_count [of ?L2 ?s _ ?t _ Commit "fst (resolve_migration ?s ?t Commit ?L2)"
        "snd (resolve_migration ?s ?t Commit ?L2)"]
    by simp
qed

text \<open>
  A guard that outlives its reservation: after a reclaim has freed the identifier and another
  request has taken it, dropping the old guard releases the new reservation.
\<close>

lemma stale_guard_releases_new:
  assumes "try_reserve_from src rid b t (snd (reclaim_expired now L)) = (Inr g', L')"
  shows "map_of (reservations (guard_drop \<lparr>request_id = rid, released = False\<rparr> L')) rid = None"
  by (simp add: guard_drop_def reservations_release delete_conv')

end
