(* ===== verification/Migration.thy ===== *)
theory Migration
  imports Ledger
begin

text \<open>
  Live decode migration (\<open>crates/demiurge-control/src/migration.rs\<close>): the cutover budget, the
  quiesce loop and the stall log.  The ring buffers of the shadow logs share one shape
  (\<open>Mutex<Vec<_>>\<close> with a maximum), the record \<open>ring\<close>; \<open>Vec::remove(0)\<close> panics on an empty
  vector, so recording returns \<open>None\<close> there.
\<close>

section \<open>Ring buffers\<close>

record 'a ring =
  inner :: "'a list"
  max_samples :: nat

definition vec_remove0 :: "'a list \<Rightarrow> 'a list option" where
  "vec_remove0 xs = (case xs of [] \<Rightarrow> None | _ # ys \<Rightarrow> Some ys)"

definition ring_new :: "nat \<Rightarrow> 'a ring" where
  "ring_new n = \<lparr>inner = [], max_samples = max n 1\<rparr>"

text \<open>The value of the derived \<open>Default\<close>.\<close>

definition ring_default :: "'a ring" where
  "ring_default = \<lparr>inner = [], max_samples = 0\<rparr>"

definition ring_record :: "'a \<Rightarrow> 'a ring \<Rightarrow> 'a ring option" where
  "ring_record x l =
     do { buf \<leftarrow> (if max_samples l \<le> length (inner l) then vec_remove0 (inner l) else Some (inner l));
          Some (l\<lparr>inner := buf @ [x]\<rparr>) }"

definition ring_wf :: "'a ring \<Rightarrow> bool" where
  "ring_wf l \<longleftrightarrow> 0 < max_samples l \<and> length (inner l) \<le> max_samples l"

lemma ring_record_Some:
  "ring_wf l \<Longrightarrow> ring_record x l = Some (l\<lparr>inner := push_capped (max_samples l) x (inner l)\<rparr>)"
  by (auto simp: ring_record_def ring_wf_def push_capped_def vec_remove0_def split: list.splits)

interpretation ring: bounded_log "\<lambda>x l. the (ring_record x l)" inner max_samples ring_wf
  by unfold_locales (auto simp: ring_record_Some ring_wf_def push_capped_def)

lemma ring_wf_new: "ring_wf (ring_new n)"
  by (simp add: ring_wf_def ring_new_def)

text \<open>Recording a history never panics on a ring made by \<open>new\<close>, and keeps its latest entries.\<close>

lemma ring_history:
  "ring_wf l \<Longrightarrow> fold (\<lambda>x l. Option.bind l (ring_record x)) xs (Some l) = Some (fold (\<lambda>x l. the (ring_record x l)) xs l)"
proof (induction xs arbitrary: l)
  case (Cons x xs)
  then show ?case using ring.wf_push [of l x] by (simp add: ring_record_Some)
qed simp

lemma ring_latest:
  "\<exists>l. fold (\<lambda>x l. Option.bind l (ring_record x)) xs (Some (ring_new n)) = Some l
     \<and> inner l = drop (length xs - max n 1) xs"
  using ring_history [OF ring_wf_new, of xs n] ring.run_items [OF ring_wf_new, of xs n]
  by (simp add: ring_new_def)

section \<open>Cutover budget\<close>

record MigrationBudget =
  itl_us :: u64
  epsilon :: f64

definition for_itl :: "u64 \<Rightarrow> MigrationBudget" where
  "for_itl itl = \<lparr>itl_us = itl, epsilon = MIGRATION_ITL_BUDGET_FRACTION_EPS\<rparr>"

definition limit_us :: "MigrationBudget \<Rightarrow> u64" where
  "limit_us b = u64_of_f64 (fmax (epsilon b) 0 * f64_of_u64 (itl_us b))"

definition evaluate_cutover :: "u64 \<Rightarrow> MigrationBudget \<Rightarrow> MigrationDecision" where
  "evaluate_cutover est_stall_us budget = (if est_stall_us \<le> limit_us budget then Commit else Abort)"

section \<open>Quiesce loop\<close>

record QuiesceModel =
  total_bytes :: u64
  chunk_bytes :: u64
  per_chunk_us :: u64
  dirty_fraction :: f64

record QuiesceOutcome =
  passes :: u32
  est_stall_us :: u64
  residual_bytes :: u64

definition chunk :: "QuiesceModel \<Rightarrow> u64" where
  "chunk q = max (chunk_bytes q) 1"

definition copy_us :: "QuiesceModel \<Rightarrow> u64 \<Rightarrow> u64" where
  "copy_us q b = saturating_mul (div_ceil b (chunk q)) (per_chunk_us q)"

text \<open>One background pass, and the loop over them.\<close>

definition redirty :: "f64 \<Rightarrow> u64 \<Rightarrow> u64" where
  "redirty fraction dirty = u64_of_f64 (f64_of_u64 dirty * fraction)"

function quiesce_loop :: "f64 \<Rightarrow> u64 \<Rightarrow> u32 \<Rightarrow> u64 \<Rightarrow> u32 \<Rightarrow> u64 \<times> u32" where
  "quiesce_loop fraction chk max_passes dirty p =
     (if chk < dirty \<and> p < max_passes
      then quiesce_loop fraction chk max_passes (redirty fraction dirty) (p + 1)
      else (dirty, p))"
  by auto

termination
proof (relation "measure (\<lambda>(_, _, mx, _, p). unat mx - unat p)")
  fix fraction :: f64 and chk :: u64 and mx p :: u32 and dirty :: u64
  assume "chk < dirty \<and> p < mx"
  then have "unat p < unat mx" by (simp add: word_less_nat_alt)
  moreover from this have "unat (p + 1) = unat p + 1"
    using unsigned_less [of mx, where 'a = nat] by (simp add: unat_word_ariths)
  ultimately show "((fraction, chk, mx, redirty fraction dirty, p + 1), fraction, chk, mx, dirty, p)
      \<in> measure (\<lambda>(_, _, mx, _, p). unat mx - unat p)" by simp
qed simp

definition quiesce :: "QuiesceModel \<Rightarrow> u32 \<Rightarrow> QuiesceOutcome" where
  "quiesce q max_passes =
     (let fraction = fclamp (dirty_fraction q) 0 (lit (999999 / 1000000));
          (dirty, p) = quiesce_loop fraction (chunk q) max_passes (total_bytes q) 0
      in \<lparr>passes = p, est_stall_us = copy_us q dirty, residual_bytes = dirty\<rparr>)"

section \<open>Stall log\<close>

record MigrationStallSample =
  estimated_us :: u64
  measured_us :: u64
  decision :: MigrationDecision

type_synonym MigrationStallLog = "MigrationStallSample ring"

definition MigrationStallLog_new :: "nat \<Rightarrow> MigrationStallLog" where
  "MigrationStallLog_new n = ring_new n"

definition MigrationStallLog_record :: "MigrationStallSample \<Rightarrow> MigrationStallLog \<Rightarrow> MigrationStallLog option" where
  "MigrationStallLog_record s l = ring_record s l"

definition MigrationStallLog_samples :: "MigrationStallLog \<Rightarrow> MigrationStallSample list" where
  "MigrationStallLog_samples l = inner l"

definition MigrationStallLog_is_empty :: "MigrationStallLog \<Rightarrow> bool" where
  "MigrationStallLog_is_empty l \<longleftrightarrow> length (inner l) = 0"

definition mean_abs_error_us :: "MigrationStallLog \<Rightarrow> f64" where
  "mean_abs_error_us l =
     (if inner l = [] then 0
      else let s = sum_list (map (\<lambda>s. abs_diff (estimated_us s) (measured_us s)) (inner l))
           in f64_of_u64 s / f64_of_nat (length (inner l)))"

section \<open>Lemmas\<close>

declare quiesce_loop.simps [simp del]

lemma ring_default_panics: "ring_record x ring_default = None"
  by (simp add: ring_record_def ring_default_def vec_remove0_def)

lemma eps_half: "MIGRATION_ITL_BUDGET_FRACTION_EPS = Fin (1 / 2)"
proof -
  have "\<bar>1 / 2\<bar> < f64_lim" by (intro f64_lim_gt(1)) simp
  then have "f64_ok (Fin (1 / 2))" using repr64_dyadic [of 1 1] by (simp add: f64_ok_def)
  then show ?thesis by (simp add: MIGRATION_ITL_BUDGET_FRACTION_EPS_def mk64_ok_Fin)
qed

lemma half_of_nat:
  assumes "n \<le> 2 ^ 53"
  shows "nat_of_f64 (Fin (1 / 2) * f64_of_nat n) = n div 2"
proof -
  have r: "repr64 (real n / 2)" using repr64_dyadic [of "int n" 1] assms by simp
  have "real n \<le> 2 ^ 53" using assms by (metis of_nat_le_iff of_nat_numeral of_nat_power)
  then have "\<bar>real n / 2\<bar> < f64_lim" by (intro f64_lim_gt(1)) simp
  then have "Fin (1 / 2) * f64_of_nat n = Fin (real n / 2)"
    using mk64_repr [OF r] assms by (simp add: f64_of_nat_exact)
  then show ?thesis using assms floor_divide_of_nat_eq [where 'a = real, of n 2] by simp
qed

lemma limit_for_itl: "unat itl \<le> 2 ^ 53 \<Longrightarrow> unat (limit_us (for_itl itl)) = unat itl div 2"
  by (simp add: limit_us_def for_itl_def eps_half half_of_nat unat_u64_of_f64 fmax_def)

text \<open>A background pass shrinks any dirty set of at most \<open>2^53\<close> bytes.\<close>

lemma dirty_cap: "\<exists>c. lit (999999 / 1000000) = Fin c \<and> 1 / 2 \<le> c \<and> c \<le> 1 - 1 / 2 ^ 20"
proof -
  have "repr64 (1 / 2)" "repr64 (1 - 1 / 2 ^ 20)" using repr64_dyadic [of 1 1] repr64_dyadic [of "2 ^ 20 - 1" 20] by auto
  then obtain y where "mk64 (999999 / 1000000) = Fin y" "1 / 2 \<le> y" "y \<le> 1 - 1 / 2 ^ 20"
    by (elim mk64_between [of "1 / 2" "999999 / 1000000" "1 - 1 / 2 ^ 20", rotated 2]) simp_all
  then show ?thesis by blast
qed

lemma shrink_nat:
  assumes "0 < n" "n \<le> 2 ^ 53" "0 \<le> c" "c \<le> 1 - 1 / 2 ^ 20"
  shows "nat_of_f64 (f64_of_nat n * Fin c) < n"
proof -
  have n: "real n \<le> 2 ^ 53" "1 \<le> real n" using assms(1,2) by (metis of_nat_le_iff of_nat_numeral of_nat_power, linarith)
  have p: "real n * c \<le> real n - real n / 2 ^ 20"
    using mult_left_mono [OF assms(4), of "real n"] by (simp add: algebra_simps)
  have "\<exists>y. repr64 y \<and> real n * c \<le> y \<and> y < real n"
  proof (cases "n < 2 ^ 20")
    case True
    have "repr64 (of_int (int n * 2 ^ 20 - 1) / 2 ^ 20)" using True assms(1) by (intro repr64_dyadic) auto
    moreover have "of_int (int n * 2 ^ 20 - 1) / 2 ^ 20 = real n - 1 / 2 ^ 20" by (simp add: field_simps)
    ultimately have "repr64 (real n - 1 / 2 ^ 20)" by (simp only:)
    moreover have "1 / 2 ^ 20 \<le> real n / 2 ^ 20" using n(2) by (intro divide_right_mono) auto
    then have "real n * c \<le> real n - 1 / 2 ^ 20" using p by linarith
    ultimately show ?thesis by (intro exI [of _ "real n - 1 / 2 ^ 20"]) simp
  next
    case False
    then have "2 ^ 20 \<le> real n" by (metis linorder_not_less of_nat_le_iff of_nat_numeral of_nat_power)
    then have "1 \<le> real n / 2 ^ 20" by simp
    moreover have "repr64 (real n - 1)" using repr64_nat [of "n - 1"] assms(1,2) by (simp add: of_nat_diff)
    ultimately show ?thesis using p by (intro exI [of _ "real n - 1"]) linarith
  qed
  then obtain y where y: "repr64 y" "real n * c \<le> y" "y < real n" by blast
  define q where "q = rnd (real n * c)"
  have q: "q < real n" "0 \<le> q" using rnd_le_repr [OF y(2,1)] y(3) assms(3) by (auto simp: q_def intro: rnd_nonneg)
  have "\<bar>q\<bar> < f64_lim" using q n by (intro f64_lim_gt(2)) simp
  then have "f64_of_nat n * Fin c = Fin q" using assms(2) by (simp add: f64_of_nat_exact mk64_def Let_def q_def)
  moreover have "nat \<lfloor>q\<rfloor> < n" using q by (simp add: nat_less_iff floor_less_iff)
  ultimately show ?thesis by simp
qed

lemma redirty_shrinks:
  assumes "fclamp f 0 (lit (999999 / 1000000)) = g" "0 < unat d" "unat d \<le> 2 ^ 53"
  shows "unat (redirty g d) < unat d"
proof -
  obtain c where c: "lit (999999 / 1000000) = Fin c" "1 / 2 \<le> c" "c \<le> 1 - 1 / 2 ^ 20" using dirty_cap by blast
  consider "g = NaN" | y where "g = Fin y" "0 \<le> y" "y \<le> c"
    using fclamp_Fin [of 0 c f] assms(1) c(1,2) by auto
  then show ?thesis
  proof cases
    case 1
    have "f64_of_nat (unat d) * NaN = NaN" by (cases "f64_of_nat (unat d)") simp_all
    then show ?thesis using 1 assms(2) by (simp add: redirty_def unat_u64_of_f64)
  next
    case 2
    then show ?thesis using shrink_nat [OF assms(2,3) 2(2)] c(3) by (simp add: redirty_def unat_u64_of_f64)
  qed
qed

lemma quiesce_loop_spec:
  assumes "fclamp f 0 (lit (999999 / 1000000)) = g" "unat d \<le> 2 ^ 53" "p \<le> mx"
    "quiesce_loop g chk mx d p = (d', p')"
  shows "unat d' \<le> unat d \<and> p' \<le> mx \<and> (d' \<le> chk \<or> p' = mx)
    \<and> (unat d \<le> unat mx - unat p \<longrightarrow> d' \<le> chk)"
  using assms
proof (induction g chk mx d p rule: quiesce_loop.induct)
  case (1 g chk mx d p)
  show ?case
  proof (cases "chk < d \<and> p < mx")
    case True
    then have pp: "unat (p + 1) = unat p + 1" "p + 1 \<le> mx"
      using unsigned_less [of mx, where 'a = nat] by (auto simp: word_less_nat_alt word_le_nat_alt unat_word_ariths)
    have d: "0 < unat d" using True by (auto simp: word_less_nat_alt)
    note sh = redirty_shrinks [OF "1.prems"(1) d "1.prems"(2)]
    have IH: "unat d' \<le> unat (redirty g d) \<and> p' \<le> mx \<and> (d' \<le> chk \<or> p' = mx)
        \<and> (unat (redirty g d) \<le> unat mx - unat (p + 1) \<longrightarrow> d' \<le> chk)"
      using "1.IH" [OF True "1.prems"(1) _ pp(2)] sh "1.prems"(2,4) True
      by (simp add: quiesce_loop.simps [of g chk mx d p])
    then show ?thesis using sh pp True by (auto simp: word_less_nat_alt)
  next
    case False
    then have e: "d' = d" "p' = p" using "1.prems"(4) by (auto simp: quiesce_loop.simps [of g chk mx d p])
    have "unat p = unat mx \<Longrightarrow> p = mx" by (rule unsigned_word_eqI)
    moreover have "unat p \<le> unat mx" using "1.prems"(3) by (simp add: word_le_nat_alt)
    ultimately have "d \<le> chk \<or> p = mx" using False unfolding word_less_nat_alt word_le_nat_alt by linarith
    moreover have "unat d = 0 \<Longrightarrow> d \<le> chk" by (simp add: word_le_nat_alt)
    ultimately show ?thesis using "1.prems"(3) unfolding e by fastforce
  qed
qed

section \<open>Properties\<close>

text \<open>The cutover gate at the canonical budget: a migration commits exactly when its estimated
  stall is at most half of the inter-token latency.\<close>

theorem evaluate_cutover_half_itl:
  assumes "unat itl \<le> 2 ^ 53"
  shows "evaluate_cutover est (for_itl itl) = Commit \<longleftrightarrow> 2 * unat est \<le> unat itl"
  using limit_for_itl [OF assms] by (auto simp: evaluate_cutover_def word_le_nat_alt)

theorem evaluate_cutover_half_itl_witness:
  "evaluate_cutover 10 (for_itl 20) = Commit \<and> evaluate_cutover 11 (for_itl 20) \<noteq> Commit"
  using evaluate_cutover_half_itl [of 20 10] evaluate_cutover_half_itl [of 20 11] by simp

text \<open>C15: the quiesce loop: for KV of up to \<open>2^53\<close> bytes and any dirty fraction it returns with the
  residual no larger than the total; it stops because the residual fits one chunk or because the
  passes are used up, and with at least as many passes as bytes it always converges to one chunk,
  whose copy time then bounds the stall.\<close>

theorem quiesce_converges:
  assumes "unat (total_bytes q) \<le> 2 ^ 53"
  shows "unat (residual_bytes (quiesce q mx)) \<le> unat (total_bytes q)
    \<and> passes (quiesce q mx) \<le> mx
    \<and> (residual_bytes (quiesce q mx) \<le> chunk q \<or> passes (quiesce q mx) = mx)
    \<and> (unat (total_bytes q) \<le> unat mx \<longrightarrow> residual_bytes (quiesce q mx) \<le> chunk q)
    \<and> (residual_bytes (quiesce q mx) \<le> chunk q \<longrightarrow> est_stall_us (quiesce q mx) \<le> per_chunk_us q)"
proof -
  let ?g = "fclamp (dirty_fraction q) 0 (lit (999999 / 1000000))"
  obtain d p where dp: "quiesce_loop ?g (chunk q) mx (total_bytes q) 0 = (d, p)" by fastforce
  have q: "residual_bytes (quiesce q mx) = d" "passes (quiesce q mx) = p" "est_stall_us (quiesce q mx) = copy_us q d"
    using dp by (simp_all add: quiesce_def Let_def)
  have "copy_us q d \<le> per_chunk_us q" if "d \<le> chunk q"
  proof -
    have c: "chunk q \<noteq> 0" "1 \<le> unat (chunk q)"
      by (auto simp: chunk_def max_def word_le_nat_alt split: if_splits)
    have "unat d + unat (chunk q) - 1 < 2 * unat (chunk q)" using that c(2) unfolding word_le_nat_alt by linarith
    then have "unat (div_ceil d (chunk q)) < 2" unfolding unat_div_ceil [OF c(1)] by (rule less_mult_imp_div_less)
    then have "unat (div_ceil d (chunk q)) \<le> 1" by linarith
    then have "unat (div_ceil d (chunk q)) * unat (per_chunk_us q) \<le> 1 * unat (per_chunk_us q)" by (rule mult_le_mono1)
    then show ?thesis unfolding copy_us_def word_le_nat_alt unat_saturating_mul by linarith
  qed
  then show ?thesis using quiesce_loop_spec [OF refl assms _ dp] unfolding q by simp
qed

theorem quiesce_converges_witness:
  "residual_bytes (quiesce \<lparr>total_bytes = 100, chunk_bytes = 16, per_chunk_us = 5, dirty_fraction = Fin (1 / 2)\<rparr> 200) \<le> 16"
  using quiesce_converges [of "\<lparr>total_bytes = 100, chunk_bytes = 16, per_chunk_us = 5, dirty_fraction = Fin (1 / 2)\<rparr>" 200]
  by (simp add: chunk_def max_def word_le_nat_alt split: if_splits)

text \<open>The stall log made by \<open>new\<close> never panics and always holds exactly its most recent samples.\<close>

lemma MigrationStallLog_latest:
  "\<exists>l. fold (\<lambda>x l. Option.bind l (MigrationStallLog_record x)) xs (Some (MigrationStallLog_new n)) = Some l
     \<and> MigrationStallLog_samples l = drop (length xs - max n 1) xs"
  using ring_latest [of xs n]
  by (simp add: MigrationStallLog_record_def MigrationStallLog_new_def MigrationStallLog_samples_def
      MigrationStallLog_record_def [abs_def])

end
