(* ===== verification/Control.thy ===== *)
theory Control
  imports Migration
begin

text \<open>
  The learning side of the control plane (\<open>crates/demiurge-control/src\<close>): the length predictor
  (\<open>predictor.rs\<close>), the corrector shadow log and its bounded training (\<open>corrector_shadow.rs\<close>), the
  graduation state machine (\<open>corrector_grad.rs\<close>) and the RDMA cost shadow (\<open>rdma_cost_shadow.rs\<close>).
  \<open>lg\<close> and \<open>ex\<close> are \<open>f64::ln\<close> and \<open>f64::exp\<close>.  The clamp gauge is not read by any of this code
  and is left out of the results.
\<close>

section \<open>Length predictor\<close>

definition MAX_SAMPLES :: nat where
  "MAX_SAMPLES = 512"

record LengthPredictor =
  samples :: "u64 list"

definition LengthPredictor_record :: "u64 \<Rightarrow> LengthPredictor \<Rightarrow> LengthPredictor" where
  "LengthPredictor_record tokens lp =
     lp\<lparr>samples := (if MAX_SAMPLES \<le> length (samples lp) then tl (samples lp) else samples lp) @ [tokens]\<rparr>"

definition percentile_at :: "u64 list \<Rightarrow> f64 \<Rightarrow> u64" where
  "percentile_at xs p =
     (if xs = [] then 0
      else let v = sort xs; idx = min (nat_of_f64 (f64_of_nat (length v) * p)) (length v - 1) in v ! idx)"

definition p50 :: "LengthPredictor \<Rightarrow> u64" where
  "p50 lp = percentile_at (samples lp) (lit (50 / 100))"

definition p90 :: "LengthPredictor \<Rightarrow> u64" where
  "p90 lp = percentile_at (samples lp) (lit (90 / 100))"

definition p99 :: "LengthPredictor \<Rightarrow> u64" where
  "p99 lp = percentile_at (samples lp) (lit (99 / 100))"

definition reserve_bytes_p90 :: "LengthPredictor \<Rightarrow> u64 \<Rightarrow> u64" where
  "reserve_bytes_p90 lp bytes_per_token = kv_reserved (kv_breakdown (p90 lp) bytes_per_token)"

section \<open>Corrector shadow\<close>

record CorrectorShadowSample =
  s_prompt_tokens :: u64
  analytic_ln :: f64
  observed_us :: u64
  pool_pi :: f64
  s_backend_label :: string

type_synonym CorrectorShadowLog = "CorrectorShadowSample ring"

definition CorrectorShadowLog_new :: "nat \<Rightarrow> CorrectorShadowLog" where
  "CorrectorShadowLog_new n = ring_new n"

definition CorrectorShadowLog_record :: "CorrectorShadowSample \<Rightarrow> CorrectorShadowLog \<Rightarrow> CorrectorShadowLog option" where
  "CorrectorShadowLog_record s l = ring_record s l"

definition CorrectorShadowLog_samples :: "CorrectorShadowLog \<Rightarrow> CorrectorShadowSample list" where
  "CorrectorShadowLog_samples l = inner l"

definition CorrectorShadowLog_len :: "CorrectorShadowLog \<Rightarrow> nat" where
  "CorrectorShadowLog_len l = length (inner l)"

text \<open>The ratio one sample contributes, if any.\<close>

definition sample_ratio :: "(f64 \<Rightarrow> f64) \<Rightarrow> CorrectorShadowSample \<Rightarrow> f64 option" where
  "sample_ratio ex s =
     (if observed_us s = 0 \<or> \<not> is_finite (analytic_ln s) then None
      else let predicted = ex (analytic_ln s)
           in if fle predicted 0 \<or> \<not> is_finite predicted then None
              else let observed = f64_of_u64 (observed_us s) / lit 1000000
                   in Some (fclamp (observed / predicted) (lit (1 / 1000000)) (lit 1000000)))"

definition train_bounded_delta :: "(f64 \<Rightarrow> f64) \<Rightarrow> CorrectorShadowSample list \<Rightarrow> f64" where
  "train_bounded_delta ex ss =
     (if ss = [] then 1
      else let ratios = List.map_filter (sample_ratio ex) ss
           in if ratios = [] then 1
              else let mid = sort ratios ! (length ratios div 2)
                   in Corrector_get (fst (Corrector_new mid 0)))"

text \<open>Whether a sample counts, and whether the correction improves it.\<close>

definition sample_counts :: "CorrectorShadowSample \<Rightarrow> bool" where
  "sample_counts s \<longleftrightarrow> \<not> (observed_us s = 0 \<or> \<not> is_finite (analytic_ln s))"

definition sample_improved :: "(f64 \<Rightarrow> f64) \<Rightarrow> Corrector \<Rightarrow> CorrectorShadowSample \<Rightarrow> bool" where
  "sample_improved lg corrector s =
     (let observed = fst (TimeCore_clamped (f64_of_u64 (observed_us s) / lit 1000000) 0);
          identity_pred = fst (Cost_from_ln (analytic_ln s) 0);
          corrected_pred = fst (Cost_from_ln (analytic_ln s + lg (Corrector_get corrector)) 0);
          err_id = abs (Cost_ln identity_pred - lg (TimeCore_get observed));
          err_corr = abs (Cost_ln corrected_pred - lg (TimeCore_get observed))
      in flt (err_corr + lit (1 / 1000000000000)) err_id)"

definition eval_goodput_improvement :: "(f64 \<Rightarrow> f64) \<Rightarrow> CorrectorShadowSample list \<Rightarrow> f64 \<Rightarrow> f64" where
  "eval_goodput_improvement lg ss delta =
     (if ss = [] then 0
      else let corrector = fst (Corrector_new delta 0);
               improved = length (filter (\<lambda>s. sample_counts s \<and> sample_improved lg corrector s) ss);
               total = length (filter sample_counts ss)
           in if total = 0 then 0 else f64_of_nat improved / f64_of_nat total)"

definition delta_within_envelope :: "f64 \<Rightarrow> bool" where
  "delta_within_envelope delta \<longleftrightarrow> fle (1 - ALPHA) delta \<and> fle delta (1 + ALPHA)"

section \<open>Graduation\<close>

datatype GraduationStage = Shadow | Canary | Production

record GraduationGate =
  max_violations :: u64
  min_goodput_improvement :: f64

definition is_clamp_saturated :: "f64 \<Rightarrow> bool" where
  "is_clamp_saturated delta \<longleftrightarrow> \<not> is_finite delta \<or> fle delta (1 - ALPHA) \<or> fle (1 + ALPHA) delta"

definition eval_corrector_graduation :: "u64 \<Rightarrow> f64 \<Rightarrow> GraduationGate \<Rightarrow> bool" where
  "eval_corrector_graduation violations goodput_delta gate \<longleftrightarrow>
     violations \<le> max_violations gate \<and> fle (min_goodput_improvement gate) goodput_delta"

record GraduationStep =
  step_stage :: GraduationStage
  rolled_back :: bool

record GraduationController =
  stage :: GraduationStage

definition GraduationController_new :: GraduationController where
  "GraduationController_new = \<lparr>stage = Shadow\<rparr>"

definition evaluate ::
  "(f64 \<Rightarrow> f64) \<Rightarrow> (f64 \<Rightarrow> f64) \<Rightarrow> CorrectorShadowSample list \<Rightarrow> u64 \<Rightarrow> GraduationGate \<Rightarrow> GraduationController
     \<Rightarrow> GraduationStep \<times> GraduationController" where
  "evaluate lg ex ss violations gate c =
     (let delta = train_bounded_delta ex ss;
          goodput = eval_goodput_improvement lg ss delta;
          saturated = is_clamp_saturated delta;
          healthy = (\<not> saturated \<and> eval_corrector_graduation violations goodput gate);
          next_stage = (case (stage c, healthy) of
             (Shadow, True) \<Rightarrow> Canary
           | (Canary, True) \<Rightarrow> Production
           | (Production, True) \<Rightarrow> Production
           | (_, False) \<Rightarrow> Shadow);
          back = (\<not> healthy \<and> stage c \<noteq> Shadow)
      in (\<lparr>step_stage = next_stage, rolled_back = back\<rparr>, c\<lparr>stage := next_stage\<rparr>))"

section \<open>RDMA cost shadow\<close>

record RdmaCostShadowSample =
  pf_label :: string
  dc_label :: string
  distance :: u64
  kv_bytes :: u64
  analytic_transfer_ln :: f64
  flat_penalty_ln :: f64
  observed_transfer_secs :: f64

type_synonym RdmaCostShadowLog = "RdmaCostShadowSample ring"

definition RdmaCostShadowLog_new :: "nat \<Rightarrow> RdmaCostShadowLog" where
  "RdmaCostShadowLog_new n = ring_new n"

definition RdmaCostShadowLog_record :: "RdmaCostShadowSample \<Rightarrow> RdmaCostShadowLog \<Rightarrow> RdmaCostShadowLog option" where
  "RdmaCostShadowLog_record s l = ring_record s l"

definition RdmaCostShadowLog_samples :: "RdmaCostShadowLog \<Rightarrow> RdmaCostShadowSample list" where
  "RdmaCostShadowLog_samples l = inner l"

definition transfer_ratio :: "(f64 \<Rightarrow> f64) \<Rightarrow> RdmaCostShadowSample \<Rightarrow> f64 option" where
  "transfer_ratio ex s =
     (if fle (observed_transfer_secs s) 0 \<or> \<not> is_finite (analytic_transfer_ln s) then None
      else let predicted = ex (analytic_transfer_ln s)
           in if fle predicted 0 \<or> \<not> is_finite predicted then None
              else Some (fclamp (observed_transfer_secs s / predicted) (lit (1 / 1000000)) (lit 1000000)))"

definition eval_transfer_ratio_median :: "(f64 \<Rightarrow> f64) \<Rightarrow> RdmaCostShadowSample list \<Rightarrow> f64" where
  "eval_transfer_ratio_median ex ss =
     (if ss = [] then 1
      else let ratios = List.map_filter (transfer_ratio ex) ss
           in if ratios = [] then 1 else sort ratios ! (length ratios div 2))"

section \<open>Lemmas\<close>

interpretation predictor: bounded_log LengthPredictor_record samples "\<lambda>_. MAX_SAMPLES" "\<lambda>lp. length (samples lp) \<le> MAX_SAMPLES"
  by unfold_locales (auto simp: LengthPredictor_record_def push_capped_def MAX_SAMPLES_def)

lemma Corrector_new_envelope: "f64_ok d \<Longrightarrow> delta_within_envelope (Corrector_get (fst (Corrector_new d ev)))"
  using wf_Corrector_new [of d ev] by (simp add: wf_corrector_def delta_within_envelope_def)

lemma one_within_envelope: "delta_within_envelope 1"
  using wf_Corrector_identity by (simp add: wf_corrector_def delta_within_envelope_def Corrector_identity_def)

lemma sample_ratio_ok: "sample_ratio ex s = Some r \<Longrightarrow> f64_ok r"
  by (auto simp: sample_ratio_def Let_def intro!: ok_fclamp split: if_splits)

lemma map_filter_ok: "\<forall>r\<in>set (List.map_filter (sample_ratio ex) ss). f64_ok r"
  by (auto simp: List.map_filter_def intro: sample_ratio_ok)

text \<open>Every percentile is one of the recorded samples.\<close>

lemma percentile_at_mem: "xs \<noteq> [] \<Longrightarrow> percentile_at xs p \<in> set xs"
proof -
  assume "xs \<noteq> []"
  then have "min (nat_of_f64 (f64_of_nat (length xs) * p)) (length xs - 1) < length (sort xs)"
    by (cases xs) auto
  then have "sort xs ! min (nat_of_f64 (f64_of_nat (length xs) * p)) (length xs - 1) \<in> set (sort xs)" by (rule nth_mem)
  then show ?thesis using \<open>xs \<noteq> []\<close> by (simp add: percentile_at_def Let_def)
qed

lemma percentile_at_mono:
  assumes "length xs \<le> 2 ^ 53" "0 \<le> p" "p \<le> q" "q \<le> 1"
  shows "percentile_at xs (lit p) \<le> percentile_at xs (lit q)"
proof (cases "xs = []")
  case False
  have r: "repr64 0" "repr64 1" using ok_FinD(1) [of 0] ok_FinD(1) [of 1] by auto
  have v: "lit x = Fin (rnd x)" if "0 \<le> x" "x \<le> 1" for x
    using that r by (elim mk64_between [of 0 x 1, rotated 2]) simp_all
  have "f64_of_nat (length xs) * lit p \<le> f64_of_nat (length xs) * lit q"
    using assms by (simp add: v f64_of_nat_exact mk64_mono mult_left_mono rnd_mono)
  moreover have "f64_of_nat (length xs) * lit q \<noteq> NaN" using assms by (simp add: v f64_of_nat_exact)
  ultimately have "nat_of_f64 (f64_of_nat (length xs) * lit p) \<le> nat_of_f64 (f64_of_nat (length xs) * lit q)"
    by (rule nat_of_f64_mono)
  moreover have "length xs - 1 < length xs" using False by simp
  ultimately show ?thesis using False
    by (simp add: percentile_at_def Let_def) (intro sorted_nth_mono; simp add: min.coboundedI1 min_less_iff_disj)
qed (simp add: percentile_at_def)

text \<open>Windows evaluated one after another, and the run of healthy windows at the end.\<close>

type_synonym window = "CorrectorShadowSample list \<times> u64 \<times> GraduationGate"

definition healthy :: "(f64 \<Rightarrow> f64) \<Rightarrow> (f64 \<Rightarrow> f64) \<Rightarrow> window \<Rightarrow> bool" where
  "healthy lg ex w = (case w of (ss, violations, gate) \<Rightarrow>
     \<not> is_clamp_saturated (train_bounded_delta ex ss)
     \<and> eval_corrector_graduation violations (eval_goodput_improvement lg ss (train_bounded_delta ex ss)) gate)"

definition run_windows :: "(f64 \<Rightarrow> f64) \<Rightarrow> (f64 \<Rightarrow> f64) \<Rightarrow> window list \<Rightarrow> GraduationController \<Rightarrow> GraduationController" where
  "run_windows lg ex ws c = fold (\<lambda>(ss, v, g) c. snd (evaluate lg ex ss v g c)) ws c"

lemma evaluate_stage:
  "stage (snd (evaluate lg ex ss v g c)) =
     (if healthy lg ex (ss, v, g) then (case stage c of Shadow \<Rightarrow> Canary | _ \<Rightarrow> Production) else Shadow)"
  by (cases "stage c") (auto simp: evaluate_def healthy_def Let_def)

lemma run_windows_stage:
  "stage (run_windows lg ex ws GraduationController_new) =
     (let n = length (takeWhile (healthy lg ex) (rev ws))
      in if n = 0 then Shadow else if n = 1 then Canary else Production)"
proof (induction ws rule: rev_induct)
  case Nil
  show ?case by (simp add: run_windows_def GraduationController_new_def)
next
  case (snoc w ws)
  obtain ss v g where w: "w = (ss, v, g)" by (cases w)
  have "stage (run_windows lg ex (ws @ [w]) GraduationController_new) =
      (if healthy lg ex w then (case stage (run_windows lg ex ws GraduationController_new) of Shadow \<Rightarrow> Canary | _ \<Rightarrow> Production)
       else Shadow)"
    by (simp add: run_windows_def w evaluate_stage)
  then show ?case using snoc.IH by (auto simp: Let_def)
qed

section \<open>Properties\<close>

text \<open>C16: the graduation machine: the stage after any history of windows is determined by the run
  of healthy windows that ends it: none is \<open>Shadow\<close>, one is \<open>Canary\<close>, two or more are
  \<open>Production\<close>; so promotion goes one stage at a time and any unhealthy window returns to
  \<open>Shadow\<close>, reported as a rollback unless the controller was there already.\<close>

theorem graduation_stage:
  "stage (run_windows lg ex ws GraduationController_new) =
     (let n = length (takeWhile (healthy lg ex) (rev ws))
      in if n = 0 then Shadow else if n = 1 then Canary else Production)
   \<and> rolled_back (fst (evaluate lg ex ss v g (run_windows lg ex ws GraduationController_new))) =
     (\<not> healthy lg ex (ss, v, g) \<and> ws \<noteq> [] \<and> healthy lg ex (last ws))"
proof -
  have "(length (takeWhile (healthy lg ex) (rev ws)) \<noteq> 0) = (ws \<noteq> [] \<and> healthy lg ex (last ws))"
    by (cases ws rule: rev_cases) auto
  then have "(stage (run_windows lg ex ws GraduationController_new) \<noteq> Shadow) = (ws \<noteq> [] \<and> healthy lg ex (last ws))"
    by (auto simp: run_windows_stage Let_def)
  then show ?thesis by (auto simp: run_windows_stage evaluate_def healthy_def Let_def)
qed

text \<open>The trained correction always lies in the clamp envelope, whatever the samples and
  whatever \<open>exp\<close> returns.\<close>

theorem train_bounded_delta_envelope: "delta_within_envelope (train_bounded_delta ex ss)"
proof -
  let ?r = "List.map_filter (sample_ratio ex) ss"
  have "sort ?r ! (length ?r div 2) \<in> set ?r" if "?r \<noteq> []"
    using that nth_mem [of "length ?r div 2" "sort ?r"] by simp
  then show ?thesis
    using map_filter_ok [of ex ss] one_within_envelope
    by (auto simp: train_bounded_delta_def Let_def intro: Corrector_new_envelope)
qed

text \<open>The length predictor keeps the most recent 512 prompt lengths of any history, and its
  percentiles are ordered.\<close>

theorem predictor_percentiles_ordered:
  "samples (fold LengthPredictor_record xs \<lparr>samples = []\<rparr>) = drop (length xs - MAX_SAMPLES) xs
   \<and> p50 (fold LengthPredictor_record xs \<lparr>samples = []\<rparr>) \<le> p90 (fold LengthPredictor_record xs \<lparr>samples = []\<rparr>)
   \<and> p90 (fold LengthPredictor_record xs \<lparr>samples = []\<rparr>) \<le> p99 (fold LengthPredictor_record xs \<lparr>samples = []\<rparr>)"
proof -
  let ?lp = "fold LengthPredictor_record xs \<lparr>samples = []\<rparr>"
  have "length (samples ?lp) \<le> MAX_SAMPLES" by (rule predictor.run_wf) simp
  then have len: "length (samples ?lp) \<le> 2 ^ 53" by (simp add: MAX_SAMPLES_def)
  have "samples ?lp = drop (length xs - MAX_SAMPLES) xs"
    using predictor.run_items [of "\<lparr>samples = []\<rparr>" xs] by simp
  then show ?thesis
    unfolding p50_def p90_def p99_def
    by (intro conjI percentile_at_mono [OF len]) simp_all
qed

end
