(* ===== verification/Rebalance.thy ===== *)
theory Rebalance
  imports Control StatePlane
begin

text \<open>
  Pool pressure (\<open>pressure.rs\<close>), the pool rebalancer (\<open>rebalancer.rs\<close>) and the fleet pilot replay
  (\<open>fleet_pilot.rs\<close>) of \<open>crates/demiurge-control/src\<close>.  Clock readings are nanosecond counts
  passed by the caller; \<open>Instant::elapsed\<close> saturates at zero.
\<close>

section \<open>Pressure\<close>

record PoolPressure =
  q_prefill :: f64
  q_decode :: f64
  kv_decode :: f64
  slo_prefill :: f64
  slo_decode :: f64
  fp_share :: f64

definition mean_f64 :: "f64 list \<Rightarrow> f64" where
  "mean_f64 values =
     (let (n, s) = foldl (\<lambda>(n :: u64, s) v. (n + 1, s + v)) (0, 0) values
      in if n = 0 then 0 else fclamp (s / f64_of_u64 n) 0 1)"

definition mean_occupancy :: "f64 list \<Rightarrow> f64" where
  "mean_occupancy values = mean_f64 (map (\<lambda>v. fclamp v 0 1) values)"

definition export_pool_pressure :: "StateSnapshot \<Rightarrow> f64 \<Rightarrow> PoolPressure" where
  "export_pool_pressure s share =
     \<lparr>q_prefill = mean_occupancy (map (occupancy \<circ> snd) (prefill s)),
      q_decode = mean_occupancy (map (occupancy \<circ> snd) (decode s)),
      kv_decode = mean_f64 (map (kv_pressure \<circ> snd) (decode s)),
      slo_prefill = 0, slo_decode = 0, fp_share = fclamp share 0 1\<rparr>"

section \<open>Rebalancer\<close>

datatype RebalancerMode = ModeShadow | CanActuate

record PoolRebalancer =
  pi_ratio :: f64
  last_change :: nat
  mode :: RebalancerMode

definition secs :: "u64 \<Rightarrow> nat" where
  "secs s = unat s * 1000000000"

definition PoolRebalancer_default :: "nat \<Rightarrow> PoolRebalancer" where
  "PoolRebalancer_default now =
     (let d = secs (POOL_REBALANCE_COOLDOWN_S + 1)
      in \<lparr>pi_ratio = lit (1 / 2), last_change = (if d \<le> now then now - d else now), mode = ModeShadow\<rparr>)"

definition PoolRebalancer_new :: "RebalancerMode \<Rightarrow> nat \<Rightarrow> PoolRebalancer" where
  "PoolRebalancer_new m now = (PoolRebalancer_default now)\<lparr>mode := m\<rparr>"

definition compute_pi_star :: "PoolRebalancer \<Rightarrow> PoolPressure \<Rightarrow> f64" where
  "compute_pi_star r s =
     (let demand_prefill = POOL_WEIGHT_QUEUE * q_prefill s + POOL_WEIGHT_SLO * slo_prefill s * (1 - fp_share s);
          demand_decode = POOL_WEIGHT_QUEUE * q_decode s + POOL_WEIGHT_KV * kv_decode s + POOL_WEIGHT_SLO * slo_decode s;
          total = demand_prefill + demand_decode
      in if fle total 0 then pi_ratio r else fclamp (demand_prefill / total) 0 1)"

definition maybe_update :: "PoolPressure \<Rightarrow> nat \<Rightarrow> PoolRebalancer \<Rightarrow> f64 option \<times> PoolRebalancer" where
  "maybe_update s now r =
     (let pi_star = compute_pi_star r s in
      if fle (abs (pi_star - pi_ratio r)) POOL_REBALANCE_HYSTERESIS then (None, r)
      else if now - last_change r < secs POOL_REBALANCE_COOLDOWN_S then (None, r)
      else if mode r = ModeShadow then (None, r)
      else (Some pi_star, r\<lparr>pi_ratio := pi_star, last_change := now\<rparr>))"

definition shadow_pi_star :: "PoolRebalancer \<Rightarrow> PoolPressure \<Rightarrow> f64" where
  "shadow_pi_star r s = compute_pi_star r s"

definition force_actuate :: "f64 \<Rightarrow> nat \<Rightarrow> PoolRebalancer \<Rightarrow> f64 \<times> PoolRebalancer" where
  "force_actuate pi_star now r =
     (let r' = (if mode r = CanActuate then r\<lparr>pi_ratio := fclamp pi_star 0 1, last_change := now\<rparr> else r)
      in (pi_ratio r', r'))"

section \<open>Fleet pilot\<close>

record TraceWindow =
  ts_ms :: u64
  tw_q_prefill :: f64
  tw_q_decode :: f64
  tw_kv_decode :: f64
  tw_slo_prefill :: f64
  tw_slo_decode :: f64
  tw_fp_share :: f64
  prefill_heavy :: bool
  held_out :: bool

definition TraceWindow_pressure :: "TraceWindow \<Rightarrow> PoolPressure" where
  "TraceWindow_pressure w =
     \<lparr>q_prefill = fclamp (tw_q_prefill w) 0 1, q_decode = fclamp (tw_q_decode w) 0 1,
      kv_decode = fclamp (tw_kv_decode w) 0 1, slo_prefill = fclamp (tw_slo_prefill w) 0 1,
      slo_decode = fclamp (tw_slo_decode w) 0 1, fp_share = fclamp (tw_fp_share w) 0 1\<rparr>"

record WindowReplay =
  wr_ts_ms :: u64
  pi_star :: f64
  wr_prefill_heavy :: bool
  wr_held_out :: bool

record FleetPilotReport =
  train_windows :: nat
  heldout_windows :: nat
  heldout_correlation :: f64
  heldout_mean_pi_heavy :: f64
  heldout_mean_pi_light :: f64
  gate_pass :: bool
  replays :: "WindowReplay list"

text \<open>The accumulators of the loop over values and labels: counts, sums, squared deviations.\<close>

definition pb_step ::
  "f64 \<Rightarrow> u64 \<times> u64 \<times> f64 \<times> f64 \<times> f64 \<Rightarrow> f64 \<times> bool \<Rightarrow> u64 \<times> u64 \<times> f64 \<times> f64 \<times> f64" where
  "pb_step mean_all = (\<lambda>(n1, n0, sum1, sum0, sq) (v, lab).
     let sq = sq + (v - mean_all) * (v - mean_all)
     in if lab then (n1 + 1, n0, sum1 + v, sum0, sq) else (n1, n0 + 1, sum1, sum0 + v, sq))"

definition point_biserial_corr :: "f64 list \<Rightarrow> bool list \<Rightarrow> f64" where
  "point_biserial_corr values labels =
     (if length values \<noteq> length labels \<or> length values < 2 then 0
      else let n = f64_of_nat (length values);
               mean_all = foldl (+) 0 values / n;
               (n1, n0, sum1, sum0, sq) = foldl (pb_step mean_all) (0, 0, 0, 0, 0) (zip values labels)
           in if n1 = 0 \<or> n0 = 0 then 0
              else let mean1 = sum1 / f64_of_u64 n1;
                       mean0 = sum0 / f64_of_u64 n0;
                       std = fsqrt (sq / n)
                   in if fle std (lit (1 / 1000000000000)) then 0
                      else let p = f64_of_u64 n1 / n; q = 1 - p
                           in ((mean1 - mean0) / std) * fsqrt (p * q))"

definition window_replay :: "PoolRebalancer \<Rightarrow> TraceWindow \<Rightarrow> WindowReplay" where
  "window_replay r w =
     \<lparr>wr_ts_ms = ts_ms w, pi_star = shadow_pi_star r (TraceWindow_pressure w),
      wr_prefill_heavy = prefill_heavy w, wr_held_out = held_out w\<rparr>"

definition mean_of :: "f64 list \<Rightarrow> f64" where
  "mean_of vs = (if 0 < length vs then foldl (+) 0 vs / f64_of_nat (length vs) else 0)"

definition replay_fleet_pilot :: "nat \<Rightarrow> TraceWindow list \<Rightarrow> f64 \<Rightarrow> FleetPilotReport" where
  "replay_fleet_pilot now windows min_correlation =
     (let rebalancer = PoolRebalancer_new ModeShadow now;
          rs = map (window_replay rebalancer) windows;
          heldout = length (filter held_out windows);
          train = length (filter (\<lambda>w. \<not> held_out w) windows);
          held = filter wr_held_out rs;
          corr = point_biserial_corr (map pi_star held) (map wr_prefill_heavy held);
          mean_heavy = mean_of (map pi_star (filter wr_prefill_heavy held));
          mean_light = mean_of (map pi_star (filter (\<lambda>r. \<not> wr_prefill_heavy r) held));
          separation = flt (mean_light + lit (5 / 100)) mean_heavy
      in \<lparr>train_windows = train, heldout_windows = heldout, heldout_correlation = corr,
          heldout_mean_pi_heavy = mean_heavy, heldout_mean_pi_light = mean_light,
          gate_pass = (fle min_correlation corr \<and> separation \<and> heldout > 0), replays = rs\<rparr>)"

section \<open>Normalised signals\<close>

definition unit_f64 :: "f64 \<Rightarrow> bool" where
  "unit_f64 v \<longleftrightarrow> fle 0 v \<and> fle v 1"

lemma unit_f64_Fin: "unit_f64 v \<longleftrightarrow> (\<exists>x. v = Fin x \<and> 0 \<le> x \<and> x \<le> 1)"
  by (cases v rule: f64_cases4) (auto simp: unit_f64_def fle_def)

lemma unit_fclamp: "v \<noteq> NaN \<Longrightarrow> unit_f64 (fclamp v 0 1)"
  using fclamp_Fin [of 0 1 v] by (auto simp: unit_f64_Fin)

text \<open>Non-negative values other than NaN: closed under addition, and divisible by a count.\<close>

definition nonneg_f64 :: "f64 \<Rightarrow> bool" where
  "nonneg_f64 v \<longleftrightarrow> (\<exists>x. v = Fin x \<and> 0 \<le> x) \<or> v = Infinity False"

lemma nonneg_mk64: "0 \<le> x \<Longrightarrow> nonneg_f64 (mk64 x)"
  using rnd_nonneg [of x] by (auto simp: mk64_def nonneg_f64_def Let_def)

lemma nonneg_plus: "nonneg_f64 a \<Longrightarrow> nonneg_f64 b \<Longrightarrow> nonneg_f64 (a + b)"
  using nonneg_mk64 by (auto simp: nonneg_f64_def [of a] nonneg_f64_def [of b] nonneg_f64_def [of "Infinity False"])

lemma nonneg_not_NaN: "nonneg_f64 a \<Longrightarrow> a \<noteq> NaN"
  by (auto simp: nonneg_f64_def)

lemma unit_nonneg: "unit_f64 a \<Longrightarrow> nonneg_f64 a"
  by (auto simp: unit_f64_Fin nonneg_f64_def)

lemma nonneg_div_count: "nonneg_f64 a \<Longrightarrow> n \<noteq> (0 :: u64) \<Longrightarrow> a / f64_of_u64 n \<noteq> NaN"
  using f64_of_u64_Fin [of n] u64_ratio(3) [of n] by (auto simp: nonneg_f64_def simp del: of_nat_unat)

lemma mean_f64_unit:
  assumes "\<forall>v\<in>set vs. unit_f64 v"
  shows "unit_f64 (mean_f64 vs)"
proof -
  have "nonneg_f64 (snd (foldl (\<lambda>(n :: u64, s) v. (n + 1, s + v)) a vs))" if "nonneg_f64 (snd a)" for a
    using that assms
  proof (induction vs arbitrary: a)
    case (Cons v vs)
    then have "nonneg_f64 (snd a + v)" using nonneg_plus unit_nonneg by simp
    then show ?case using Cons.IH [of "(fst a + 1, snd a + v)"] Cons.prems(2) by (simp add: case_prod_beta)
  qed simp
  from this [of "(0, 0)"] have s: "nonneg_f64 (snd (foldl (\<lambda>(n :: u64, s) v. (n + 1, s + v)) (0, 0) vs))"
    by (simp add: nonneg_f64_def)
  then show ?thesis
    using unit_fclamp [OF nonneg_div_count [OF s]] by (simp add: mean_f64_def case_prod_beta Let_def unit_f64_Fin [of "Fin 0"])
qed

definition pressure_unit :: "PoolPressure \<Rightarrow> bool" where
  "pressure_unit s \<longleftrightarrow> unit_f64 (q_prefill s) \<and> unit_f64 (q_decode s) \<and> unit_f64 (kv_decode s)
     \<and> unit_f64 (slo_prefill s) \<and> unit_f64 (slo_decode s) \<and> unit_f64 (fp_share s)"

lemma kv_pressure_unit: "unit_f64 (kv_pressure b)"
proof (cases "kv_capacity_bytes b = 0")
  case False
  then show ?thesis using unit_fclamp u64_ratio(1) [OF False] by (simp add: kv_pressure_def)
qed (simp add: kv_pressure_def unit_f64_Fin)

lemma export_pool_pressure_unit:
  assumes "snapshot_wf s" "share \<noteq> NaN"
  shows "pressure_unit (export_pool_pressure s share)"
proof -
  have occ: "\<forall>v\<in>set (map (\<lambda>v. fclamp v 0 1) (map (occupancy \<circ> snd) p)). unit_f64 v" if "pool_wf p" for p
    using that by (auto simp: pool_wf_def list_all_iff backend_wf_def fle_def intro!: unit_fclamp [simplified])
  show ?thesis
    using assms occ [of "prefill s"] occ [of "decode s"] kv_pressure_unit
    by (simp add: pressure_unit_def export_pool_pressure_def mean_occupancy_def snapshot_wf_def unit_f64_Fin [of "Fin 0"]
        mean_f64_unit unit_fclamp [simplified])
qed

text \<open>Values in \<open>[0, k]\<close>: sums and products with values in \<open>[0, 1]\<close> stay finite.\<close>

definition upto :: "nat \<Rightarrow> f64 \<Rightarrow> bool" where
  "upto k v \<longleftrightarrow> (\<exists>x. v = Fin x \<and> 0 \<le> x \<and> x \<le> real k)"

lemma upto_mk64: "0 \<le> x \<Longrightarrow> x \<le> real k \<Longrightarrow> k \<le> 2 ^ 53 \<Longrightarrow> upto k (mk64 x)"
proof -
  assume a: "0 \<le> x" "x \<le> real k" "k \<le> 2 ^ 53"
  have "real k \<le> 2 ^ 53" using a(3) by (metis of_nat_le_iff of_nat_numeral of_nat_power)
  then obtain y where "mk64 x = Fin y" "0 \<le> y" "y \<le> real k"
    using mk64_between [OF a(1,2) ok_FinD(1) repr64_nat [OF a(3)]] by auto
  then show ?thesis by (auto simp: upto_def)
qed

lemma upto_plus: "upto m a \<Longrightarrow> upto n b \<Longrightarrow> m + n \<le> 2 ^ 53 \<Longrightarrow> upto (m + n) (a + b)"
  using upto_mk64 [of _ "m + n"] by (fastforce simp: upto_def [of m] upto_def [of n])

lemma upto_times: "upto m a \<Longrightarrow> upto 1 b \<Longrightarrow> m \<le> 2 ^ 53 \<Longrightarrow> upto m (a * b)"
proof -
  assume a: "upto m a" "upto 1 b" "m \<le> 2 ^ 53"
  then obtain x y where xy: "a = Fin x" "b = Fin y" "0 \<le> x" "x \<le> real m" "0 \<le> y" "y \<le> 1" by (auto simp: upto_def)
  then have "x * y \<le> real m * 1" by (intro mult_mono) auto
  then show ?thesis using upto_mk64 [of "x * y" m] xy a(3) by simp
qed

lemma unit_upto: "unit_f64 v \<longleftrightarrow> upto 1 v"
  by (simp add: unit_f64_Fin upto_def)

lemma unit_complement: "unit_f64 v \<Longrightarrow> unit_f64 (1 - v)"
  using upto_mk64 [of _ 1] by (auto simp: unit_upto minus_f64_def) (auto simp: upto_def [of _ v])

lemma pool_weights: "upto 1 POOL_WEIGHT_QUEUE" "upto 1 POOL_WEIGHT_SLO" "upto 1 POOL_WEIGHT_KV"
  unfolding POOL_WEIGHT_QUEUE_def POOL_WEIGHT_SLO_def POOL_WEIGHT_KV_def by (rule upto_mk64; simp)+

lemma compute_pi_star_unit:
  assumes "pressure_unit s" "unit_f64 (pi_ratio r)"
  shows "unit_f64 (compute_pi_star r s)"
proof -
  define dp where "dp = POOL_WEIGHT_QUEUE * q_prefill s + POOL_WEIGHT_SLO * slo_prefill s * (1 - fp_share s)"
  define dd where "dd = POOL_WEIGHT_QUEUE * q_decode s + POOL_WEIGHT_KV * kv_decode s + POOL_WEIGHT_SLO * slo_decode s"
  have u: "upto 1 (q_prefill s)" "upto 1 (slo_prefill s)" "upto 1 (1 - fp_share s)" "upto 1 (q_decode s)"
    "upto 1 (kv_decode s)" "upto 1 (slo_decode s)"
    using assms(1) unit_complement by (auto simp: pressure_unit_def unit_upto)
  have dp: "upto (1 + 1) dp" unfolding dp_def by (intro upto_plus upto_times pool_weights u) simp_all
  have dd: "upto (1 + 1 + 1) dd" unfolding dd_def by (intro upto_plus upto_times pool_weights u) simp_all
  obtain x y where xy: "dp = Fin x" "dp + dd = Fin y" "0 \<le> y"
    using dp upto_plus [OF dp dd] by (auto simp: upto_def)
  have "\<not> fle (dp + dd) 0 \<Longrightarrow> dp / (dp + dd) \<noteq> NaN" unfolding xy(2) by (simp add: xy(1))
  then show ?thesis
    using assms(2) unit_fclamp unfolding compute_pi_star_def Let_def dp_def [symmetric] dd_def [symmetric] by simp
qed

section \<open>Executions\<close>

text \<open>One call of the rebalancer with signals exported from a well-formed snapshot, at time \<open>now\<close>.\<close>

inductive rebalance_step :: "PoolRebalancer \<Rightarrow> PoolRebalancer \<Rightarrow> bool" where
  update: "snapshot_wf s \<Longrightarrow> share \<noteq> NaN \<Longrightarrow> rebalance_step r (snd (maybe_update (export_pool_pressure s share) now r))"
| force: "p \<noteq> NaN \<Longrightarrow> rebalance_step r (snd (force_actuate p now r))"

inductive_cases rebalance_stepE: "rebalance_step r r'"

lemma pi_default_unit: "unit_f64 (pi_ratio (PoolRebalancer_new m now))"
  using upto_mk64 [of "1 / 2" 1] by (simp add: PoolRebalancer_new_def PoolRebalancer_default_def Let_def unit_upto)

lemma rebalance_step_unit: "rebalance_step r r' \<Longrightarrow> unit_f64 (pi_ratio r) \<Longrightarrow> unit_f64 (pi_ratio r')"
  using compute_pi_star_unit export_pool_pressure_unit unit_fclamp
  by (auto elim!: rebalance_stepE simp: maybe_update_def force_actuate_def Let_def)

lemma rebalance_step_shadow: "rebalance_step r r' \<Longrightarrow> mode r = ModeShadow \<Longrightarrow> r' = r"
  by (auto elim!: rebalance_stepE simp: maybe_update_def force_actuate_def Let_def)

section \<open>Properties\<close>

text \<open>The pool ratio stays in \<open>[0, 1]\<close> through any sequence of updates from well-formed fleet
  snapshots and forced targets, and a rebalancer in shadow mode is never changed by any of them.\<close>

theorem rebalancer_ratio_normalized:
  assumes "rebalance_step\<^sup>*\<^sup>* (PoolRebalancer_new m now) r"
  shows "unit_f64 (pi_ratio r) \<and> (m = ModeShadow \<longrightarrow> r = PoolRebalancer_new m now)"
  using assms
proof (induction rule: rtranclp_induct)
  case (step r r')
  have "mode (PoolRebalancer_new m now) = m" by (simp add: PoolRebalancer_new_def)
  then show ?case using step rebalance_step_unit rebalance_step_shadow by metis
qed (simp add: pi_default_unit)

theorem rebalancer_ratio_normalized_witness:
  "unit_f64 (pi_ratio (snd (force_actuate (Fin 3) 9 (PoolRebalancer_new CanActuate 7))))"
  using rebalancer_ratio_normalized [of CanActuate 7 "snd (force_actuate (Fin 3) 9 (PoolRebalancer_new CanActuate 7))"]
    rebalance_step.force [of "Fin 3" "PoolRebalancer_new CanActuate 7" 9]
  by blast

text \<open>An update moves the ratio only past the hysteresis band and not before the cooldown has
  elapsed since the last move, only when actuation is enabled, and then exactly to the computed
  target, restarting the cooldown.\<close>

lemma maybe_update_guarded:
  assumes "maybe_update s now r = (res, r')"
  shows "(res = None \<and> r' = r) \<or>
    (res = Some (compute_pi_star r s) \<and> mode r = CanActuate
     \<and> \<not> fle (abs (compute_pi_star r s - pi_ratio r)) POOL_REBALANCE_HYSTERESIS
     \<and> last_change r + secs POOL_REBALANCE_COOLDOWN_S \<le> now
     \<and> pi_ratio r' = compute_pi_star r s \<and> last_change r' = now \<and> mode r' = mode r)"
proof -
  have "0 < secs POOL_REBALANCE_COOLDOWN_S" by (simp add: secs_def POOL_REBALANCE_COOLDOWN_S_def)
  then show ?thesis
    using assms by (cases "mode r") (auto simp: maybe_update_def Let_def split: if_splits)
qed

end
