(* ===== verification/Xdp.thy ===== *)
theory Xdp
  imports Dataplane
begin

text \<open>
  The loader of the kernel admission shed on Linux (\<open>demiurge-dataplane/src/xdp_linux.rs\<close>): the state
  it seeds into the BPF map, the netlink messages that attach and detach the program and query the
  one attached, and the liveness test behind the hybrid fall-back.

  The crates \<open>aya\<close> and \<open>libc\<close> are parameters: \<open>aya\<close> collects the map and program operations the
  loader calls, \<open>libc_abi\<close> the constants it takes from \<open>libc\<close>, and \<open>xchg\<close> a socket opened, sent one
  request and read once (an errno when one of the calls fails).  Structures are laid out as on the
  little-endian 64-bit targets the program is built for.
\<close>

unbundle bit_operations_syntax

section \<open>Map state\<close>

record AdmitMapState =
  ms_tokens :: i64
  ms_capacity :: u64
  ms_refill_per_sec :: u64
  last_refill_ns :: u64
  ms_listen_port :: u64

record AdmitMapStats =
  st_shed_total :: u64
  st_pass_total :: u64

text \<open>\<open>clock_gettime\<close> gives seconds and nanoseconds, or fails.\<close>

definition monotonic_ns :: "(i64 \<times> i64) option \<Rightarrow> u64" where
  "monotonic_ns ts = (case ts of None \<Rightarrow> 0
     | Some (tv_sec, tv_nsec) \<Rightarrow> saturating_add (saturating_mul tv_sec 1000000000) tv_nsec)"

text \<open>The operations of \<open>aya\<close> on a loaded object; a string is the rendering of an error.\<close>

record 'b aya =
  aya_map :: "'b \<Rightarrow> string \<Rightarrow> bool"
  aya_array :: "'b \<Rightarrow> string \<Rightarrow> string option"
  aya_get :: "'b \<Rightarrow> string + AdmitMapState"
  aya_set :: "AdmitMapState \<Rightarrow> 'b \<Rightarrow> string + 'b"
  aya_stats :: "'b \<Rightarrow> string + AdmitMapStats list"
  aya_pin :: "'b \<Rightarrow> string \<Rightarrow> string \<Rightarrow> string option"

definition map_io :: "string \<Rightarrow> string \<Rightarrow> XdpAttachError" where
  "map_io stage err = LoadFailed (stage @ '': '' @ err)"

definition open_map :: "'b aya \<Rightarrow> 'b \<Rightarrow> string \<Rightarrow> XdpAttachError + unit" where
  "open_map A bpf name =
     (if \<not> aya_map A bpf name then Inl (LoadFailed (name @ '' map missing''))
      else case aya_array A bpf name of None \<Rightarrow> Inr ()
        | Some e \<Rightarrow> Inl (LoadFailed (name @ '' array: '' @ e)))"

definition state_array :: "'b aya \<Rightarrow> 'b \<Rightarrow> XdpAttachError + unit" where
  "state_array A bpf = open_map A bpf ''admit_state''"

definition read_admit_state :: "'b aya \<Rightarrow> 'b \<Rightarrow> XdpAttachError + AdmitMapState" where
  "read_admit_state A bpf =
     and_then (state_array A bpf) (\<lambda>_. map_err (map_io ''read admit_state'') (aya_get A bpf))"

definition write_admit_state :: "'b aya \<Rightarrow> AdmitMapState \<Rightarrow> 'b \<Rightarrow> XdpAttachError + 'b" where
  "write_admit_state A st bpf =
     and_then (state_array A bpf) (\<lambda>_. map_err (map_io ''write admit_state'') (aya_set A st bpf))"

definition sum_stats :: "AdmitMapStats list \<Rightarrow> AdmitMapStats" where
  "sum_stats = foldl (\<lambda>total v. \<lparr>st_shed_total = st_shed_total total + st_shed_total v,
                                 st_pass_total = st_pass_total total + st_pass_total v\<rparr>)
     \<lparr>st_shed_total = 0, st_pass_total = 0\<rparr>"

definition read_admit_stats :: "'b aya \<Rightarrow> 'b \<Rightarrow> XdpAttachError + AdmitMapStats" where
  "read_admit_stats A bpf =
     and_then (open_map A bpf ''admit_stats'') (\<lambda>_.
     and_then (map_err (map_io ''read admit_stats'') (aya_stats A bpf)) (\<lambda>values.
     Inr (sum_stats values)))"

definition seed_admit_state :: "'b aya \<Rightarrow> u64 \<Rightarrow> XdpAdmitConfig \<Rightarrow> 'b \<Rightarrow> XdpAttachError + 'b" where
  "seed_admit_state A now config bpf =
     (let cap = max (xc_capacity config) 1
      in write_admit_state A
           \<lparr>ms_tokens = cap, ms_capacity = cap, ms_refill_per_sec = refill_per_sec config,
            last_refill_ns = now,
            ms_listen_port = (case listen_port config of Some p \<Rightarrow> ucast p | None \<Rightarrow> 0)\<rparr> bpf)"

definition reseed_admit_state :: "'b aya \<Rightarrow> u64 \<Rightarrow> u64 \<Rightarrow> 'b \<Rightarrow> XdpAttachError + 'b" where
  "reseed_admit_state A now cap0 bpf =
     (let cap = max cap0 1
      in and_then (read_admit_state A bpf) (\<lambda>st.
         write_admit_state A (st\<lparr>ms_tokens := cap, ms_capacity := cap, last_refill_ns := now\<rparr>) bpf))"

section \<open>Netlink attributes\<close>

definition XDP_FLAGS_SKB_MODE :: u32 where "XDP_FLAGS_SKB_MODE = 2"
definition XDP_FLAGS_DRV_MODE :: u32 where "XDP_FLAGS_DRV_MODE = 4"

definition IFLA_XDP_ATTACHED :: u16 where "IFLA_XDP_ATTACHED = 2"
definition IFLA_XDP_PROG_ID :: u16 where "IFLA_XDP_PROG_ID = 4"
definition IFLA_XDP_DRV_PROG_ID :: u16 where "IFLA_XDP_DRV_PROG_ID = 5"
definition IFLA_XDP_SKB_PROG_ID :: u16 where "IFLA_XDP_SKB_PROG_ID = 6"
definition IFLA_XDP_HW_PROG_ID :: u16 where "IFLA_XDP_HW_PROG_ID = 7"
definition XDP_ATTACHED_NONE :: u8 where "XDP_ATTACHED_NONE = 0"
definition NLA_TYPE_MASK :: u16 where "NLA_TYPE_MASK = 16383"
definition RTM_NEWLINK :: u16 where "RTM_NEWLINK = 16"
definition NLMSG_ERROR :: u16 where "NLMSG_ERROR = 2"
definition NLMSG_DONE :: u16 where "NLMSG_DONE = 3"

text \<open>The constants taken from \<open>libc\<close>.\<close>

record libc_abi =
  RTM_SETLINK :: u16
  RTM_GETLINK :: u16
  NLM_F_REQUEST :: u16
  NLM_F_ACK :: u16
  IFLA_XDP :: u16

definition xdp_detach_flags :: "string \<Rightarrow> u32" where
  "xdp_detach_flags mode =
     (if mode = ''skb'' \<or> mode = ''skb-fallback'' then XDP_FLAGS_SKB_MODE else XDP_FLAGS_DRV_MODE)"

text \<open>\<open>to_ne_bytes\<close> and \<open>from_ne_bytes\<close>; a read past the end finds the zeroes of the buffer.\<close>

definition ne16 :: "u16 \<Rightarrow> bytes" where
  "ne16 w = [ucast w, ucast (drop_bit 8 w)]"

definition ne32 :: "u32 \<Rightarrow> bytes" where
  "ne32 w = [ucast w, ucast (drop_bit 8 w), ucast (drop_bit 16 w), ucast (drop_bit 24 w)]"

definition byte_at :: "bytes \<Rightarrow> nat \<Rightarrow> u8" where
  "byte_at b i = (if i < length b then b ! i else 0)"

definition get16 :: "bytes \<Rightarrow> nat \<Rightarrow> u16" where
  "get16 b i = ucast (byte_at b i) OR push_bit 8 (ucast (byte_at b (i + 1)))"

definition get32 :: "bytes \<Rightarrow> nat \<Rightarrow> u32" where
  "get32 b i = ucast (byte_at b i) OR push_bit 8 (ucast (byte_at b (i + 1)))
     OR push_bit 16 (ucast (byte_at b (i + 2))) OR push_bit 24 (ucast (byte_at b (i + 3)))"

definition nla_align :: "nat \<Rightarrow> nat" where
  "nla_align len = (len + 3) div 4 * 4"

definition push_nla_bytes :: "bytes \<Rightarrow> u16 \<Rightarrow> bytes \<Rightarrow> bytes" where
  "push_nla_bytes buf nla_type payload =
     (let nla_len = 4 + length payload;
          b = buf @ ne16 (of_nat nla_len) @ ne16 nla_type @ payload
      in b @ replicate (nla_align (length b) - length b) 0)"

text \<open>
  The head of an attribute stream: the masked type, the payload and the rest, or nothing when the
  loop of the parsers stops.
\<close>

definition nla_next :: "bytes \<Rightarrow> (u16 \<times> bytes \<times> bytes) option" where
  "nla_next attrs =
     (if length attrs < 4 then None
      else let nla_len = unat (get16 attrs 0)
           in if nla_len < 4 \<or> length attrs < nla_len then None
              else Some (get16 attrs 2 AND NLA_TYPE_MASK, take (nla_len - 4) (drop 4 attrs),
                         drop (nla_align nla_len) attrs))"

lemma nla_align_ge: "n \<le> nla_align n"
  unfolding nla_align_def by presburger

lemma nla_next_shorter: "nla_next attrs = Some (ty, payload, rest) \<Longrightarrow> length rest < length attrs"
  using nla_align_ge [of "unat (get16 attrs 0)"]
  by (auto simp: nla_next_def Let_def split: if_splits)

record xdp_ids =
  attached :: u8
  prog_id :: u32
  drv_id :: u32
  skb_id :: u32
  hw_id :: u32

definition nested_attr :: "u16 \<Rightarrow> bytes \<Rightarrow> xdp_ids \<Rightarrow> xdp_ids" where
  "nested_attr ty payload s =
     (if ty = IFLA_XDP_ATTACHED \<and> payload \<noteq> [] then s\<lparr>attached := hd payload\<rparr>
      else if ty = IFLA_XDP_PROG_ID \<and> 4 \<le> length payload then s\<lparr>prog_id := get32 payload 0\<rparr>
      else if ty = IFLA_XDP_DRV_PROG_ID \<and> 4 \<le> length payload then s\<lparr>drv_id := get32 payload 0\<rparr>
      else if ty = IFLA_XDP_SKB_PROG_ID \<and> 4 \<le> length payload then s\<lparr>skb_id := get32 payload 0\<rparr>
      else if ty = IFLA_XDP_HW_PROG_ID \<and> 4 \<le> length payload then s\<lparr>hw_id := get32 payload 0\<rparr>
      else s)"

function nested_loop :: "xdp_ids \<Rightarrow> bytes \<Rightarrow> xdp_ids" where
  "nested_loop s attrs =
     (case nla_next attrs of None \<Rightarrow> s
      | Some (ty, payload, rest) \<Rightarrow> nested_loop (nested_attr ty payload s) rest)"
  by pat_completeness auto
termination
  by (relation "measure (\<lambda>(s, attrs). length attrs)") (auto dest: nla_next_shorter)

declare nested_loop.simps [simp del]

definition parse_xdp_nested :: "bytes \<Rightarrow> u32 option" where
  "parse_xdp_nested attrs =
     (let s = nested_loop \<lparr>attached = XDP_ATTACHED_NONE, prog_id = 0, drv_id = 0, skb_id = 0, hw_id = 0\<rparr> attrs
      in if attached s = XDP_ATTACHED_NONE then None
         else find (\<lambda>i. i \<noteq> 0) [prog_id s, drv_id s, skb_id s, hw_id s])"

function parse_xdp_prog_id :: "libc_abi \<Rightarrow> bytes \<Rightarrow> u32 option" where
  "parse_xdp_prog_id L attrs =
     (case nla_next attrs of None \<Rightarrow> None
      | Some (ty, payload, rest) \<Rightarrow>
          if ty = IFLA_XDP L then parse_xdp_nested payload else parse_xdp_prog_id L rest)"
  by pat_completeness auto
termination
  by (relation "measure (\<lambda>(L, attrs). length attrs)") (auto dest: nla_next_shorter)

declare parse_xdp_prog_id.simps [simp del]

section \<open>Netlink requests\<close>

definition nlmsg :: "u32 \<Rightarrow> u16 \<Rightarrow> u16 \<Rightarrow> u32 \<Rightarrow> bytes" where
  "nlmsg nlmsg_len nlmsg_type nlmsg_flags ifi_index =
     ne32 nlmsg_len @ ne16 nlmsg_type @ ne16 nlmsg_flags @ ne32 1 @ ne32 0
     @ [0, 0] @ ne16 0 @ ne32 ifi_index @ ne32 0 @ ne32 0"

definition xdp_set_attrs :: "libc_abi \<Rightarrow> u32 option \<Rightarrow> u32 \<Rightarrow> bytes" where
  "xdp_set_attrs L prog_fd flags =
     (let fd_val = (case prog_fd of Some fd \<Rightarrow> fd | None \<Rightarrow> - 1);
          nested = push_nla_bytes [] 1 (ne32 fd_val);
          nested = (if flags \<noteq> 0 then push_nla_bytes nested 3 (ne32 flags) else nested)
      in push_nla_bytes [] (IFLA_XDP L OR push_bit 15 1) nested)"

text \<open>The acknowledgement: an error message with a non-zero code is a failure, anything else success.\<close>

definition ack_result :: "bytes \<Rightarrow> u32 + unit" where
  "ack_result buf =
     (if 16 \<le> length buf \<and> get16 buf 4 = NLMSG_ERROR \<and> get32 buf 16 \<noteq> 0
      then Inl (- get32 buf 16) else Inr ())"

type_synonym 'k exchange = "nat \<Rightarrow> bytes \<Rightarrow> 'k \<Rightarrow> (u32 + bytes) \<times> 'k"

datatype nl_error = OsError u32 | AttrsTooLarge

definition netlink_xdp_set ::
    "libc_abi \<Rightarrow> 'k exchange \<Rightarrow> u32 \<Rightarrow> u32 option \<Rightarrow> u32 \<Rightarrow> 'k \<Rightarrow> (nl_error + unit) \<times> 'k" where
  "netlink_xdp_set L xchg if_index prog_fd flags k =
     (let attrs = xdp_set_attrs L prog_fd flags
      in if 256 < length attrs then (Inl AttrsTooLarge, k)
         else let (r, k') = xchg 1024
                    (nlmsg (of_nat (32 + length attrs)) (RTM_SETLINK L) (NLM_F_REQUEST L OR NLM_F_ACK L) if_index @ attrs) k
              in (map_err OsError (and_then r ack_result), k'))"

function query_loop :: "libc_abi \<Rightarrow> bytes \<Rightarrow> u32 + u32 option" where
  "query_loop L buf =
     (if length buf < 16 then Inr None
      else let msg_len = unat (get32 buf 0); ty = get16 buf 4
           in if msg_len < 16 \<or> length buf < msg_len then Inr None
              else if ty = NLMSG_DONE then Inr None
              else if ty = NLMSG_ERROR \<and> get32 buf 16 \<noteq> 0 then Inl (- get32 buf 16)
              else if ty = RTM_NEWLINK \<and> 32 \<le> msg_len then
                Inr (parse_xdp_prog_id L (drop 32 (take msg_len buf)))
              else query_loop L (drop (nla_align msg_len) buf))"
  by pat_completeness auto
termination
proof (relation "measure (\<lambda>(L, buf). length buf)", goal_cases)
  case (2 L buf x xa)
  then show ?case using nla_align_ge [of x] by simp linarith
qed simp

declare query_loop.simps [simp del]

definition query_iface_xdp_prog_id :: "libc_abi \<Rightarrow> 'k exchange \<Rightarrow> u32 \<Rightarrow> 'k \<Rightarrow> (u32 + u32 option) \<times> 'k" where
  "query_iface_xdp_prog_id L xchg ifindex k =
     (let (r, k') = xchg 8192 (nlmsg 32 (RTM_GETLINK L) (NLM_F_REQUEST L) ifindex) k
      in (and_then r (query_loop L), k'))"

section \<open>Attach, liveness, detach\<close>

text \<open>
  The host: interface table, environment, file system and the loader of \<open>aya\<close>.  \<open>h_render\<close> is the
  display of an I/O error.
\<close>

record ('b, 'k) xdp_host =
  h_libc :: libc_abi
  h_xchg :: "'k exchange"
  h_render :: "nl_error \<Rightarrow> string"
  h_nametoindex :: "string \<Rightarrow> u32"
  h_iface_exists :: "string \<Rightarrow> bool"
  h_is_file :: "string \<Rightarrow> bool"
  h_create_dir_all :: "string \<Rightarrow> string option"
  h_load_file :: "string \<Rightarrow> string + 'b"
  h_program_mut :: "'b \<Rightarrow> string \<Rightarrow> bool"
  h_program_type :: "'b \<Rightarrow> string option"
  h_program_load :: "'b \<Rightarrow> string option"
  h_prog_fd :: "'b \<Rightarrow> string + u32"
  h_prog_id :: "'b \<Rightarrow> u32 option"
  h_env :: "string \<Rightarrow> string option"
  h_clock :: "(i64 \<times> i64) option"

text \<open>\<open>CString::new\<close> refuses an interior NUL.\<close>

definition if_nametoindex :: "('b, 'k) xdp_host \<Rightarrow> string \<Rightarrow> u32 option" where
  "if_nametoindex H name =
     (if CHR 0x00 \<in> set name then None
      else let idx = h_nametoindex H name in if idx = 0 then None else Some idx)"

definition ascii_lower_char :: "char \<Rightarrow> char" where
  "ascii_lower_char c = (if 65 \<le> (of_char c :: nat) \<and> (of_char c :: nat) \<le> 90 then char_of (of_char c + 32 :: nat) else c)"

definition eq_ignore_ascii_case :: "string \<Rightarrow> string \<Rightarrow> bool" where
  "eq_ignore_ascii_case a b \<longleftrightarrow> map ascii_lower_char a = map ascii_lower_char b"

definition attach_program ::
    "('b, 'k) xdp_host \<Rightarrow> 'b \<Rightarrow> string \<Rightarrow> 'k \<Rightarrow> (XdpAttachError + string \<times> u32) \<times> 'k" where
  "attach_program H program iface k =
     (case and_then (ok_or (if_nametoindex H iface) (AttachFailed (''unknown interface '' @ iface))) (\<lambda>ifindex.
           and_then (map_err (\<lambda>e. AttachFailed (''prog fd: '' @ e)) (h_prog_fd H program)) (\<lambda>prog_fd. Inr (ifindex, prog_fd)))
      of Inl e \<Rightarrow> (Inl e, k)
      | Inr (ifindex, prog_fd) \<Rightarrow>
          let set_xdp = netlink_xdp_set (h_libc H) (h_xchg H) ifindex (Some prog_fd);
              forced = (case h_env H ''DEMIURGE_XDP_FLAGS'' of Some v \<Rightarrow> eq_ignore_ascii_case v ''skb'' | None \<Rightarrow> False)
          in if forced then
               (case set_xdp XDP_FLAGS_SKB_MODE k of
                  (Inl e, k') \<Rightarrow> (Inl (AttachFailed (iface @ '' (skb): '' @ h_render H e)), k')
                | (Inr _, k') \<Rightarrow> (Inr (''skb'', ifindex), k'))
             else
               (case set_xdp 0 k of
                  (Inr _, k') \<Rightarrow> (Inr (''driver'', ifindex), k')
                | (Inl native_err, k') \<Rightarrow>
                    (case set_xdp XDP_FLAGS_SKB_MODE k' of
                       (Inr _, k'') \<Rightarrow> (Inr (''skb-fallback'', ifindex), k'')
                     | (Inl skb_err, k'') \<Rightarrow>
                         (Inl (AttachFailed (iface @ '': native: '' @ h_render H native_err @ ''; skb: '' @ h_render H skb_err)), k''))))"

definition pin_map :: "'b aya \<Rightarrow> 'b \<Rightarrow> string \<Rightarrow> string \<Rightarrow> XdpAttachError + unit" where
  "pin_map A bpf dir name =
     and_then (open_map A bpf name) (\<lambda>_.
       case aya_pin A bpf name (dir @ ''/'' @ name) of None \<Rightarrow> Inr ()
       | Some e \<Rightarrow> Inl (LoadFailed (''pin '' @ name @ '': '' @ e)))"

definition maybe_pin_maps :: "'b aya \<Rightarrow> ('b, 'k) xdp_host \<Rightarrow> 'b \<Rightarrow> XdpAttachError + unit" where
  "maybe_pin_maps A H bpf =
     (case h_env H ''DEMIURGE_BPF_PIN_DIR'' of None \<Rightarrow> Inr ()
      | Some dir \<Rightarrow>
          (case h_create_dir_all H dir of
             Some e \<Rightarrow> Inl (LoadFailed (''pin dir '' @ dir @ '': '' @ e))
           | None \<Rightarrow> and_then (pin_map A bpf dir ''admit_state'') (\<lambda>_. pin_map A bpf dir ''admit_stats'')))"

record 'b XdpAdmitShed =
  bpf :: 'b
  iface :: string
  xdp_mode :: string
  ifindex :: u32
  shed_prog_id :: u32

definition load_program :: "('b, 'k) xdp_host \<Rightarrow> string \<Rightarrow> 'b \<Rightarrow> XdpAttachError + 'b" where
  "load_program H path b =
     (if \<not> h_program_mut H b PROGRAM_NAME then Inl (LoadFailed (''program '' @ PROGRAM_NAME @ '' not in '' @ path))
      else case h_program_type H b of Some e \<Rightarrow> Inl (LoadFailed (''program type: '' @ e))
        | None \<Rightarrow> (case h_program_load H b of Some e \<Rightarrow> Inl (LoadFailed (''program load: '' @ e)) | None \<Rightarrow> Inr b))"

definition attach_at ::
    "'b aya \<Rightarrow> ('b, 'k) xdp_host \<Rightarrow> string \<Rightarrow> string \<Rightarrow> XdpAdmitConfig \<Rightarrow> 'k \<Rightarrow> (XdpAttachError + 'b XdpAdmitShed) \<times> 'k" where
  "attach_at A H path ifc config k =
     (if \<not> h_is_file H path then (Inl ObjectNotBuilt, k)
      else case
        and_then (map_err (map_io ''load file'') (h_load_file H path)) (\<lambda>b.
        and_then (seed_admit_state A (monotonic_ns (h_clock H)) config b) (load_program H path))
      of Inl e \<Rightarrow> (Inl e, k)
       | Inr b \<Rightarrow>
           (case attach_program H b ifc k of
              (Inl e, k') \<Rightarrow> (Inl e, k')
            | (Inr (mode, idx), k') \<Rightarrow>
                (and_then (maybe_pin_maps A H b) (\<lambda>_.
                   Inr \<lparr>bpf = b, iface = ifc, xdp_mode = mode, ifindex = idx,
                        shed_prog_id = (case h_prog_id H b of Some i \<Rightarrow> i | None \<Rightarrow> 0)\<rparr>), k')))"

definition attach ::
    "'b aya \<Rightarrow> ('b, 'k) xdp_host \<Rightarrow> string \<Rightarrow> string \<Rightarrow> XdpAdmitConfig \<Rightarrow> 'k \<Rightarrow> (XdpAttachError + 'b XdpAdmitShed) \<times> 'k" where
  "attach A H object_path ifc config k =
     (if \<not> h_is_file H object_path then (Inl ObjectNotBuilt, k) else attach_at A H object_path ifc config k)"

definition object_path :: "('b, 'k) xdp_host \<Rightarrow> string \<Rightarrow> string" where
  "object_path H manifest_dir =
     (case h_env H ''DEMIURGE_BPF_OBJECT'' of Some path \<Rightarrow> path
      | None \<Rightarrow>
          let cwd_object = ''target/bpf/'' @ OBJECT_FILE
          in if h_is_file H cwd_object then cwd_object
             else manifest_dir @ ''/../../target/bpf/'' @ OBJECT_FILE)"

definition shed_available :: "'b aya \<Rightarrow> 'b XdpAdmitShed \<Rightarrow> XdpAttachError + u64" where
  "shed_available A s =
     and_then (read_admit_state A (bpf s)) (\<lambda>st. Inr (if sint (ms_tokens st) < 0 then 0 else ms_tokens st))"

definition shed_capacity :: "'b aya \<Rightarrow> 'b XdpAdmitShed \<Rightarrow> XdpAttachError + u64" where
  "shed_capacity A s = and_then (read_admit_state A (bpf s)) (\<lambda>st. Inr (ms_capacity st))"

definition shed_shed_total :: "'b aya \<Rightarrow> 'b XdpAdmitShed \<Rightarrow> XdpAttachError + u64" where
  "shed_shed_total A s = and_then (read_admit_stats A (bpf s)) (\<lambda>st. Inr (st_shed_total st))"

definition shed_pass_total :: "'b aya \<Rightarrow> 'b XdpAdmitShed \<Rightarrow> XdpAttachError + u64" where
  "shed_pass_total A s = and_then (read_admit_stats A (bpf s)) (\<lambda>st. Inr (st_pass_total st))"

definition shed_reseed :: "'b aya \<Rightarrow> u64 \<Rightarrow> u64 \<Rightarrow> 'b XdpAdmitShed \<Rightarrow> XdpAttachError + 'b XdpAdmitShed" where
  "shed_reseed A now cap s = and_then (reseed_admit_state A now cap (bpf s)) (\<lambda>b. Inr (s\<lparr>bpf := b\<rparr>))"

definition link_alive :: "('b, 'k) xdp_host \<Rightarrow> 'b XdpAdmitShed \<Rightarrow> 'k \<Rightarrow> bool" where
  "link_alive H s k =
     (if \<not> h_iface_exists H (iface s) then False
      else case (if ifindex s \<noteq> 0 then Some (ifindex s) else if_nametoindex H (iface s)) of
        None \<Rightarrow> False
      | Some idx \<Rightarrow>
          (case fst (query_iface_xdp_prog_id (h_libc H) (h_xchg H) idx k) of
             Inr (Some i) \<Rightarrow> if shed_prog_id s = 0 then i \<noteq> 0 else i = shed_prog_id s
           | Inr None \<Rightarrow> False
           | Inl _ \<Rightarrow> False))"

definition shed_drop :: "('b, 'k) xdp_host \<Rightarrow> 'b XdpAdmitShed \<Rightarrow> 'k \<Rightarrow> 'k" where
  "shed_drop H s k =
     (if ifindex s \<noteq> 0 then
        let set_xdp = netlink_xdp_set (h_libc H) (h_xchg H) (ifindex s) None;
            k' = snd (set_xdp (xdp_detach_flags (xdp_mode s)) k);
            other = (if xdp_detach_flags (xdp_mode s) = XDP_FLAGS_SKB_MODE then XDP_FLAGS_DRV_MODE else XDP_FLAGS_SKB_MODE)
        in snd (set_xdp other k')
      else k)"

section \<open>Encoding lemmas\<close>

lemma get16_ne16 [simp]: "get16 (ne16 w @ b) 0 = w"
  by (simp add: get16_def ne16_def byte_at_def) (auto intro!: bit_eqI simp: bit_simps)

lemma get32_ne32 [simp]: "get32 (ne32 w @ b) 0 = w"
proof (rule bit_word_eqI)
  fix n assume "n < LENGTH(32)"
  then consider "n < 8" | "8 \<le> n" "n < 16" | "16 \<le> n" "n < 24" | "24 \<le> n" "n < 32" by force
  then show "bit (get32 (ne32 w @ b) 0) n = bit w n"
    by cases (auto simp: get32_def ne32_def byte_at_def bit_simps)
qed

lemma get32_ne32_Nil [simp]: "get32 (ne32 w) 0 = w"
  using get32_ne32 [of w "[]"] by simp

lemma length_ne [simp]: "length (ne16 w) = 2" "length (ne32 v) = 4"
  by (simp_all add: ne16_def ne32_def)

lemma byte_at_append: "byte_at (a @ b) (length a + i) = byte_at b i"
  by (simp add: byte_at_def)

lemma get16_skip: "length a = n \<Longrightarrow> get16 (a @ b) n = get16 b 0"
  using byte_at_append [of a b 0] byte_at_append [of a b 1] by (simp add: get16_def)

text \<open>One attribute as the encoder lays it out: header, payload, padding to a multiple of four.\<close>

definition nla :: "u16 \<times> bytes \<Rightarrow> bytes" where
  "nla = (\<lambda>(ty, payload). ne16 (of_nat (4 + length payload)) @ ne16 ty @ payload
     @ replicate (nla_align (4 + length payload) - (4 + length payload)) 0)"

lemma nla_align_mult: "nla_align (4 * n + m) = 4 * n + nla_align m"
  unfolding nla_align_def by presburger

lemma nla_align_dvd: "4 dvd nla_align n"
  by (simp add: nla_align_def)

lemma length_nla: "length (nla a) = nla_align (4 + length (snd a))"
  using nla_align_ge [of "4 + length (snd a)"] by (cases a) (simp add: nla_def)

lemma push_nla_bytes_nla:
  assumes "4 dvd length buf"
  shows "push_nla_bytes buf ty payload = buf @ nla (ty, payload)"
proof -
  obtain n where n: "length buf = 4 * n" using assms by blast
  have "length (buf @ ne16 (of_nat (4 + length payload)) @ ne16 ty @ payload) = 4 * n + (4 + length payload)"
    by (simp add: n)
  then show ?thesis by (simp only: push_nla_bytes_def Let_def nla_align_mult) (simp add: nla_def)
qed

lemma nla_next_nla:
  assumes "4 + length payload < 65536" "unat ty < 16384"
  shows "nla_next (nla (ty, payload) @ rest) = Some (ty, payload, rest)"
proof -
  define l where "l = 4 + length payload"
  have len: "unat (of_nat l :: u16) = l" using assms(1) unfolding l_def [symmetric] by (simp add: unat_of_nat)
  have "ty AND NLA_TYPE_MASK = take_bit 14 ty"
    by (simp add: NLA_TYPE_MASK_def take_bit_eq_mask mask_eq_exp_minus_1)
  also have "\<dots> = ty" using assms(2) by (simp add: word_unat_eq_iff unsigned_take_bit_eq take_bit_nat_eq_self)
  finally have ty: "ty AND NLA_TYPE_MASK = ty" .
  have g2: "get16 (nla (ty, payload) @ rest) 2 = ty"
    by (simp add: nla_def get16_skip)
  have g0: "get16 (nla (ty, payload) @ rest) 0 = of_nat l" by (simp add: nla_def l_def)
  have ln: "length (nla (ty, payload)) = nla_align l" using length_nla [of "(ty, payload)"] by (simp add: l_def)
  have "take (l - 4) (drop 4 (nla (ty, payload) @ rest)) = payload" by (simp add: nla_def l_def ne16_def)
  moreover have "l \<le> length (nla (ty, payload) @ rest)" using nla_align_ge [of l] ln by simp
  moreover have "4 \<le> l" by (simp add: l_def)
  ultimately show ?thesis using ln len ty by (simp add: nla_next_def g0 g2 Let_def)
qed

text \<open>Encoding a list of attributes one after the other.\<close>

definition encode_attrs :: "(u16 \<times> bytes) list \<Rightarrow> bytes" where
  "encode_attrs as = foldl (\<lambda>buf (ty, payload). push_nla_bytes buf ty payload) [] as"

lemma encode_attrs_concat_aux:
  "4 dvd length buf \<Longrightarrow> foldl (\<lambda>buf (ty, payload). push_nla_bytes buf ty payload) buf as = buf @ concat (map nla as)"
proof (induction as arbitrary: buf)
  case (Cons a as)
  have "4 dvd length (buf @ nla a)" using Cons.prems nla_align_dvd by (simp add: length_nla)
  then show ?case using Cons.IH [of "buf @ nla a"] Cons.prems by (cases a) (simp add: push_nla_bytes_nla)
qed simp

lemma encode_attrs_concat: "encode_attrs as = concat (map nla as)"
  using encode_attrs_concat_aux [of "[]"] by (simp add: encode_attrs_def)

definition attr_ok :: "u16 \<times> bytes \<Rightarrow> bool" where
  "attr_ok a \<longleftrightarrow> 4 + length (snd a) < 65536 \<and> unat (fst a) < 16384"

lemma nla_next_Nil [simp]: "nla_next [] = None"
  by (simp add: nla_next_def)

lemma nested_loop_encode:
  "list_all attr_ok as \<Longrightarrow> nested_loop s (encode_attrs as) = foldl (\<lambda>s (ty, payload). nested_attr ty payload s) s as"
proof (induction as arbitrary: s)
  case Nil
  then show ?case by (simp add: encode_attrs_concat nested_loop.simps [of _ "[]"])
next
  case (Cons a as)
  obtain ty payload where a: "a = (ty, payload)" by (cases a)
  have "nla_next (encode_attrs (a # as)) = Some (ty, payload, encode_attrs as)"
    using Cons.prems by (simp add: encode_attrs_concat a attr_ok_def nla_next_nla)
  then show ?case using Cons by (simp add: a nested_loop.simps [of _ "encode_attrs ((ty, payload) # as)"])
qed

lemma parse_xdp_prog_id_encode:
  "list_all attr_ok as \<Longrightarrow>
   parse_xdp_prog_id L (encode_attrs as)
     = (case find (\<lambda>a. fst a = IFLA_XDP L) as of Some a \<Rightarrow> parse_xdp_nested (snd a) | None \<Rightarrow> None)"
proof (induction as)
  case Nil
  then show ?case by (simp add: encode_attrs_concat parse_xdp_prog_id.simps [of _ "[]"])
next
  case (Cons a as)
  obtain ty payload where a: "a = (ty, payload)" by (cases a)
  have "nla_next (encode_attrs (a # as)) = Some (ty, payload, encode_attrs as)"
    using Cons.prems by (simp add: encode_attrs_concat a attr_ok_def nla_next_nla)
  then show ?case using Cons by (simp add: a parse_xdp_prog_id.simps [of _ "encode_attrs ((ty, payload) # as)"])
qed

lemma sint_nonneg:
  assumes "unat (w :: u64) < 2 ^ 63"
  shows "0 \<le> sint w"
proof -
  have "int (unat w) < int (2 ^ 63)" using assms by (simp only: of_nat_less_iff)
  then have "uint w < 2 ^ 63" by (simp only: uint_nat of_nat_power of_nat_numeral)
  moreover have "- (2 ^ 63) \<le> uint w" by (rule order_trans [OF _ uint_ge_0]) simp
  ultimately have "signed_take_bit 63 (uint w) = uint w" by (intro signed_take_bit_int_eq_self)
  then show ?thesis by (simp add: sint_uint)
qed

section \<open>Properties\<close>

text \<open>C20: reading back what the encoder writes: for every link message laid out by the attribute encoder,
  whatever attributes surround it, the parser returns the program id of the nested XDP attribute, in
  whichever of the four id attributes it stands, exactly when the attach mode is not "none".\<close>

theorem xdp_attrs_roundtrip:
  assumes "list_all attr_ok pre" "list_all attr_ok post" "\<forall>a \<in> set pre. fst a \<noteq> IFLA_XDP L"
    and "unat (IFLA_XDP L) < 16384" "4 \<le> kind" "kind \<le> 7" "pid \<noteq> 0"
  shows "parse_xdp_prog_id L (encode_attrs (pre @
           (IFLA_XDP L, encode_attrs [(IFLA_XDP_ATTACHED, [m]), (kind, ne32 pid)]) # post))
         = (if m = XDP_ATTACHED_NONE then None else Some pid)"
proof -
  let ?in = "[(IFLA_XDP_ATTACHED, [m]), (kind, ne32 pid)]"
  have "unat kind \<in> {4..7}" using assms(5,6) by (simp add: word_le_nat_alt)
  then have "unat kind = 4 \<or> unat kind = 5 \<or> unat kind = 6 \<or> unat kind = 7" by auto
  then have k: "kind = 4 \<or> kind = 5 \<or> kind = 6 \<or> kind = 7" by (simp add: word_unat_eq_iff)
  have ok: "list_all attr_ok ?in" using k by (auto simp: attr_ok_def IFLA_XDP_ATTACHED_def)
  have "length (encode_attrs ?in) = 16" by (simp add: encode_attrs_concat length_nla nla_align_def)
  then have all: "list_all attr_ok (pre @ (IFLA_XDP L, encode_attrs ?in) # post)"
    using assms(1,2,4) by (simp add: attr_ok_def)
  have "find (\<lambda>a. fst a = IFLA_XDP L) (pre @ (IFLA_XDP L, encode_attrs ?in) # post) = Some (IFLA_XDP L, encode_attrs ?in)"
    using assms(3) by (induction pre) auto
  then have "parse_xdp_prog_id L (encode_attrs (pre @ (IFLA_XDP L, encode_attrs ?in) # post)) = parse_xdp_nested (encode_attrs ?in)"
    by (simp only: parse_xdp_prog_id_encode [OF all] option.case snd_conv)
  also have "\<dots> = (if m = XDP_ATTACHED_NONE then None else Some pid)"
    unfolding parse_xdp_nested_def nested_loop_encode [OF ok] using k assms(7)
    by (elim disjE) (simp_all add: nested_attr_def
      IFLA_XDP_ATTACHED_def IFLA_XDP_PROG_ID_def IFLA_XDP_DRV_PROG_ID_def IFLA_XDP_SKB_PROG_ID_def IFLA_XDP_HW_PROG_ID_def
      XDP_ATTACHED_NONE_def Let_def)
  finally show ?thesis .
qed

theorem xdp_attrs_roundtrip_witness:
  "parse_xdp_prog_id \<lparr>RTM_SETLINK = 19, RTM_GETLINK = 18, NLM_F_REQUEST = 1, NLM_F_ACK = 4, IFLA_XDP = 43\<rparr>
     (encode_attrs ([(3, [101, 116, 104, 48, 0])] @
        (43, encode_attrs [(IFLA_XDP_ATTACHED, [2]), (6, ne32 42)]) # [(13, [0])])) = Some 42"
  using xdp_attrs_roundtrip [of "[(3, [101, 116, 104, 48, 0])]" "[(13, [0])]"
      "\<lparr>RTM_SETLINK = 19, RTM_GETLINK = 18, NLM_F_REQUEST = 1, NLM_F_ACK = 4, IFLA_XDP = 43\<rparr>" 6 42 2]
  by (simp add: attr_ok_def XDP_ATTACHED_NONE_def)



text \<open>An attach whose map pinning fails reports an error and leaves the program on the interface.\<close>

lemma attach_pin_failure_leaks:
  assumes "h_is_file H path" "h_load_file H path = Inr b0" "seed_admit_state A (monotonic_ns (h_clock H)) config b0 = Inr b1"
    and "load_program H path b1 = Inr b" "attach_program H b ifc k = (Inr (mode, idx), k')" "maybe_pin_maps A H b = Inl e"
  shows "attach_at A H path ifc config k = (Inl e, k')"
  using assms by (simp add: attach_at_def)

text \<open>A link counts as alive only when the interface exists and carries a program that is ours.\<close>

lemma link_alive_sound:
  assumes "link_alive H s k"
  shows "h_iface_exists H (iface s) \<and> (\<exists>idx i. fst (query_iface_xdp_prog_id (h_libc H) (h_xchg H) idx k) = Inr (Some i)
    \<and> i \<noteq> 0 \<and> (shed_prog_id s \<noteq> 0 \<longrightarrow> i = shed_prog_id s))"
  using assms by (auto simp: link_alive_def split: if_splits option.splits sum.splits) blast+

end
