(* ===== verification/Router.thy ===== *)
theory Router
  imports Backend Handoff Rebalance Control Xdp
begin

text \<open>
  The router (\<open>demiurge-router/src/lib.rs\<close>, \<open>routing.rs\<close>): its state, the control-plane tick, request
  classification and the continuation after prefill.  Shared \<open>Arc\<close>s are the values they point to; the
  control mutex is a field, and \<open>e_busy\<close> says whether \<open>try_lock\<close> finds it taken.  The environment of a
  call (maths library, hashes, clocks, variables, kernel) is one record.  A panic is \<open>None\<close>.
\<close>

section \<open>State\<close>

datatype Phase = Prefill | Decode

record ('b, 'k) renv =
  e_lg :: "f64 \<Rightarrow> f64"
  e_ex :: "f64 \<Rightarrow> f64"
  e_hash :: hashing
  e_now_ms :: u64
  e_now :: nat
  e_busy :: bool
  e_colocated_phase :: "string option"
  e_aya :: "'b aya"
  e_host :: "('b, 'k) xdp_host"
  e_kernel :: 'k

record ControlPlane =
  rebalancer :: PoolRebalancer
  predictor :: LengthPredictor
  regret_sum :: f64
  regret_samples :: u64
  last_pi_star :: f64
  corrector_shadow :: CorrectorShadowLog
  rdma_cost_shadow :: RdmaCostShadowLog
  fastpath_misroute_sum :: f64
  fastpath_misroute_samples :: u64

definition ControlPlane_default :: "nat \<Rightarrow> ControlPlane" where
  "ControlPlane_default now =
     \<lparr>rebalancer = PoolRebalancer_new ModeShadow now, predictor = \<lparr>samples = []\<rparr>, regret_sum = 0, regret_samples = 0,
      last_pi_star = lit (1 / 2), corrector_shadow = CorrectorShadowLog_new 4096,
      rdma_cost_shadow = RdmaCostShadowLog_new 4096, fastpath_misroute_sum = 0, fastpath_misroute_samples = 0\<rparr>"

record 'b Router =
  r_prefill :: "Backend list"
  r_decode :: "Backend list"
  r_ledger :: "ReservationLedger option"
  r_handoffs :: "HandoffRegistry option"
  bytes_per_token :: u64
  r_state :: "StateSnapshot option"
  r_control :: ControlPlane
  r_dataplane :: RcuRoutingTable
  r_admit :: AdmitBucket
  r_admit_mode :: AdmitMode
  kernel_admit :: "'b XdpAdmitShed option"
  last_admit_capacity :: u64
  r_io_uring :: bool
  rebalancer_actuation :: bool
  colocated_routes :: u64
  disagg_routes :: u64
  handoff_transport :: "HandoffTransport option"
  rdma_routing :: bool
  cache_registry :: "SharedPrefixGroupRegistry option"
  r_state_plane :: "StateSnapshot option"

text \<open>The environment variables read at construction.\<close>

record router_vars =
  v_admit_mode :: "utext option"
  v_iouring :: "string option"
  v_actuate :: "string option"
  v_rdma :: "string option"

definition env_bool :: "string option \<Rightarrow> bool \<Rightarrow> bool" where
  "env_bool v dflt = (case v of Some s \<Rightarrow> s = ''1'' \<or> s = ''true'' \<or> s = ''yes'' | None \<Rightarrow> dflt)"

definition rebalancer_actuation_enabled :: "router_vars \<Rightarrow> bool" where
  "rebalancer_actuation_enabled V = env_bool (v_actuate V) POOL_ACTUATION_ENABLED"

definition rdma_routing_enabled :: "router_vars \<Rightarrow> bool" where
  "rdma_routing_enabled V = env_bool (v_rdma V) False"

definition io_uring_from_env :: "router_vars \<Rightarrow> bool" where
  "io_uring_from_env V = io_uring_enabled_from_env (v_iouring V)"

definition Router_new :: "router_vars \<Rightarrow> u64 \<Rightarrow> nat \<Rightarrow> Backend list \<Rightarrow> Backend list \<Rightarrow> 'b Router" where
  "Router_new V now_ms now pf dc =
     \<lparr>r_prefill = pf, r_decode = dc, r_ledger = None, r_handoffs = None, bytes_per_token = 128, r_state = None,
      r_control = ControlPlane_default now, r_dataplane = RcuRoutingTable_new now_ms (lit (1 / 2)),
      r_admit = AdmitBucket_new DATAPLANE_ADMIT_BURST, r_admit_mode = AdmitMode_from_env (v_admit_mode V),
      kernel_admit = None, last_admit_capacity = DATAPLANE_ADMIT_BURST, r_io_uring = io_uring_from_env V,
      rebalancer_actuation = rebalancer_actuation_enabled V, colocated_routes = 0, disagg_routes = 0,
      handoff_transport = None, rdma_routing = rdma_routing_enabled V, cache_registry = None, r_state_plane = None\<rparr>"

definition default_handoff_transport :: HandoffTransport where
  "default_handoff_transport = HeaderPassthrough"

definition with_kv_pool :: "router_vars \<Rightarrow> u64 \<Rightarrow> nat \<Rightarrow> Backend list \<Rightarrow> Backend list \<Rightarrow> u64 \<Rightarrow> u64 \<Rightarrow> 'b Router" where
  "with_kv_pool V now_ms now pf dc decode_capacity_bytes bpt =
     (Router_new V now_ms now pf dc)\<lparr>r_ledger := Some (ReservationLedger_new decode_capacity_bytes),
        r_handoffs := Some HandoffRegistry_new, bytes_per_token := bpt,
        handoff_transport := Some default_handoff_transport\<rparr>"

section \<open>Builders and accessors\<close>

definition with_state :: "StateSnapshot \<Rightarrow> 'b Router \<Rightarrow> 'b Router" where
  "with_state s r = r\<lparr>r_state := Some s\<rparr>"

definition with_state_plane :: "StateSnapshot \<Rightarrow> 'b Router \<Rightarrow> 'b Router" where
  "with_state_plane plane r = r\<lparr>r_state_plane := Some plane\<rparr>"

definition routing_snapshot :: "'b Router \<Rightarrow> StateSnapshot option" where
  "routing_snapshot r = (case r_state_plane r of Some plane \<Rightarrow> Some plane | None \<Rightarrow> r_state r)"

definition state_plane_active :: "'b Router \<Rightarrow> bool" where
  "state_plane_active r \<longleftrightarrow> r_state_plane r \<noteq> None"

definition warm_backend :: "u64 list \<Rightarrow> BackendSnapshot \<Rightarrow> BackendSnapshot" where
  "warm_backend blocks b = b\<lparr>warmth := insert_all blocks (warmth b)\<rparr>"

definition record_request_warmth :: "string \<Rightarrow> Phase \<Rightarrow> u64 \<Rightarrow> 'b Router \<Rightarrow> 'b Router" where
  "record_request_warmth l phase toks r =
     (case r_state_plane r of None \<Rightarrow> r
      | Some plane \<Rightarrow>
          let blocks = default_routing_blocks toks
          in r\<lparr>r_state_plane := Some (update_snapshot (\<lambda>snap.
               (case phase of
                  Prefill \<Rightarrow>
                    (if map_of (prefill snap) l = None then snap
                     else snap\<lparr>prefill := AList.map_entry l (warm_backend blocks) (prefill snap),
                              generation := saturating_add (generation snap) 1\<rparr>)
                | Decode \<Rightarrow>
                    (if map_of (decode snap) l = None then snap
                     else snap\<lparr>decode := AList.map_entry l (warm_backend blocks) (decode snap),
                              generation := saturating_add (generation snap) 1\<rparr>))) plane)\<rparr>)"

definition with_rebalancer_actuation :: "bool \<Rightarrow> nat \<Rightarrow> 'b Router \<Rightarrow> 'b Router" where
  "with_rebalancer_actuation enabled now r =
     (let r = r\<lparr>rebalancer_actuation := enabled\<rparr>
      in if enabled then r\<lparr>r_control := (r_control r)\<lparr>rebalancer := PoolRebalancer_new CanActuate now\<rparr>\<rparr> else r)"

definition with_handoff_transport :: "HandoffTransport \<Rightarrow> 'b Router \<Rightarrow> 'b Router" where
  "with_handoff_transport t r = r\<lparr>handoff_transport := Some t\<rparr>"

definition with_rdma_routing :: "bool \<Rightarrow> 'b Router \<Rightarrow> 'b Router" where
  "with_rdma_routing enabled r = r\<lparr>rdma_routing := enabled\<rparr>"

definition with_cache_registry :: "SharedPrefixGroupRegistry \<Rightarrow> 'b Router \<Rightarrow> 'b Router" where
  "with_cache_registry reg r = r\<lparr>cache_registry := Some reg\<rparr>"

definition with_admit_mode :: "AdmitMode \<Rightarrow> 'b Router \<Rightarrow> 'b Router" where
  "with_admit_mode m r = r\<lparr>r_admit_mode := m\<rparr>"

definition with_io_uring :: "bool \<Rightarrow> 'b Router \<Rightarrow> 'b Router" where
  "with_io_uring enabled r = r\<lparr>r_io_uring := enabled\<rparr>"

definition handoff_transport_or_default :: "'b Router \<Rightarrow> HandoffTransport" where
  "handoff_transport_or_default r = (case handoff_transport r of Some t \<Rightarrow> t | None \<Rightarrow> default_handoff_transport)"

definition kernel_admit_attached :: "'b Router \<Rightarrow> bool" where
  "kernel_admit_attached r \<longleftrightarrow> kernel_admit r \<noteq> None"

definition pool :: "'b Router \<Rightarrow> Phase \<Rightarrow> Backend list" where
  "pool r phase = (case phase of Prefill \<Rightarrow> r_prefill r | Decode \<Rightarrow> r_decode r)"

definition topology_for_label :: "'b Router \<Rightarrow> string \<Rightarrow> TopologyId" where
  "topology_for_label r l =
     (case find (\<lambda>b. label b = l) (r_prefill r @ r_decode r) of Some b \<Rightarrow> topology b
      | None \<Rightarrow> \<lparr>node = '''', rack = '''', cluster = ''''\<rparr>)"

section \<open>Admission capacity\<close>

definition sync_admit_capacity :: "('b, 'k) renv \<Rightarrow> u64 \<Rightarrow> 'b Router \<Rightarrow> 'b Router" where
  "sync_admit_capacity E cap0 r =
     (let cap = max cap0 1;
          r = r\<lparr>r_admit := reseed cap (r_admit r)\<rparr>
      in case kernel_admit r of None \<Rightarrow> r
         | Some shed \<Rightarrow>
             (case shed_reseed (e_aya E) (monotonic_ns (h_clock (e_host E))) cap shed of
                Inr shed' \<Rightarrow> r\<lparr>kernel_admit := Some shed'\<rparr> | Inl _ \<Rightarrow> r))"

definition maybe_sync_admit_for_pi :: "('b, 'k) renv \<Rightarrow> f64 \<Rightarrow> 'b Router \<Rightarrow> 'b Router" where
  "maybe_sync_admit_for_pi E p r =
     (let cap = admit_capacity_for_pi DATAPLANE_ADMIT_BURST p; prev = last_admit_capacity r
      in if cap \<noteq> prev then sync_admit_capacity E cap (r\<lparr>last_admit_capacity := cap\<rparr>) else r)"

definition with_kernel_admit ::
    "('b, 'k) renv \<Rightarrow> string \<Rightarrow> string \<Rightarrow> u16 option \<Rightarrow> 'b Router \<Rightarrow> (XdpAttachError + 'b Router) \<times> 'k" where
  "with_kernel_admit E opath ifc port r =
     (let r = (if \<not> wants_kernel (r_admit_mode r) then r\<lparr>r_admit_mode := Hybrid\<rparr> else r);
          cap = admit_capacity_for_pi DATAPLANE_ADMIT_BURST (read_pi (r_dataplane r));
          config = XdpAdmitConfig_default\<lparr>xc_capacity := cap, listen_port := port\<rparr>;
          (res, k) = attach (e_aya E) (e_host E) opath ifc config (e_kernel E)
      in case res of Inl e \<Rightarrow> (Inl e, k)
         | Inr shed \<Rightarrow> (Inr (sync_admit_capacity E cap (r\<lparr>kernel_admit := Some shed\<rparr>)), k))"

text \<open>Clearing the slot drops the shed; its detach (\<open>shed_drop\<close>) acts on the kernel only.\<close>

definition check_kernel_admit_link :: "('b, 'k) renv \<Rightarrow> 'b Router \<Rightarrow> 'b Router" where
  "check_kernel_admit_link E r =
     (case kernel_admit r of None \<Rightarrow> r
      | Some s \<Rightarrow> if \<not> link_alive (e_host E) s (e_kernel E) then r\<lparr>kernel_admit := None\<rparr> else r)"

definition total_admit_shed :: "('b, 'k) renv \<Rightarrow> 'b Router \<Rightarrow> u64" where
  "total_admit_shed E r =
     (let userspace = ab_shed_total (r_admit r);
          kernel = (case kernel_admit r of None \<Rightarrow> 0
            | Some s \<Rightarrow> (case shed_shed_total (e_aya E) s of Inr n \<Rightarrow> n | Inl _ \<Rightarrow> 0))
      in saturating_add userspace kernel)"

section \<open>Pressure and the control tick\<close>

definition live_queue_pressure :: "Backend list \<Rightarrow> f64" where
  "live_queue_pressure bs =
     (let mx = fold max (map inflight bs) 0
      in fclamp (f64_of_nat mx / (f64_of_nat mx + lit 16)) 0 1)"

definition pool_pressure :: "'b Router \<Rightarrow> f64 \<Rightarrow> PoolPressure" where
  "pool_pressure r share =
     (let signals = (case routing_snapshot r of Some s \<Rightarrow> export_pool_pressure s share
            | None \<Rightarrow> \<lparr>q_prefill = 0, q_decode = 0, kv_decode = 0, slo_prefill = 0, slo_decode = 0, fp_share = share\<rparr>);
          signals = signals\<lparr>q_prefill := fmax (q_prefill signals) (live_queue_pressure (r_prefill r)),
                            q_decode := fmax (q_decode signals) (live_queue_pressure (r_decode r))\<rparr>;
          signals = (case r_ledger r of None \<Rightarrow> signals
            | Some l \<Rightarrow> let kv = f64_of_u64 (fleet_reserved l) / f64_of_u64 (max (capacity_bytes l) 1)
                        in signals\<lparr>kv_decode := fmax (kv_decode signals) (fclamp kv 0 1)\<rparr>)
      in signals\<lparr>fp_share := fclamp share 0 1\<rparr>)"

definition publish_next :: "u64 \<Rightarrow> f64 \<Rightarrow> 'b Router \<Rightarrow> 'b Router" where
  "publish_next now_ms p r =
     r\<lparr>r_dataplane := rcu_publish (DataPlaneSnapshot_new now_ms (saturating_add (rcu_generation (r_dataplane r)) 1) p) (r_dataplane r)\<rparr>"

definition actuate_from_trace_pressure :: "('b, 'k) renv \<Rightarrow> PoolPressure \<Rightarrow> 'b Router \<Rightarrow> 'b Router" where
  "actuate_from_trace_pressure E signals r =
     (let cp = r_control r;
          pi_star = compute_pi_star (rebalancer cp) signals;
          cp = cp\<lparr>last_pi_star := pi_star\<rparr>;
          cp = (if rebalancer_actuation r then cp\<lparr>rebalancer := snd (force_actuate pi_star (e_now E) (rebalancer cp))\<rparr> else cp);
          r = r\<lparr>r_control := cp\<rparr>
      in if rebalancer_actuation r then maybe_sync_admit_for_pi E pi_star (publish_next (e_now_ms E) pi_star r) else r)"

definition fast_share :: "'b Router \<Rightarrow> f64 \<Rightarrow> f64" where
  "fast_share r dflt =
     (let routed = saturating_add (colocated_routes r) (disagg_routes r)
      in if 0 < routed then f64_of_u64 (colocated_routes r) / f64_of_u64 routed else dflt)"

text \<open>The rebalancer part of the tick: shadow target, update, publication and capacity sync.\<close>

definition tick_rebalancer :: "('b, 'k) renv \<Rightarrow> 'b Router \<Rightarrow> 'b Router" where
  "tick_rebalancer E r =
     (let signals = pool_pressure r (fast_share r (lit (1 / 2)));
          cp = r_control r;
          star = shadow_pi_star (rebalancer cp) signals;
          (upd, reb) = maybe_update signals (e_now E) (rebalancer cp);
          r = r\<lparr>r_control := cp\<lparr>last_pi_star := star, rebalancer := reb\<rparr>\<rparr>
      in if rebalancer_actuation r then
           let r = (case upd of Some new_pi \<Rightarrow> publish_next (e_now_ms E) new_pi r | None \<Rightarrow> r)
           in maybe_sync_admit_for_pi E (pi_ratio reb) r
         else r)"

definition tick_heartbeat :: "('b, 'k) renv \<Rightarrow> 'b Router \<Rightarrow> 'b Router" where
  "tick_heartbeat E r =
     (if DATAPLANE_RCU_HEARTBEAT_MS \<le> age_ms (e_now_ms E) (r_dataplane r) then
        let p = pi_ratio (rebalancer (r_control r));
            r = check_kernel_admit_link E (publish_next (e_now_ms E) p r)
        in if rebalancer_actuation r \<or> kernel_admit_attached r then maybe_sync_admit_for_pi E p r else r
      else r)"

definition tick_regret :: "('b, 'k) renv \<Rightarrow> u64 option \<Rightarrow> 'b Router \<Rightarrow> 'b Router option" where
  "tick_regret E toks r =
     (case toks of
        Some t \<Rightarrow>
          if r_prefill r \<noteq> [] \<and> r_decode r \<noteq> [] then
            do { regret \<leftarrow> pairing_regret_targets (e_ex E) (backend_target (e_lg E) (e_hash E)) (r_prefill r) (r_decode r)
                   (routing_snapshot r) t ROUTING_TRANSFER_PENALTY;
                 let cp = r_control r;
                 Some (r\<lparr>r_control := cp\<lparr>regret_sum := regret_sum cp + regret, regret_samples := regret_samples cp + 1\<rparr>\<rparr>) }
          else Some r
      | None \<Rightarrow> Some r)"

definition deferred_control_tick :: "('b, 'k) renv \<Rightarrow> u64 option \<Rightarrow> bool \<Rightarrow> 'b Router \<Rightarrow> 'b Router option" where
  "deferred_control_tick E toks sample_regret r =
     (let need_rebalancer = (sample_regret \<or> rebalancer_actuation r
            \<or> DATAPLANE_RCU_HEARTBEAT_MS \<le> age_ms (e_now_ms E) (r_dataplane r))
      in if toks = None \<and> \<not> need_rebalancer then Some r
         else if e_busy E then Some r
         else
           let r = (case toks of Some t \<Rightarrow>
                      r\<lparr>r_control := (r_control r)\<lparr>predictor := LengthPredictor_record t (predictor (r_control r))\<rparr>\<rparr>
                    | None \<Rightarrow> r)
           in if \<not> need_rebalancer then Some r
              else let r = tick_heartbeat E (tick_rebalancer E r)
                   in if sample_regret then tick_regret E toks r else Some r)"

definition bump_route_counters :: "bool \<Rightarrow> 'b Router \<Rightarrow> 'b Router" where
  "bump_route_counters colocated r =
     (if colocated then r\<lparr>colocated_routes := colocated_routes r + 1\<rparr> else r\<lparr>disagg_routes := disagg_routes r + 1\<rparr>)"

definition note_fastpath_misroute :: "bool \<Rightarrow> u64 \<Rightarrow> 'b Router \<Rightarrow> 'b Router" where
  "note_fastpath_misroute busy toks r =
     (let threshold = max ROUTING_SHORT_CONTEXT_TOKENS 1
      in if toks \<le> threshold \<and> 80 \<le> toks * 100 div threshold then
           let frac = fclamp (f64_of_u64 toks / f64_of_u64 threshold) 0 1; cp = r_control r
           in if busy then r
              else r\<lparr>r_control := cp\<lparr>fastpath_misroute_sum := fastpath_misroute_sum cp + frac,
                                    fastpath_misroute_samples := fastpath_misroute_samples cp + 1\<rparr>\<rparr>
         else r)"

record ControlMetrics =
  m_pi :: f64
  m_pi_star :: f64
  pairing_regret_mean :: f64
  pairing_regret_samples :: u64
  predictor_p90_tokens :: u64
  m_dataplane_pi :: f64
  m_dataplane_age_ms :: u64
  rcu_stale :: bool
  rcu_stale_alert_ms :: u64
  admit_shed_total :: u64
  fast_path_ratio :: f64
  m_colocated_routes :: u64
  m_disagg_routes :: u64
  fastpath_misroute_mean :: f64
  m_fastpath_misroute_samples :: u64
  corrector_shadow_samples :: u64
  rdma_cost_shadow_samples :: u64

definition mean_or_zero :: "f64 \<Rightarrow> u64 \<Rightarrow> f64" where
  "mean_or_zero s n = (if 0 < n then s / f64_of_u64 n else 0)"

definition control_metrics :: "('b, 'k) renv \<Rightarrow> 'b Router \<Rightarrow> ControlMetrics" where
  "control_metrics E r =
     (let cp = r_control r
      in \<lparr>m_pi = pi_ratio (rebalancer cp), m_pi_star = last_pi_star cp,
          pairing_regret_mean = mean_or_zero (regret_sum cp) (regret_samples cp), pairing_regret_samples = regret_samples cp,
          predictor_p90_tokens = p90 (predictor cp), m_dataplane_pi = read_pi (r_dataplane r),
          m_dataplane_age_ms = age_ms (e_now_ms E) (r_dataplane r),
          rcu_stale = is_stale (e_now_ms E) DATAPLANE_RCU_STALE_ALERT_MS (r_dataplane r),
          rcu_stale_alert_ms = DATAPLANE_RCU_STALE_ALERT_MS, admit_shed_total = total_admit_shed E r,
          fast_path_ratio = fast_share r 0, m_colocated_routes = colocated_routes r, m_disagg_routes = disagg_routes r,
          fastpath_misroute_mean = mean_or_zero (fastpath_misroute_sum cp) (fastpath_misroute_samples cp),
          m_fastpath_misroute_samples = fastpath_misroute_samples cp,
          corrector_shadow_samples = of_nat (CorrectorShadowLog_len (corrector_shadow cp)),
          rdma_cost_shadow_samples = of_nat (length (RdmaCostShadowLog_samples (rdma_cost_shadow cp)))\<rparr>)"

definition record_corrector_shadow :: "CorrectorShadowSample \<Rightarrow> 'b Router \<Rightarrow> 'b Router option" where
  "record_corrector_shadow s r =
     do { l \<leftarrow> CorrectorShadowLog_record s (corrector_shadow (r_control r));
          Some (r\<lparr>r_control := (r_control r)\<lparr>corrector_shadow := l\<rparr>\<rparr>) }"

definition record_rdma_cost_shadow :: "RdmaCostShadowSample \<Rightarrow> 'b Router \<Rightarrow> 'b Router option" where
  "record_rdma_cost_shadow s r =
     do { l \<leftarrow> RdmaCostShadowLog_record s (rdma_cost_shadow (r_control r));
          Some (r\<lparr>r_control := (r_control r)\<lparr>rdma_cost_shadow := l\<rparr>\<rparr>) }"

section \<open>Picking\<close>

definition pick_with_phi :: "('b, 'k) renv \<Rightarrow> Phase \<Rightarrow> BarrierFactor option \<Rightarrow> 'b Router \<Rightarrow> Backend option" where
  "pick_with_phi E phase phi r =
     (let ppi = read_pi (r_dataplane r);
          barriers = (case phi of Some b \<Rightarrow> [b] | None \<Rightarrow> [])
      in case phase of
           Prefill \<Rightarrow> select_with_barriers_pi (e_lg E) (pool r Prefill) barriers ppi True
         | Decode \<Rightarrow> select_with_barriers_pi (e_lg E) (pool r Decode) barriers ppi False)"

definition pick :: "('b, 'k) renv \<Rightarrow> Phase \<Rightarrow> 'b Router \<Rightarrow> Backend option" where
  "pick E phase r = pick_with_phi E phase None r"

definition pick_colocated :: "('b, 'k) renv \<Rightarrow> 'b Router \<Rightarrow> Backend option" where
  "pick_colocated E r =
     (let phase = (if e_colocated_phase E = Some ''decode'' then Decode else Prefill) in pick E phase r)"

end
