(* ===== verification/Routing.thy ===== *)
theory Routing
  imports Router
begin

text \<open>
  Request classification and the prefill-to-decode continuation (\<open>demiurge-router/src/routing.rs\<close>).
  \<open>RequestId\<close>s come from a counter that is passed along.  \<open>on_prefill_complete\<close> returns \<open>None\<close> when the
  code panics; an early error return drops the reservation guard, which releases the reservation.
\<close>

section \<open>Classification\<close>

datatype RoutePath =
  Colocated Backend
| Disaggregated (rp_prefill: Backend) (rp_request_id: u64) (rp_prompt_tokens: u64)
| DecodeOnly Backend

datatype RouteError = NoBackend | HandoffMissing | KvAdmitRejected | PrefillIo string

definition RouteError_fmt :: "RouteError \<Rightarrow> string" where
  "RouteError_fmt e =
     (case e of NoBackend \<Rightarrow> ''no backend available for route''
      | HandoffMissing \<Rightarrow> ''prefill completed without KV hand-off''
      | KvAdmitRejected \<Rightarrow> ''decode pool rejected KV reservation''
      | PrefillIo msg \<Rightarrow> ''prefill I/O error: '' @ msg)"

definition RequestId_new :: "u64 \<Rightarrow> u64 \<times> u64" where
  "RequestId_new nid = (nid, nid + 1)"

text \<open>
  One backend of the override scan: \<open>None\<close> stops the whole function (the question mark on a backend
  without a snapshot entry).
\<close>

definition override_step ::
    "('b, 'k) renv \<Rightarrow> StateSnapshot \<Rightarrow> u64 list \<Rightarrow> isolation option \<Rightarrow> Backend \<Rightarrow> (Backend \<times> f64) option \<Rightarrow> (Backend \<times> f64) option option" where
  "override_step E snap blocks isol b best =
     (if map_of (prefill snap) (label b) = None then None
      else let strength = pool_hit_strength (e_hash E) snap False (label b) blocks (isolation_ctx isol)
           in if flt strength ROUTING_SHORT_CONTEXT_WARMTH_OVERRIDE then Some best
              else if (case best of None \<Rightarrow> True | Some (_, s) \<Rightarrow> flt s strength) then Some (Some (b, strength))
              else Some best)"

fun override_loop ::
    "('b, 'k) renv \<Rightarrow> StateSnapshot \<Rightarrow> u64 list \<Rightarrow> isolation option \<Rightarrow> Backend list \<Rightarrow> (Backend \<times> f64) option \<Rightarrow> (Backend \<times> f64) option" where
  "override_loop E snap blocks isol [] best = best"
| "override_loop E snap blocks isol (b # bs) best =
     do { best \<leftarrow> override_step E snap blocks isol b best; override_loop E snap blocks isol bs best }"

definition warmth_override_target_with_identity ::
    "('b, 'k) renv \<Rightarrow> 'b Router \<Rightarrow> u64 \<Rightarrow> isolation option \<Rightarrow> StateSnapshot option \<Rightarrow> (Backend \<times> f64) option" where
  "warmth_override_target_with_identity E r toks isol snap =
     do { s \<leftarrow> snap; override_loop E s (default_routing_blocks toks) isol (pool r Prefill) None }"

definition route_impl ::
    "('b, 'k) renv \<Rightarrow> bytes \<Rightarrow> isolation option \<Rightarrow> u64 \<Rightarrow> 'b Router \<Rightarrow> (RouteError + RoutePath) \<times> u64 \<times> 'b Router" where
  "route_impl E head isol nid r =
     (if is_decode_only head then
        (case pick E Decode r of
           Some b \<Rightarrow> (Inr (DecodeOnly b), nid, bump_route_counters False r)
         | None \<Rightarrow> (Inl NoBackend, nid, r))
      else
        let toks = estimate_prompt_tokens head; snap = routing_snapshot r
        in if toks \<le> ROUTING_SHORT_CONTEXT_TOKENS then
             (case warmth_override_target_with_identity E r toks isol snap of
                Some (pf, _) \<Rightarrow>
                  let r = note_fastpath_misroute (e_busy E) toks (bump_route_counters False r);
                      (rid, nid) = RequestId_new nid
                  in (Inr (Disaggregated pf rid toks), nid, r)
              | None \<Rightarrow>
                  (case pick_colocated E r of
                     Some b \<Rightarrow> (Inr (Colocated b), nid, bump_route_counters True r)
                   | None \<Rightarrow> (Inl NoBackend, nid, r)))
           else
             (case select_prefill_with_identity_pi (e_lg E) (e_hash E) (pool r Prefill) snap toks (read_pi (r_dataplane r)) isol of
                None \<Rightarrow> (Inl NoBackend, nid, r)
              | Some pf \<Rightarrow>
                  let r = note_fastpath_misroute (e_busy E) toks (bump_route_counters False r);
                      (rid, nid) = RequestId_new nid
                  in (Inr (Disaggregated pf rid toks), nid, r)))"

definition schedule_control_tick :: "('b, 'k) renv \<Rightarrow> RoutePath \<Rightarrow> bytes \<Rightarrow> 'b Router \<Rightarrow> 'b Router option" where
  "schedule_control_tick E path head r =
     (case path of
        Colocated _ \<Rightarrow> deferred_control_tick E (Some (estimate_prompt_tokens head)) False r
      | Disaggregated _ _ toks \<Rightarrow> deferred_control_tick E (Some toks) False r
      | DecodeOnly _ \<Rightarrow> deferred_control_tick E None False r)"

definition route_then_tick ::
    "('b, 'k) renv \<Rightarrow> bytes \<Rightarrow> isolation option \<Rightarrow> u64 \<Rightarrow> 'b Router \<Rightarrow> ((RouteError + RoutePath) \<times> u64 \<times> 'b Router) option" where
  "route_then_tick E head isol nid r =
     (case route_impl E head isol nid r of
        (Inl e, nid, r) \<Rightarrow> Some (Inl e, nid, r)
      | (Inr path, nid, r) \<Rightarrow> do { r \<leftarrow> schedule_control_tick E path head r; Some (Inr path, nid, r) })"

definition route :: "('b, 'k) renv \<Rightarrow> bytes \<Rightarrow> u64 \<Rightarrow> 'b Router \<Rightarrow> ((RouteError + RoutePath) \<times> u64 \<times> 'b Router) option" where
  "route E head nid r = route_then_tick E head None nid r"

definition route_with_identity ::
    "('b, 'k) renv \<Rightarrow> bytes \<Rightarrow> RequestIdentity option \<Rightarrow> u64 \<Rightarrow> 'b Router \<Rightarrow> ((RouteError + RoutePath) \<times> u64 \<times> 'b Router) option" where
  "route_with_identity E head identity nid r =
     (let isol = (case (cache_registry r, identity) of (Some reg, Some i) \<Rightarrow> Some (reg, i) | _ \<Rightarrow> None)
      in route_then_tick E head isol nid r)"

section \<open>After prefill\<close>

record PrefillSignals =
  sig_request_id :: u64
  sig_prompt_tokens :: u64
  prefill_wall :: nat

record DecodePlacement =
  dp_backend :: Backend
  dp_reservation :: "ReservationGuard option"

text \<open>\<open>Duration::as_secs_f64\<close>.\<close>

definition as_secs_f64 :: "nat \<Rightarrow> f64" where
  "as_secs_f64 ns = f64_of_nat (ns div 1000000000) + f64_of_nat (ns mod 1000000000) / lit 1000000000"

text \<open>Hand-off validation and KV reservation; the ledger comes back changed.\<close>

definition admit_handoff ::
    "('b, 'k) renv \<Rightarrow> PrefillSignals \<Rightarrow> bytes \<Rightarrow> string \<Rightarrow> 'b Router
       \<Rightarrow> (RouteError + HandoffDescriptor option \<times> ReservationGuard option) \<times> 'b Router" where
  "admit_handoff E sig response pl r =
     (case (r_ledger r, r_handoffs r) of
        (Some ledger, Some _) \<Rightarrow>
          (case parse_prefill_handoff response (sig_request_id sig) pl of
             None \<Rightarrow> (Inl HandoffMissing, r)
           | Some h \<Rightarrow>
               if \<not> is_valid h then (Inl HandoffMissing, r)
               else
                 let expected = kv_reserved (kv_breakdown (sig_prompt_tokens sig) (bytes_per_token r));
                     ceiling = saturating_mul expected KV_HANDOFF_BYTE_CEILING_MULTIPLE
                 in if byte_len h < expected \<or> ceiling < byte_len h then (Inl HandoffMissing, r)
                    else case try_reserve_from (Some pl) (hd_request_id h) (byte_len h) (e_now E) ledger of
                           (Inl _, L) \<Rightarrow> (Inl KvAdmitRejected, r\<lparr>r_ledger := Some L\<rparr>)
                         | (Inr g, L) \<Rightarrow> (Inr (Some h, Some g), r\<lparr>r_ledger := Some L\<rparr>))
      | _ \<Rightarrow> (Inr (None, None), r))"

text \<open>The measured prefill wall goes to the first backend with the label.\<close>

fun update_first :: "('a \<Rightarrow> bool) \<Rightarrow> ('a \<Rightarrow> 'a) \<Rightarrow> 'a list \<Rightarrow> 'a list" where
  "update_first P f [] = []"
| "update_first P f (x # xs) = (if P x then f x # xs else x # update_first P f xs)"

definition note_prefill_wall :: "string \<Rightarrow> nat \<Rightarrow> 'b Router \<Rightarrow> 'b Router" where
  "note_prefill_wall pl w r =
     r\<lparr>r_prefill := update_first (\<lambda>b. label b = pl) (note_observed_seconds (as_secs_f64 w)) (r_prefill r)\<rparr>"

definition phi_of :: "'b Router \<Rightarrow> BarrierFactor option" where
  "phi_of r = do { l \<leftarrow> r_ledger r;
                  let b = fst (ledger_phi_barrier l 0);
                  if flt 1 (BarrierFactor_get b) then Some b else None }"

text \<open>The barrier buffer of the continuation: room for sixteen, the pressure barrier first.\<close>

definition phi_barriers :: "BarrierFactor option \<Rightarrow> BarrierFactor list" where
  "phi_barriers phi =
     (let buf = replicate MAX_SERVICE_BARRIERS (plain_barrier 1);
          ((buf, len), ev) = append_barriers_fail_expensive buf 0 (case phi of Some b \<Rightarrow> [b] | None \<Rightarrow> []) 0
      in take len buf)"

definition place_decode ::
    "('b, 'k) renv \<Rightarrow> PrefillSignals \<Rightarrow> HandoffDescriptor option \<Rightarrow> string \<Rightarrow> 'b Router \<Rightarrow> Backend option" where
  "place_decode E sig handoff pl r =
     (let phi = phi_of r;
          kvb = (case handoff of Some h \<Rightarrow> byte_len h
                 | None \<Rightarrow> kv_reserved (kv_breakdown (sig_prompt_tokens sig) (bytes_per_token r)));
          ctx = \<lparr>ctx_prefill_label = pl, ctx_pf_topo = topology_for_label r pl, ctx_kv_bytes = kvb, use_rdma_routing = rdma_routing r\<rparr>
      in case select_decode_with_pi (e_lg E) (e_ex E) (e_hash E) ctx (pool r Decode) (routing_snapshot r) (sig_prompt_tokens sig)
                (phi_barriers phi) (read_pi (r_dataplane r)) of
           Some b \<Rightarrow> Some b
         | None \<Rightarrow> (case pick_with_phi E Decode phi r of Some b \<Rightarrow> Some b | None \<Rightarrow> pick_colocated E r))"

text \<open>Publication of the hand-off, transfer and RDMA shadow sample.\<close>

definition complete_handoff ::
    "('b, 'k) renv \<Rightarrow> PrefillSignals \<Rightarrow> HandoffDescriptor option \<Rightarrow> string \<Rightarrow> Backend \<Rightarrow> 'b Router \<Rightarrow> 'b Router option" where
  "complete_handoff E sig handoff pl b r =
     (case (handoff, r_handoffs r) of
        (Some h, Some reg) \<Rightarrow>
          let h = h\<lparr>decode_label := Some (label b)\<rparr>; reg = publish h reg
          in do { outcome \<leftarrow> transfer (handoff_transport_or_default r) h (prefill_wall sig);
                  let reg = record_transfer (to_bytes outcome) (wall outcome) reg;
                  let r = r\<lparr>r_handoffs := Some reg\<rparr>;
                  if pl \<noteq> label b then
                    let pft = topology_for_label r pl; dct = topology b
                    in record_rdma_cost_shadow
                         \<lparr>pf_label = pl, dc_label = label b, distance = rdma_distance pft dct, kv_bytes = byte_len h,
                          analytic_transfer_ln = fst (rdma_transfer_ln (e_lg E) (byte_len h) pft dct 0),
                          flat_penalty_ln = e_lg E ROUTING_TRANSFER_PENALTY,
                          observed_transfer_secs = as_secs_f64 (wall outcome)\<rparr> r
                  else Some r }
      | _ \<Rightarrow> Some r)"

definition on_prefill_complete ::
    "('b, 'k) renv \<Rightarrow> PrefillSignals \<Rightarrow> bytes \<Rightarrow> string \<Rightarrow> 'b Router \<Rightarrow> ((RouteError + DecodePlacement) \<times> 'b Router) option" where
  "on_prefill_complete E sig response pl r =
     (case admit_handoff E sig response pl r of
        (Inl e, r) \<Rightarrow> Some (Inl e, r)
      | (Inr (handoff, reservation), r) \<Rightarrow>
          let r = note_prefill_wall pl (prefill_wall sig) r
          in (case place_decode E sig handoff pl r of
                None \<Rightarrow>
                  Some (Inl NoBackend,
                        (case (reservation, r_ledger r) of (Some g, Some L) \<Rightarrow> r\<lparr>r_ledger := Some (guard_drop g L)\<rparr> | _ \<Rightarrow> r))
              | Some b \<Rightarrow>
                  let phi = phi_of r; ppi = read_pi (r_dataplane r); snap = routing_snapshot r
                  in do { r \<leftarrow> complete_handoff E sig handoff pl b r;
                          r \<leftarrow> record_corrector_shadow
                                \<lparr>s_prompt_tokens = sig_prompt_tokens sig,
                                 analytic_ln = plain_cost (cost_with_warmth_pi (e_lg E) (e_hash E) (phi_barriers phi) snap
                                   (default_routing_blocks (sig_prompt_tokens sig)) True ppi b),
                                 observed_us = as_micros_u64 (prefill_wall sig), pool_pi = ppi, s_backend_label = label b\<rparr> r;
                          r \<leftarrow> deferred_control_tick E (Some (sig_prompt_tokens sig)) True r;
                          Some (Inr \<lparr>dp_backend = b, dp_reservation = reservation\<rparr>, r) }))"

text \<open>
  The bounded read of the prefill response: \<open>take(max + 1)\<close> passes on at most one byte more than the
  limit, which is then an error.
\<close>

definition run_prefill_io :: "string \<Rightarrow> (string + bytes) \<Rightarrow> (nat \<Rightarrow> string) \<Rightarrow> string + bytes" where
  "run_prefill_io l upstream show_nat =
     (let mx = unat DATAPLANE_PREFILL_RESPONSE_MAX_BYTES
      in and_then upstream (\<lambda>stream.
           let resp = take (mx + 1) stream
           in if mx < length resp then Inl (''prefill response from '' @ l @ '' exceeds '' @ show_nat mx @ '' bytes'')
              else Inr resp))"

text \<open>
  The prefill worker: \<open>upstream\<close> is what the prefill backend sent, or the socket error, and \<open>wall\<close> the
  time measured around it.  The callback runs on the worker thread after the I/O.
\<close>

definition dispatch_prefill ::
    "(nat \<Rightarrow> string) \<Rightarrow> (Backend \<Rightarrow> (string + bytes) \<times> nat) \<Rightarrow> Backend \<Rightarrow> u64 \<Rightarrow> u64 \<Rightarrow> (PrefillSignals \<Rightarrow> string + bytes \<Rightarrow> 'r) \<Rightarrow> 'r" where
  "dispatch_prefill show_nat prefill_io pf rid toks on_complete =
     (let (upstream, w) = prefill_io pf;
          response = run_prefill_io (label pf) upstream show_nat
      in on_complete \<lparr>sig_request_id = rid, sig_prompt_tokens = toks, prefill_wall = w\<rparr> response)"

text \<open>The caller returns before the prefill I/O, whose callback is empty; \<open>elapsed\<close> is the time routing took.\<close>

definition admit_disaggregated ::
    "('b, 'k) renv \<Rightarrow> bytes \<Rightarrow> nat \<Rightarrow> u64 \<Rightarrow> 'b Router \<Rightarrow> ((RouteError + nat) \<times> u64 \<times> 'b Router) option" where
  "admit_disaggregated E head elapsed nid r =
     do { (res, nid, r) \<leftarrow> route E head nid r;
          Some (and_then res (\<lambda>path. case path of Disaggregated _ _ _ \<Rightarrow> Inr elapsed | _ \<Rightarrow> Inl NoBackend), nid, r) }"

section \<open>Frame lemmas\<close>

text \<open>What the control tick and the telemetry leave alone.\<close>

lemma sync_frame [simp]:
  "r_ledger (sync_admit_capacity E c r) = r_ledger r" "r_prefill (sync_admit_capacity E c r) = r_prefill r"
  "r_decode (sync_admit_capacity E c r) = r_decode r" "r_dataplane (sync_admit_capacity E c r) = r_dataplane r"
  "r_control (sync_admit_capacity E c r) = r_control r" "r_admit_mode (sync_admit_capacity E c r) = r_admit_mode r"
  "colocated_routes (sync_admit_capacity E c r) = colocated_routes r" "disagg_routes (sync_admit_capacity E c r) = disagg_routes r"
  "kernel_admit (sync_admit_capacity E c r) = None \<longleftrightarrow> kernel_admit r = None"
  by (auto simp: sync_admit_capacity_def Let_def split: option.splits sum.splits)

lemma maybe_sync_frame [simp]:
  "r_ledger (maybe_sync_admit_for_pi E p r) = r_ledger r" "r_prefill (maybe_sync_admit_for_pi E p r) = r_prefill r"
  "r_decode (maybe_sync_admit_for_pi E p r) = r_decode r" "r_dataplane (maybe_sync_admit_for_pi E p r) = r_dataplane r"
  "r_control (maybe_sync_admit_for_pi E p r) = r_control r" "r_admit_mode (maybe_sync_admit_for_pi E p r) = r_admit_mode r"
  "colocated_routes (maybe_sync_admit_for_pi E p r) = colocated_routes r" "disagg_routes (maybe_sync_admit_for_pi E p r) = disagg_routes r"
  "kernel_admit (maybe_sync_admit_for_pi E p r) = None \<longleftrightarrow> kernel_admit r = None"
  by (simp_all add: maybe_sync_admit_for_pi_def Let_def)

lemma tick_rebalancer_frame [simp]:
  "r_ledger (tick_rebalancer E r) = r_ledger r" "r_prefill (tick_rebalancer E r) = r_prefill r" "r_decode (tick_rebalancer E r) = r_decode r"
  "colocated_routes (tick_rebalancer E r) = colocated_routes r" "disagg_routes (tick_rebalancer E r) = disagg_routes r"
  "r_admit_mode (tick_rebalancer E r) = r_admit_mode r" "kernel_admit (tick_rebalancer E r) = None \<longleftrightarrow> kernel_admit r = None"
  "rebalancer_actuation (tick_rebalancer E r) = rebalancer_actuation r"
  by (auto simp: tick_rebalancer_def Let_def publish_next_def maybe_sync_admit_for_pi_def sync_admit_capacity_def split: prod.splits option.splits sum.splits)

lemma tick_heartbeat_frame [simp]:
  "r_ledger (tick_heartbeat E r) = r_ledger r" "r_prefill (tick_heartbeat E r) = r_prefill r" "r_decode (tick_heartbeat E r) = r_decode r"
  "colocated_routes (tick_heartbeat E r) = colocated_routes r" "disagg_routes (tick_heartbeat E r) = disagg_routes r"
  "r_admit_mode (tick_heartbeat E r) = r_admit_mode r"
  by (simp_all add: tick_heartbeat_def Let_def publish_next_def check_kernel_admit_link_def split: option.splits)

lemma tick_regret_frame:
  "tick_regret E t r = Some r' \<Longrightarrow> r_ledger r' = r_ledger r \<and> r_prefill r' = r_prefill r \<and> r_decode r' = r_decode r
     \<and> colocated_routes r' = colocated_routes r \<and> disagg_routes r' = disagg_routes r"
  by (auto simp: tick_regret_def Let_def bind_eq_Some_conv split: option.splits if_splits)

lemma deferred_frame:
  "deferred_control_tick E t s r = Some r' \<Longrightarrow> r_ledger r' = r_ledger r \<and> r_prefill r' = r_prefill r \<and> r_decode r' = r_decode r
     \<and> colocated_routes r' = colocated_routes r \<and> disagg_routes r' = disagg_routes r"
  by (auto simp: deferred_control_tick_def Let_def dest!: tick_regret_frame split: option.splits if_splits)

lemma deferred_no_regret: "\<exists>r'. deferred_control_tick E t False r = Some r'"
  by (simp add: deferred_control_tick_def Let_def)

lemma record_shadow_frame:
  "record_corrector_shadow s r = Some r' \<Longrightarrow> r_ledger r' = r_ledger r"
  "record_rdma_cost_shadow q r = Some r' \<Longrightarrow> r_ledger r' = r_ledger r"
  by (auto simp: record_corrector_shadow_def record_rdma_cost_shadow_def bind_eq_Some_conv)

lemma complete_handoff_frame: "complete_handoff E sig h pl b r = Some r' \<Longrightarrow> r_ledger r' = r_ledger r"
  by (auto simp: complete_handoff_def Let_def bind_eq_Some_conv dest!: record_shadow_frame(2) split: option.splits if_splits)

section \<open>Reservation balance\<close>

lemma reserve_then_drop:
  assumes "try_reserve_from src rid b now L = (Inr g, L1)"
  shows "reservations (guard_drop g L1) = reservations L \<and> reserved_bytes (guard_drop g L1) = reserved_bytes L"
proof -
  have n: "map_of (reservations L) rid = None" using assms by (auto simp: try_reserve_from_def split: if_splits)
  obtain e where L1: "reservations L1 = reservations L @ [(rid, e)]" "entry_bytes e = b"
      "reserved_bytes L1 = reserved_bytes L + b" "g = \<lparr>request_id = rid, released = False\<rparr>"
    using assms alist_update_new [OF n] by (cases src) (auto simp: try_reserve_from_def Let_def split: if_splits option.splits)
  have "AList.delete rid (reservations L @ [(rid, e)]) = reservations L"
    using alist_delete_absent [OF n] by (simp add: AList.delete_eq)
  moreover have "map_of (reservations L1) rid = Some e" using n L1(1) by (simp add: map_add_def)
  ultimately show ?thesis using L1
    by (simp add: guard_drop_def ledger_release_def release_inner_def)
qed

lemma reserve_entry:
  assumes "try_reserve_from src rid b now L = (Inr g, L1)"
  shows "request_id g = rid \<and> (\<exists>e. map_of (reservations L1) rid = Some e \<and> entry_bytes e = b)"
  using assms by (auto simp: try_reserve_from_def Let_def update_conv' split: if_splits option.splits)

lemma reserve_refused: "try_reserve_from src rid b now L = (Inl e, L1) \<Longrightarrow> reservations L1 = reservations L \<and> reserved_bytes L1 = reserved_bytes L"
  by (auto simp: try_reserve_from_def Let_def reject_def split: if_splits option.splits)

lemma parse_handoff_id: "parse_prefill_handoff response rid src = Some d \<Longrightarrow> hd_request_id d = rid"
  by (auto simp: parse_prefill_handoff_def Let_def bind_eq_Some_conv split: prod.splits)

lemma note_wall_ledger [simp]: "r_ledger (note_prefill_wall pl w r) = r_ledger r"
  by (simp add: note_prefill_wall_def)

text \<open>What admission of the hand-off does to the ledger.\<close>

lemma admit_handoff_cases:
  assumes "r_ledger r = Some L" "r_handoffs r = Some reg" "admit_handoff E sig response pl r = (res, r1)"
  obtains (failed) e L1 where "res = Inl e" "r_ledger r1 = Some L1" "reservations L1 = reservations L" "reserved_bytes L1 = reserved_bytes L"
  | (admitted) h g L1 where "res = Inr (Some h, Some g)" "r_ledger r1 = Some L1"
      "try_reserve_from (Some pl) (sig_request_id sig) (byte_len h) (e_now E) L = (Inr g, L1)"
      "kv_reserved (kv_breakdown (sig_prompt_tokens sig) (bytes_per_token r)) \<le> byte_len h"
      "byte_len h \<le> saturating_mul (kv_reserved (kv_breakdown (sig_prompt_tokens sig) (bytes_per_token r))) KV_HANDOFF_BYTE_CEILING_MULTIPLE"
proof (cases "parse_prefill_handoff response (sig_request_id sig) pl")
  case None
  then show ?thesis using assms failed by (auto simp: admit_handoff_def)
next
  case (Some h)
  obtain q L1 where t: "try_reserve_from (Some pl) (sig_request_id sig) (byte_len h) (e_now E) L = (q, L1)" by fastforce
  have hid: "hd_request_id h = sig_request_id sig" using Some by (rule parse_handoff_id)
  show ?thesis
  proof (cases "is_valid h \<and> \<not> (byte_len h < kv_reserved (kv_breakdown (sig_prompt_tokens sig) (bytes_per_token r))
        \<or> saturating_mul (kv_reserved (kv_breakdown (sig_prompt_tokens sig) (bytes_per_token r))) KV_HANDOFF_BYTE_CEILING_MULTIPLE < byte_len h)")
    case True
    then show ?thesis
    proof (cases q)
      case (Inl e)
      then show ?thesis using assms True Some t hid failed reserve_refused [of "Some pl" _ _ _ L e L1] by (auto simp: admit_handoff_def Let_def)
    next
      case (Inr g)
      then show ?thesis using assms True Some t hid admitted [of h g L1] by (auto simp: admit_handoff_def Let_def not_less)
    qed
  next
    case False
    then have "admit_handoff E sig response pl r = (Inl HandoffMissing, r)" using assms(1,2) Some
      by (cases "is_valid h") (simp_all add: admit_handoff_def Let_def)
    then show ?thesis using assms failed by simp
  qed
qed

text \<open>The two outcomes of the continuation, with the guard and the ledger it left.\<close>

lemma on_prefill_complete_cases:
  assumes "r_ledger r = Some L" "r_handoffs r = Some reg" "on_prefill_complete E sig response pl r = Some (res, r')"
  obtains (failed) e L' where "res = Inl e" "r_ledger r' = Some L'" "reservations L' = reservations L" "reserved_bytes L' = reserved_bytes L"
  | (placed) b g and h :: HandoffDescriptor and L' where "res = Inr \<lparr>dp_backend = b, dp_reservation = Some g\<rparr>" "r_ledger r' = Some L'"
      "try_reserve_from (Some pl) (sig_request_id sig) (byte_len h) (e_now E) L = (Inr g, L')"
      "kv_reserved (kv_breakdown (sig_prompt_tokens sig) (bytes_per_token r)) \<le> byte_len h"
      "byte_len h \<le> saturating_mul (kv_reserved (kv_breakdown (sig_prompt_tokens sig) (bytes_per_token r))) KV_HANDOFF_BYTE_CEILING_MULTIPLE"
proof -
  obtain a r1 where a: "admit_handoff E sig response pl r = (a, r1)" by fastforce
  from assms(1,2) a show ?thesis
  proof (cases rule: admit_handoff_cases)
    case (failed e L1)
    then show ?thesis using assms(3) a that(1) by (auto simp: on_prefill_complete_def)
  next
    case (admitted h g L1)
    let ?r = "note_prefill_wall pl (prefill_wall sig) r1"
    show ?thesis
    proof (cases "place_decode E sig (Some h) pl ?r")
      case None
      then show ?thesis using assms(3) a admitted reserve_then_drop [OF admitted(3)] that(1)
        by (auto simp: on_prefill_complete_def Let_def)
    next
      case (Some b)
      then obtain r2 r3 s where st: "complete_handoff E sig (Some h) pl b ?r = Some r2" "record_corrector_shadow s r2 = Some r3"
          "deferred_control_tick E (Some (sig_prompt_tokens sig)) True r3 = Some r'"
        and res: "res = Inr \<lparr>dp_backend = b, dp_reservation = Some g\<rparr>"
        using assms(3) a admitted(1) by (auto simp: on_prefill_complete_def Let_def bind_eq_Some_conv)
      have "r_ledger r' = Some L1"
        using complete_handoff_frame [OF st(1)] record_shadow_frame(1) [OF st(2)] deferred_frame [OF st(3)] admitted(2) by simp
      then show ?thesis using that(2) [OF res _ admitted(3-5)] by simp
    qed
  qed
qed

section \<open>Properties\<close>

text \<open>C4: KV accounting is exact across the continuation: when it fails, on any path and also after
  the reservation was taken, the ledger holds the same reservations and the same number of reserved
  bytes as before; when it succeeds, the request holds a reservation and a guard for it, of a size
  between the analytic requirement and four times that.\<close>

theorem on_prefill_complete_kv_exact:
  assumes "r_ledger r = Some L" "r_handoffs r = Some reg" "on_prefill_complete E sig response pl r = Some (res, r')"
  shows "(\<forall>e. res = Inl e \<longrightarrow> (\<exists>L'. r_ledger r' = Some L' \<and> reservations L' = reservations L \<and> reserved_bytes L' = reserved_bytes L))
    \<and> (\<forall>p. res = Inr p \<longrightarrow> (\<exists>L' g entry. r_ledger r' = Some L' \<and> dp_reservation p = Some g \<and> request_id g = sig_request_id sig
         \<and> map_of (reservations L') (sig_request_id sig) = Some entry
         \<and> kv_reserved (kv_breakdown (sig_prompt_tokens sig) (bytes_per_token r)) \<le> entry_bytes entry
         \<and> entry_bytes entry \<le> saturating_mul (kv_reserved (kv_breakdown (sig_prompt_tokens sig) (bytes_per_token r))) 4))"
  using assms
proof (cases rule: on_prefill_complete_cases)
  case (failed e L')
  then show ?thesis by simp
next
  case (placed b g h L')
  then show ?thesis using reserve_entry [OF placed(3)] by (auto simp: KV_HANDOFF_BYTE_CEILING_MULTIPLE_def)
qed

text \<open>A concrete environment and router.\<close>

definition sample_host :: "(unit, unit) xdp_host" where
  "sample_host = \<lparr>h_libc = \<lparr>RTM_SETLINK = 19, RTM_GETLINK = 18, NLM_F_REQUEST = 1, NLM_F_ACK = 4, IFLA_XDP = 43\<rparr>,
     h_xchg = \<lambda>n req k. (Inl 1, k), h_render = \<lambda>_. ''error'', h_nametoindex = \<lambda>_. 0, h_iface_exists = \<lambda>_. False,
     h_is_file = \<lambda>_. False, h_create_dir_all = \<lambda>_. None, h_load_file = \<lambda>_. Inl ''none'', h_program_mut = \<lambda>_ _. False,
     h_program_type = \<lambda>_. None, h_program_load = \<lambda>_. None, h_prog_fd = \<lambda>_. Inl ''none'', h_prog_id = \<lambda>_. None,
     h_env = \<lambda>_. None, h_clock = None\<rparr>"

definition sample_env :: "(unit, unit) renv" where
  "sample_env = \<lparr>e_lg = cr_ln, e_ex = cr_exp, e_hash = sample_hashing, e_now_ms = 1000, e_now = 0, e_busy = False,
     e_colocated_phase = None,
     e_aya = \<lparr>aya_map = \<lambda>_ _. False, aya_array = \<lambda>_ _. None, aya_get = \<lambda>_. Inl ''none'', aya_set = \<lambda>_ _. Inl ''none'',
       aya_stats = \<lambda>_. Inl ''none'', aya_pin = \<lambda>_ _ _. None\<rparr>,
     e_host = sample_host, e_kernel = ()\<rparr>"

definition sample_vars :: router_vars where
  "sample_vars = \<lparr>v_admit_mode = None, v_iouring = None, v_actuate = None, v_rdma = None\<rparr>"

definition sample_router :: "unit Router" where
  "sample_router = with_kv_pool sample_vars 0 0 [sample_backend] [sample_backend] 1000000 128"

theorem on_prefill_complete_kv_exact_witness:
  "\<exists>r' L'. on_prefill_complete sample_env \<lparr>sig_request_id = 7, sig_prompt_tokens = 1024, prefill_wall = 5\<rparr> [] ''pf0'' sample_router
       = Some (Inl HandoffMissing, r') \<and> r_ledger r' = Some L' \<and> reserved_bytes L' = 0"
proof -
  let ?sig = "\<lparr>sig_request_id = 7, sig_prompt_tokens = 1024, prefill_wall = 5\<rparr>"
  have "parse_prefill_handoff [] 7 ''pf0'' = None" by code_simp
  then have o: "on_prefill_complete sample_env ?sig [] ''pf0'' sample_router = Some (Inl HandoffMissing, sample_router)"
    by (simp add: on_prefill_complete_def admit_handoff_def sample_router_def with_kv_pool_def)
  have l: "r_ledger sample_router = Some (ReservationLedger_new 1000000)" "r_handoffs sample_router = Some HandoffRegistry_new"
    by (simp_all add: sample_router_def with_kv_pool_def)
  show ?thesis using on_prefill_complete_kv_exact [OF l o] o by (auto simp: ReservationLedger_new_def Let_def)
qed

section \<open>Isolation on the routing path\<close>

text \<open>
  Two snapshots look the same under a cache-domain key when they know the same prefill backends and
  each backend holds the same blocks salted with that key.
\<close>

definition same_view :: "hashing \<Rightarrow> CacheDomainKey \<Rightarrow> u64 list \<Rightarrow> StateSnapshot \<Rightarrow> StateSnapshot \<Rightarrow> bool" where
  "same_view h key blocks s1 s2 \<longleftrightarrow> (\<forall>l. rel_option (\<lambda>b1 b2. \<forall>blk \<in> set blocks.
      (salt_block h blk (key_salt h key) \<in> set (keys (warmth b1))) = (salt_block h blk (key_salt h key) \<in> set (keys (warmth b2))))
      (map_of (prefill s1) l) (map_of (prefill s2) l))"

lemma same_view_strength:
  assumes "same_view h (resolve_domain_key reg (tenant i) (group_id i) (content_fp i)) blocks s1 s2"
  shows "pool_hit_strength h s1 False l blocks (isolation_ctx (Some (reg, i))) = pool_hit_strength h s2 False l blocks (isolation_ctx (Some (reg, i)))"
proof -
  have "hit_strength_salted h (warmth b1) blocks key = hit_strength_salted h (warmth b2) blocks key"
    if "\<forall>blk \<in> set blocks. (salt_block h blk (key_salt h key) \<in> set (keys (warmth b1))) = (salt_block h blk (key_salt h key) \<in> set (keys (warmth b2)))"
    for b1 b2 key
  proof -
    have "filter (\<lambda>b. salt_block h b (key_salt h key) \<in> set (keys (warmth b1))) blocks
        = filter (\<lambda>b. salt_block h b (key_salt h key) \<in> set (keys (warmth b2))) blocks"
      using that by (intro filter_cong) auto
    then show ?thesis by (simp add: hit_strength_salted_def Let_def)
  qed
  moreover have "rel_option (\<lambda>b1 b2. \<forall>blk \<in> set blocks.
      (salt_block h blk (key_salt h (resolve_domain_key reg (tenant i) (group_id i) (content_fp i))) \<in> set (keys (warmth b1)))
        = (salt_block h blk (key_salt h (resolve_domain_key reg (tenant i) (group_id i) (content_fp i))) \<in> set (keys (warmth b2))))
      (map_of (prefill s1) l) (map_of (prefill s2) l)"
    using assms by (auto simp: same_view_def)
  ultimately show ?thesis
    by (cases "map_of (prefill s1) l"; cases "map_of (prefill s2) l")
       (auto simp: pool_hit_strength_def isolation_ctx_def gated_hit_strength_def Let_def)
qed

lemma same_view_known: "same_view h key blocks s1 s2 \<Longrightarrow> (map_of (prefill s1) l = None) = (map_of (prefill s2) l = None)"
  by (auto simp: same_view_def dest!: spec [of _ l])

lemma override_loop_view:
  assumes "same_view (e_hash E) (resolve_domain_key reg (tenant i) (group_id i) (content_fp i)) blocks s1 s2"
  shows "override_loop E s1 blocks (Some (reg, i)) bs best = override_loop E s2 blocks (Some (reg, i)) bs best"
proof -
  have "override_step E s1 blocks (Some (reg, i)) b best = override_step E s2 blocks (Some (reg, i)) b best" for b best
    unfolding override_step_def same_view_strength [OF assms] same_view_known [OF assms] ..
  then show ?thesis
  proof (induction bs arbitrary: best)
    case (Cons b bs)
    then show ?case by (cases "override_step E s2 blocks (Some (reg, i)) b best") simp_all
  qed simp
qed

lemma isolation_cost_view:
  assumes "same_view h (resolve_domain_key reg (tenant i) (group_id i) (content_fp i)) blocks s1 s2"
  shows "cost_with_isolation_pi lg h extra (Some s1) blocks False ppi (Some (reg, i)) b
       = cost_with_isolation_pi lg h extra (Some s2) blocks False ppi (Some (reg, i)) b"
  by (simp add: cost_with_isolation_pi_def warmth_discount_for_def same_view_strength [OF assms] del: one_f64_def)

lemma picks_with_state_plane [simp]:
  "pick E ph (with_state_plane s r) = pick E ph r" "pick_colocated E (with_state_plane s r) = pick_colocated E r"
  "pool (with_state_plane s r) ph = pool r ph" "r_dataplane (with_state_plane s r) = r_dataplane r"
  "routing_snapshot (with_state_plane s r) = Some s"
  by (simp_all add: pick_def pick_with_phi_def pick_colocated_def pool_def with_state_plane_def routing_snapshot_def Let_def split: Phase.splits)

text \<open>C2: tenants cannot influence each other through the cache: for an authenticated request on a
  router with a group registry, the routing decision depends on the warmth state only through the
  blocks salted with the cache-domain key the registry resolves for this request.  Whatever other
  tenants or groups have warmed, the path, the backend and the request id are the same.\<close>

theorem route_isolated:
  assumes "routing_snapshot r = Some s1"
    and "same_view (e_hash E) (resolve_domain_key reg (tenant i) (group_id i) (content_fp i))
           (default_routing_blocks (estimate_prompt_tokens head)) s1 s2"
  shows "fst (route_impl E head (Some (reg, i)) nid (with_state_plane s2 r)) = fst (route_impl E head (Some (reg, i)) nid r)"
proof -
  let ?t = "estimate_prompt_tokens head"
  have w: "warmth_override_target_with_identity E (with_state_plane s2 r) ?t (Some (reg, i)) (Some s2)
      = warmth_override_target_with_identity E r ?t (Some (reg, i)) (Some s1)"
    by (simp add: warmth_override_target_with_identity_def override_loop_view [OF assms(2)])
  have p: "select_prefill_with_identity_pi (e_lg E) (e_hash E) cs (Some s2) ?t ppi (Some (reg, i))
      = select_prefill_with_identity_pi (e_lg E) (e_hash E) cs (Some s1) ?t ppi (Some (reg, i))" for cs ppi
    by (simp add: select_prefill_with_identity_pi_def isolation_cost_view [OF assms(2)] Let_def)
  show ?thesis unfolding route_impl_def Let_def assms(1) picks_with_state_plane w p
    by (auto simp: RequestId_new_def split: option.splits)
qed

definition long_head :: bytes where
  "long_head = ascii ''POST /v1/completions HTTP/1.1'' @ [13, 10] @ ascii ''x-demiurge-tokens: 600'' @ [13, 10, 13, 10]"

definition one_warm :: "u64 list \<Rightarrow> StateSnapshot" where
  "one_warm ks = \<lparr>generation = 0, prefill = [(''pf0'', (BackendSnapshot_new ''pf0'' 0)\<lparr>warmth := \<lparr>keys = ks, capacity = 8\<rparr>\<rparr>)], decode = []\<rparr>"

theorem route_isolated_witness:
  "fst (route_impl sample_env long_head (Some (SharedPrefixGroupRegistry_new, \<lparr>tenant = TenantId 1, group_id = GroupId 2, content_fp = PrefixFingerprint 3\<rparr>)) 1
          (with_state_plane (one_warm [7, 9]) (with_state (one_warm []) sample_router)))
   = fst (route_impl sample_env long_head (Some (SharedPrefixGroupRegistry_new, \<lparr>tenant = TenantId 1, group_id = GroupId 2, content_fp = PrefixFingerprint 3\<rparr>)) 1
          (with_state (one_warm []) sample_router))"
proof (rule route_isolated)
  show "routing_snapshot (with_state (one_warm []) sample_router) = Some (one_warm [])"
    by (simp add: routing_snapshot_def with_state_def sample_router_def with_kv_pool_def Router_new_def)
  have "default_routing_blocks (estimate_prompt_tokens long_head) = [0, 256, 512]" by code_simp
  then show "same_view (e_hash sample_env)
     (resolve_domain_key SharedPrefixGroupRegistry_new (tenant \<lparr>tenant = TenantId 1, group_id = GroupId 2, content_fp = PrefixFingerprint 3\<rparr>)
       (group_id \<lparr>tenant = TenantId 1, group_id = GroupId 2, content_fp = PrefixFingerprint 3\<rparr>)
       (content_fp \<lparr>tenant = TenantId 1, group_id = GroupId 2, content_fp = PrefixFingerprint 3\<rparr>))
     (default_routing_blocks (estimate_prompt_tokens long_head)) (one_warm []) (one_warm [7, 9])"
    by (simp add: same_view_def one_warm_def salt_block_def sample_env_def sample_hashing_def)
qed

section \<open>Totality\<close>

fun path_backend :: "RoutePath \<Rightarrow> Backend" where
  "path_backend (Colocated b) = b"
| "path_backend (Disaggregated b rid t) = b"
| "path_backend (DecodeOnly b) = b"

lemma min_by_ne: "xs \<noteq> [] \<Longrightarrow> \<exists>m \<in> set xs. min_by key xs = Some m"
  using min_by_Some_ex [of xs key] min_by_in_set by fast

lemma pick_ne: "pool r ph \<noteq> [] \<Longrightarrow> \<exists>b \<in> set (pool r ph). pick E ph r = Some b"
  by (cases ph) (auto simp: pick_def pick_with_phi_def select_with_barriers_pi_def Let_def dest: min_by_ne)

lemma select_prefill_ne: "cs \<noteq> [] \<Longrightarrow> \<exists>b \<in> set cs. select_prefill_with_identity_pi lg h cs snap t ppi isol = Some b"
  by (auto simp: select_prefill_with_identity_pi_def select_with_barriers_pi_def Let_def intro: min_by_ne)

lemma override_mem:
  "override_loop E s blocks isol bs best = Some (b, v) \<Longrightarrow> b \<in> set bs \<or> best = Some (b, v)"
proof (induction bs arbitrary: best)
  case (Cons x bs)
  then obtain best' where b: "override_step E s blocks isol x best = Some best'" "override_loop E s blocks isol bs best' = Some (b, v)"
    by (auto simp: bind_eq_Some_conv)
  have "best' = best \<or> (\<exists>w. best' = Some (x, w))" using b(1) by (auto simp: override_step_def Let_def split: if_splits)
  then show ?case using Cons.IH [OF b(2)] by auto
qed simp

lemma note_misroute_frame [simp]:
  "colocated_routes (note_fastpath_misroute b t r) = colocated_routes r" "disagg_routes (note_fastpath_misroute b t r) = disagg_routes r"
  by (simp_all add: note_fastpath_misroute_def Let_def)



section \<open>Heartbeat\<close>

lemma age_publish [simp]: "age_ms now (r_dataplane (publish_next now p r)) = 0"
  by (simp add: age_ms_def publish_next_def rcu_publish_def DataPlaneSnapshot_new_def saturating_sub_def)

lemma age_tick_rebalancer:
  "age_ms (e_now_ms E) (r_dataplane (tick_rebalancer E r)) \<in> {0, age_ms (e_now_ms E) (r_dataplane r)}"
  by (auto simp: tick_rebalancer_def Let_def split: prod.splits option.splits)

lemma check_link_dataplane [simp]: "r_dataplane (check_kernel_admit_link E r) = r_dataplane r"
  by (simp add: check_kernel_admit_link_def split: option.splits)

lemma age_tick_heartbeat:
  "age_ms (e_now_ms E) (r_dataplane r) = 0 \<or> DATAPLANE_RCU_HEARTBEAT_MS \<le> age_ms (e_now_ms E) (r_dataplane r)
   \<Longrightarrow> age_ms (e_now_ms E) (r_dataplane (tick_heartbeat E r)) = 0"
  by (auto simp: tick_heartbeat_def Let_def)

lemma tick_rebalancer_shadow:
  "\<not> rebalancer_actuation r \<Longrightarrow> kernel_admit (tick_rebalancer E r) = kernel_admit r \<and> r_dataplane (tick_rebalancer E r) = r_dataplane r"
  by (simp add: tick_rebalancer_def Let_def split: prod.splits)

lemma heartbeat_drops_dead_link:
  "\<not> rebalancer_actuation r \<Longrightarrow> DATAPLANE_RCU_HEARTBEAT_MS \<le> age_ms (e_now_ms E) (r_dataplane r) \<Longrightarrow> kernel_admit r = Some s \<Longrightarrow>
   \<not> link_alive (e_host E) s (e_kernel E) \<Longrightarrow> kernel_admit (tick_heartbeat E r) = None"
  by (simp add: tick_heartbeat_def Let_def check_kernel_admit_link_def publish_next_def)

lemma tick_regret_keeps:
  "tick_regret E t r = Some r' \<Longrightarrow> r_dataplane r' = r_dataplane r \<and> kernel_admit r' = kernel_admit r"
  by (auto simp: tick_regret_def Let_def bind_eq_Some_conv split: option.splits if_splits)



text \<open>A single prefill backend without a snapshot entry disables the warmth override for the whole pool.\<close>

lemma override_needs_all_snapshots:
  "b \<in> set bs \<Longrightarrow> map_of (prefill s) (label b) = None \<Longrightarrow> override_loop E s blocks isol bs best = None"
proof (induction bs arbitrary: best)
  case (Cons x bs)
  then show ?case by (cases "override_step E s blocks isol x best") (auto simp: override_step_def)
qed simp

text \<open>Without a registry or without an identity, routing is the ungated routing.\<close>

lemma route_without_identity:
  "cache_registry r = None \<or> identity = None \<Longrightarrow> route_with_identity E head identity nid r = route E head nid r"
  by (auto simp: route_with_identity_def route_def split: option.splits)

end
