(* ===== verification/IoUring.thy ===== *)
theory IoUring
  imports Text Dataplane
begin

text \<open>
  The io_uring proxy path (\<open>demiurge-dataplane/src/forwarder_io_uring.rs\<close>): the accept loop, the head
  reader and the byte copy.  The \<open>io_uring\<close> crate and the kernel behind it are the record \<open>uring\<close>:
  pushing a submission, \<open>submit_and_wait\<close>, and the next completion with the bytes a read stored.  A
  slice outside the session's buffer is a panic, \<open>None\<close>.
\<close>

section \<open>The ring\<close>

datatype sqe = Sqe_accept nat | Sqe_read nat nat | Sqe_write nat bytes | Sqe_nop

record 'k uring =
  ur_push :: "sqe \<Rightarrow> 'k \<Rightarrow> 'k option"
  ur_submit_and_wait :: "nat \<Rightarrow> 'k \<Rightarrow> string option \<times> 'k"
  ur_next :: "'k \<Rightarrow> (int \<times> bytes) option \<times> 'k"
  ur_os_error :: "int \<Rightarrow> string"

definition push_entry :: "'k uring \<Rightarrow> sqe \<Rightarrow> 'k \<Rightarrow> (string + unit) \<times> 'k" where
  "push_entry U e k = (case ur_push U e k of None \<Rightarrow> (Inl ''io_uring submission full'', k) | Some k \<Rightarrow> (Inr (), k))"

definition wait_next :: "string \<Rightarrow> 'k uring \<Rightarrow> 'k \<Rightarrow> (string + int \<times> bytes) \<times> 'k" where
  "wait_next missing U k =
     (case ur_submit_and_wait U 1 k of
        (Some e, k) \<Rightarrow> (Inl e, k)
      | (None, k) \<Rightarrow> (case ur_next U k of (None, k) \<Rightarrow> (Inl missing, k) | (Some c, k) \<Rightarrow> (Inr c, k)))"

definition accept_one :: "'k uring \<Rightarrow> nat \<Rightarrow> 'k \<Rightarrow> (string + nat) \<times> 'k" where
  "accept_one U listen_fd k =
     (case push_entry U (Sqe_accept listen_fd) k of
        (Inl e, k) \<Rightarrow> (Inl e, k)
      | (Inr _, k) \<Rightarrow>
          (case wait_next ''missing io_uring accept cqe'' U k of
             (Inl e, k) \<Rightarrow> (Inl e, k)
           | (Inr (fd, _), k) \<Rightarrow> (if fd < 0 then Inl (ur_os_error U (- fd)) else Inr (nat fd), k)))"

section \<open>The proxy session\<close>

definition IOV_MAX :: nat where
  "IOV_MAX = 64 * 1024"

text \<open>The session's state is its buffer; the ring is in \<open>'k\<close>.\<close>

record IoUringProxySession =
  ses_buf :: bytes

definition IoUringProxySession_new :: IoUringProxySession where
  "IoUringProxySession_new = \<lparr>ses_buf = replicate IOV_MAX 0\<rparr>"

definition submit_read :: "'k uring \<Rightarrow> nat \<Rightarrow> nat \<Rightarrow> IoUringProxySession \<Rightarrow> 'k \<Rightarrow> (string + unit) \<times> 'k" where
  "submit_read U fd len s k = push_entry U (Sqe_read fd (min len (length (ses_buf s)))) k"

definition submit_write :: "'k uring \<Rightarrow> nat \<Rightarrow> nat \<Rightarrow> IoUringProxySession \<Rightarrow> 'k \<Rightarrow> (string + unit) \<times> 'k" where
  "submit_write U fd len s k = push_entry U (Sqe_write fd (take len (ses_buf s))) k"

text \<open>A completion of a read has stored its bytes at the start of the buffer.\<close>

definition store :: "bytes \<Rightarrow> IoUringProxySession \<Rightarrow> IoUringProxySession" where
  "store data s = s\<lparr>ses_buf := take (length (ses_buf s)) (data @ drop (length data) (ses_buf s))\<rparr>"

definition wait_cqe :: "'k uring \<Rightarrow> IoUringProxySession \<Rightarrow> 'k \<Rightarrow> (string + int) \<times> IoUringProxySession \<times> 'k" where
  "wait_cqe U s k =
     (case wait_next ''missing io_uring cqe'' U k of
        (Inl e, k) \<Rightarrow> (Inl e, s, k)
      | (Inr (n, data), k) \<Rightarrow> (Inr n, store data s, k))"

text \<open>Both loops begin with a read of at most \<open>len\<close> bytes.\<close>

definition read_chunk :: "'k uring \<Rightarrow> nat \<Rightarrow> nat \<Rightarrow> IoUringProxySession \<Rightarrow> 'k \<Rightarrow> (string + int) \<times> IoUringProxySession \<times> 'k" where
  "read_chunk U fd len s k =
     (case submit_read U fd len s k of (Inl e, k) \<Rightarrow> (Inl e, s, k) | (Inr _, k) \<Rightarrow> wait_cqe U s k)"

function read_head_ring ::
    "'k uring \<Rightarrow> nat \<Rightarrow> nat \<Rightarrow> bytes \<Rightarrow> IoUringProxySession \<Rightarrow> 'k \<Rightarrow> ((string + bytes) \<times> IoUringProxySession \<times> 'k) option" where
  "read_head_ring U fd mx acc s k =
     (if mx \<le> length acc then Some (Inr acc, s, k)
      else case read_chunk U fd (min (mx - length acc) (length (ses_buf s))) s k of
             (Inl e, s, k) \<Rightarrow> Some (Inl e, s, k)
           | (Inr n, s, k) \<Rightarrow>
               if n \<le> 0 then Some (Inr acc, s, k)
               else if length (ses_buf s) < nat n then None
               else let acc = acc @ take (nat n) (ses_buf s)
                    in if ends_with [13, 10, 13, 10] acc then Some (Inr acc, s, k)
                       else read_head_ring U fd mx acc s k)"
  by pat_completeness auto

termination
  by (relation "measure (\<lambda>(U, fd, mx, acc, s, k). mx - length acc)") auto

definition read_http_head ::
    "'k uring \<Rightarrow> nat \<Rightarrow> nat \<Rightarrow> IoUringProxySession \<Rightarrow> 'k \<Rightarrow> ((string + bytes) \<times> IoUringProxySession \<times> 'k) option" where
  "read_http_head U fd mx s k = read_head_ring U fd mx [] s k"

text \<open>
  The copy.  \<open>submit_write\<close> takes \<open>n\<close> bytes of the buffer; only a negative result of the write is
  looked at.
\<close>

definition write_chunk :: "'k uring \<Rightarrow> nat \<Rightarrow> nat \<Rightarrow> IoUringProxySession \<Rightarrow> 'k \<Rightarrow> (string + int) \<times> IoUringProxySession \<times> 'k" where
  "write_chunk U fd n s k =
     (case submit_write U fd n s k of (Inl e, k) \<Rightarrow> (Inl e, s, k) | (Inr _, k) \<Rightarrow> wait_cqe U s k)"

function copy_loop ::
    "'k uring \<Rightarrow> nat \<Rightarrow> nat \<Rightarrow> nat \<Rightarrow> nat \<Rightarrow> IoUringProxySession \<Rightarrow> 'k \<Rightarrow> (string + nat) \<times> IoUringProxySession \<times> 'k" where
  "copy_loop U rfd wfd mx tot s k =
     (if mx \<le> tot then (Inr tot, s, k)
      else case read_chunk U rfd (min (mx - tot) (length (ses_buf s))) s k of
             (Inl e, s, k) \<Rightarrow> (Inl e, s, k)
           | (Inr n, s, k) \<Rightarrow>
               if n \<le> 0 then (Inr tot, s, k)
               else case write_chunk U wfd (nat n) s k of
                      (Inl e, s, k) \<Rightarrow> (Inl e, s, k)
                    | (Inr w, s, k) \<Rightarrow>
                        if w < 0 then (Inl (ur_os_error U (- w)), s, k)
                        else copy_loop U rfd wfd mx (tot + nat n) s k)"
  by pat_completeness auto

termination
  by (relation "measure (\<lambda>(U, rfd, wfd, mx, tot, s, k). mx - tot)") auto

definition copy_stream ::
    "'k uring \<Rightarrow> nat \<Rightarrow> nat \<Rightarrow> nat \<Rightarrow> IoUringProxySession \<Rightarrow> 'k \<Rightarrow> (string + nat) \<times> IoUringProxySession \<times> 'k" where
  "copy_stream U rfd wfd mx s k = copy_loop U rfd wfd mx 0 s k"

definition copy_between :: "'k uring \<Rightarrow> nat \<Rightarrow> nat \<Rightarrow> nat \<Rightarrow> 'k \<Rightarrow> (string + nat) \<times> 'k" where
  "copy_between U rfd wfd mx k = (let (res, s, k) = copy_stream U rfd wfd mx IoUringProxySession_new k in (res, k))"

definition bench_forward_nop :: "'k uring \<Rightarrow> 'k \<Rightarrow> (string + unit) \<times> 'k" where
  "bench_forward_nop U k =
     (case push_entry U Sqe_nop k of
        (Inl e, k) \<Rightarrow> (Inl e, k)
      | (Inr _, k) \<Rightarrow>
          (case ur_submit_and_wait U 1 k of
             (Some e, k) \<Rightarrow> (Inl e, k)
           | (None, k) \<Rightarrow> (Inr (), snd (ur_next U k))))"

section \<open>What the kernel promises\<close>

text \<open>
  \<open>inp k fd\<close> is what can still be read from \<open>fd\<close>, \<open>out k fd\<close> what was written to it.  A read returns at
  most the length asked for and consumes what it returns; a write appends a prefix of its data.
\<close>

definition completes :: "'k uring \<Rightarrow> sqe \<Rightarrow> 'k \<Rightarrow> int \<Rightarrow> bytes \<Rightarrow> 'k \<Rightarrow> bool" where
  "completes U e k n data k3 \<longleftrightarrow>
     (\<exists>k1 k2. ur_push U e k = Some k1 \<and> ur_submit_and_wait U 1 k1 = (None, k2) \<and> ur_next U k2 = (Some (n, data), k3))"

definition ring_contract :: "'k uring \<Rightarrow> ('k \<Rightarrow> nat \<Rightarrow> bytes) \<Rightarrow> ('k \<Rightarrow> nat \<Rightarrow> bytes) \<Rightarrow> bool" where
  "ring_contract U inp out \<longleftrightarrow>
     (\<forall>fd len k n data k'. completes U (Sqe_read fd len) k n data k' \<longrightarrow>
        n \<le> int len \<and> length data = nat n \<and> inp k fd = data @ inp k' fd \<and> out k' = out k)
     \<and> (\<forall>fd d k n data k'. completes U (Sqe_write fd d) k n data k' \<longrightarrow>
        n \<le> int (length d) \<and> data = [] \<and> inp k' = inp k \<and> out k' = (out k)(fd := out k fd @ take (nat n) d))"

definition full_writes :: "'k uring \<Rightarrow> bool" where
  "full_writes U \<longleftrightarrow> (\<forall>fd d k n data k'. completes U (Sqe_write fd d) k n data k' \<longrightarrow> 0 \<le> n \<longrightarrow> n = int (length d))"

lemma length_store [simp]: "length (ses_buf (store data s)) = length (ses_buf s)"
  by (simp add: store_def)

lemma take_store: "length data \<le> length (ses_buf s) \<Longrightarrow> take (length data) (ses_buf (store data s)) = data"
  by (simp add: store_def)

lemma store_Nil [simp]: "store [] s = s"
  by (simp add: store_def)

text \<open>A successful push and wait is a completion.\<close>

lemma push_wait:
  assumes "push_entry U e k = (Inr u, k1)" "wait_cqe U s k1 = (Inr n, s', k')"
  shows "\<exists>data. completes U e k n data k' \<and> s' = store data s"
  using assms
  by (auto simp: push_entry_def wait_cqe_def wait_next_def completes_def split: option.splits prod.splits sum.splits)

lemma read_chunkD:
  assumes "ring_contract U inp out" "read_chunk U fd len s k = (Inr n, s', k')"
  shows "n \<le> int (min len (length (ses_buf s))) \<and> length (ses_buf s') = length (ses_buf s)
    \<and> inp k fd = take (nat n) (ses_buf s') @ inp k' fd \<and> out k' = out k"
proof -
  obtain k1 u where p: "push_entry U (Sqe_read fd (min len (length (ses_buf s)))) k = (Inr u, k1)" "wait_cqe U s k1 = (Inr n, s', k')"
    using assms(2) by (auto simp: read_chunk_def submit_read_def split: prod.splits sum.splits)
  from push_wait [OF p] obtain data where d: "completes U (Sqe_read fd (min len (length (ses_buf s)))) k n data k'" "s' = store data s" by blast
  have c: "n \<le> int (min len (length (ses_buf s)))" "length data = nat n" "inp k fd = data @ inp k' fd" "out k' = out k"
    using assms(1) d(1) unfolding ring_contract_def by blast+
  have "take (nat n) (ses_buf s') = data" using take_store [of data s] c(1,2) d(2) by simp
  then show ?thesis using c d(2) by simp
qed

lemma write_chunkD:
  assumes "ring_contract U inp out" "full_writes U" "write_chunk U fd m s k = (Inr w, s', k')" "0 \<le> w"
  shows "s' = s \<and> inp k' = inp k \<and> out k' = (out k)(fd := out k fd @ take m (ses_buf s))"
proof -
  obtain k1 u where p: "push_entry U (Sqe_write fd (take m (ses_buf s))) k = (Inr u, k1)" "wait_cqe U s k1 = (Inr w, s', k')"
    using assms(3) by (auto simp: write_chunk_def submit_write_def split: prod.splits sum.splits)
  from push_wait [OF p] obtain data where d: "completes U (Sqe_write fd (take m (ses_buf s))) k w data k'" "s' = store data s" by blast
  have "data = []" "inp k' = inp k" "out k' = (out k)(fd := out k fd @ take (nat w) (take m (ses_buf s)))"
    using assms(1) d(1) unfolding ring_contract_def by blast+
  moreover have "w = int (length (take m (ses_buf s)))" using assms(2,4) d(1) unfolding full_writes_def by blast
  ultimately show ?thesis using d(2) by (simp add: min_def)
qed

lemma copy_loop_exact:
  assumes "ring_contract U inp out" "full_writes U" "copy_loop U rfd wfd mx tot s k = (Inr n, s', k')" "tot \<le> mx"
  shows "tot \<le> n \<and> n \<le> mx \<and> (\<exists>d. length d = n - tot \<and> inp k rfd = d @ inp k' rfd \<and> out k' wfd = out k wfd @ d)"
  using assms
proof (induction U rfd wfd mx tot s k rule: copy_loop.induct)
  case (1 U rfd wfd mx tot s k)
  show ?case
  proof (cases "mx \<le> tot")
    case True
    then show ?thesis using 1(4,5) by simp
  next
    case False
    obtain q s1 k1 where rd: "read_chunk U rfd (min (mx - tot) (length (ses_buf s))) s k = (q, s1, k1)" by (cases "read_chunk U rfd (min (mx - tot) (length (ses_buf s))) s k") auto
    show ?thesis
    proof (cases q)
      case (Inl e)
      then show ?thesis using 1(4) False rd by simp
    next
      case (Inr m)
      note r = read_chunkD [OF 1(2) rd [unfolded Inr]]
      show ?thesis
      proof (cases "m \<le> 0")
        case True
        then show ?thesis using 1(4,5) False rd Inr r by simp
      next
        case pos: False
        obtain v s2 k2 where wr: "write_chunk U wfd (nat m) s1 k1 = (v, s2, k2)" by (cases "write_chunk U wfd (nat m) s1 k1") auto
        with 1(4) False rd Inr pos obtain w where v: "v = Inr w" "0 \<le> w"
          and rest: "copy_loop U rfd wfd mx (tot + nat m) s2 k2 = (Inr n, s', k')"
          by (cases v) (auto simp: not_less split: if_splits)
        note w = write_chunkD [OF 1(2,3) wr [unfolded v(1)] v(2)]
        have le: "tot + nat m \<le> mx" using r False pos by auto
        have ih: "tot + nat m \<le> n \<and> n \<le> mx \<and> (\<exists>d. length d = n - (tot + nat m) \<and> inp k2 rfd = d @ inp k' rfd \<and> out k' wfd = out k2 wfd @ d)"
          using "1.IH" [OF False rd [symmetric] Inr refl pos wr [symmetric] v(1) refl _ 1(2,3) rest le] v(2) by simp
        then obtain d where d: "length d = n - (tot + nat m)" "inp k2 rfd = d @ inp k' rfd" "out k' wfd = out k2 wfd @ d" by blast
        have len: "length (take (nat m) (ses_buf s1)) = nat m" using r pos by auto
        show ?thesis
          using ih d w r len by (intro conjI exI [of _ "take (nat m) (ses_buf s1) @ d"]) auto
      qed
    qed
  qed
qed

lemma read_head_ring_spec:
  assumes "ring_contract U inp out" "length acc \<le> mx"
  shows "\<exists>q s' k'. read_head_ring U fd mx acc s k = Some (q, s', k')
    \<and> (\<forall>head. q = Inr head \<longrightarrow> length head \<le> mx \<and> (\<exists>d. head = acc @ d \<and> inp k fd = d @ inp k' fd))"
  using assms
proof (induction U fd mx acc s k rule: read_head_ring.induct)
  case (1 U fd mx acc s k)
  show ?case
  proof (cases "mx \<le> length acc")
    case True
    then show ?thesis using 1(3) by simp
  next
    case False
    obtain q s1 k1 where rd: "read_chunk U fd (min (mx - length acc) (length (ses_buf s))) s k = (q, s1, k1)"
      by (cases "read_chunk U fd (min (mx - length acc) (length (ses_buf s))) s k") auto
    show ?thesis
    proof (cases q)
      case (Inl e)
      then show ?thesis using False rd by simp
    next
      case (Inr n)
      note r = read_chunkD [OF 1(2) rd [unfolded Inr]]
      show ?thesis
      proof (cases "n \<le> 0")
        case True
        then show ?thesis using False rd Inr r by simp
      next
        case pos: False
        let ?acc = "acc @ take (nat n) (ses_buf s1)"
        have fits: "\<not> length (ses_buf s1) < nat n" and le: "length ?acc \<le> mx" using r pos False by auto
        show ?thesis
        proof (cases "ends_with [13, 10, 13, 10] ?acc")
          case True
          then show ?thesis using False rd Inr pos fits le r by simp
        next
          case more: False
          have "\<exists>q s' k'. read_head_ring U fd mx ?acc s1 k1 = Some (q, s', k')
              \<and> (\<forall>head. q = Inr head \<longrightarrow> length head \<le> mx \<and> (\<exists>d. head = ?acc @ d \<and> inp k1 fd = d @ inp k' fd))"
            using "1.IH" [OF False rd [symmetric] Inr refl pos fits refl more 1(2) le] .
          then show ?thesis using False rd Inr pos fits more r by (auto simp: Let_def simp del: read_head_ring.simps) (subst read_head_ring.simps; force)
        qed
      qed
    qed
  qed
qed

section \<open>Properties\<close>


text \<open>The head reader returns on every kernel that keeps its contract, without a panic; a head it returns
  is at most \<open>max\<close> bytes long and is exactly what it consumed from the connection.\<close>

theorem read_http_head_total:
  assumes "ring_contract U inp out"
  shows "\<exists>q s' k'. read_http_head U fd mx s k = Some (q, s', k')
    \<and> (\<forall>head. q = Inr head \<longrightarrow> length head \<le> mx \<and> inp k fd = head @ inp k' fd)"
  using read_head_ring_spec [OF assms, of "[]" mx fd s k] by (simp add: read_http_head_def)

section \<open>A pipe behind the ring\<close>

text \<open>One pending entry; reads deliver at most \<open>seg\<close> bytes, writes take at most \<open>wlim\<close> when it is set.\<close>

record pipe =
  p_in :: "nat \<Rightarrow> bytes"
  p_out :: "nat \<Rightarrow> bytes"
  p_pending :: "sqe option"

definition pipe_next :: "nat \<Rightarrow> nat option \<Rightarrow> pipe \<Rightarrow> (int \<times> bytes) option \<times> pipe" where
  "pipe_next seg wlim k =
     (case p_pending k of
        Some (Sqe_read fd len) \<Rightarrow>
          let d = take (min seg len) (p_in k fd)
          in (Some (int (length d), d), k\<lparr>p_pending := None, p_in := (p_in k)(fd := drop (min seg len) (p_in k fd))\<rparr>)
      | Some (Sqe_write fd d) \<Rightarrow>
          let n = (case wlim of Some l \<Rightarrow> min l (length d) | None \<Rightarrow> length d)
          in (Some (int n, []), k\<lparr>p_pending := None, p_out := (p_out k)(fd := p_out k fd @ take n d)\<rparr>)
      | _ \<Rightarrow> (None, k))"

definition pipe_ring :: "nat \<Rightarrow> nat option \<Rightarrow> pipe uring" where
  "pipe_ring seg wlim =
     \<lparr>ur_push = \<lambda>e k. (case p_pending k of None \<Rightarrow> Some (k\<lparr>p_pending := Some e\<rparr>) | Some _ \<Rightarrow> None),
      ur_submit_and_wait = \<lambda>_ k. (None, k), ur_next = pipe_next seg wlim, ur_os_error = \<lambda>_. ''os error''\<rparr>"

definition pipe_with :: "bytes \<Rightarrow> pipe" where
  "pipe_with d = \<lparr>p_in = (\<lambda>_. [])(0 := d), p_out = \<lambda>_. [], p_pending = None\<rparr>"

definition small_session :: IoUringProxySession where
  "small_session = \<lparr>ses_buf = [0, 0, 0, 0, 0, 0, 0, 0]\<rparr>"

lemma pipe_ring_contract: "ring_contract (pipe_ring seg wlim) p_in p_out"
  by (auto simp: ring_contract_def completes_def pipe_ring_def pipe_next_def Let_def split: option.splits)

lemma pipe_ring_full: "full_writes (pipe_ring seg None)"
  by (auto simp: full_writes_def completes_def pipe_ring_def pipe_next_def Let_def split: option.splits)


theorem read_http_head_total_witness:
  "\<exists>q s' k'. read_http_head (pipe_ring 8 None) 0 64 small_session (pipe_with (ascii ''GET'' @ [13, 10, 13, 10])) = Some (q, s', k')"
  using read_http_head_total [OF pipe_ring_contract] by blast

text \<open>A short write is counted in full: three bytes reported, one delivered.\<close>

lemma copy_stream_short_write:
  "fst (copy_stream (pipe_ring 4 (Some 1)) 0 1 100 small_session (pipe_with [1, 2, 3])) = Inr 3"
  "p_out (snd (snd (copy_stream (pipe_ring 4 (Some 1)) 0 1 100 small_session (pipe_with [1, 2, 3])))) 1 = [1]"
  by code_simp+

text \<open>A stream longer than \<open>max_bytes\<close> is cut off and the copy reports success.\<close>

lemma copy_stream_truncates:
  "fst (copy_stream (pipe_ring 4 None) 0 1 2 small_session (pipe_with [1, 2, 3])) = Inr 2"
  "p_in (snd (snd (copy_stream (pipe_ring 4 None) 0 1 2 small_session (pipe_with [1, 2, 3])))) 0 = [3]"
  by code_simp+

text \<open>The terminator is looked for at the end of a read only: bytes after it in the same segment hide it, and
  the reader goes on to the next segment.\<close>

lemma read_http_head_misses_terminator:
  "map_option fst (read_http_head (pipe_ring 5 None) 0 64 small_session (pipe_with ([13, 10, 13, 10] @ [66] @ [67])))
     = Some (Inr [13, 10, 13, 10, 66, 67])"
  by code_simp

end
