(* ===== verification/Serve.thy ===== *)
theory Serve
  imports Routing IoUring
begin

text \<open>
  Serving (\<open>demiurge-router/src/serve.rs\<close>): the admission of a connection, its handler with head reading,
  routing, prefill and proxying, the dispatch to the workers' queues, the accept loop with its workers,
  and the connection budget under concurrent acceptors as a step relation.  What sockets, rings and
  threads deliver is a record of the connection; the bytes moved by \<open>io::copy\<close> are not modelled, only
  which pump moves them and what the proxy returns.  \<open>None\<close> is a panic in the handler or its prefill
  worker.
\<close>

section \<open>Admission\<close>

datatype AdmitConn = AdmitShed | Proceed bool

definition admit_conn :: "'b Router \<Rightarrow> AdmitConn \<times> 'b Router" where
  "admit_conn r =
     (if \<not> uses_userspace_admit (r_admit_mode r) (kernel_admit_attached r) then (Proceed False, r)
      else let (res, b) = try_admit (r_admit r); r = r\<lparr>r_admit := b\<rparr>
           in case res of Inl _ \<Rightarrow> (AdmitShed, r) | Inr _ \<Rightarrow> (Proceed True, r))"

definition admit_guard_drop :: "bool \<Rightarrow> 'b Router \<Rightarrow> 'b Router" where
  "admit_guard_drop guard r = (if guard then r\<lparr>r_admit := release 1 (r_admit r)\<rparr> else r)"

section \<open>One connection\<close>

definition UNAVAILABLE :: bytes where
  "UNAVAILABLE = ascii ''HTTP/1.1 503 Service Unavailable'' @ [13, 10] @ ascii ''content-length: 0'' @ [13, 10, 13, 10]"

datatype send_result = Sent | Full | Disconnected

text \<open>
  What the sockets answer while a backend is proxied: connecting, writing the head, cloning handles, the
  forward copy over the ring, and the state of the pump pool's queue.
\<close>

record proxy_io =
  px_connect :: "string + unit"
  px_write_head :: "string + unit"
  px_clone :: "string + unit"
  px_ring_copy :: "string + nat"
  px_pump :: send_result
  px_clone_read :: "string + unit"

text \<open>Who moves the bytes from the backend to the client.\<close>

datatype pump = PumpPool | OneShot | RingThread

definition proxy_io_result :: "bool \<Rightarrow> proxy_io \<Rightarrow> (string + unit) \<times> pump option" where
  "proxy_io_result ring io =
     (case and_then (px_connect io) (\<lambda>_. and_then (px_write_head io) (\<lambda>_. px_clone io)) of
        Inl e \<Rightarrow> (Inl e, None)
      | Inr _ \<Rightarrow>
          if ring then (and_then (px_ring_copy io) (\<lambda>_. Inr ()), Some RingThread)
          else (px_clone_read io, Some (case px_pump io of Sent \<Rightarrow> PumpPool | _ \<Rightarrow> OneShot)))"

text \<open>The guard decrements the backend's counter on every way out.\<close>

definition proxy_to_backend :: "bool \<Rightarrow> proxy_io \<Rightarrow> Backend \<Rightarrow> ((string + unit) \<times> pump option) \<times> Backend" where
  "proxy_to_backend ring io b =
     (let b = incr_inflight b; res = proxy_io_result ring io in (res, decr_inflight b))"

text \<open>
  The connection as the handler meets it: the ring opened for it (with the client's descriptor), the
  reads of its socket, the prefill exchange and the proxy exchange per backend.
\<close>

record 'u conn_io =
  c_ring :: "('u uring \<times> nat \<times> 'u) option"
  c_reads :: "(string + bytes) list"
  c_show :: "nat \<Rightarrow> string"
  c_prefill :: "Backend \<Rightarrow> (string + bytes) \<times> nat"
  c_proxy :: "Backend \<Rightarrow> proxy_io"

definition io_uring_proxy_session :: "'u conn_io \<Rightarrow> 'b Router \<Rightarrow> ('u uring \<times> nat \<times> 'u) option" where
  "io_uring_proxy_session C r = (if r_io_uring r then c_ring C else None)"

definition conn_head :: "('u uring \<times> nat \<times> 'u) option \<Rightarrow> (string + bytes) list \<Rightarrow> (string + bytes) option" where
  "conn_head session reads =
     (case session of
        Some (U, fd, k) \<Rightarrow> map_option fst (read_http_head U fd MAX_HEAD IoUringProxySession_new k)
      | None \<Rightarrow> Some (read_head reads))"

text \<open>What becomes of the client: an I/O error, a reply, or a proxied backend with the proxy's result.\<close>

datatype conn_outcome = IoErr string | Reply bytes | Proxied "(string + unit) \<times> pump option" Backend

definition proxied :: "bool \<Rightarrow> 'u conn_io \<Rightarrow> Backend \<Rightarrow> conn_outcome" where
  "proxied ring C b = (case proxy_to_backend ring (c_proxy C b) b of (res, b) \<Rightarrow> Proxied res b)"

text \<open>The callback of the prefill worker: its message is the placement or a route error.\<close>

definition prefill_done ::
    "('b, 'k) renv \<Rightarrow> string \<Rightarrow> 'b Router \<Rightarrow> PrefillSignals \<Rightarrow> string + bytes \<Rightarrow> ((RouteError + DecodePlacement) \<times> 'b Router) option" where
  "prefill_done E pl r signals io_result =
     (case io_result of
        Inl e \<Rightarrow> Some (Inl (PrefillIo e), r)
      | Inr response \<Rightarrow> on_prefill_complete E signals response pl r)"

definition drop_reservation :: "DecodePlacement \<Rightarrow> 'b Router \<Rightarrow> 'b Router" where
  "drop_reservation p r =
     (case (dp_reservation p, r_ledger r) of
        (Some g, Some L) \<Rightarrow> r\<lparr>r_ledger := Some (guard_drop g L)\<rparr> | _ \<Rightarrow> r)"

definition handle_disaggregated ::
    "('b, 'k) renv \<Rightarrow> 'u conn_io \<Rightarrow> bool \<Rightarrow> Backend \<Rightarrow> u64 \<Rightarrow> u64 \<Rightarrow> 'b Router \<Rightarrow> (conn_outcome \<times> 'b Router) option" where
  "handle_disaggregated E C ring pf rid toks r =
     do { (res, r) \<leftarrow> dispatch_prefill (c_show C) (c_prefill C) pf rid toks (prefill_done E (label pf) r);
          Some (case res of
                  Inl _ \<Rightarrow> (Reply UNAVAILABLE, r)
                | Inr p \<Rightarrow> (proxied ring C (dp_backend p), drop_reservation p r)) }"

definition handle_conn ::
    "('b, 'k) renv \<Rightarrow> 'u conn_io \<Rightarrow> u64 \<Rightarrow> 'b Router \<Rightarrow> (conn_outcome \<times> u64 \<times> 'b Router) option" where
  "handle_conn E C nid r =
     (case admit_conn r of
        (AdmitShed, r) \<Rightarrow> Some (Reply UNAVAILABLE, nid, r)
      | (Proceed guard, r) \<Rightarrow>
          let session = io_uring_proxy_session C r; ring = (session \<noteq> None)
          in do { head_read \<leftarrow> conn_head session (c_reads C);
                  (case head_read of
                     Inl e \<Rightarrow> Some (IoErr e, nid, admit_guard_drop guard r)
                   | Inr head \<Rightarrow>
                       do { (res, nid, r) \<leftarrow> route_with_identity E head (parse_request_identity (e_hash E) head) nid r;
                            (out, r) \<leftarrow>
                              (case res of
                                 Inl _ \<Rightarrow> Some (Reply UNAVAILABLE, r)
                               | Inr (Colocated b) \<Rightarrow> Some (proxied ring C b, r)
                               | Inr (DecodeOnly b) \<Rightarrow> Some (proxied ring C b, r)
                               | Inr (Disaggregated pf rid toks) \<Rightarrow> handle_disaggregated E C ring pf rid toks r);
                            Some (out, nid, admit_guard_drop guard r) }) })"

section \<open>Dispatch to workers\<close>

definition worker_thread_count :: "u64 option \<Rightarrow> nat" where
  "worker_thread_count v = (case v of Some n \<Rightarrow> if 0 < n then unat n else 256 | None \<Rightarrow> 256)"

definition pump_pool_size :: "u64 option \<Rightarrow> u64 option \<Rightarrow> nat" where
  "pump_pool_size v workers =
     (case v of Some n \<Rightarrow> if 0 < n then unat n else max (worker_thread_count workers) 32 | None \<Rightarrow> max (worker_thread_count workers) 32)"

definition WORKER_BACKLOG :: nat where
  "WORKER_BACKLOG = 2"

text \<open>A worker queue: its backlog, and whether its receiver is alive.\<close>

type_synonym queue = "nat \<times> bool"

definition try_send :: "nat \<Rightarrow> queue list \<Rightarrow> send_result \<times> queue list" where
  "try_send idx qs =
     (let (n, alive) = qs ! idx
      in if \<not> alive then (Disconnected, qs)
         else if n < WORKER_BACKLOG then (Sent, qs[idx := (n + 1, alive)])
         else (Full, qs))"

text \<open>The attempts of one dispatch, from \<open>next\<close> around the ring: the worker that took the job, if any.\<close>

fun dispatch_loop :: "nat \<Rightarrow> nat list \<Rightarrow> queue list \<Rightarrow> (send_result \<times> nat) \<times> queue list" where
  "dispatch_loop nxt [] qs = ((Full, nxt), qs)"
| "dispatch_loop nxt (attempt # attempts) qs =
     (let idx = (nxt + attempt) mod length qs
      in case try_send idx qs of
           (Sent, qs) \<Rightarrow> ((Sent, (idx + 1) mod 2 ^ 64), qs)
         | (Full, qs) \<Rightarrow> dispatch_loop nxt attempts qs
         | (Disconnected, qs) \<Rightarrow> ((Disconnected, nxt), qs))"

text \<open>
  The result of \<open>dispatch_conn\<close>: whether the accept loop goes on, what the client was sent at once, the
  slot counter, the cursor and the queues.  A slot goes with the job into a queue or is given back.
\<close>

definition dispatch_conn :: "nat \<Rightarrow> nat \<Rightarrow> nat \<Rightarrow> queue list \<Rightarrow> (bool \<times> bytes option) \<times> nat \<times> nat \<times> queue list" where
  "dispatch_conn lv max_conns nxt qs =
     (if max_conns \<le> lv then ((True, Some UNAVAILABLE), lv, nxt, qs)
      else case dispatch_loop nxt [0..<length qs] qs of
             ((Sent, nxt), qs) \<Rightarrow> ((True, None), lv + 1, nxt, qs)
           | ((Full, nxt), qs) \<Rightarrow> ((True, Some UNAVAILABLE), lv, nxt, qs)
           | ((Disconnected, nxt), qs) \<Rightarrow> ((False, None), lv, nxt, qs))"

section \<open>The accept loop and its workers\<close>

text \<open>
  The accept loop and the workers as one state: the slot counter, the cursor, the queues, which workers
  run a handler, and whether the loop still runs.  A worker takes a job (\<open>Take\<close>), its handler returns
  (\<open>Finish\<close>), or it panics (\<open>Crash\<close>): the job's slot is dropped with it, and the receiver with the jobs
  still queued.
\<close>

record serve_state =
  sv_live :: nat
  sv_next :: nat
  sv_queues :: "queue list"
  sv_busy :: "bool list"
  sv_running :: bool

datatype serve_event = Accepted | AcceptFailed | Take nat | Finish nat | Crash nat

definition spawn_conn_workers :: "nat \<Rightarrow> queue list" where
  "spawn_conn_workers workers = replicate workers (0, True)"

definition serve_start :: "u64 option \<Rightarrow> serve_state" where
  "serve_start v =
     (let workers = max (worker_thread_count v) 1
      in \<lparr>sv_live = 0, sv_next = 0, sv_queues = spawn_conn_workers workers, sv_busy = replicate workers False, sv_running = True\<rparr>)"

fun accept_step :: "nat \<Rightarrow> serve_event \<Rightarrow> serve_state \<Rightarrow> serve_state" where
  "accept_step max_conns AcceptFailed s = s"
| "accept_step max_conns Accepted s =
     (if \<not> sv_running s then s
      else case dispatch_conn (sv_live s) (max max_conns 1) (sv_next s) (sv_queues s) of
             ((go, _), lv, nxt, qs) \<Rightarrow> s\<lparr>sv_live := lv, sv_next := nxt, sv_queues := qs, sv_running := go\<rparr>)"
| "accept_step max_conns (Take i) s =
     (if i < length (sv_queues s) \<and> snd (sv_queues s ! i) \<and> 0 < fst (sv_queues s ! i) \<and> \<not> sv_busy s ! i
      then s\<lparr>sv_queues := (sv_queues s)[i := (fst (sv_queues s ! i) - 1, True)], sv_busy := (sv_busy s)[i := True]\<rparr>
      else s)"
| "accept_step max_conns (Finish i) s =
     (if i < length (sv_busy s) \<and> sv_busy s ! i
      then s\<lparr>sv_live := sv_live s - 1, sv_busy := (sv_busy s)[i := False]\<rparr> else s)"
| "accept_step max_conns (Crash i) s =
     (if i < length (sv_busy s) \<and> sv_busy s ! i
      then s\<lparr>sv_live := sv_live s - 1 - fst (sv_queues s ! i), sv_queues := (sv_queues s)[i := (0, False)],
             sv_busy := (sv_busy s)[i := False]\<rparr> else s)"

definition serve_std_accept :: "nat \<Rightarrow> u64 option \<Rightarrow> serve_event list \<Rightarrow> serve_state" where
  "serve_std_accept max_conns v es = fold (accept_step max_conns) es (serve_start v)"

text \<open>The io_uring loop differs in its errors: an interrupted accept is retried, any other ends it.\<close>

datatype ring_accept = RingAccepted | RingInterrupted | RingError string

fun serve_iouring_accept :: "nat \<Rightarrow> (ring_accept + serve_event) list \<Rightarrow> serve_state \<Rightarrow> (string + unit) \<times> serve_state" where
  "serve_iouring_accept max_conns [] s = (Inr (), s)"
| "serve_iouring_accept max_conns (Inr e # es) s =
     serve_iouring_accept max_conns es (if e = Accepted then s else accept_step max_conns e s)"
| "serve_iouring_accept max_conns (Inl RingInterrupted # es) s = serve_iouring_accept max_conns es s"
| "serve_iouring_accept max_conns (Inl (RingError e) # es) s = (Inl e, s\<lparr>sv_running := False\<rparr>)"
| "serve_iouring_accept max_conns (Inl RingAccepted # es) s =
     (let s = accept_step max_conns Accepted s
      in if sv_running s then serve_iouring_accept max_conns es s else (Inr (), s))"

definition uses_iouring_accept :: "string option \<Rightarrow> 'b Router \<Rightarrow> bool" where
  "uses_iouring_accept env r \<longleftrightarrow> r_io_uring r \<or> io_uring_enabled_from_env env"

section \<open>The connection budget under concurrency\<close>

text \<open>
  \<open>try_conn_slot\<close> increments first and looks at what it found; a refused acceptor decrements again.
  \<open>Claimed prev\<close> is the point between the increment and the test, \<open>Refused\<close> the point before the
  decrement, \<open>Holding\<close> a live \<open>ConnSlot\<close>.
\<close>

datatype slot_pc = SlotIdle | Claimed nat | Refused | Holding

inductive slot_step :: "nat \<Rightarrow> nat \<times> (nat \<Rightarrow> slot_pc) \<Rightarrow> nat \<times> (nat \<Rightarrow> slot_pc) \<Rightarrow> bool" for max_conns where
  fetch_add: "pc t = SlotIdle \<Longrightarrow> slot_step max_conns (lv, pc) (lv + 1, pc(t := Claimed lv))"
| test: "pc t = Claimed prev \<Longrightarrow>
     slot_step max_conns (lv, pc) (lv, pc(t := (if max_conns \<le> prev then Refused else Holding)))"
| give_back: "pc t = Refused \<Longrightarrow> slot_step max_conns (lv, pc) (lv - 1, pc(t := SlotIdle))"
| drop_slot: "pc t = Holding \<Longrightarrow> slot_step max_conns (lv, pc) (lv - 1, pc(t := SlotIdle))"

inductive_cases slot_stepE: "slot_step m (lv, pc) w"

section \<open>Lemmas\<close>

definition active :: "(nat \<Rightarrow> slot_pc) \<Rightarrow> nat set" where
  "active pc = {t. pc t \<noteq> SlotIdle}"

fun granted :: "nat \<Rightarrow> slot_pc \<Rightarrow> bool" where
  "granted m Holding = True"
| "granted m (Claimed prev) = (prev < m)"
| "granted m p = False"

definition slot_inv :: "nat \<Rightarrow> nat \<times> (nat \<Rightarrow> slot_pc) \<Rightarrow> bool" where
  "slot_inv m = (\<lambda>(lv, pc). finite (active pc) \<and> lv = card (active pc) \<and> card {t. granted m (pc t)} \<le> m)"

lemma granted_active: "{t. granted m (pc t)} \<subseteq> active pc"
  by (auto simp: active_def)

lemma active_upd: "active (pc(t := p)) = (if p = SlotIdle then active pc - {t} else insert t (active pc))"
  by (auto simp: active_def)

lemma granted_upd: "{u. granted m ((pc(t := p)) u)} = (if granted m p then insert t {u. granted m (pc u)} else {u. granted m (pc u)} - {t})"
  by auto

lemma slot_inv_leave:
  assumes "slot_inv m (lv, pc)" "pc t \<noteq> SlotIdle"
  shows "slot_inv m (lv - 1, pc(t := SlotIdle))"
proof -
  have fin: "finite (active pc)" "t \<in> active pc" using assms by (auto simp: slot_inv_def active_def)
  have "card ({u. granted m (pc u)} - {t}) \<le> card {u. granted m (pc u)}"
    by (rule card_mono) (auto intro: finite_subset [OF granted_active fin(1)])
  then show ?thesis using assms fin by (simp add: slot_inv_def active_upd granted_upd del: fun_upd_apply)
qed

lemma slot_inv_step: "slot_step m w w' \<Longrightarrow> slot_inv m w \<Longrightarrow> slot_inv m w'"
proof (induction rule: slot_step.induct)
  case (fetch_add pc t lv)
  have fin: "finite (active pc)" "t \<notin> active pc" "lv = card (active pc)" "card {u. granted m (pc u)} \<le> m"
    using fetch_add by (auto simp: slot_inv_def active_def)
  have "card {u. granted m (pc u)} \<le> lv" unfolding fin(3) by (rule card_mono [OF fin(1) granted_active])
  moreover have "card (insert t {u. granted m (pc u)}) \<le> Suc (card {u. granted m (pc u)})" by (rule card_insert_le_m1) simp_all
  moreover have "card ({u. granted m (pc u)} - {t}) \<le> card {u. granted m (pc u)}"
    by (rule card_mono) (auto intro: finite_subset [OF granted_active fin(1)])
  ultimately show ?case using fin by (simp add: slot_inv_def active_upd granted_upd del: fun_upd_apply)
next
  case (test pc t prev lv)
  have t: "t \<in> active pc" using test by (simp add: active_def)
  have "{u. granted m ((pc(t := (if m \<le> prev then Refused else Holding))) u)} = {u. granted m (pc u)}"
    using test(1) by (auto split: if_splits)
  moreover have "active (pc(t := (if m \<le> prev then Refused else Holding))) = active pc" using t by (auto simp: active_upd)
  ultimately show ?case using test(2) by (simp only: slot_inv_def prod.case)
next
  case (give_back pc t lv)
  then show ?case using slot_inv_leave by auto
next
  case (drop_slot pc t lv)
  then show ?case using slot_inv_leave by auto
qed

lemma slot_inv_reachable: "(slot_step m)\<^sup>*\<^sup>* (0, \<lambda>_. SlotIdle) w \<Longrightarrow> slot_inv m w"
proof (induction rule: rtranclp_induct)
  case base
  then show ?case by (simp add: slot_inv_def active_def)
next
  case (step w w')
  show ?case by (rule slot_inv_step [OF step.hyps(2) step.IH])
qed

section \<open>Properties\<close>

text \<open>C24: the connection budget holds under races: however acceptors and closing connections interleave,
  no more than \<open>max_conns\<close> connections hold a slot, the counter counts exactly the slots held or being
  claimed (so it never underflows), and it is back at zero when all are idle.\<close>

theorem conn_slots_bounded:
  assumes "(slot_step max_conns)\<^sup>*\<^sup>* (0, \<lambda>_. SlotIdle) (lv, pc)"
  shows "card {t. pc t = Holding} \<le> max_conns \<and> lv = card (active pc) \<and> ((\<forall>t. pc t = SlotIdle) \<longrightarrow> lv = 0)"
proof -
  have inv: "slot_inv max_conns (lv, pc)" using assms by (rule slot_inv_reachable)
  then have "finite {t. granted max_conns (pc t)}" by (auto simp: slot_inv_def intro: finite_subset [OF granted_active])
  then have "card {t. pc t = Holding} \<le> card {t. granted max_conns (pc t)}" by (rule card_mono) auto
  then show ?thesis using inv by (auto simp: slot_inv_def active_def)
qed

theorem conn_slots_bounded_witness:
  "(slot_step 1)\<^sup>*\<^sup>* (0, \<lambda>_. SlotIdle) (1, (\<lambda>_. SlotIdle)(3 := Holding)) \<and> card {t. ((\<lambda>_. SlotIdle)(3 := Holding)) t = Holding} \<le> (1 :: nat)"
proof -
  have 1: "slot_step 1 (0, \<lambda>_. SlotIdle) (1, (\<lambda>_. SlotIdle)(3 := Claimed 0))"
    using fetch_add [of "\<lambda>_. SlotIdle" 3 1 0] by simp
  have 2: "slot_step 1 (1, (\<lambda>_. SlotIdle)(3 := Claimed 0)) (1, (\<lambda>_. SlotIdle)(3 := Holding))"
    using test [of "(\<lambda>_. SlotIdle)(3 := Claimed 0)" 3 0 1 1] by simp
  have r: "(slot_step 1)\<^sup>*\<^sup>* (0, \<lambda>_. SlotIdle) (1, (\<lambda>_. SlotIdle)(3 := Holding))"
    using converse_rtranclp_into_rtranclp [OF 1 r_into_rtranclp [of "slot_step 1", OF 2]] .
  show ?thesis using conn_slots_bounded [OF r] r by simp
qed

section \<open>Dispatch\<close>

lemma ring_covers:
  assumes "i < n"
  shows "\<exists>a \<in> set [0..<n]. (nxt + a) mod n = i"
proof -
  have "(nxt + (i + n - nxt mod n) mod n) mod n = (nxt mod n + (i + n - nxt mod n)) mod n" by (simp add: mod_simps)
  also have "nxt mod n + (i + n - nxt mod n) = i + n" using assms mod_less_divisor [of n nxt] by linarith
  finally have "(nxt + (i + n - nxt mod n) mod n) mod n = i" using assms by simp
  then show ?thesis using assms by (intro bexI [of _ "(i + n - nxt mod n) mod n"]) auto
qed

lemma queue_sum_push:
  "idx < length qs \<Longrightarrow> sum_list (map fst (qs[idx := (fst (qs ! idx) + 1, b)])) = sum_list (map fst (qs :: queue list)) + 1"
  by (induction qs arbitrary: idx) (auto split: nat.splits)

lemma dispatch_loop_alive:
  assumes "list_all snd qs" "qs \<noteq> []"
  shows "(\<exists>n qs'. dispatch_loop nxt as qs = ((Sent, n), qs') \<and> (\<exists>a \<in> set as. fst (qs ! ((nxt + a) mod length qs)) < WORKER_BACKLOG)
            \<and> sum_list (map fst qs') = sum_list (map fst qs) + 1)
       \<or> (dispatch_loop nxt as qs = ((Full, nxt), qs) \<and> (\<forall>a \<in> set as. WORKER_BACKLOG \<le> fst (qs ! ((nxt + a) mod length qs))))"
proof (induction as)
  case (Cons a as)
  let ?i = "(nxt + a) mod length qs"
  have i: "?i < length qs" using assms(2) by simp
  then have alive: "snd (qs ! ?i)" using assms(1) by (simp add: list_all_length)
  show ?case
  proof (cases "fst (qs ! ?i) < WORKER_BACKLOG")
    case True
    then show ?thesis using alive queue_sum_push [OF i]
      by (intro disjI1) (auto simp: try_send_def split_def Let_def)
  next
    case False
    then have "try_send ?i qs = (Full, qs)" using alive by (simp add: try_send_def split_def)
    then show ?thesis using Cons False by auto
  qed
qed simp

text \<open>no accepted connection is lost: while the workers are alive, a connection is put into exactly one
  worker's queue (and keeps its slot) if the budget is not exhausted and some queue has room, and is
  answered with 503 (and holds no slot) otherwise; the accept loop goes on in both cases.\<close>

theorem dispatch_conn_no_loss:
  assumes "list_all snd qs" "qs \<noteq> []"
  shows "\<exists>nxt' qs'. dispatch_conn lv max_conns nxt qs =
    (if lv < max_conns \<and> (\<exists>q \<in> set qs. fst q < WORKER_BACKLOG) then ((True, None), lv + 1, nxt', qs')
     else ((True, Some UNAVAILABLE), lv, nxt', qs'))
    \<and> sum_list (map fst qs') = sum_list (map fst qs) + (if lv < max_conns \<and> (\<exists>q \<in> set qs. fst q < WORKER_BACKLOG) then 1 else 0)"
proof -
  have "(\<exists>a \<in> set [0..<length qs]. fst (qs ! ((nxt + a) mod length qs)) < WORKER_BACKLOG) \<longleftrightarrow> (\<exists>q \<in> set qs. fst q < WORKER_BACKLOG)"
  proof
    assume "\<exists>q \<in> set qs. fst q < WORKER_BACKLOG"
    then obtain i where i: "i < length qs" "fst (qs ! i) < WORKER_BACKLOG" by (metis in_set_conv_nth)
    then show "\<exists>a \<in> set [0..<length qs]. fst (qs ! ((nxt + a) mod length qs)) < WORKER_BACKLOG"
      using ring_covers [OF i(1), of nxt] by metis
  next
    assume "\<exists>a \<in> set [0..<length qs]. fst (qs ! ((nxt + a) mod length qs)) < WORKER_BACKLOG"
    then show "\<exists>q \<in> set qs. fst q < WORKER_BACKLOG" using assms(2) nth_mem [of _ qs] mod_less_divisor [of "length qs"] by (metis length_greater_0_conv)
  qed
  then show ?thesis using dispatch_loop_alive [OF assms, of nxt "[0..<length qs]"]
    by (auto simp: dispatch_conn_def not_less not_le)
qed

theorem dispatch_conn_no_loss_witness:
  "\<exists>nxt' qs'. dispatch_conn 0 4 5 [(2, True), (1, True)] = ((True, None), 1, nxt', qs')"
  using dispatch_conn_no_loss [of "[(2, True), (1, True)]" 0 4 5] by (auto simp: WORKER_BACKLOG_def)

text \<open>One dead worker at the cursor ends the accept loop, although the other workers have room.\<close>

lemma dispatch_stops_on_dead_worker:
  "fst (dispatch_conn 0 4 0 [(0, False), (0, True)]) = (False, None)"
  by (simp add: dispatch_conn_def try_send_def upt_rec)

section \<open>The budget of the accept loop\<close>

definition queued :: "serve_state \<Rightarrow> nat" where
  "queued s = sum_list (map fst (sv_queues s))"

definition serving :: "serve_state \<Rightarrow> nat" where
  "serving s = length (filter id (sv_busy s))"

definition serve_inv :: "nat \<Rightarrow> serve_state \<Rightarrow> bool" where
  "serve_inv max_conns s \<longleftrightarrow> sv_live s = queued s + serving s \<and> sv_live s \<le> max max_conns 1
     \<and> length (sv_busy s) = length (sv_queues s) \<and> sv_queues s \<noteq> []"

lemma sum_fst_update:
  "i < length qs \<Longrightarrow> sum_list (map fst (qs[i := (n, b)])) + fst (qs ! i) = sum_list (map fst (qs :: queue list)) + n"
  by (induction qs arbitrary: i) (auto split: nat.splits)

lemma filter_update:
  "i < length bs \<Longrightarrow> length (filter id (bs[i := b])) + (if bs ! i then 1 else 0) = length (filter id bs) + (if b then 1 else 0)"
proof (induction bs arbitrary: i)
  case (Cons x bs)
  then show ?case by (cases i) (use Cons.IH in force)+
qed simp

lemma dispatch_loop_balance:
  assumes "qs \<noteq> []" "dispatch_loop nxt as qs = ((res, n), qs')"
  shows "length qs' = length qs \<and> sum_list (map fst qs') = sum_list (map fst qs) + (if res = Sent then 1 else 0)"
  using assms(2)
proof (induction as)
  case (Cons a as)
  let ?i = "(nxt + a) mod length qs"
  have i: "?i < length qs" using assms(1) by simp
  show ?case
  proof (cases "snd (qs ! ?i) \<and> fst (qs ! ?i) < WORKER_BACKLOG")
    case True
    then have "try_send ?i qs = (Sent, qs[?i := (fst (qs ! ?i) + 1, True)])" by (simp add: try_send_def split_def)
    then show ?thesis using Cons.prems queue_sum_push [OF i] by (auto simp: Let_def)
  next
    case False
    then have "try_send ?i qs = (if snd (qs ! ?i) then Full else Disconnected, qs)" by (auto simp: try_send_def split_def)
    then show ?thesis using Cons by (auto simp: Let_def split: if_splits)
  qed
qed auto

lemma serve_inv_step: "serve_inv m s \<Longrightarrow> serve_inv m (accept_step m e s)"
proof (cases e)
  case Accepted
  assume inv: "serve_inv m s"
  obtain go rep lv nxt qs where d: "dispatch_conn (sv_live s) (max m 1) (sv_next s) (sv_queues s) = ((go, rep), lv, nxt, qs)"
    by (metis prod.exhaust)
  obtain res n qs1 where l: "dispatch_loop (sv_next s) [0..<length (sv_queues s)] (sv_queues s) = ((res, n), qs1)"
    by (metis prod.exhaust)
  have ne: "sv_queues s \<noteq> []" and le: "sv_live s \<le> max m 1" using inv by (simp_all add: serve_inv_def)
  have "length qs = length (sv_queues s) \<and> lv + sum_list (map fst (sv_queues s)) = sv_live s + sum_list (map fst qs) \<and> lv \<le> max m 1"
    using d le dispatch_loop_balance [OF ne l] by (cases res) (auto simp: dispatch_conn_def l split: if_splits)
  then show ?thesis using inv d Accepted by (auto simp: serve_inv_def queued_def serving_def)
next
  case (Take i)
  assume inv: "serve_inv m s"
  then show ?thesis
    using Take sum_fst_update [of i "sv_queues s" "fst (sv_queues s ! i) - 1" True] filter_update [of i "sv_busy s" True]
    by (auto simp: serve_inv_def queued_def serving_def)
next
  case (Finish i)
  assume inv: "serve_inv m s"
  then show ?thesis using Finish filter_update [of i "sv_busy s" False] by (auto simp: serve_inv_def queued_def serving_def)
next
  case (Crash i)
  assume inv: "serve_inv m s"
  then show ?thesis
    using Crash sum_fst_update [of i "sv_queues s" 0 False] filter_update [of i "sv_busy s" False]
    by (auto simp: serve_inv_def queued_def serving_def)
qed simp

lemma serve_inv_start: "serve_inv m (serve_start v)"
  by (simp add: serve_inv_def serve_start_def Let_def spawn_conn_workers_def queued_def serving_def sum_list_replicate)

text \<open>C25: the accept loop neither loses nor leaks a slot: after any sequence of accepts, workers taking and
  finishing jobs, and workers dying, the counter is the number of connections queued or being served,
  and it never exceeds the configured cap.\<close>

theorem serve_slots_exact:
  "sv_live (serve_std_accept max_conns v es) = queued (serve_std_accept max_conns v es) + serving (serve_std_accept max_conns v es)
   \<and> sv_live (serve_std_accept max_conns v es) \<le> max max_conns 1"
proof -
  have "serve_inv max_conns (fold (accept_step max_conns) es s)" if "serve_inv max_conns s" for s
    using that by (induction es arbitrary: s) (auto intro: serve_inv_step)
  then have "serve_inv max_conns (serve_std_accept max_conns v es)" by (simp add: serve_std_accept_def serve_inv_start)
  then show ?thesis by (simp add: serve_inv_def)
qed

end
