(* ===== verification/Config.thy ===== *)
theory Config
  imports Backend
begin

text \<open>
  The configuration strings (\<open>demiurge-router/src/config.rs\<close>): topology maps, backend pools and cache
  groups.  Specifications are ASCII strings; \<open>dbg\<close> renders a string in an error message, and the parsers
  of the standard library for socket addresses and floats are parameters.
\<close>

section \<open>Parsing\<close>

definition is_ws :: "char \<Rightarrow> bool" where
  "is_ws c \<longleftrightarrow> is_whitespace (of_char c)"

definition trim_str :: "string \<Rightarrow> string" where
  "trim_str s = rev (dropWhile is_ws (rev (dropWhile is_ws s)))"

definition split_char :: "char \<Rightarrow> string \<Rightarrow> string list" where
  "split_char c s = split_on (\<lambda>x. x = c) s"

text \<open>\<open>str::split_once\<close>.\<close>

definition split_once :: "char \<Rightarrow> string \<Rightarrow> (string \<times> string) option" where
  "split_once c s =
     (case dropWhile (\<lambda>x. x \<noteq> c) s of [] \<Rightarrow> None | _ # rest \<Rightarrow> Some (takeWhile (\<lambda>x. x \<noteq> c) s, rest))"

definition spec_items :: "char \<Rightarrow> string \<Rightarrow> string list" where
  "spec_items sep spec = filter (\<lambda>s. s \<noteq> []) (map trim_str (split_char sep spec))"

type_synonym topology_map = "(string \<times> TopologyId) list"

definition topology_item :: "(string \<Rightarrow> string) \<Rightarrow> string \<Rightarrow> topology_map \<Rightarrow> string + topology_map" where
  "topology_item dbg item out =
     (let bad = ''bad topology spec '' @ dbg item @ ''; want label@node/rack/cluster''
      in and_then (ok_or (split_once (CHR ''@'') item) bad) (\<lambda>(l, rest).
         case split_char (CHR ''/'') rest of
           [n, rk, c] \<Rightarrow> Inr (AList.update l \<lparr>node = n, rack = rk, cluster = c\<rparr> out)
         | _ \<Rightarrow> Inl bad))"

fun for_items :: "(string \<Rightarrow> 'a \<Rightarrow> 'e + 'a) \<Rightarrow> string list \<Rightarrow> 'a \<Rightarrow> 'e + 'a" where
  "for_items f [] out = Inr out"
| "for_items f (item # items) out = and_then (f item out) (for_items f items)"

definition parse_topology_map :: "(string \<Rightarrow> string) \<Rightarrow> string \<Rightarrow> string + topology_map" where
  "parse_topology_map dbg spec = for_items (topology_item dbg) (spec_items (CHR '','') spec) []"

definition pool_item ::
    "(string \<Rightarrow> string) \<Rightarrow> (string \<Rightarrow> string + string) \<Rightarrow> (string \<Rightarrow> string + f64) \<Rightarrow> (f64 \<Rightarrow> f64) \<Rightarrow> topology_map
       \<Rightarrow> string \<Rightarrow> Backend list \<Rightarrow> string + Backend list" where
  "pool_item dbg parse_addr parse_f64 lg topo item out =
     (case split_char (CHR ''@'') item of
        [l, a, secs] \<Rightarrow>
          and_then (map_err (\<lambda>e. ''bad address '' @ dbg a @ '': '' @ e) (parse_addr a)) (\<lambda>ad.
          and_then (map_err (\<lambda>e. ''bad seconds '' @ dbg secs @ '': '' @ e) (parse_f64 secs)) (\<lambda>sv.
          Inr (out @ [new_with_topology lg l ad sv
                 (case map_of topo l of Some t \<Rightarrow> t | None \<Rightarrow> \<lparr>node = '''', rack = '''', cluster = ''''\<rparr>)])))
      | _ \<Rightarrow> Inl (''bad backend spec '' @ dbg item @ ''; want label@host:port@seconds''))"

definition parse_pool_with_topology ::
    "(string \<Rightarrow> string) \<Rightarrow> (string \<Rightarrow> string + string) \<Rightarrow> (string \<Rightarrow> string + f64) \<Rightarrow> (f64 \<Rightarrow> f64) \<Rightarrow> string \<Rightarrow> topology_map
       \<Rightarrow> string + Backend list" where
  "parse_pool_with_topology dbg parse_addr parse_f64 lg spec topo =
     for_items (pool_item dbg parse_addr parse_f64 lg topo) (spec_items (CHR '','') spec) []"

definition parse_pool ::
    "(string \<Rightarrow> string) \<Rightarrow> (string \<Rightarrow> string + string) \<Rightarrow> (string \<Rightarrow> string + f64) \<Rightarrow> (f64 \<Rightarrow> f64) \<Rightarrow> string \<Rightarrow> string + Backend list" where
  "parse_pool dbg parse_addr parse_f64 lg spec = parse_pool_with_topology dbg parse_addr parse_f64 lg spec []"

definition cache_field :: "(string \<Rightarrow> string) \<Rightarrow> string \<Rightarrow> string \<Rightarrow> string \<Rightarrow> string + u64" where
  "cache_field dbg item name raw =
     ok_or (parse_u64_maybe_hex (ascii raw)) (''bad '' @ name @ '' '' @ dbg raw @ '' in cache group spec '' @ dbg item)"

fun collect_results :: "('e + 'a) list \<Rightarrow> 'e + 'a list" where
  "collect_results [] = Inr []"
| "collect_results (r # rs) = and_then r (\<lambda>a. and_then (collect_results rs) (\<lambda>as. Inr (a # as)))"

definition cache_group_item :: "(string \<Rightarrow> string) \<Rightarrow> string \<Rightarrow> SharedPrefixGroupRegistry \<times> bool \<Rightarrow> string + SharedPrefixGroupRegistry \<times> bool" where
  "cache_group_item dbg item = (\<lambda>(registry, _).
     case split_char (CHR ''@'') item of
       [g, d, t, ms] \<Rightarrow>
         and_then (cache_field dbg item ''group'' g) (\<lambda>grp.
         and_then (cache_field dbg item ''domain'' d) (\<lambda>dom.
         and_then (cache_field dbg item ''template_fp'' t) (\<lambda>fp.
         and_then (collect_results (map (\<lambda>m. and_then (cache_field dbg item ''tenant'' m) (\<lambda>v. Inr (TenantId v))) (spec_items (CHR ''+'') ms))) (\<lambda>members.
         if members = [] then Inl (''cache group spec '' @ dbg item @ '' lists no tenants'')
         else Inr (register_template (GroupId grp) members (PrefixFingerprint fp) dom registry, True)))))
     | _ \<Rightarrow> Inl (''bad cache group spec '' @ dbg item @ ''; want group@domain@template_fp@tenant1+tenant2''))"

definition parse_cache_groups :: "(string \<Rightarrow> string) \<Rightarrow> string \<Rightarrow> string + SharedPrefixGroupRegistry option" where
  "parse_cache_groups dbg spec =
     and_then (for_items (cache_group_item dbg) (spec_items (CHR '','') spec) (SharedPrefixGroupRegistry_new, False))
       (\<lambda>(registry, any). Inr (if any then Some registry else None))"

section \<open>Rendering and round trip\<close>

text \<open>Characters that may appear in a name: neither separators nor white space.\<close>

definition name_char :: "char \<Rightarrow> bool" where
  "name_char c \<longleftrightarrow> c \<noteq> CHR '','' \<and> c \<noteq> CHR ''@'' \<and> c \<noteq> CHR ''/'' \<and> \<not> is_ws c"

definition show_topology :: "string \<times> TopologyId \<Rightarrow> string" where
  "show_topology = (\<lambda>(l, t). l @ CHR ''@'' # join (CHR ''/'') [node t, rack t, cluster t])"

definition show_topology_map :: "topology_map \<Rightarrow> string" where
  "show_topology_map m = join (CHR '','') (map show_topology m)"

definition topology_ok :: "string \<times> TopologyId \<Rightarrow> bool" where
  "topology_ok p \<longleftrightarrow> list_all name_char (fst p) \<and> list_all name_char (node (snd p)) \<and> list_all name_char (rack (snd p))
     \<and> list_all name_char (cluster (snd p))"

lemma trim_str_id: "\<forall>c \<in> set s. \<not> is_ws c \<Longrightarrow> trim_str s = s"
proof -
  assume a: "\<forall>c \<in> set s. \<not> is_ws c"
  have d: "dropWhile is_ws xs = xs" if "\<forall>c \<in> set xs. \<not> is_ws c" for xs using that by (cases xs) auto
  show ?thesis using a d [of s] d [of "rev s"] by (simp add: trim_str_def)
qed

lemma show_topology_chars:
  "topology_ok p \<Longrightarrow> (\<forall>c \<in> set (show_topology p). c \<noteq> CHR '','' \<and> \<not> is_ws c) \<and> show_topology p \<noteq> []"
proof -
  assume ok: "topology_ok p"
  have sep: "\<not> is_ws (CHR ''@'')" "\<not> is_ws (CHR ''/'')" by (simp_all add: is_ws_def is_whitespace_def)
  obtain l t where p: "p = (l, t)" by (cases p)
  have "set (show_topology p) = set l \<union> set (node t) \<union> set (rack t) \<union> set (cluster t) \<union> {CHR ''@'', CHR ''/''}"
    by (auto simp: p show_topology_def)
  moreover have "\<forall>c \<in> set l \<union> set (node t) \<union> set (rack t) \<union> set (cluster t). name_char c"
    using ok by (auto simp: p topology_ok_def list_all_iff)
  ultimately have "\<forall>c \<in> set (show_topology p). c \<noteq> CHR '','' \<and> \<not> is_ws c" using sep unfolding name_char_def by auto
  then show ?thesis by (simp add: p show_topology_def)
qed

lemma split_once_at: "\<forall>c \<in> set l. c \<noteq> sep \<Longrightarrow> split_once sep (l @ sep # rest) = Some (l, rest)"
  by (induction l) (auto simp: split_once_def split: list.splits)

lemma topology_item_show:
  assumes "topology_ok (l, t)"
  shows "topology_item dbg (show_topology (l, t)) out = Inr (AList.update l \<lparr>node = node t, rack = rack t, cluster = cluster t\<rparr> out)"
proof -
  have "split_once (CHR ''@'') (show_topology (l, t)) = Some (l, join (CHR ''/'') [node t, rack t, cluster t])"
    using assms split_once_at [of l "CHR ''@''"] by (auto simp: show_topology_def topology_ok_def list_all_iff name_char_def)
  moreover have "split_char (CHR ''/'') (join (CHR ''/'') [node t, rack t, cluster t]) = [node t, rack t, cluster t]"
    unfolding split_char_def using assms by (intro split_on_join) (auto simp: topology_ok_def list_all_iff name_char_def)
  ultimately show ?thesis by (simp add: topology_item_def ok_or_def Let_def)
qed

lemma for_items_topology:
  "list_all topology_ok m \<Longrightarrow> distinct (map fst (out @ m)) \<Longrightarrow>
   for_items (topology_item dbg) (map show_topology m) out = Inr (out @ m)"
proof (induction m arbitrary: out)
  case (Cons p m)
  obtain l t where p: "p = (l, t)" by (cases p)
  have "map_of out l = None" using Cons.prems(2) p by (auto simp: map_of_eq_None_iff)
  then have "AList.update l \<lparr>node = node t, rack = rack t, cluster = cluster t\<rparr> out = out @ [(l, t)]"
    by (simp add: alist_update_new)
  then show ?case using Cons p by (simp add: topology_item_show)
qed simp

section \<open>Properties\<close>

text \<open>configuration round trip: a topology map written in the documented form
  \<open>label@node/rack/cluster,...\<close> is parsed back exactly, entry by entry and in order, for all names free of
  separators and white space.\<close>

theorem topology_map_roundtrip:
  assumes "list_all topology_ok m" "distinct (map fst m)"
  shows "parse_topology_map dbg (show_topology_map m) = Inr m"
proof (cases "m = []")
  case True
  then show ?thesis by (simp add: parse_topology_map_def show_topology_map_def spec_items_def split_char_def trim_str_def)
next
  case False
  have c: "(\<forall>c \<in> set (show_topology p). c \<noteq> CHR '','' \<and> \<not> is_ws c) \<and> show_topology p \<noteq> []" if "p \<in> set m" for p
    using that assms(1) by (intro show_topology_chars) (simp add: list_all_iff)
  have "split_char (CHR '','') (show_topology_map m) = map show_topology m"
    unfolding split_char_def show_topology_map_def using False c by (intro split_on_join) auto
  moreover have "map trim_str (map show_topology m) = map show_topology m" using c trim_str_id by auto
  moreover have "filter (\<lambda>s. s \<noteq> []) (map show_topology m) = map show_topology m" using c by (intro filter_True) auto
  ultimately have "spec_items (CHR '','') (show_topology_map m) = map show_topology m" by (simp only: spec_items_def)
  then show ?thesis using for_items_topology [of m "[]" dbg] assms by (simp add: parse_topology_map_def)
qed

theorem topology_map_roundtrip_witness:
  "parse_topology_map id ''pf0@n1/r1/c1,dc0@n2/r1/c1''
     = Inr [(''pf0'', \<lparr>node = ''n1'', rack = ''r1'', cluster = ''c1''\<rparr>), (''dc0'', \<lparr>node = ''n2'', rack = ''r1'', cluster = ''c1''\<rparr>)]"
  using topology_map_roundtrip [of "[(''pf0'', \<lparr>node = ''n1'', rack = ''r1'', cluster = ''c1''\<rparr>), (''dc0'', \<lparr>node = ''n2'', rack = ''r1'', cluster = ''c1''\<rparr>)]" id]
  by (simp add: topology_ok_def name_char_def is_ws_def is_whitespace_def show_topology_map_def show_topology_def)

end
