(* ===== verification/Boot.thy ===== *)
theory Boot
  imports Serve Config
begin

text \<open>
  The binary's start-up (\<open>demiurge-router/src/main.rs\<close>): everything between the environment and the
  accept loop.  The environment, the socket to listen on and the parsers of the standard library are the
  record \<open>boot_host\<close>; the kernel interface is that of the router's environment.
\<close>

section \<open>Environment\<close>

record boot_host =
  bo_env :: "string \<Rightarrow> string option"
  bo_bind :: "string \<Rightarrow> string + u16 option"
  bo_dbg :: "string \<Rightarrow> string"
  bo_addr :: "string \<Rightarrow> string + string"
  bo_f64 :: "string \<Rightarrow> string + f64"
  bo_object_path :: string

definition parse_u64_env :: "boot_host \<Rightarrow> string \<Rightarrow> u64 option" where
  "parse_u64_env H key =
     do { v \<leftarrow> bo_env H key; n \<leftarrow> parse_u64 (of_ascii v); if 0 < n then Some n else None }"

definition var_or_default :: "boot_host \<Rightarrow> string \<Rightarrow> string" where
  "var_or_default H key = (case bo_env H key of Some v \<Rightarrow> v | None \<Rightarrow> [])"

text \<open>The variables the router's constructor reads.\<close>

definition router_vars_of :: "boot_host \<Rightarrow> router_vars" where
  "router_vars_of H =
     \<lparr>v_admit_mode = map_option of_ascii (bo_env H ''DEMIURGE_ADMIT_MODE''), v_iouring = bo_env H ''DEMIURGE_IOURING'',
      v_actuate = bo_env H ''DEMIURGE_REBALANCER_ACTUATE'', v_rdma = bo_env H ''DEMIURGE_RDMA_ROUTING''\<rparr>"

section \<open>Building the router\<close>

definition build_router :: "('b, 'k) renv \<Rightarrow> boot_host \<Rightarrow> Backend list \<Rightarrow> Backend list \<Rightarrow> topology_map \<Rightarrow> 'b Router" where
  "build_router E H pf dc topo =
     (let V = router_vars_of H;
          bpt = (case parse_u64_env H ''DEMIURGE_BYTES_PER_TOKEN'' of Some n \<Rightarrow> n | None \<Rightarrow> 128);
          kv_capacity = parse_u64_env H ''DEMIURGE_DECODE_KV_CAPACITY_BYTES'';
          state_plane_on = (env_bool (bo_env H ''DEMIURGE_STATE_PLANE'') False \<or> kv_capacity \<noteq> None);
          mode = AdmitMode_from_env (v_admit_mode V);
          transport = handoff_transport_from_env (bo_env H ''DEMIURGE_HANDOFF_TRANSPORT'') topo;
          r = (case kv_capacity of
                 Some cap \<Rightarrow> with_handoff_transport transport (with_kv_pool V (e_now_ms E) (e_now E) pf dc cap bpt)
               | None \<Rightarrow> with_handoff_transport transport (Router_new V (e_now_ms E) (e_now E) pf dc));
          r = with_admit_mode mode r
      in if state_plane_on
         then with_state_plane (StatePlane_new (map label (pool r Prefill)) (map label (pool r Decode))) r
         else r)"

definition NO_BACKENDS :: string where
  "NO_BACKENDS = ''no backends; set DEMIURGE_PREFILL and/or DEMIURGE_DECODE (label@host:port@seconds,...)''"

text \<open>The pools of the environment, and the refusal of an empty fleet before anything is bound.\<close>

definition configured_pools :: "('b, 'k) renv \<Rightarrow> boot_host \<Rightarrow> string + (topology_map \<times> Backend list \<times> Backend list)" where
  "configured_pools E H =
     and_then (parse_topology_map (bo_dbg H) (var_or_default H ''DEMIURGE_TOPOLOGY'')) (\<lambda>topo.
     and_then (parse_pool_with_topology (bo_dbg H) (bo_addr H) (bo_f64 H) (e_lg E) (var_or_default H ''DEMIURGE_PREFILL'') topo) (\<lambda>pf.
     and_then (parse_pool_with_topology (bo_dbg H) (bo_addr H) (bo_f64 H) (e_lg E) (var_or_default H ''DEMIURGE_DECODE'') topo) (\<lambda>dc.
     if pf = [] \<and> dc = [] then Inl NO_BACKENDS else Inr (topo, pf, dc))))"

text \<open>The kernel admit layer, when an interface is named.\<close>

definition attach_configured :: "('b, 'k) renv \<Rightarrow> boot_host \<Rightarrow> u16 option \<Rightarrow> 'b Router \<Rightarrow> (string + 'b Router) \<times> 'k" where
  "attach_configured E H port r =
     (case bo_env H ''DEMIURGE_XDP_IFACE'' of
        None \<Rightarrow> (Inr r, e_kernel E)
      | Some ifc \<Rightarrow>
          (case with_kernel_admit E (bo_object_path H) ifc port r of
             (Inl e, k) \<Rightarrow> (Inl (''XDP attach on '' @ ifc @ '': '' @ XdpAttachError_fmt e), k)
           | (Inr r, k) \<Rightarrow> (Inr r, k)))"

definition configure :: "('b, 'k) renv \<Rightarrow> boot_host \<Rightarrow> (string + u16 option \<times> 'b Router) \<times> 'k" where
  "configure E H =
     (let listen = (case bo_env H ''DEMIURGE_LISTEN'' of Some a \<Rightarrow> a | None \<Rightarrow> ''127.0.0.1:8080'')
      in case and_then (configured_pools E H) (\<lambda>(topo, pf, dc).
              and_then (map_err (\<lambda>e. ''bind '' @ listen @ '': '' @ e) (bo_bind H listen)) (\<lambda>port.
              and_then (parse_cache_groups (bo_dbg H) (var_or_default H ''DEMIURGE_CACHE_GROUPS'')) (\<lambda>registry.
              let r = build_router E H pf dc topo
              in Inr (port, (case registry of Some reg \<Rightarrow> with_cache_registry reg r | None \<Rightarrow> r))))) of
           Inl e \<Rightarrow> (Inl e, e_kernel E)
         | Inr (port, r) \<Rightarrow>
             (case attach_configured E H port r of
                (Inl e, k) \<Rightarrow> (Inl e, k) | (Inr r, k) \<Rightarrow> (Inr (port, r), k)))"

definition configured_max_conns :: "boot_host \<Rightarrow> nat" where
  "configured_max_conns H =
     (case Option.bind (bo_env H ''DEMIURGE_MAX_CONNS'') (\<lambda>v. parse_u64 (of_ascii v)) of
        Some n \<Rightarrow> unat n | None \<Rightarrow> unat DATAPLANE_MAX_CONNS)"

text \<open>
  \<open>run\<close>: what \<open>serve_with_max_conns\<close> is called with.  \<open>main\<close> sets the authentication secret
  (\<open>configure_auth_secret_from_env\<close>) before and turns an error into exit code 1.
\<close>

definition run :: "('b, 'k) renv \<Rightarrow> boot_host \<Rightarrow> string + 'b Router \<times> nat" where
  "run E H = and_then (fst (configure E H)) (\<lambda>(port, r). Inr (r, configured_max_conns H))"

definition exit_code :: "string + 'a \<Rightarrow> nat" where
  "exit_code res = (case res of Inl _ \<Rightarrow> 1 | Inr _ \<Rightarrow> 0)"

section \<open>Lemmas\<close>

lemma for_items_inv:
  assumes "for_items f xs acc = Inr out" "P acc" "\<And>x a b. f x a = Inr b \<Longrightarrow> P a \<Longrightarrow> P b"
  shows "P out"
  using assms(1,2)
proof (induction xs arbitrary: acc)
  case (Cons x xs)
  then obtain b where "f x acc = Inr b" "for_items f xs b = Inr out" by (auto simp: and_then_Inr)
  then show ?case using Cons assms(3) by blast
qed simp

lemma parsed_pool_idle:
  assumes "parse_pool_with_topology dbg pa pf lg spec topo = Inr bs"
  shows "\<forall>b \<in> set bs. inflight b = 0"
  using assms unfolding parse_pool_with_topology_def
  by (rule for_items_inv [where P = "\<lambda>bs. \<forall>b \<in> set bs. inflight b = 0"])
    (auto simp: pool_item_def and_then_Inr new_with_topology_def Let_def split: list.splits)

text \<open>A router as it leaves the constructor: nothing reserved, the bucket full, nothing in flight.\<close>

definition ledger_empty :: "ReservationLedger option \<Rightarrow> bool" where
  "ledger_empty l = (case l of None \<Rightarrow> True | Some L \<Rightarrow> reservations L = [] \<and> reserved_bytes L = 0)"

definition idle :: "'b Router \<Rightarrow> bool" where
  "idle r \<longleftrightarrow> ledger_empty (r_ledger r) \<and> tokens (r_admit r) = ab_capacity (r_admit r)
     \<and> (\<forall>b \<in> set (r_prefill r @ r_decode r). inflight b = 0)"

lemma build_router_fields:
  "r_prefill (build_router E H pf dc topo) = pf" "r_decode (build_router E H pf dc topo) = dc"
  "tokens (r_admit (build_router E H pf dc topo)) = ab_capacity (r_admit (build_router E H pf dc topo))"
  "ledger_empty (r_ledger (build_router E H pf dc topo))"
  "r_ledger (build_router E H pf dc topo) = None \<longleftrightarrow> parse_u64_env H ''DEMIURGE_DECODE_KV_CAPACITY_BYTES'' = None"
  "r_handoffs (build_router E H pf dc topo) = None \<longleftrightarrow> parse_u64_env H ''DEMIURGE_DECODE_KV_CAPACITY_BYTES'' = None"
  "parse_u64_env H ''DEMIURGE_DECODE_KV_CAPACITY_BYTES'' \<noteq> None \<Longrightarrow> state_plane_active (build_router E H pf dc topo)"
  by (simp_all add: build_router_def Let_def with_state_plane_def with_admit_mode_def with_handoff_transport_def with_kv_pool_def
      Router_new_def AdmitBucket_new_def ledger_empty_def ReservationLedger_new_def state_plane_active_def split: option.splits)

lemma attach_configured_fields:
  assumes "fst (attach_configured E H port r) = Inr r'"
  shows "r_prefill r' = r_prefill r \<and> r_decode r' = r_decode r \<and> r_ledger r' = r_ledger r \<and> r_handoffs r' = r_handoffs r
    \<and> r_state_plane r' = r_state_plane r
    \<and> (tokens (r_admit r) = ab_capacity (r_admit r) \<longrightarrow> tokens (r_admit r') = ab_capacity (r_admit r'))
    \<and> (bo_env H ''DEMIURGE_XDP_IFACE'' \<noteq> None \<longrightarrow> kernel_admit_attached r')"
  using assms
  by (auto simp: attach_configured_def with_kernel_admit_def sync_admit_capacity_def reseed_def kernel_admit_attached_def Let_def
      split: option.splits prod.splits sum.splits if_splits)

lemma configured_ready:
  assumes "fst (configure E H) = Inr (port, r)"
  shows "(r_prefill r \<noteq> [] \<or> r_decode r \<noteq> []) \<and> idle r
    \<and> (r_ledger r = None \<longleftrightarrow> parse_u64_env H ''DEMIURGE_DECODE_KV_CAPACITY_BYTES'' = None)
    \<and> (r_handoffs r = None \<longleftrightarrow> r_ledger r = None) \<and> (r_ledger r = None \<or> state_plane_active r)
    \<and> (bo_env H ''DEMIURGE_XDP_IFACE'' = None \<or> kernel_admit_attached r)"
proof -
  obtain topo pf dc reg where p: "configured_pools E H = Inr (topo, pf, dc)"
    and at0: "fst (attach_configured E H port
      (case reg of Some g \<Rightarrow> with_cache_registry g (build_router E H pf dc topo) | None \<Rightarrow> build_router E H pf dc topo)) = Inr r"
    using assms by (auto simp: configure_def Let_def and_then_Inr split: sum.splits prod.splits) (metis fst_conv)
  define r0 where r0: "r0 = (case reg of Some g \<Rightarrow> with_cache_registry g (build_router E H pf dc topo) | None \<Rightarrow> build_router E H pf dc topo)"
  have at: "fst (attach_configured E H port r0) = Inr r" using at0 unfolding r0 .
  have ne: "pf \<noteq> [] \<or> dc \<noteq> []" and zero: "\<forall>b \<in> set (pf @ dc). inflight b = 0"
    using p by (auto simp: configured_pools_def and_then_Inr split: if_splits dest!: parsed_pool_idle)
  have f: "r_prefill r0 = pf" "r_decode r0 = dc" "tokens (r_admit r0) = ab_capacity (r_admit r0)" "ledger_empty (r_ledger r0)"
    "r_ledger r0 = None \<longleftrightarrow> parse_u64_env H ''DEMIURGE_DECODE_KV_CAPACITY_BYTES'' = None"
    "r_handoffs r0 = None \<longleftrightarrow> parse_u64_env H ''DEMIURGE_DECODE_KV_CAPACITY_BYTES'' = None"
    "parse_u64_env H ''DEMIURGE_DECODE_KV_CAPACITY_BYTES'' \<noteq> None \<Longrightarrow> r_state_plane r0 \<noteq> None"
    using build_router_fields [where E = E and H = H and pf = pf and dc = dc and topo = topo] by (simp_all add: r0 with_cache_registry_def state_plane_active_def split: option.splits)
  note fr = attach_configured_fields [OF at]
  have "idle r" using fr f zero by (simp add: idle_def)
  moreover have "r_ledger r = None \<or> state_plane_active r" using fr f(5,7) by (auto simp: state_plane_active_def)
  ultimately show ?thesis using fr f ne by (simp, blast)
qed

section \<open>Properties\<close>

text \<open>C27: a configuration that starts is well-formed: at least one backend; nothing in flight, nothing
  reserved and a full admission bucket; KV accounting is either wired completely (ledger, hand-off
  registry and state plane, exactly when a positive capacity is configured) or not at all; and a named
  XDP interface is really attached.\<close>

theorem configure_ready:
  assumes "fst (configure E H) = Inr (port, r)"
  shows "(r_prefill r \<noteq> [] \<or> r_decode r \<noteq> []) \<and> idle r
    \<and> (r_ledger r = None \<longleftrightarrow> parse_u64_env H ''DEMIURGE_DECODE_KV_CAPACITY_BYTES'' = None)
    \<and> (r_handoffs r = None \<longleftrightarrow> r_ledger r = None) \<and> (r_ledger r = None \<or> state_plane_active r)
    \<and> (bo_env H ''DEMIURGE_XDP_IFACE'' = None \<or> kernel_admit_attached r)"
  using assms by (rule configured_ready)

text \<open>An empty fleet is refused before a socket is bound or a program attached: the error is the same
  whatever the listen address does, and the kernel is untouched.\<close>

theorem configure_refuses_empty:
  assumes "configured_pools E H = Inl e"
  shows "configure E H = (Inl e, e_kernel E) \<and> exit_code (run E (H\<lparr>bo_bind := b\<rparr>)) = 1"
proof -
  have "configured_pools E (H\<lparr>bo_bind := b\<rparr>) = configured_pools E H" by (simp add: configured_pools_def var_or_default_def)
  then show ?thesis using assms by (simp add: configure_def run_def exit_code_def Let_def)
qed

section \<open>Witnesses\<close>

definition sample_boot :: "(string \<Rightarrow> string option) \<Rightarrow> boot_host" where
  "sample_boot env = \<lparr>bo_env = env, bo_bind = \<lambda>_. Inr (Some 8080), bo_dbg = \<lambda>s. s, bo_addr = \<lambda>s. Inr s,
     bo_f64 = \<lambda>s. Inr (Fin 1), bo_object_path = ''admit_shed.o''\<rparr>"

definition sample_env_vars :: "string \<Rightarrow> string option" where
  "sample_env_vars = (\<lambda>k. if k = ''DEMIURGE_DECODE'' then Some ''dc@127.0.0.1:9@1'' else None)"

lemma sample_configures: "\<exists>port r. fst (configure sample_env (sample_boot sample_env_vars)) = Inr (port, r)"
proof -
  have items: "spec_items CHR '','' ''dc@127.0.0.1:9@1'' = [''dc@127.0.0.1:9@1'']" "spec_items CHR '','' [] = []"
    "split_char CHR ''@'' ''dc@127.0.0.1:9@1'' = [''dc'', ''127.0.0.1:9'', ''1'']" by code_simp+
  have "\<exists>topo pf dc. configured_pools sample_env (sample_boot sample_env_vars) = Inr (topo, pf, dc)"
    by (simp add: configured_pools_def var_or_default_def sample_boot_def sample_env_vars_def parse_topology_map_def
        parse_pool_with_topology_def items pool_item_def)
  then show ?thesis
    by (auto simp: configure_def Let_def sample_boot_def var_or_default_def sample_env_vars_def parse_cache_groups_def items
        attach_configured_def)
qed

theorem configure_ready_witness:
  "\<exists>port r. fst (configure sample_env (sample_boot sample_env_vars)) = Inr (port, r) \<and> idle r"
proof -
  obtain port r where c: "fst (configure sample_env (sample_boot sample_env_vars)) = Inr (port, r)" using sample_configures by blast
  then show ?thesis using configure_ready [OF c] by blast
qed

theorem configure_refuses_empty_witness:
  "exit_code (run sample_env (sample_boot (\<lambda>_. None)\<lparr>bo_bind := \<lambda>_. Inl ''in use''\<rparr>)) = 1"
proof -
  have "spec_items CHR '','' [] = []" by code_simp
  then have "configured_pools sample_env (sample_boot (\<lambda>_. None)) = Inl NO_BACKENDS"
    by (simp add: configured_pools_def var_or_default_def sample_boot_def parse_topology_map_def parse_pool_with_topology_def)
  from configure_refuses_empty [OF this] show ?thesis by blast
qed

end
