(* ===== verification/Fmt.thy ===== *)
theory Fmt
  imports F64 Http
begin

text \<open>
  The formatting macros the sources use: \<open>{}\<close> on unsigned integers, \<open>{:.p}\<close> on \<open>f64\<close>, padding and
  \<open>str::repeat\<close>, as functions to decoded text.  Printing an integer and reading it back, with
  \<open>str::parse\<close> or with the router's own digit reader, is the identity on 64-bit values.
\<close>

section \<open>Formatting\<close>

fun dec_nat :: "nat \<Rightarrow> utext" where
  "dec_nat n = (if n < 10 then [48 + n] else dec_nat (n div 10) @ [48 + n mod 10])"

declare dec_nat.simps [simp del]

definition fmt_u64 :: "'w::len word \<Rightarrow> utext" where
  "fmt_u64 w = dec_nat (unat w)"

text \<open>\<open>{:0w}\<close>: zeros on the left.\<close>

definition pad_zero :: "nat \<Rightarrow> utext \<Rightarrow> utext" where
  "pad_zero w t = replicate (w - length t) 48 @ t"

text \<open>\<open>{:<w}\<close>: spaces on the right.\<close>

definition pad_right :: "nat \<Rightarrow> utext \<Rightarrow> utext" where
  "pad_right w t = t @ replicate (w - length t) 32"

text \<open>\<open>{:.p}\<close>: the exact value rounded to \<open>p\<close> decimals, ties to even.\<close>

fun fmt_f64 :: "nat \<Rightarrow> f64 \<Rightarrow> utext" where
  "fmt_f64 p NaN = of_ascii ''NaN''"
| "fmt_f64 p (Infinity s) = of_ascii (if s then ''-inf'' else ''inf'')"
| "fmt_f64 p (Fin x) =
     (let n = nat (rne (\<bar>x\<bar> * 10 ^ p))
      in (if x < 0 then [45] else []) @ dec_nat (n div 10 ^ p)
         @ (if p = 0 then [] else 46 # pad_zero p (dec_nat (n mod 10 ^ p))))"

text \<open>\<open>str::as_bytes\<close> on ASCII text.\<close>

definition as_bytes :: "utext \<Rightarrow> bytes" where
  "as_bytes t = map of_nat t"

section \<open>Printed integers\<close>

lemma dec_nat_nonempty [simp]: "dec_nat n \<noteq> []"
  by (subst dec_nat.simps) simp

lemma dec_nat_digits: "c \<in> set (dec_nat n) \<Longrightarrow> 48 \<le> c \<and> c \<le> 57"
proof (induction n rule: dec_nat.induct)
  case (1 n)
  then show ?case by (subst (asm) (2) dec_nat.simps) (auto split: if_splits)
qed

lemma length_dec_nat: "n < 10 ^ k \<Longrightarrow> 0 < k \<Longrightarrow> length (dec_nat n) \<le> k"
proof (induction k arbitrary: n)
  case (Suc k)
  show ?case
  proof (cases "n < 10")
    case True
    then show ?thesis by (simp add: dec_nat.simps)
  next
    case False
    then have "0 < k" "n div 10 < 10 ^ k" using Suc.prems(1) by (cases k; simp add: less_mult_imp_div_less mult.commute)+
    then show ?thesis using Suc.IH False by (subst dec_nat.simps) simp
  qed
qed simp

text \<open>Reading decimal digits left to right.\<close>

definition read_dec :: "nat \<Rightarrow> utext \<Rightarrow> nat" where
  "read_dec acc ds = foldl (\<lambda>a d. a * 10 + (d - 48)) acc ds"

lemma read_dec_dec_nat: "read_dec 0 (dec_nat n) = n"
proof (induction n rule: dec_nat.induct)
  case (1 n)
  then show ?case by (subst dec_nat.simps) (auto simp: read_dec_def)
qed

lemma read_dec_ge: "acc \<le> read_dec acc ds"
proof (induction ds arbitrary: acc)
  case (Cons d ds)
  have "acc \<le> acc * 10 + (d - 48)" by simp
  also have "\<dots> \<le> read_dec (acc * 10 + (d - 48)) ds" by (rule Cons)
  finally show ?case by (simp add: read_dec_def)
qed (simp add: read_dec_def)

lemma digits_value_read:
  assumes "\<forall>c\<in>set ds. 48 \<le> c \<and> c \<le> 57" "read_dec (unat acc) ds < 2 ^ 64"
  shows "digits_value 10 acc ds = Some (of_nat (read_dec (unat acc) ds))"
  using assms
proof (induction ds arbitrary: acc)
  case Nil
  then show ?case by (simp add: read_dec_def)
next
  case (Cons c cs)
  have c: "48 \<le> c" "c \<le> 57" using Cons.prems(1) by auto
  have "c - 48 < 10" using c by linarith
  then have dv: "digit_value 10 c = Some (c - 48)" using c by (simp add: digit_value_def)
  have lt: "unat acc * 10 + (c - 48) < 2 ^ 64"
    using Cons.prems(2) read_dec_ge [of "unat acc * 10 + (c - 48)" cs] by (simp add: read_dec_def)
  have m: "unat (acc * 10) = unat acc * 10" using lt by (subst unat_mult_no_wrap) simp_all
  have d: "unat (of_nat (c - 48) :: u64) = c - 48" using c by (simp add: unat_of_nat del: of_nat_diff)
  have a: "unat (acc * 10 + of_nat (c - 48)) = unat acc * 10 + (c - 48)"
    using lt m d by (subst unat_add_no_wrap) simp_all
  have "checked_mul acc 10 = Some (acc * 10)" using lt by (simp add: checked_mul_def)
  moreover have "checked_add (acc * 10) (of_nat (c - 48)) = Some (acc * 10 + of_nat (c - 48))"
    using lt m d by (simp add: checked_add_def del: of_nat_diff)
  ultimately have "digits_value 10 acc (c # cs) = digits_value 10 (acc * 10 + of_nat (c - 48)) cs"
    using dv by (simp del: of_nat_diff)
  also have "\<dots> = Some (of_nat (read_dec (unat acc) (c # cs)))"
    using Cons.IH [of "acc * 10 + of_nat (c - 48)"] Cons.prems a
    by (simp add: read_dec_def del: of_nat_diff)
  finally show ?case .
qed

lemma parse_u64_fmt [simp]: "parse_u64 (fmt_u64 (w :: u64)) = Some w"
proof -
  have ds: "\<forall>c\<in>set (dec_nat (unat w)). 48 \<le> c \<and> c \<le> 57" using dec_nat_digits by blast
  obtain c cs where d: "dec_nat (unat w) = c # cs" by (cases "dec_nat (unat w)") auto
  have "c \<noteq> 43" using ds d by auto
  moreover have "digits_value 10 0 (dec_nat (unat w)) = Some w"
    using digits_value_read [of "dec_nat (unat w)" 0] ds by (simp add: read_dec_dec_nat)
  ultimately show ?thesis using d by (simp add: parse_u64_def from_str_radix_def fmt_u64_def)
qed

lemma as_bytes_append [simp]: "as_bytes (s @ t) = as_bytes s @ as_bytes t"
  by (simp add: as_bytes_def)

lemma as_bytes_of_ascii: "as_bytes (of_ascii s) = ascii s"
  by (simp add: as_bytes_def of_ascii_def ascii_def)

lemma fmt_bytes_digits: "b \<in> set (as_bytes (fmt_u64 w)) \<Longrightarrow> is_ascii_digit b"
  by (auto simp: as_bytes_def fmt_u64_def is_ascii_digit_def word_le_nat_alt unat_of_nat dest!: dec_nat_digits)

lemma fmt_bytes_value: "dec_value acc (as_bytes (fmt_u64 w)) = read_dec acc (fmt_u64 w)"
proof -
  have "dec_value acc (as_bytes ds) = read_dec acc ds" if "\<forall>c\<in>set ds. 48 \<le> c \<and> c \<le> 57" for ds
    using that
    by (induction ds arbitrary: acc) (simp_all add: dec_value_def read_dec_def as_bytes_def unat_of_nat mult.commute)
  then show ?thesis using dec_nat_digits unfolding fmt_u64_def by blast
qed

text \<open>The router's digit reader stops at the first byte that is no digit.\<close>

lemma parse_u64_digits_fmt:
  assumes "case rest of [] \<Rightarrow> True | b # _ \<Rightarrow> \<not> is_ascii_digit b"
  shows "parse_u64_digits (as_bytes (fmt_u64 (w :: u64)) @ rest) = Some w"
proof -
  have ds: "\<forall>b\<in>set (as_bytes (fmt_u64 w)). is_ascii_digit b" using fmt_bytes_digits by blast
  have tw: "takeWhile is_ascii_digit (as_bytes (fmt_u64 w) @ rest) = as_bytes (fmt_u64 w)"
    using ds assms by (auto simp: takeWhile_append split: list.splits)
  have "dec_value 0 (as_bytes (fmt_u64 w)) = unat w"
    unfolding fmt_bytes_value by (simp add: fmt_u64_def read_dec_dec_nat)
  moreover have "as_bytes (fmt_u64 w) \<noteq> []" by (simp add: as_bytes_def fmt_u64_def)
  ultimately show ?thesis by (simp add: parse_u64_digits_def parse_digits_loop tw)
qed

end
