(* ===== verification/FleetSim.thy ===== *)
theory FleetSim
  imports Rebalance Text
begin

text \<open>
  Trace-driven load planning (\<open>demiurge-control/src/fleet_sim.rs\<close>): reading a trace, the load knobs of a
  window, backend delays with tier skew and jitter, and the replay gate.  The file's contents and the
  JSON decoder (\<open>serde_json\<close>) are parameters.
\<close>

section \<open>Data\<close>

record SimBaseKnobs =
  bk_concurrency :: u32
  bk_requests_per_worker :: u32
  base_prefill_delay_us :: u64
  base_decode_delay_us :: u64
  bk_long_prompt_tokens :: u64
  long_prompt_tokens_heavy :: u64
  bk_request_style :: string

record WindowKnobs =
  prefill_fraction :: f64
  wk_concurrency :: u32
  wk_requests_per_worker :: u32
  wk_request_style :: string
  wk_long_prompt_tokens :: u64
  prefill_delay_us :: u64
  decode_delay_us :: u64
  delay_window_mult :: f64

record FleetWindowResult =
  fw_ts_ms :: u64
  fw_prefill_heavy :: bool
  fw_held_out :: bool
  fw_ok :: u64
  fw_errors :: u64
  errors_graceful :: u64
  errors_hard :: u64
  p99_us :: u64
  fw_dataplane_pi :: f64
  fw_pi_star :: f64

record FleetSimReport =
  sim_windows :: nat
  sim_heldout_correlation :: f64
  live_pi_correlation :: f64
  sim_gate_pass :: bool
  window_results :: "FleetWindowResult list"

text \<open>A decoded row has the fields of a window, in the same order; the conversion copies them.\<close>

record TraceRow =
  row_ts_ms :: u64
  row_q_prefill :: f64
  row_q_decode :: f64
  row_kv_decode :: f64
  row_slo_prefill :: f64
  row_slo_decode :: f64
  row_fp_share :: f64
  row_prefill_heavy :: bool
  row_held_out :: bool

definition TraceWindow_from :: "TraceRow \<Rightarrow> TraceWindow" where
  "TraceWindow_from row =
     \<lparr>ts_ms = row_ts_ms row, tw_q_prefill = row_q_prefill row, tw_q_decode = row_q_decode row, tw_kv_decode = row_kv_decode row,
      tw_slo_prefill = row_slo_prefill row, tw_slo_decode = row_slo_decode row, tw_fp_share = row_fp_share row,
      prefill_heavy = row_prefill_heavy row, held_out = row_held_out row\<rparr>"

section \<open>Loading a trace\<close>

fun trace_lines :: "(utext \<Rightarrow> string + TraceRow) \<Rightarrow> utext list \<Rightarrow> TraceWindow list \<Rightarrow> string + TraceWindow list" where
  "trace_lines from_str [] windows = Inr windows"
| "trace_lines from_str (l # ls) windows =
     (let line = trim l
      in if line = [] \<or> starts_with [35] line then trace_lines from_str ls windows
         else and_then (map_err (\<lambda>e. ''parse trace line: '' @ e) (from_str line))
                (\<lambda>row. trace_lines from_str ls (windows @ [TraceWindow_from row])))"

definition load_fleet_trace :: "(utext \<Rightarrow> string + TraceRow) \<Rightarrow> string \<Rightarrow> string + utext \<Rightarrow> string + TraceWindow list" where
  "load_fleet_trace from_str path contents =
     and_then (map_err (\<lambda>e. ''read '' @ path @ '': '' @ e) contents) (\<lambda>raw.
       and_then (trace_lines from_str (lines raw) []) (\<lambda>windows.
         if windows = [] then Inl (''empty trace: '' @ path) else Inr windows))"

section \<open>Load knobs\<close>

text \<open>\<open>x as u32\<close>: truncation, saturation, NaN to zero.\<close>

definition u32_of_f64 :: "f64 \<Rightarrow> u32" where
  "u32_of_f64 v = of_nat (min (nat_of_f64 v) (2 ^ 32 - 1))"

definition clamp_u32 :: "u32 \<Rightarrow> u32 \<Rightarrow> u32 \<Rightarrow> u32" where
  "clamp_u32 x lo hi = (if x < lo then lo else if hi < x then hi else x)"

definition window_knobs :: "TraceWindow \<Rightarrow> SimBaseKnobs \<Rightarrow> WindowKnobs" where
  "window_knobs w base =
     (let fraction = (if prefill_heavy w then fclamp (lit (70 / 100) + tw_q_prefill w * lit (25 / 100)) (lit (55 / 100)) (lit (95 / 100))
                      else fclamp (lit (10 / 100) + tw_q_prefill w * lit (35 / 100)) (lit (5 / 100)) (lit (45 / 100)));
          load = fclamp (lit (45 / 100) + tw_q_prefill w + tw_q_decode w) (lit (1 / 2)) (lit 2);
          conc = clamp_u32 (u32_of_f64 (fround (f64_of_nat (unat (bk_concurrency base)) * load))) 4 64;
          long_tokens = (if prefill_heavy w then long_prompt_tokens_heavy base else bk_long_prompt_tokens base);
          pd = u64_of_f64 (fmax (f64_of_u64 (base_prefill_delay_us base) * (lit (4 / 10) + tw_q_prefill w * lit (16 / 10))) 1);
          dd = u64_of_f64 (fmax (f64_of_u64 (base_decode_delay_us base) * (lit (4 / 10) + tw_q_decode w * lit (16 / 10))) 1);
          mult = fclamp (lit (1 / 2) + tw_q_prefill w + tw_q_decode w * lit (1 / 2)) (lit (1 / 2)) (lit (5 / 2))
      in \<lparr>prefill_fraction = fraction, wk_concurrency = conc, wk_requests_per_worker = bk_requests_per_worker base,
          wk_request_style = bk_request_style base, wk_long_prompt_tokens = long_tokens, prefill_delay_us = pd,
          decode_delay_us = dd, delay_window_mult = mult\<rparr>)"

definition tier_delay_us :: "u32 \<Rightarrow> u32 \<Rightarrow> u64 \<Rightarrow> f64 \<Rightarrow> u64" where
  "tier_delay_us tier_index tier_count base_us window_mult =
     (let skew = 1 + f64_of_nat (unat tier_index) / f64_of_nat (unat (max tier_count 1)) * lit (6 / 10)
      in u64_of_f64 (fmax (f64_of_u64 base_us * window_mult * skew) 1))"

definition jitter_delay_us :: "u64 \<Rightarrow> u64 \<Rightarrow> u64 \<Rightarrow> u64" where
  "jitter_delay_us delay_us jitter_us slt =
     (if jitter_us = 0 then delay_us
      else let span = saturating_add (saturating_mul jitter_us 2) 1;
               delta = (slt * 1103515245 + 12345) mod span
           in saturating_sub (saturating_add delay_us delta) jitter_us)"

section \<open>The replay gate\<close>

definition served :: "FleetWindowResult \<Rightarrow> u64" where
  "served w = fw_ok w + fw_errors w"

definition eval_fleet_sim_gate ::
    "FleetPilotReport \<Rightarrow> FleetWindowResult list \<Rightarrow> f64 \<Rightarrow> f64 option \<Rightarrow> f64 option \<Rightarrow> FleetSimReport" where
  "eval_fleet_sim_gate pilot live min_shadow min_live max_graceful =
     (let held_live = filter fw_held_out live;
          live_corr = point_biserial_corr (map fw_dataplane_pi held_live) (map fw_prefill_heavy held_live);
          heavy_total = sum_list (map served (filter fw_prefill_heavy live));
          light_total = sum_list (map served (filter (\<lambda>w. \<not> fw_prefill_heavy w) live));
          load_separation = light_total < heavy_total;
          shadow_pass = (gate_pass pilot \<and> fle min_shadow (heldout_correlation pilot));
          heavy_graceful = sum_list (map errors_graceful (filter fw_prefill_heavy live));
          heavy_shed_rate = (if 0 < heavy_total then f64_of_u64 heavy_graceful / f64_of_u64 heavy_total else 0);
          heavy_shed_pass = (case max_graceful of Some mx \<Rightarrow> fle heavy_shed_rate mx | None \<Rightarrow> True);
          live_pass = (case min_live of Some mn \<Rightarrow> fle mn live_corr | None \<Rightarrow> True)
      in \<lparr>sim_windows = length live, sim_heldout_correlation = heldout_correlation pilot, live_pi_correlation = live_corr,
          sim_gate_pass = (shadow_pass \<and> load_separation \<and> live_pass \<and> heavy_shed_pass), window_results = live\<rparr>)"

definition shadow_pilot_for_trace :: "nat \<Rightarrow> TraceWindow list \<Rightarrow> f64 \<Rightarrow> FleetPilotReport" where
  "shadow_pilot_for_trace now windows min_correlation = replay_fleet_pilot now windows min_correlation"

section \<open>Lemmas\<close>

lemma clamp_u32_bounds: "lo \<le> hi \<Longrightarrow> lo \<le> clamp_u32 x lo hi \<and> clamp_u32 x lo hi \<le> hi"
  by (auto simp: clamp_u32_def)

lemma fmax_one_ge: "1 \<le> u64_of_f64 (fmax v (Fin 1))"
proof -
  have "Fin 1 \<le> fmax v (Fin 1)" "fmax v (Fin 1) \<noteq> NaN" using fmax_ge(2) [of "Fin 1" v] by (auto simp: fle_def)
  then have "nat_of_f64 (Fin 1) \<le> nat_of_f64 (fmax v (Fin 1))" by (intro nat_of_f64_mono)
  then show ?thesis by (simp add: word_le_nat_alt unat_u64_of_f64)
qed

lemma fclamp_between: "x \<noteq> NaN \<Longrightarrow> a \<le> b \<Longrightarrow> fle (mk64 a) (fclamp x (mk64 a) (mk64 b)) \<and> fle (fclamp x (mk64 a) (mk64 b)) (mk64 b)"
  using fclamp_bounds [of x "mk64 a" "mk64 b"] by (simp add: fle_def mk64_mono)

lemma trace_lines_spec:
  assumes "trace_lines from_str ls acc = Inr ws"
  shows "\<exists>rows. ws = acc @ map TraceWindow_from rows \<and> map from_str (filter (\<lambda>l. l \<noteq> [] \<and> \<not> starts_with [35] l) (map trim ls)) = map Inr rows"
  using assms
proof (induction from_str ls acc rule: trace_lines.induct)
  case (2 from_str l ls acc)
  show ?case
  proof (cases "trim l = [] \<or> starts_with [35] (trim l)")
    case True
    then show ?thesis using 2 by (auto simp: Let_def)
  next
    case False
    then obtain row where r: "from_str (trim l) = Inr row" using 2(3) by (cases "from_str (trim l)") (auto simp: Let_def)
    then have "trace_lines from_str ls (acc @ [TraceWindow_from row]) = Inr ws" using 2(3) False by (simp add: Let_def)
    then obtain rows where "ws = acc @ [TraceWindow_from row] @ map TraceWindow_from rows"
      "map from_str (filter (\<lambda>l. l \<noteq> [] \<and> \<not> starts_with [35] l) (map trim ls)) = map Inr rows"
      using 2(2) [of "trim l" row] False r by auto
    then show ?thesis using False r by (intro exI [of _ "row # rows"]) simp
  qed
qed simp

lemma shift_bounds: "(d :: nat) \<le> 2 * j \<Longrightarrow> x \<le> m \<Longrightarrow> x - j \<le> min (x + d) m - j \<and> min (x + d) m - j \<le> x + j"
  by linarith

section \<open>Properties\<close>

text \<open>jitter is symmetric and safe: whatever the salt and however large the delay and the jitter, the
  delay moves by at most the jitter in either direction, and neither wraps nor underflows.\<close>

theorem jitter_symmetric:
  "unat delay_us - unat jitter_us \<le> unat (jitter_delay_us delay_us jitter_us slt)
   \<and> unat (jitter_delay_us delay_us jitter_us slt) \<le> unat delay_us + unat jitter_us"
proof -
  define span where "span = saturating_add (saturating_mul jitter_us 2) 1"
  have sp: "unat span = min (min (unat jitter_us * 2) (2 ^ 64 - 1) + 1) (2 ^ 64 - 1)"
    by (simp add: span_def u64_simps)
  then have "unat ((slt * 1103515245 + 12345) mod span) < unat span" by (simp add: unat_mod)
  then have d: "unat ((slt * 1103515245 + 12345) mod span) \<le> 2 * unat jitter_us" using sp by linarith
  show ?thesis
  proof (cases "jitter_us = 0")
    case False
    then have "unat (jitter_delay_us delay_us jitter_us slt)
        = min (unat delay_us + unat ((slt * 1103515245 + 12345) mod span)) (2 ^ 64 - 1) - unat jitter_us"
      by (simp add: jitter_delay_us_def span_def Let_def u64_simps)
    then show ?thesis using shift_bounds [OF d unat_le_u64_max [of delay_us]] by simp
  qed (simp add: jitter_delay_us_def)
qed

lemma weight_Fin:
  assumes "1 / 16 \<le> x" "x \<le> 1"
  obtains y where "mk64 x = Fin y" "0 < y"
proof -
  have "repr64 (1 / 16)" using repr64_dyadic [of 1 4] by simp
  with assms show thesis by (elim mk64_between [of "1 / 16" x 1]) (use that in auto)
qed

lemma weighted_not_NaN:
  assumes "q \<noteq> NaN" "1 / 16 \<le> x" "x \<le> 1" "1 / 16 \<le> c" "c \<le> 1"
  shows "mk64 c + q * mk64 x \<noteq> NaN"
proof -
  obtain y z where "mk64 x = Fin y" "0 < y" "mk64 c = Fin z" using weight_Fin assms by metis
  then show ?thesis using assms(1) by (cases q) simp_all
qed

text \<open>A window's knobs are usable: concurrency between 4 and 64, both delays at least one microsecond,
  also for NaN or infinite queue pressures; and for pressures that are numbers the prefill fraction lies
  between 55 and 95 percent in a prefill-heavy window and between 5 and 45 percent in a light one.\<close>

theorem window_knobs_bounds:
  "4 \<le> wk_concurrency (window_knobs w base) \<and> wk_concurrency (window_knobs w base) \<le> 64
   \<and> 1 \<le> prefill_delay_us (window_knobs w base) \<and> 1 \<le> decode_delay_us (window_knobs w base)
   \<and> (tw_q_prefill w = NaN
      \<or> fle (lit (if prefill_heavy w then 55 / 100 else 5 / 100)) (prefill_fraction (window_knobs w base))
        \<and> fle (prefill_fraction (window_knobs w base)) (lit (if prefill_heavy w then 95 / 100 else 45 / 100)))"
proof -
  have c: "(4 :: u32) \<le> clamp_u32 x 4 64 \<and> clamp_u32 x 4 64 \<le> 64" for x by (rule clamp_u32_bounds) simp
  have f: "tw_q_prefill w = NaN
      \<or> fle (lit (if prefill_heavy w then 55 / 100 else 5 / 100)) (prefill_fraction (window_knobs w base))
        \<and> fle (prefill_fraction (window_knobs w base)) (lit (if prefill_heavy w then 95 / 100 else 45 / 100))"
  proof (cases "tw_q_prefill w = NaN")
    case False
    then show ?thesis
      using fclamp_between [OF weighted_not_NaN [OF False, of "25 / 100" "70 / 100"], of "55 / 100" "95 / 100"]
        fclamp_between [OF weighted_not_NaN [OF False, of "35 / 100" "10 / 100"], of "5 / 100" "45 / 100"]
      by (simp add: window_knobs_def Let_def)
  qed simp
  have d: "1 \<le> prefill_delay_us (window_knobs w base)" "1 \<le> decode_delay_us (window_knobs w base)"
    using fmax_one_ge by (simp_all add: window_knobs_def Let_def)
  show ?thesis using c f d by (simp add: window_knobs_def Let_def)
qed

text \<open>A loaded trace is not empty and holds the rows of all lines that are neither blank nor comments, in
  order; one line that does not decode fails the load.\<close>

theorem load_fleet_trace_spec:
  assumes "load_fleet_trace from_str path contents = Inr ws"
  shows "ws \<noteq> [] \<and> (\<exists>raw rows. contents = Inr raw \<and> ws = map TraceWindow_from rows
    \<and> map from_str (filter (\<lambda>l. l \<noteq> [] \<and> \<not> starts_with [35] l) (map trim (lines raw))) = map Inr rows)"
proof -
  obtain raw where raw: "contents = Inr raw" using assms by (cases contents) (auto simp: load_fleet_trace_def)
  then have t: "trace_lines from_str (lines raw) [] = Inr ws" "ws \<noteq> []"
    using assms by (auto simp: load_fleet_trace_def and_then_Inr split: if_splits)
  then show ?thesis using raw trace_lines_spec [OF t(1)] by auto
qed

text \<open>The gate passes only on a trace with prefill-heavy traffic, and never on an empty replay.\<close>

lemma fleet_gate_needs_heavy:
  assumes "sim_gate_pass (eval_fleet_sim_gate pilot live a b c)"
  shows "\<exists>w \<in> set live. fw_prefill_heavy w"
proof (rule ccontr)
  assume "\<not> ?thesis"
  then have "filter fw_prefill_heavy live = []" by (simp add: filter_empty_conv)
  then show False using assms by (simp add: eval_fleet_sim_gate_def Let_def)
qed

end
