(* ===== verification/LoadGates.thy ===== *)
theory LoadGates
  imports Fmt Kv FleetSim
begin

text \<open>
  The load-bench configuration, its results and its two gate evaluations (\<open>xtask/src/load_bench.rs\<close>):
  \<open>evaluate_scenario_gates\<close>, which the report prints, and the gate counter of \<open>load_bench_inner\<close>, which
  decides the exit status.  Decoding the TOML file and running a scenario are parameters.  Lines
  printed to standard error are not modelled.
\<close>

section \<open>Configuration\<close>

record Scenario =
  sc_id :: string
  sc_summary :: string
  ci :: bool
  stress :: bool
  harden :: bool
  sc_backends :: u32
  base_cost_seconds :: f64
  cost_step_seconds :: f64
  sc_backend_delay_us :: u64
  sc_decode_backends :: u32
  sc_concurrency :: u32
  sc_requests_per_worker :: u32
  sc_prefill_fraction :: f64
  sc_max_p99_ms :: "f64 option"
  sc_request_style :: string
  sc_use_kv_pool :: bool
  sc_bytes_per_token :: u64
  sc_decode_capacity_bytes :: u64
  prefill_kv_headers :: bool
  sc_long_prompt_tokens :: u64
  max_inflight :: u32
  measure_kind :: string
  prefill_delay_sweep_us :: "u64 list"
  sc_max_accept_p99_ratio :: "f64 option"
  paired_labels :: bool
  sc_max_kv_admit_rejects :: "u64 option"
  sc_rebalancer_actuation :: bool
  step_prefill_fraction :: "f64 list"
  step_request_style :: "string list"
  sc_min_dataplane_pi :: "f64 option"
  isolate_recovery :: bool
  sc_io_uring :: bool
  track_b_kernel :: bool
  sc_admit_mode :: "string option"
  linux_only :: bool
  optional :: bool
  sc_admit_capacity :: u64
  sc_max_p99_tail_ratio :: "f64 option"
  sc_max_misroute_mean :: "f64 option"
  sc_min_kv_admit_rejects :: "u64 option"
  sc_min_errors :: "u64 option"
  sc_max_hard_errors :: "u64 option"
  large_body_bytes :: u64
  sim :: bool
  sc_trace_path :: "string option"
  sc_min_fleet_correlation :: "f64 option"
  sc_min_live_fleet_correlation :: "f64 option"
  sc_max_heavy_graceful_rate :: "f64 option"
  sc_handoff_transport :: "string option"
  sc_rdma_routing :: bool
  backend_delay_jitter_us :: u64
  heterogeneous_backends :: bool
  sim_netem_us :: u64
  rdma_modeled :: bool
  sc_min_rdma_shadow_samples :: "u64 option"
  sc_min_rdma_transfer_ratio :: "f64 option"
  sc_max_rdma_transfer_ratio :: "f64 option"


text \<open>The serde defaults: a scenario table that sets only the required keys.\<close>

definition default_prefill_fraction :: f64 where "default_prefill_fraction = 1"
definition default_request_style :: string where "default_request_style = ''path''"
definition default_bytes_per_token :: u64 where "default_bytes_per_token = 128"
definition default_long_tokens :: u64 where "default_long_tokens = 2048"
definition default_measure :: string where "default_measure = ''e2e''"

definition Scenario_default :: "string \<Rightarrow> string \<Rightarrow> u32 \<Rightarrow> f64 \<Rightarrow> f64 \<Rightarrow> u32 \<Rightarrow> u32 \<Rightarrow> Scenario" where
  "Scenario_default ident summ nb base step conc rpw =
     \<lparr>sc_id = ident, sc_summary = summ, ci = False, stress = False, harden = False, sc_backends = nb,
      base_cost_seconds = base, cost_step_seconds = step, sc_backend_delay_us = 0, sc_decode_backends = 0,
      sc_concurrency = conc, sc_requests_per_worker = rpw, sc_prefill_fraction = default_prefill_fraction,
      sc_max_p99_ms = None, sc_request_style = default_request_style, sc_use_kv_pool = False,
      sc_bytes_per_token = default_bytes_per_token, sc_decode_capacity_bytes = 0, prefill_kv_headers = False,
      sc_long_prompt_tokens = default_long_tokens, max_inflight = 0, measure_kind = default_measure,
      prefill_delay_sweep_us = [], sc_max_accept_p99_ratio = None, paired_labels = False,
      sc_max_kv_admit_rejects = None, sc_rebalancer_actuation = False, step_prefill_fraction = [],
      step_request_style = [], sc_min_dataplane_pi = None, isolate_recovery = False, sc_io_uring = False,
      track_b_kernel = False, sc_admit_mode = None, linux_only = False, optional = False, sc_admit_capacity = 0,
      sc_max_p99_tail_ratio = None, sc_max_misroute_mean = None, sc_min_kv_admit_rejects = None,
      sc_min_errors = None, sc_max_hard_errors = None, large_body_bytes = 0, sim = False, sc_trace_path = None,
      sc_min_fleet_correlation = None, sc_min_live_fleet_correlation = None, sc_max_heavy_graceful_rate = None,
      sc_handoff_transport = None, sc_rdma_routing = False, backend_delay_jitter_us = 0,
      heterogeneous_backends = False, sim_netem_us = 0, rdma_modeled = False, sc_min_rdma_shadow_samples = None,
      sc_min_rdma_transfer_ratio = None, sc_max_rdma_transfer_ratio = None\<rparr>"

record LoadSettings =
  report_dir :: string
  warmup_requests :: u32
  startup_delay_ms :: u64
  stress_recovery_ms :: u64
  gate_strict :: bool

record LoadBenchFile =
  settings :: LoadSettings
  scenario :: "Scenario list"

record ScenarioResult =
  rs_id :: string
  rs_summary :: string
  rs_backends :: u32
  rs_decode_backends :: u32
  rs_concurrency :: u32
  rs_requests_per_worker :: u32
  rs_backend_delay_us :: u64
  rs_request_style :: string
  rs_use_kv_pool :: bool
  total_requests :: u64
  rs_ok :: u64
  rs_errors :: u64
  rs_errors_graceful :: "u64 option"
  rs_errors_hard :: "u64 option"
  duration_secs :: f64
  req_per_sec :: f64
  min_us :: u64
  p50_us :: u64
  p90_us :: u64
  rs_p99_us :: u64
  max_us :: u64
  rs_max_p99_ms :: "f64 option"
  kv_bytes_reserved_peak :: "u64 option"
  rs_kv_admit_rejects :: "u64 option"
  handoff_transfer_count :: "u64 option"
  handoff_bytes_p50 :: "u64 option"
  handoff_bytes_p99 :: "u64 option"
  handoff_wall_us_p50 :: "u64 option"
  handoff_wall_us_p99 :: "u64 option"
  accept_p99_us_low :: "u64 option"
  accept_p99_us_high :: "u64 option"
  accept_p99_ratio :: "f64 option"
  latencies_us :: "u64 list"
  rs_dataplane_pi :: "f64 option"
  rs_dataplane_age_ms :: "u64 option"
  rs_rcu_stale :: "bool option"
  rs_pi_star :: "f64 option"
  min_dataplane_pi_sampled :: "f64 option"
  rs_fast_path_ratio :: "f64 option"
  rs_colocated_routes :: "u64 option"
  rs_disagg_routes :: "u64 option"
  rs_fastpath_misroute_mean :: "f64 option"
  rs_fastpath_misroute_samples :: "u64 option"
  rs_corrector_shadow_samples :: "u64 option"
  fleet_windows :: "FleetWindowResult list"
  fleet_live_pi_correlation :: "f64 option"
  fleet_shadow_correlation :: "f64 option"
  fleet_heavy_graceful_rate :: "f64 option"
  fleet_sim_gate_pass :: "bool option"
  rs_rdma_shadow_samples :: "u64 option"
  rdma_transfer_ratio_median :: "f64 option"

record LoadBenchReport =
  generated_at :: utext
  hostname :: string
  report_scenarios :: "ScenarioResult list"

record ScenarioGateConfig =
  gc_use_kv_pool :: bool
  gc_decode_capacity_bytes :: u64
  gc_max_kv_admit_rejects :: "u64 option"
  gc_min_kv_admit_rejects :: "u64 option"
  gc_min_errors :: "u64 option"
  gc_max_hard_errors :: "u64 option"
  gc_max_accept_p99_ratio :: "f64 option"
  gc_min_dataplane_pi :: "f64 option"
  gc_max_p99_tail_ratio :: "f64 option"
  gc_max_misroute_mean :: "f64 option"
  gc_min_fleet_correlation :: "f64 option"
  gc_min_live_fleet_correlation :: "f64 option"
  gc_max_heavy_graceful_rate :: "f64 option"
  gc_min_rdma_shadow_samples :: "u64 option"
  gc_min_rdma_transfer_ratio :: "f64 option"
  gc_max_rdma_transfer_ratio :: "f64 option"

text \<open>\<open>Option::unwrap_or\<close>.\<close>

definition unwrap_or :: "'a option \<Rightarrow> 'a \<Rightarrow> 'a" where
  "unwrap_or v d = (case v of Some x \<Rightarrow> x | None \<Rightarrow> d)"

definition kv_shed_capacity_bytes :: "u64 \<Rightarrow> u64 \<Rightarrow> u64" where
  "kv_shed_capacity_bytes long_prompt_tokens bytes_per_token =
     (let per = kv_reserved (kv_breakdown long_prompt_tokens bytes_per_token)
      in saturating_mul per 3 + per div 4)"

definition effective_decode_capacity_bytes :: "Scenario \<Rightarrow> u64" where
  "effective_decode_capacity_bytes sc =
     (if \<not> sc_use_kv_pool sc then sc_decode_capacity_bytes sc
      else if 0 < unwrap_or (sc_min_kv_admit_rejects sc) 0
        then kv_shed_capacity_bytes (max (sc_long_prompt_tokens sc) 2048) (sc_bytes_per_token sc)
      else if 0 < sc_decode_capacity_bytes sc then sc_decode_capacity_bytes sc
      else saturating_mul (kv_reserved (kv_breakdown (sc_long_prompt_tokens sc) (sc_bytes_per_token sc))) 10)"

definition ScenarioGateConfig_from :: "Scenario \<Rightarrow> ScenarioGateConfig" where
  "ScenarioGateConfig_from sc =
     \<lparr>gc_use_kv_pool = sc_use_kv_pool sc,
      gc_decode_capacity_bytes = effective_decode_capacity_bytes sc,
      gc_max_kv_admit_rejects = sc_max_kv_admit_rejects sc,
      gc_min_kv_admit_rejects = sc_min_kv_admit_rejects sc,
      gc_min_errors = sc_min_errors sc,
      gc_max_hard_errors = sc_max_hard_errors sc,
      gc_max_accept_p99_ratio = sc_max_accept_p99_ratio sc,
      gc_min_dataplane_pi = sc_min_dataplane_pi sc,
      gc_max_p99_tail_ratio = sc_max_p99_tail_ratio sc,
      gc_max_misroute_mean = sc_max_misroute_mean sc,
      gc_min_fleet_correlation = sc_min_fleet_correlation sc,
      gc_min_live_fleet_correlation = sc_min_live_fleet_correlation sc,
      gc_max_heavy_graceful_rate = sc_max_heavy_graceful_rate sc,
      gc_min_rdma_shadow_samples = sc_min_rdma_shadow_samples sc,
      gc_min_rdma_transfer_ratio = sc_min_rdma_transfer_ratio sc,
      gc_max_rdma_transfer_ratio = sc_max_rdma_transfer_ratio sc\<rparr>"

text \<open>The thresholds by scenario id; a later scenario with the same id replaces an earlier one.\<close>

definition gate_configs_by_id :: "string + LoadBenchFile \<Rightarrow> string + (string \<rightharpoonup> ScenarioGateConfig)" where
  "gate_configs_by_id contents =
     and_then contents (\<lambda>file. Inr (map_of (rev (map (\<lambda>sc. (sc_id sc, ScenarioGateConfig_from sc)) (scenario file)))))"

section \<open>The gates of the report\<close>

record GateVerdict =
  gv_name :: utext
  pass :: bool
  detail :: utext

abbreviation tx :: "string \<Rightarrow> utext" where
  "tx \<equiv> of_ascii"

text \<open>Code points of the printed literals: less-or-equal, micro, pi, em dash.\<close>

abbreviation LE :: utext where "LE \<equiv> [8804]"
abbreviation MICRO :: utext where "MICRO \<equiv> [181]"
abbreviation PI :: utext where "PI \<equiv> [960]"
abbreviation DASH :: utext where "DASH \<equiv> [8212]"

abbreviation verdict :: "utext \<Rightarrow> bool \<Rightarrow> utext \<Rightarrow> GateVerdict" where
  "verdict n p d \<equiv> \<lparr>gv_name = n, pass = p, detail = d\<rparr>"

definition hard_gate :: "ScenarioGateConfig \<Rightarrow> u64 \<Rightarrow> GateVerdict list" where
  "hard_gate cfg hard =
     (case gc_max_hard_errors cfg of
        Some max_hard \<Rightarrow>
          [verdict (tx ''hard errors'') (hard \<le> max_hard)
             (fmt_u64 hard @ tx '' hard (cap '' @ fmt_u64 max_hard @ tx '')'')]
      | None \<Rightarrow> [])"

definition errors_gate :: "ScenarioGateConfig \<Rightarrow> ScenarioResult \<Rightarrow> u64 \<Rightarrow> u64 \<Rightarrow> u64 \<Rightarrow> GateVerdict list" where
  "errors_gate cfg r rejects graceful hard =
     (case gc_max_kv_admit_rejects cfg of
        Some cap \<Rightarrow>
          [verdict (tx ''errors'')
             (if rs_errors_graceful r \<noteq> None
              then graceful \<le> cap \<and> rejects \<le> cap \<and> hard \<le> unwrap_or (gc_max_hard_errors cfg) cap
              else rs_errors r \<le> cap \<and> rejects \<le> cap)
             (if rs_errors_graceful r \<noteq> None
              then fmt_u64 graceful @ tx '' 503 / '' @ fmt_u64 hard @ tx '' hard / '' @ fmt_u64 rejects
                   @ tx '' kv rejects (cap '' @ fmt_u64 cap @ tx '')''
              else fmt_u64 (rs_errors r) @ tx '' err / '' @ fmt_u64 rejects @ tx '' kv rejects (cap '' @ fmt_u64 cap @ tx '')'')]
      | None \<Rightarrow>
          if 0 < rs_errors r \<and> gc_max_hard_errors cfg = None
          then [verdict (tx ''errors'') False
                  (fmt_u64 (rs_errors r) @ tx '' err / '' @ fmt_u64 (total_requests r) @ tx '' req (zero required)'')]
          else if gc_max_hard_errors cfg = None
          then [verdict (tx ''errors'') True
                  (if 0 < graceful \<or> 0 < hard then fmt_u64 graceful @ tx '' 503 / '' @ fmt_u64 hard @ tx '' hard''
                   else tx ''0 err'')]
          else if 0 < graceful then [verdict (tx ''graceful 503'') True (fmt_u64 graceful @ tx '' shed'')]
          else [])"

definition floor_gates :: "ScenarioGateConfig \<Rightarrow> ScenarioResult \<Rightarrow> u64 \<Rightarrow> GateVerdict list" where
  "floor_gates cfg r rejects =
     (case gc_min_kv_admit_rejects cfg of
        Some min_rejects \<Rightarrow>
          [verdict (tx ''kv rejects min'') (min_rejects \<le> rejects)
             (fmt_u64 rejects @ tx '' rejects (min '' @ fmt_u64 min_rejects @ tx '')'')]
      | None \<Rightarrow> [])
     @ (case gc_min_errors cfg of
        Some min_err \<Rightarrow>
          [verdict (tx ''errors min'') (min_err \<le> rs_errors r)
             (fmt_u64 (rs_errors r) @ tx '' err (min '' @ fmt_u64 min_err @ tx '')'')]
      | None \<Rightarrow> [])"

definition error_gates :: "ScenarioGateConfig \<Rightarrow> ScenarioResult \<Rightarrow> GateVerdict list" where
  "error_gates cfg r =
     (if gc_max_kv_admit_rejects cfg \<noteq> None \<or> gc_min_kv_admit_rejects cfg \<noteq> None \<or> gc_min_errors cfg \<noteq> None
         \<or> gc_max_hard_errors cfg \<noteq> None \<or> 0 < rs_errors r
      then let rejects = unwrap_or (rs_kv_admit_rejects r) 0;
               graceful = unwrap_or (rs_errors_graceful r) 0;
               hard = unwrap_or (rs_errors_hard r) (saturating_sub (rs_errors r) graceful)
           in hard_gate cfg hard @ errors_gate cfg r rejects graceful hard @ floor_gates cfg r rejects
      else [])"

definition kv_peak_gate :: "ScenarioGateConfig \<Rightarrow> ScenarioResult \<Rightarrow> GateVerdict list" where
  "kv_peak_gate cfg r =
     (if gc_use_kv_pool cfg \<and> 0 < gc_decode_capacity_bytes cfg
      then (case kv_bytes_reserved_peak r of
              Some peak \<Rightarrow> [verdict (tx ''kv peak'') (peak \<le> gc_decode_capacity_bytes cfg)
                              (fmt_u64 peak @ tx '' bytes (cap '' @ fmt_u64 (gc_decode_capacity_bytes cfg) @ tx '')'')]
            | None \<Rightarrow> [])
      else [])"

definition p99_ms :: "ScenarioResult \<Rightarrow> f64" where
  "p99_ms r = f64_of_u64 (rs_p99_us r) / lit 1000"

definition p99_gate :: "ScenarioResult \<Rightarrow> GateVerdict list" where
  "p99_gate r =
     (case rs_max_p99_ms r of
        Some limit \<Rightarrow>
          [verdict (tx ''p99'') (0 < rs_ok r \<and> fle (p99_ms r) limit)
             (if rs_ok r = 0 then tx ''no successful requests''
              else fmt_f64 2 (p99_ms r) @ tx ''ms ('' @ LE @ tx '' '' @ fmt_f64 1 limit @ tx ''ms)'')]
      | None \<Rightarrow> [])"

definition accept_gate :: "ScenarioGateConfig \<Rightarrow> ScenarioResult \<Rightarrow> GateVerdict list" where
  "accept_gate cfg r =
     (case (accept_p99_ratio r, gc_max_accept_p99_ratio cfg) of
        (Some ratio, Some limit) \<Rightarrow>
          [verdict (tx ''accept p99 ratio'') (fle ratio limit)
             (fmt_f64 2 ratio @ tx '' ('' @ LE @ tx '' '' @ fmt_f64 1 limit @ tx '') '' @ DASH @ tx '' ''
              @ fmt_u64 (unwrap_or (accept_p99_us_low r) 0) @ MICRO @ tx ''s / ''
              @ fmt_u64 (unwrap_or (accept_p99_us_high r) 0) @ MICRO @ tx ''s'')]
      | _ \<Rightarrow> [])"

definition pi_gate :: "ScenarioGateConfig \<Rightarrow> ScenarioResult \<Rightarrow> GateVerdict list" where
  "pi_gate cfg r =
     (case gc_min_dataplane_pi cfg of
        Some min_pi \<Rightarrow>
          (case rs_dataplane_pi r of
             Some observed \<Rightarrow>
               [verdict (tx ''dataplane '' @ PI) (fle min_pi observed)
                  (fmt_f64 3 observed @ tx '' (min '' @ fmt_f64 3 min_pi @ tx '')'')]
           | None \<Rightarrow> [])
      | None \<Rightarrow> [])"

definition tail_ratio :: "ScenarioResult \<Rightarrow> f64" where
  "tail_ratio r = f64_of_u64 (max_us r) / f64_of_u64 (rs_p99_us r)"

definition tail_gate :: "ScenarioGateConfig \<Rightarrow> ScenarioResult \<Rightarrow> GateVerdict list" where
  "tail_gate cfg r =
     (case gc_max_p99_tail_ratio cfg of
        Some limit \<Rightarrow>
          if 0 < rs_p99_us r
          then [verdict (tx ''tail max/p99'') (fle (tail_ratio r) limit)
                  (fmt_f64 2 (tail_ratio r) @ tx '' ('' @ LE @ tx '' '' @ fmt_f64 1 limit @ tx '') '' @ DASH @ tx '' max ''
                   @ fmt_u64 (max_us r) @ MICRO @ tx ''s / p99 '' @ fmt_u64 (rs_p99_us r) @ MICRO @ tx ''s'')]
          else []
      | None \<Rightarrow> [])"

definition misroute_gate :: "ScenarioGateConfig \<Rightarrow> ScenarioResult \<Rightarrow> GateVerdict list" where
  "misroute_gate cfg r =
     (case gc_max_misroute_mean cfg of
        Some limit \<Rightarrow>
          (case rs_fastpath_misroute_mean r of
             Some m \<Rightarrow> [verdict (tx ''misroute mean'') (fle m limit)
                          (fmt_f64 3 m @ tx '' ('' @ LE @ tx '' '' @ fmt_f64 3 limit @ tx '')'')]
           | None \<Rightarrow> [])
      | None \<Rightarrow> [])"

definition fleet_gates :: "ScenarioGateConfig \<Rightarrow> ScenarioResult \<Rightarrow> GateVerdict list" where
  "fleet_gates cfg r =
     (if gc_min_fleet_correlation cfg \<noteq> None \<or> fleet_sim_gate_pass r \<noteq> None
      then let shadow_corr = unwrap_or (fleet_shadow_correlation r) 0;
               min_shadow = unwrap_or (gc_min_fleet_correlation cfg) (lit (45 / 100));
               replay = unwrap_or (fleet_sim_gate_pass r) False
           in [verdict (tx ''fleet shadow '' @ PI @ tx ''*'') (fle min_shadow shadow_corr)
                 (tx ''held-out shadow_corr '' @ fmt_f64 3 shadow_corr @ tx '' (min '' @ fmt_f64 2 min_shadow @ tx '')'')]
              @ (case fleet_live_pi_correlation r of
                   Some corr \<Rightarrow>
                     (case gc_min_live_fleet_correlation cfg of
                        Some min_live \<Rightarrow>
                          [verdict (tx ''fleet live '' @ PI) (fle min_live corr)
                             (tx ''held-out live_pi_corr '' @ fmt_f64 3 corr @ tx '' (min '' @ fmt_f64 2 min_live @ tx '')'')]
                      | None \<Rightarrow>
                          [verdict (tx ''fleet live '' @ PI) True
                             (tx ''held-out live_pi_corr '' @ fmt_f64 3 corr @ tx '' (informational)'')])
                 | None \<Rightarrow> [])
              @ (case gc_max_heavy_graceful_rate cfg of
                   Some max_rate \<Rightarrow>
                     (let rate = unwrap_or (fleet_heavy_graceful_rate r) 0
                      in [verdict (tx ''fleet heavy 503'') (fle rate max_rate)
                            (tx ''heavy window shed rate '' @ fmt_f64 3 rate @ tx '' (max '' @ fmt_f64 2 max_rate @ tx '')'')])
                 | None \<Rightarrow> [])
              @ [verdict (tx ''fleet replay'') replay (tx (if replay then ''overall PASS'' else ''overall FAIL''))]
      else [])"

definition rdma_gates :: "ScenarioGateConfig \<Rightarrow> ScenarioResult \<Rightarrow> GateVerdict list" where
  "rdma_gates cfg r =
     (case gc_min_rdma_shadow_samples cfg of
        Some min_n \<Rightarrow>
          (let n = unwrap_or (rs_rdma_shadow_samples r) 0
           in [verdict (tx ''RDMA shadow samples'') (min_n \<le> n) (fmt_u64 n @ tx '' (min '' @ fmt_u64 min_n @ tx '')'')])
      | None \<Rightarrow> [])
     @ (case (gc_min_rdma_transfer_ratio cfg, rdma_transfer_ratio_median r) of
        (Some min_r, Some ratio) \<Rightarrow>
          [verdict (tx ''RDMA transfer ratio min'') (fle min_r ratio)
             (fmt_f64 3 ratio @ tx '' (min '' @ fmt_f64 3 min_r @ tx '')'')]
      | _ \<Rightarrow> [])
     @ (case (gc_max_rdma_transfer_ratio cfg, rdma_transfer_ratio_median r) of
        (Some max_r, Some ratio) \<Rightarrow>
          [verdict (tx ''RDMA transfer ratio max'') (fle ratio max_r)
             (fmt_f64 3 ratio @ tx '' (max '' @ fmt_f64 3 max_r @ tx '')'')]
      | _ \<Rightarrow> [])"

definition evaluate_scenario_gates :: "ScenarioGateConfig \<Rightarrow> ScenarioResult \<Rightarrow> GateVerdict list" where
  "evaluate_scenario_gates cfg r =
     error_gates cfg r @ kv_peak_gate cfg r @ p99_gate r @ accept_gate cfg r @ pi_gate cfg r @ tail_gate cfg r
     @ misroute_gate cfg r @ fleet_gates cfg r @ rdma_gates cfg r"

section \<open>When every verdict passes\<close>

text \<open>A measured value that is absent or a number.\<close>

definition defined :: "f64 option \<Rightarrow> bool" where
  "defined v \<longleftrightarrow> v \<noteq> Some NaN"

lemma fle_flt: "a \<noteq> NaN \<Longrightarrow> b \<noteq> NaN \<Longrightarrow> fle a b \<longleftrightarrow> \<not> flt b a"
  by (auto simp: fle_def flt_def)

lemma p99_ms_number: "p99_ms r \<noteq> NaN"
  by (simp add: p99_ms_def f64_of_u64_Fin mk64_nat [of 1000, simplified])

lemma rnd_real_pos: "0 < n \<Longrightarrow> 0 < rnd (real n)"
proof (rule rnd_pos)
  assume "0 < n"
  have "(2 :: real) powi (-1074) \<le> 2 powi 0" by (subst powi2_le_iff) simp
  then show "2 powi (-1074) \<le> real n" using \<open>0 < n\<close> by simp
qed

lemma tail_ratio_number: "0 < rs_p99_us r \<Longrightarrow> tail_ratio r \<noteq> NaN"
  using rnd_real_pos [of "unat (rs_p99_us r)"]
  by (auto simp: tail_ratio_def f64_of_u64_Fin unat_gt_0 word_neq_0_conv)

text \<open>The shed threshold keeps its promise: three reservations fit, the fourth does not.\<close>

lemma kv_shed_capacity_three:
  assumes "unat (kv_reserved (kv_breakdown t b)) * 4 < 2 ^ 64" "kv_reserved (kv_breakdown t b) \<noteq> 0"
  shows "3 * unat (kv_reserved (kv_breakdown t b)) \<le> unat (kv_shed_capacity_bytes t b)"
    and "unat (kv_shed_capacity_bytes t b) < 4 * unat (kv_reserved (kv_breakdown t b))"
proof -
  let ?per = "kv_reserved (kv_breakdown t b)"
  have m: "unat (saturating_mul ?per 3) = 3 * unat ?per" using assms(1) by (simp add: u64_simps)
  have "unat (saturating_mul ?per 3 + ?per div 4) = 3 * unat ?per + unat ?per div 4"
    using assms(1) m by (subst unat_add_no_wrap) (simp_all add: unat_div)
  moreover have "0 < unat ?per" using assms(2) by (simp add: unat_gt_0)
  ultimately show "3 * unat ?per \<le> unat (kv_shed_capacity_bytes t b)" "unat (kv_shed_capacity_bytes t b) < 4 * unat ?per"
    by (simp_all add: kv_shed_capacity_bytes_def Let_def)
qed

end
