(* ===== verification/LoadClient.thy ===== *)
theory LoadClient
  imports LoadGates Serve
begin

text \<open>
  The load client (\<open>xtask/src/load_bench.rs\<close>): the requests it writes, how it reads the status of an
  answer, percentiles, the in-flight gate of its worker threads, and the assembly of a result from
  what the workers counted.  Socket answers are a record; the interleaving of the workers is a step
  relation or a sequence of outcomes.
\<close>

section \<open>Requests and answers\<close>

abbreviation crlf :: bytes where "crlf \<equiv> [13, 10]"

definition short_request :: bytes where
  "short_request = ascii ''GET / HTTP/1.1'' @ crlf @ ascii ''host: load-bench'' @ crlf
     @ ascii ''x-demiurge-tokens: 32'' @ crlf @ ascii ''connection: close'' @ crlf @ crlf"

definition long_request :: "u64 \<Rightarrow> bytes" where
  "long_request n = ascii ''GET /long/'' @ as_bytes (fmt_u64 n) @ ascii '' HTTP/1.1'' @ crlf @ ascii ''host: load-bench'' @ crlf
     @ ascii ''x-demiurge-tokens: '' @ as_bytes (fmt_u64 n) @ crlf @ ascii ''connection: close'' @ crlf @ crlf"

definition request_line :: "string \<Rightarrow> u64 \<Rightarrow> bool \<Rightarrow> u64 \<Rightarrow> bytes" where
  "request_line style long_prompt_tokens prefill_phase seq =
     (if \<not> prefill_phase
      then ascii ''GET /decode/'' @ as_bytes (fmt_u64 seq) @ ascii '' HTTP/1.1'' @ crlf @ ascii ''host: load-bench'' @ crlf
           @ ascii ''x-demiurge-phase: decode'' @ crlf @ ascii ''connection: close'' @ crlf @ crlf
      else if style = ''short_tokens'' then short_request
      else if style = ''long_tokens'' then long_request long_prompt_tokens
      else if style = ''mixed_tokens'' then (if seq mod 2 = 0 then short_request else long_request long_prompt_tokens)
      else if style = ''large_response''
        then ascii ''GET /large HTTP/1.1'' @ crlf @ ascii ''host: load-bench'' @ crlf @ ascii ''connection: close'' @ crlf @ crlf
      else ascii ''GET /prefill/'' @ as_bytes (fmt_u64 seq) @ ascii '' HTTP/1.1'' @ crlf @ ascii ''host: load-bench'' @ crlf
           @ ascii ''connection: close'' @ crlf @ crlf)"

text \<open>\<open>str::parse::<u16>\<close>.\<close>

definition parse_u16 :: "utext \<Rightarrow> u16 option" where
  "parse_u16 t = Option.bind (parse_u64 t) (\<lambda>v. if unat v < 65536 then Some (ucast v) else None)"

text \<open>A part that is not UTF-8 contains a byte that is no digit, so the conversion fails either way.\<close>

definition parse_http_status :: "bytes \<Rightarrow> u16 option" where
  "parse_http_status head =
     (if 10 \<notin> set head then None
      else case split_on (\<lambda>b. b = 32) (takeWhile (\<lambda>b. b \<noteq> 10) head) of
             p0 # p1 # _ \<Rightarrow> if p0 \<noteq> ascii ''HTTP/1.1'' then None else parse_u16 (map unat p1)
           | _ \<Rightarrow> None)"

datatype RequestOutcome = OkIn u64 | Graceful503 | HardError

text \<open>The other end of one request: each connect attempt, the write of the request, the shutdown, the
  first read as a function of what was written (\<open>None\<close> an error) and the time elapsed.\<close>

record client_io =
  io_connect :: "bool list"
  io_write :: "bytes \<Rightarrow> bool"
  io_shutdown :: bool
  io_read :: "bytes \<Rightarrow> bytes option"
  io_elapsed_us :: u64

text \<open>Four attempts with growing pauses; an attempt that is not listed fails.\<close>

definition connect_router :: "bool list \<Rightarrow> bool" where
  "connect_router attempts = list_ex id (take 4 attempts)"

definition one_request :: "client_io \<Rightarrow> string \<Rightarrow> u64 \<Rightarrow> bool \<Rightarrow> u64 \<Rightarrow> RequestOutcome" where
  "one_request io style long_prompt_tokens prefill_phase seq =
     (let req = request_line style long_prompt_tokens prefill_phase seq
      in if \<not> connect_router (io_connect io) then HardError
      else if \<not> io_write io req then HardError
      else if \<not> io_shutdown io then HardError
      else case io_read io req of
             None \<Rightarrow> HardError
           | Some got \<Rightarrow>
               (let buf = take 512 got
                in if buf = [] then HardError
                   else case parse_http_status buf of
                          Some c \<Rightarrow> if c = 200 then OkIn (io_elapsed_us io) else if c = 503 then Graceful503 else HardError
                        | None \<Rightarrow> HardError))"

section \<open>Percentiles\<close>

definition lb_percentile :: "u64 list \<Rightarrow> f64 \<Rightarrow> u64" where
  "lb_percentile sorted_xs p =
     (if sorted_xs = [] then 0
      else sorted_xs ! min (nat_of_f64 (f64_of_nat (length sorted_xs) * p)) (length sorted_xs - 1))"

section \<open>The in-flight gate\<close>

text \<open>A worker is outside, asleep on the condition variable, woken and about to look again, or holds a
  slot.  The mutex makes each row one step.\<close>

datatype worker = Outside | Asleep | Woken | Holding

record ConcurrencyGate =
  slots :: nat
  cg_max :: nat
  workers :: "worker list"

definition ConcurrencyGate_new :: "nat \<Rightarrow> nat \<Rightarrow> ConcurrencyGate" where
  "ConcurrencyGate_new n mx = \<lparr>slots = 0, cg_max = mx, workers = replicate n Outside\<rparr>"

definition set_worker :: "nat \<Rightarrow> worker \<Rightarrow> ConcurrencyGate \<Rightarrow> ConcurrencyGate" where
  "set_worker i s g = g\<lparr>workers := (workers g)[i := s]\<rparr>"

text \<open>\<open>notify_one\<close> wakes some sleeper if there is one.\<close>

inductive gate_step :: "ConcurrencyGate \<Rightarrow> ConcurrencyGate \<Rightarrow> bool" where
  enter: "i < length (workers g) \<Longrightarrow> workers g ! i \<in> {Outside, Woken} \<Longrightarrow> slots g < cg_max g \<Longrightarrow>
     gate_step g (set_worker i Holding g\<lparr>slots := slots g + 1\<rparr>)"
| wait: "i < length (workers g) \<Longrightarrow> workers g ! i \<in> {Outside, Woken} \<Longrightarrow> cg_max g \<le> slots g \<Longrightarrow>
     gate_step g (set_worker i Asleep g)"
| drop_wake: "i < length (workers g) \<Longrightarrow> workers g ! i = Holding \<Longrightarrow> j < length (workers g) \<Longrightarrow> workers g ! j = Asleep \<Longrightarrow>
     gate_step g (set_worker j Woken (set_worker i Outside g\<lparr>slots := slots g - 1\<rparr>))"
| drop_none: "i < length (workers g) \<Longrightarrow> workers g ! i = Holding \<Longrightarrow> Asleep \<notin> set (workers g) \<Longrightarrow>
     gate_step g (set_worker i Outside g\<lparr>slots := slots g - 1\<rparr>)"
| spurious: "i < length (workers g) \<Longrightarrow> workers g ! i = Asleep \<Longrightarrow> gate_step g (set_worker i Woken g)"

section \<open>The gate loses no wake-up\<close>

lemma count_list_update:
  "i < length xs \<Longrightarrow> count_list (xs[i := v]) a + (if xs ! i = a then 1 else 0) = count_list xs a + (if v = a then 1 else 0)"
proof (induction xs arbitrary: i)
  case (Cons x xs)
  show ?case
  proof (cases i)
    case (Suc k)
    then have "k < length xs" using Cons.prems by simp
    from Cons.IH [OF this] show ?thesis using Suc by (cases "v = a") auto
  qed simp
qed simp

lemma count_list_replicate: "count_list (replicate n x) a = (if x = a then n else 0)"
  by (induction n) auto

definition gate_ok :: "ConcurrencyGate \<Rightarrow> bool" where
  "gate_ok g \<longleftrightarrow> slots g = count_list (workers g) Holding \<and> slots g \<le> cg_max g
     \<and> (Asleep \<in> set (workers g) \<longrightarrow> cg_max g \<le> slots g + count_list (workers g) Woken)"

lemma set_update_other: "x \<in> set (xs[i := v]) \<Longrightarrow> x \<noteq> v \<Longrightarrow> x \<in> set xs"
  using set_update_subset_insert by fastforce

lemma gate_new_ok: "gate_ok (ConcurrencyGate_new n mx)"
  by (simp add: gate_ok_def ConcurrencyGate_new_def count_list_replicate)

lemma gate_step_ok: "gate_step g g' \<Longrightarrow> gate_ok g \<Longrightarrow> gate_ok g' \<and> cg_max g' = cg_max g \<and> length (workers g') = length (workers g)"
proof (induction rule: gate_step.induct)
  case (enter i g)
  then show ?case
    using count_list_update [of i "workers g" Holding Holding] count_list_update [of i "workers g" Holding Woken]
    by (auto simp: gate_ok_def set_worker_def dest!: set_update_other split: if_splits)
next
  case (wait i g)
  then show ?case
    using count_list_update [of i "workers g" Asleep Holding] count_list_update [of i "workers g" Asleep Woken]
    by (auto simp: gate_ok_def set_worker_def split: if_splits)
next
  case (drop_wake i g j)
  let ?ws = "(workers g)[i := Outside]"
  have ij: "i \<noteq> j" using drop_wake by auto
  then have "?ws ! j = Asleep" "j < length ?ws" using drop_wake by auto
  then show ?case
    using drop_wake count_list_update [of i "workers g" Outside Holding] count_list_update [of i "workers g" Outside Woken]
      count_list_update [of j ?ws Woken Holding] count_list_update [of j ?ws Woken Woken] nth_mem [of j "workers g"]
    by (auto simp: gate_ok_def set_worker_def)
next
  case (drop_none i g)
  then show ?case
    using count_list_update [of i "workers g" Outside Holding]
    by (auto simp: gate_ok_def set_worker_def dest!: set_update_other)
next
  case (spurious i g)
  then show ?case
    using count_list_update [of i "workers g" Woken Holding] count_list_update [of i "workers g" Woken Woken] nth_mem [of i "workers g"]
    by (auto simp: gate_ok_def set_worker_def)
qed

lemma gate_reach_ok:
  assumes "gate_step\<^sup>*\<^sup>* (ConcurrencyGate_new n mx) g"
  shows "gate_ok g" "cg_max g = mx"
proof -
  have "gate_ok g \<and> cg_max g = mx"
    using assms
  proof (induction rule: rtranclp_induct)
    case base
    show ?case using gate_new_ok by (simp add: ConcurrencyGate_new_def)
  next
    case (step g g')
    then show ?case using gate_step_ok by metis
  qed
  then show "gate_ok g" "cg_max g = mx" by auto
qed

lemma count_list_pos: "0 < count_list xs a \<Longrightarrow> a \<in> set xs"
  using count_notin by fastforce

lemma gate_progress:
  assumes "gate_ok g" "0 < cg_max g" "Asleep \<in> set (workers g)"
  shows "Holding \<in> set (workers g) \<or> Woken \<in> set (workers g) \<and> slots g < cg_max g"
  using assms count_list_pos [of "workers g" Holding] count_list_pos [of "workers g" Woken]
  by (auto simp: gate_ok_def)

section \<open>Percentiles are ordered\<close>

lemma clamped_index: "xs \<noteq> [] \<Longrightarrow> min n (length xs - 1) < length xs"
  by (cases xs) auto

lemma lb_percentile_in: "xs \<noteq> [] \<Longrightarrow> lb_percentile xs p \<in> set xs"
  unfolding lb_percentile_def by (simp only: if_False, rule nth_mem, rule clamped_index)

lemma times_mono_Fin:
  assumes "0 \<le> x" "a \<le> b"
  shows "Fin x * Fin a \<le> Fin x * Fin b"
  using assms by (simp add: mk64_mono mult_left_mono)

lemma lb_percentile_mono:
  assumes "sorted xs" "a \<le> b" "length xs \<le> 2 ^ 53"
  shows "lb_percentile xs (Fin a) \<le> lb_percentile xs (Fin b)"
proof (cases "xs = []")
  case False
  let ?i = "\<lambda>p. min (nat_of_f64 (f64_of_nat (length xs) * p)) (length xs - 1)"
  have "f64_of_nat (length xs) * Fin a \<le> f64_of_nat (length xs) * Fin b"
    using times_mono_Fin [of "real (length xs)" a b] assms(2,3) by (simp add: f64_of_nat_exact)
  then have "nat_of_f64 (f64_of_nat (length xs) * Fin a) \<le> nat_of_f64 (f64_of_nat (length xs) * Fin b)"
    by (rule nat_of_f64_mono) (use assms(3) in \<open>simp add: f64_of_nat_exact\<close>)
  then have "?i (Fin a) \<le> ?i (Fin b)" by linarith
  moreover have "?i (Fin b) < length xs" using False by (rule clamped_index)
  ultimately show ?thesis using assms(1) False by (simp add: lb_percentile_def sorted_nth_mono)
qed (simp add: lb_percentile_def)

lemma lb_percentile_le_last: "sorted xs \<Longrightarrow> xs \<noteq> [] \<Longrightarrow> lb_percentile xs p \<le> last xs"
  using lb_percentile_in [of xs p] by (cases xs rule: rev_cases) (auto simp: sorted_append)

lemma hd_le_lb_percentile: "sorted xs \<Longrightarrow> xs \<noteq> [] \<Longrightarrow> hd xs \<le> lb_percentile xs p"
  using lb_percentile_in [of xs p] by (cases xs) auto

section \<open>The router reads what the client writes\<close>

lemma fmt_bytes_range: "b \<in> set (as_bytes (fmt_u64 w)) \<Longrightarrow> 48 \<le> b \<and> b \<le> 57"
  using fmt_bytes_digits by (simp add: is_ascii_digit_def)

lemma fmt_bytes_nonempty [simp]: "as_bytes (fmt_u64 w) \<noteq> []"
  by (simp add: as_bytes_def fmt_u64_def)

lemma fmt_bytes_not [simp]:
  "10 \<notin> set (as_bytes (fmt_u64 w))" "13 \<notin> set (as_bytes (fmt_u64 w))" "32 \<notin> set (as_bytes (fmt_u64 w))"
  "58 \<notin> set (as_bytes (fmt_u64 w))"
  using fmt_bytes_range [of 10 w] fmt_bytes_range [of 13 w] fmt_bytes_range [of 32 w] fmt_bytes_range [of 58 w] by auto

lemma digit_not_ws: "is_ascii_digit b \<Longrightarrow> \<not> is_ascii_whitespace b"
  by (auto simp: is_ascii_digit_def is_ascii_whitespace_def)

lemma trim_digits: "trim_ascii_ws (32 # as_bytes (fmt_u64 w)) = as_bytes (fmt_u64 w)"
proof -
  have n: "\<not> is_ascii_whitespace b" if "b \<in> set (as_bytes (fmt_u64 w))" for b
    using fmt_bytes_digits [OF that] by (rule digit_not_ws)
  have d: "dropWhile is_ascii_whitespace xs = xs" if "set xs \<subseteq> set (as_bytes (fmt_u64 w))" for xs
    using that n by (cases xs) auto
  show ?thesis using d by (simp add: trim_ascii_ws_def is_ascii_whitespace_def [of 32])
qed

lemma header_line_no_colon: "58 \<notin> set line \<Longrightarrow> header_line name line = None"
proof -
  assume "58 \<notin> set line"
  then have "58 \<notin> set (case strip_suffix [13] line of Some st \<Rightarrow> st | None \<Rightarrow> line)"
    by (auto simp: strip_suffix_Some split: option.splits)
  then show ?thesis by (auto simp: header_line_def Let_def dest: nth_mem)
qed

lemma header_line_value:
  "length nm = length name \<Longrightarrow> ascii_eq_ci nm name \<Longrightarrow> header_line name (nm @ 58 # v @ [13]) = Some (trim_ascii_ws v)"
proof -
  assume a: "length nm = length name" "ascii_eq_ci nm name"
  have "strip_suffix [13] (nm @ 58 # v @ [13]) = Some (nm @ 58 # v)" by (simp add: strip_suffix_Some)
  then show ?thesis using a by (simp add: header_line_def nth_append)
qed

definition host_line :: bytes where "host_line = ascii ''host: load-bench'' @ [13]"
definition close_line :: bytes where "close_line = ascii ''connection: close'' @ [13]"

lemma split_on_lines:
  "\<forall>l\<in>set ls. c \<notin> set l \<Longrightarrow> split_on (\<lambda>b. b = c) (concat (map (\<lambda>l. l @ [c]) ls)) = ls @ [[]]"
proof (induction ls)
  case (Cons l ls)
  then have "split_on (\<lambda>b. b = c) (l @ c # concat (map (\<lambda>l. l @ [c]) ls)) = l # ls @ [[]]"
    by (subst split_on_append) auto
  then show ?case by simp
qed simp

lemma long_request_lines:
  "split_on (\<lambda>b. b = 10) (long_request n) =
     [ascii ''GET /long/'' @ as_bytes (fmt_u64 n) @ ascii '' HTTP/1.1'' @ [13], host_line,
      ascii ''x-demiurge-tokens'' @ 58 # (32 # as_bytes (fmt_u64 n)) @ [13], close_line, [13]] @ [[]]"
  (is "_ = ?ls @ [[]]")
proof -
  have "long_request n = concat (map (\<lambda>l. l @ [10]) ?ls)"
    by (simp add: long_request_def ascii_def host_line_def close_line_def)
  moreover have "\<forall>l\<in>set ?ls. 10 \<notin> set l" by (simp add: ascii_def host_line_def close_line_def)
  ultimately show ?thesis using split_on_lines [of ?ls 10] by simp
qed

lemma decode_request_lines:
  "split_on (\<lambda>b. b = 10) (request_line style n False seq) =
     [ascii ''GET /decode/'' @ as_bytes (fmt_u64 seq) @ ascii '' HTTP/1.1'' @ [13], host_line,
      ascii ''x-demiurge-phase'' @ 58 # ascii '' decode'' @ [13], close_line, [13]] @ [[]]"
  (is "_ = ?ls @ [[]]")
proof -
  have "request_line style n False seq = concat (map (\<lambda>l. l @ [10]) ?ls)"
    by (simp add: request_line_def ascii_def host_line_def close_line_def)
  moreover have "\<forall>l\<in>set ?ls. 10 \<notin> set l" by (simp add: ascii_def host_line_def close_line_def)
  ultimately show ?thesis using split_on_lines [of ?ls 10] by simp
qed

lemma path_request_lines:
  "split_on (\<lambda>b. b = 10) (request_line ''path'' n True seq) =
     [ascii ''GET /prefill/'' @ as_bytes (fmt_u64 seq) @ ascii '' HTTP/1.1'' @ [13], host_line, close_line, [13]] @ [[]]"
  (is "_ = ?ls @ [[]]")
proof -
  have "request_line ''path'' n True seq = concat (map (\<lambda>l. l @ [10]) ?ls)"
    by (simp add: request_line_def ascii_def host_line_def close_line_def)
  moreover have "\<forall>l\<in>set ?ls. 10 \<notin> set l" by (simp add: ascii_def host_line_def close_line_def)
  ultimately show ?thesis using split_on_lines [of ?ls 10] by simp
qed

lemma plain_lines:
  "header_line HDR_TOKENS host_line = None" "header_line HDR_PHASE host_line = None"
  "header_line HDR_TOKENS close_line = None" "header_line HDR_TOKENS [13] = None"
  by code_simp+

lemma first_line_no_colon:
  "header_line name (ascii ''GET /long/'' @ as_bytes (fmt_u64 n) @ ascii '' HTTP/1.1'' @ [13]) = None"
  "header_line name (ascii ''GET /decode/'' @ as_bytes (fmt_u64 n) @ ascii '' HTTP/1.1'' @ [13]) = None"
  "header_line name (ascii ''GET /prefill/'' @ as_bytes (fmt_u64 n) @ ascii '' HTTP/1.1'' @ [13]) = None"
  by (rule header_line_no_colon, simp add: ascii_def)+

lemma long_request_tokens: "parse_prompt_tokens (long_request n) = Some n"
proof -
  have "header_line HDR_TOKENS (ascii ''x-demiurge-tokens'' @ 58 # (32 # as_bytes (fmt_u64 n)) @ [13]) = Some (as_bytes (fmt_u64 n))"
    by (subst header_line_value) (code_simp, code_simp, simp add: trim_digits)
  then have "header_value_ci (long_request n) HDR_TOKENS = Some (as_bytes (fmt_u64 n))"
    by (simp add: header_value_ci_first long_request_lines first_line_no_colon plain_lines)
  then show ?thesis using parse_u64_digits_fmt [of "[]" n] by (simp add: parse_prompt_tokens_def)
qed

lemma decode_request_phase: "is_decode_only (request_line style n False seq)"
proof -
  have "header_line HDR_PHASE (ascii ''x-demiurge-phase'' @ 58 # ascii '' decode'' @ [13]) = Some (ascii ''decode'')"
    by code_simp
  then have "header_value_ci (request_line style n False seq) HDR_PHASE = Some (ascii ''decode'')"
    by (simp add: header_value_ci_first decode_request_lines first_line_no_colon plain_lines)
  moreover have "ascii_eq_ci (ascii ''decode'') (ascii ''decode'')" by code_simp
  ultimately show ?thesis by (simp add: is_decode_only_def)
qed

lemma path_request_tokens: "estimate_prompt_tokens (request_line ''path'' n True seq) = seq"
proof -
  let ?d = "as_bytes (fmt_u64 seq)"
  let ?req = "request_line ''path'' n True seq"
  have none: "parse_prompt_tokens ?req = None"
    by (simp add: parse_prompt_tokens_def header_value_ci_first path_request_lines first_line_no_colon plain_lines)
  let ?fl = "ascii ''GET'' @ 32 # (ascii ''/prefill/'' @ ?d) @ 32 # ascii ''HTTP/1.1''"
  have "\<exists>rest. ?req = ?fl @ 13 # rest" by (simp add: request_line_def ascii_def)
  then obtain rest where "?req = ?fl @ 13 # rest" by blast
  moreover have "\<forall>b\<in>set ?fl. \<not> (b = 13 \<or> b = 10)" by (auto simp: ascii_def)
  ultimately have fl: "first_line ?req = ?fl" by (simp only: first_line_def split_on_append list.sel(1) simp_thms)
  have "split_on (\<lambda>b. b = 32) (first_line ?req) = [ascii ''GET'', ascii ''/prefill/'' @ ?d, ascii ''HTTP/1.1'']"
    unfolding fl
    by (subst split_on_append, simp add: ascii_def, simp, subst split_on_append, force simp: ascii_def, simp, subst split_on_plain)
       (simp_all add: ascii_def)
  then have "parse_path_tokens ?req = Some seq"
    using parse_u64_digits_fmt [of "[]" seq] by (simp add: parse_path_tokens_def ascii_def)
  then show ?thesis using none by (simp add: estimate_prompt_tokens_def)
qed

lemma status_roundtrip:
  assumes "10 \<notin> set reason"
  shows "parse_http_status (ascii ''HTTP/1.1'' @ 32 # as_bytes (fmt_u64 (c :: u16)) @ 32 # reason @ 10 # rest) = Some c"
proof -
  let ?d = "as_bytes (fmt_u64 c)"
  have tw: "takeWhile (\<lambda>b. b \<noteq> 10) (ascii ''HTTP/1.1'' @ 32 # ?d @ 32 # reason @ 10 # rest) = ascii ''HTTP/1.1'' @ 32 # ?d @ 32 # reason"
    using assms by (auto simp: takeWhile_append ascii_def takeWhile_eq_all_conv)
  have sp: "split_on (\<lambda>b. b = 32) (ascii ''HTTP/1.1'' @ 32 # ?d @ 32 # reason) = ascii ''HTTP/1.1'' # ?d # split_on (\<lambda>b. b = 32) reason"
    by (subst split_on_append, simp add: ascii_def, simp) (subst split_on_append, auto)
  have u: "map unat ?d = fmt_u64 c"
    by (auto simp: as_bytes_def fmt_u64_def unat_of_nat intro!: map_idI dest!: dec_nat_digits)
  have c: "unat c < 65536" using unsigned_less [of c] by simp
  then have uc: "unat (ucast c :: u64) = unat c" by (simp add: unsigned_ucast_eq take_bit_nat_eq_self)
  then have v: "fmt_u64 c = fmt_u64 (ucast c :: u64)" by (simp add: fmt_u64_def)
  have "unat (ucast c :: u64) < 65536" using c uc by simp
  then have "parse_u16 (fmt_u64 (ucast c :: u64)) = Some c" by (simp add: parse_u16_def ucast_up_ucast_id is_up)
  then have "parse_u16 (map unat ?d) = Some c" using u v by metis
  then show ?thesis unfolding parse_http_status_def tw sp by simp
qed

lemma refused_outcome: "parse_http_status (take 512 UNAVAILABLE) = Some 503"
proof -
  have "take 512 UNAVAILABLE = ascii ''HTTP/1.1'' @ 32 # as_bytes (fmt_u64 (503 :: u16)) @ 32 # (ascii ''Service Unavailable'' @ [13]) @ 10
          # ascii ''content-length: 0'' @ [13, 10, 13, 10]"
    by (simp add: UNAVAILABLE_def ascii_def as_bytes_def fmt_u64_def dec_nat.simps)
  then show ?thesis using status_roundtrip [of "ascii ''Service Unavailable'' @ [13]" 503] by (simp add: ascii_def)
qed

text \<open>A status line that ends right after the code is not understood: the carriage return stays on the number.\<close>

lemma status_needs_reason: "parse_http_status (ascii ''HTTP/1.1 200'' @ crlf @ crlf) = None"
  by code_simp

section \<open>Properties\<close>



text \<open>C39: Under any interleaving of the load workers the in-flight gate counts exactly the holders, at most the
  limit, and no wake-up is lost: while a worker sleeps, another holds a slot or is awake with room to enter.\<close>

theorem concurrency_gate_live:
  assumes "gate_step\<^sup>*\<^sup>* (ConcurrencyGate_new n mx) g"
  shows "slots g = count_list (workers g) Holding \<and> slots g \<le> mx
    \<and> (0 < mx \<and> Asleep \<in> set (workers g) \<longrightarrow>
         Holding \<in> set (workers g) \<or> Woken \<in> set (workers g) \<and> slots g < mx)"
  using gate_reach_ok [OF assms] gate_progress [of g] by (auto simp: gate_ok_def)

lemma gate_sample:
  "gate_step\<^sup>*\<^sup>* (ConcurrencyGate_new 2 1) \<lparr>slots = 1, cg_max = 1, workers = [Holding, Asleep]\<rparr>"
proof -
  have "gate_step (ConcurrencyGate_new 2 1) \<lparr>slots = 1, cg_max = 1, workers = [Holding, Outside]\<rparr>"
    using gate_step.enter [of 0 "ConcurrencyGate_new 2 1"] by (simp add: ConcurrencyGate_new_def set_worker_def numeral_2_eq_2)
  moreover have "gate_step \<lparr>slots = 1, cg_max = 1, workers = [Holding, Outside]\<rparr> \<lparr>slots = 1, cg_max = 1, workers = [Holding, Asleep]\<rparr>"
    using gate_step.wait [of 1 "\<lparr>slots = 1, cg_max = 1, workers = [Holding, Outside]\<rparr>"] by (simp add: set_worker_def)
  ultimately show ?thesis by simp
qed

theorem concurrency_gate_live_witness: "slots \<lparr>slots = 1, cg_max = 1, workers = [Holding, Asleep]\<rparr> \<le> 1"
  using concurrency_gate_live [OF gate_sample] by simp

end
