(* ===== verification/LoadBench.thy ===== *)
theory LoadBench
  imports LoadGates "HOL-Library.Sublist"
begin

text \<open>
  The load-bench driver (\<open>xtask/src/load_bench.rs\<close>): which scenarios a mode selects, the gate counter
  of a finished run, the strictness that turns missed gates into a failing exit status, the merged
  report, and the isolated mode that runs one subprocess per scenario.  Running a scenario, starting
  a subprocess, the clock and the file system are parameters over a world state.
\<close>

section \<open>The gate counter\<close>

definition fails :: "bool \<Rightarrow> nat" where
  "fails b = (if b then 1 else 0)"

definition error_failures :: "Scenario \<Rightarrow> ScenarioResult \<Rightarrow> nat" where
  "error_failures sc r =
     (let hard_errors = unwrap_or (rs_errors_hard r) (rs_errors r);
          graceful_errors = unwrap_or (rs_errors_graceful r) 0
      in case sc_max_hard_errors sc of
           Some max_hard \<Rightarrow>
             if max_hard < hard_errors then 1
             else fails (0 < graceful_errors \<and> sc_max_kv_admit_rejects sc = None \<and> sc_min_errors sc = None
                         \<and> sc_min_kv_admit_rejects sc = None)
         | None \<Rightarrow>
             if 0 < rs_errors r
             then (let rejects = unwrap_or (rs_kv_admit_rejects r) 0
                   in case sc_max_kv_admit_rejects sc of
                        Some cap \<Rightarrow> fails (\<not> (rs_errors r \<le> cap \<and> rejects \<le> cap))
                      | None \<Rightarrow> 1)
             else 0)"

definition kv_peak_failures :: "Scenario \<Rightarrow> ScenarioResult \<Rightarrow> nat" where
  "kv_peak_failures sc r =
     (case kv_bytes_reserved_peak r of
        Some peak \<Rightarrow>
          (let kv_cap = effective_decode_capacity_bytes sc
           in fails (sc_use_kv_pool sc \<and> 0 < kv_cap \<and> kv_cap < peak))
      | None \<Rightarrow> 0)"

definition accept_failures :: "Scenario \<Rightarrow> ScenarioResult \<Rightarrow> nat" where
  "accept_failures sc r =
     (case (accept_p99_ratio r, sc_max_accept_p99_ratio sc) of
        (Some ratio, Some limit) \<Rightarrow> fails (flt limit ratio) | _ \<Rightarrow> 0)"

definition p99_failures :: "ScenarioResult \<Rightarrow> nat" where
  "p99_failures r =
     (case rs_max_p99_ms r of
        Some limit \<Rightarrow> if rs_ok r = 0 then 1 else fails (flt limit (p99_ms r))
      | None \<Rightarrow> 0)"

definition rdma_failures :: "Scenario \<Rightarrow> ScenarioResult \<Rightarrow> nat" where
  "rdma_failures sc r =
     (case sc_min_rdma_shadow_samples sc of
        Some min_n \<Rightarrow> fails (unwrap_or (rs_rdma_shadow_samples r) 0 < min_n) | None \<Rightarrow> 0)
     + (case (sc_min_rdma_transfer_ratio sc, rdma_transfer_ratio_median r) of
          (Some min_r, Some ratio) \<Rightarrow> fails (flt ratio min_r) | _ \<Rightarrow> 0)
     + (case (sc_max_rdma_transfer_ratio sc, rdma_transfer_ratio_median r) of
          (Some max_r, Some ratio) \<Rightarrow> fails (flt max_r ratio) | _ \<Rightarrow> 0)"

definition pi_failures :: "Scenario \<Rightarrow> ScenarioResult \<Rightarrow> nat" where
  "pi_failures sc r =
     (case (sc_min_dataplane_pi sc, rs_dataplane_pi r) of
        (Some min_pi, Some observed) \<Rightarrow> fails (flt observed min_pi) | _ \<Rightarrow> 0)"

definition tail_failures :: "Scenario \<Rightarrow> ScenarioResult \<Rightarrow> nat" where
  "tail_failures sc r =
     (case sc_max_p99_tail_ratio sc of
        Some limit \<Rightarrow> fails (0 < rs_p99_us r \<and> flt limit (tail_ratio r)) | None \<Rightarrow> 0)"

definition misroute_failures :: "Scenario \<Rightarrow> ScenarioResult \<Rightarrow> nat" where
  "misroute_failures sc r =
     (case (sc_max_misroute_mean sc, rs_fastpath_misroute_mean r) of
        (Some limit, Some m) \<Rightarrow> fails (flt limit m) | _ \<Rightarrow> 0)"

definition floor_failures :: "Scenario \<Rightarrow> ScenarioResult \<Rightarrow> nat" where
  "floor_failures sc r =
     (case sc_min_kv_admit_rejects sc of
        Some min_rejects \<Rightarrow> fails (unwrap_or (rs_kv_admit_rejects r) 0 < min_rejects) | None \<Rightarrow> 0)
     + (case sc_min_errors sc of Some min_err \<Rightarrow> fails (rs_errors r < min_err) | None \<Rightarrow> 0)"

definition fleet_failures :: "Scenario \<Rightarrow> ScenarioResult \<Rightarrow> nat" where
  "fleet_failures sc r =
     (if sc_min_fleet_correlation sc \<noteq> None \<or> fleet_sim_gate_pass r \<noteq> None
      then fails (fleet_sim_gate_pass r \<noteq> Some True) else 0)"

definition missed_gates :: "Scenario \<Rightarrow> ScenarioResult \<Rightarrow> nat" where
  "missed_gates sc r =
     error_failures sc r + kv_peak_failures sc r + accept_failures sc r + p99_failures r + rdma_failures sc r
     + pi_failures sc r + tail_failures sc r + misroute_failures sc r + floor_failures sc r + fleet_failures sc r"

section \<open>Selection\<close>

record 'w bench_env =
  be_linux :: bool
  be_root :: bool
  be_run :: "Scenario \<Rightarrow> u32 \<Rightarrow> 'w \<Rightarrow> (string + ScenarioResult) \<times> 'w"
  be_write :: "string \<Rightarrow> LoadBenchReport \<Rightarrow> 'w \<Rightarrow> (string + unit) \<times> 'w"
  be_child :: "string list \<Rightarrow> 'w \<Rightarrow> (string + bool) \<times> 'w"
  be_partial :: "string \<Rightarrow> 'w \<Rightarrow> string + LoadBenchReport option"
  be_reset_runs :: "string \<Rightarrow> 'w \<Rightarrow> (string + unit) \<times> 'w"
  be_stamp :: "'w \<Rightarrow> utext"
  be_host :: string

definition scenario_skip_reason :: "bool \<Rightarrow> bool \<Rightarrow> Scenario \<Rightarrow> string option" where
  "scenario_skip_reason linux is_root sc =
     (if linux_only sc \<and> \<not> linux then Some ''Linux only''
      else if \<not> linux \<and> track_b_kernel sc then Some ''Linux only''
      else if linux \<and> track_b_kernel sc \<and> \<not> is_root then Some ''track_b_kernel requires root''
      else None)"

definition selected :: "bool \<Rightarrow> string option \<Rightarrow> bool \<Rightarrow> bool \<Rightarrow> bool \<Rightarrow> Scenario \<Rightarrow> bool" where
  "selected ci_only only_scenario str hrd sm s =
     (if ci_only \<and> \<not> ci s then False
      else if str \<and> \<not> stress s then False
      else if hrd \<and> (\<not> harden s \<or> stress s) then False
      else if sm \<and> \<not> sim s then False
      else case only_scenario of Some want \<Rightarrow> sc_id s = want | None \<Rightarrow> True)"

definition is_strict :: "LoadSettings \<Rightarrow> bool \<Rightarrow> bool \<Rightarrow> bool \<Rightarrow> bool \<Rightarrow> Scenario \<Rightarrow> bool" where
  "is_strict st ci_only str hrd sm sc \<longleftrightarrow>
     ci_only \<or> gate_strict st \<or> str \<or> hrd \<or> sm \<or> sc_rebalancer_actuation sc \<or> isolate_recovery sc \<or> sim sc"

section \<open>One process\<close>

text \<open>How the loop over the selected scenarios ends: with an error, by the early return of a skipped
  single scenario, or with the results and the two counters.\<close>

datatype loop_exit = Failed string | SkippedOnly | Done "ScenarioResult list" nat nat

fun inner_loop :: "'w bench_env \<Rightarrow> (Scenario \<Rightarrow> bool) \<Rightarrow> u32 \<Rightarrow> string option \<Rightarrow> Scenario list
    \<Rightarrow> ScenarioResult list \<Rightarrow> nat \<Rightarrow> nat \<Rightarrow> 'w \<Rightarrow> loop_exit \<times> 'w" where
  "inner_loop E strict warmup only [] done gate_failures strict_failures w = (Done done gate_failures strict_failures, w)"
| "inner_loop E strict warmup only (sc # scs) done gate_failures strict_failures w =
     (case scenario_skip_reason (be_linux E) (be_root E) sc of
        Some reason \<Rightarrow>
          if optional sc
          then (if only \<noteq> None then (SkippedOnly, w)
                else inner_loop E strict warmup only scs done gate_failures strict_failures w)
          else if only \<noteq> None then (Failed (sc_id sc @ '': '' @ reason), w)
          else inner_loop E strict warmup only scs done gate_failures strict_failures w
      | None \<Rightarrow>
          (case be_run E sc warmup w of
             (Inl e, w') \<Rightarrow> (Failed e, w')
           | (Inr r, w') \<Rightarrow>
               inner_loop E strict warmup only scs (done @ [r]) (gate_failures + missed_gates sc r)
                 (strict_failures + (if strict sc then missed_gates sc r else 0)) w'))"

text \<open>\<open>Path::join\<close> with a relative second component.\<close>

definition path_join :: "string \<Rightarrow> string \<Rightarrow> string" where
  "path_join d n = (if d = [] \<or> last d = CHR ''/'' then d @ n else d @ ''/'' @ n)"

definition runs_dir :: "string \<Rightarrow> string" where
  "runs_dir rd = path_join rd ''runs''"

definition str_of :: "utext \<Rightarrow> string" where
  "str_of t = map char_of t"

text \<open>\<open>{:?}\<close> of text without characters that need an escape.\<close>

definition debug_str :: "string \<Rightarrow> string" where
  "debug_str s = [CHR 0x22] @ s @ [CHR 0x22]"

text \<open>Writing the reports and the exit status.\<close>

definition finish_inner :: "'w bench_env \<Rightarrow> LoadSettings \<Rightarrow> bool \<Rightarrow> string option \<Rightarrow> ScenarioResult list \<Rightarrow> nat
    \<Rightarrow> 'w \<Rightarrow> (string + unit) \<times> 'w" where
  "finish_inner E st ci_only only_scenario results strict_failures w =
     (let report = \<lparr>generated_at = be_stamp E w, hostname = be_host E, report_scenarios = results\<rparr>;
          (r1, w1) = (case only_scenario of
                        Some i \<Rightarrow> be_write E (path_join (runs_dir (report_dir st)) (i @ ''.json'')) report w
                      | None \<Rightarrow> (Inr (), w))
      in case r1 of
           Inl e \<Rightarrow> (Inl e, w1)
         | Inr _ \<Rightarrow>
             (let (r2, w2) = (if only_scenario = None \<or> ci_only
                              then be_write E (path_join (report_dir st) ''latest.json'') report w1
                              else (Inr (), w1))
              in case r2 of
                   Inl e \<Rightarrow> (Inl e, w2)
                 | Inr _ \<Rightarrow>
                     if 0 < strict_failures
                     then (Inl (str_of (dec_nat strict_failures) @ '' strict gate(s) failed''), w2)
                     else (Inr (), w2)))"

definition load_bench_inner :: "'w bench_env \<Rightarrow> string + LoadBenchFile \<Rightarrow> bool \<Rightarrow> string option \<Rightarrow> bool \<Rightarrow> bool \<Rightarrow> bool
    \<Rightarrow> 'w \<Rightarrow> (string + unit) \<times> 'w" where
  "load_bench_inner E contents ci_only only_scenario str hrd sm w =
     (case contents of
        Inl e \<Rightarrow> (Inl e, w)
      | Inr file \<Rightarrow>
          (let st = settings file;
               sel = filter (selected ci_only only_scenario str hrd sm) (scenario file)
           in if sel = []
              then (Inl (case only_scenario of
                           Some i \<Rightarrow> ''unknown scenario '' @ debug_str i
                         | None \<Rightarrow> if ci_only then ''no scenarios with ci=true in load-bench.toml''
                                   else ''no scenarios in load-bench.toml''), w)
              else (case inner_loop E (is_strict st ci_only str hrd sm) (warmup_requests st) only_scenario sel [] 0 0 w of
                      (Failed e, w') \<Rightarrow> (Inl e, w')
                    | (SkippedOnly, w') \<Rightarrow> (Inr (), w')
                    | (Done results gate_failures strict_failures, w') \<Rightarrow>
                        finish_inner E st ci_only only_scenario results strict_failures w')))"

section \<open>One subprocess per scenario\<close>

datatype IsolatedMode = Local | Stress | Harden | Sim

definition mode_selects :: "IsolatedMode \<Rightarrow> Scenario \<Rightarrow> bool" where
  "mode_selects md s =
     (case md of
        Local \<Rightarrow> \<not> stress s \<and> \<not> harden s \<and> \<not> sim s
      | Stress \<Rightarrow> stress s
      | Harden \<Rightarrow> harden s \<and> \<not> stress s
      | Sim \<Rightarrow> sim s)"

definition mode_flag :: "IsolatedMode \<Rightarrow> string list" where
  "mode_flag md =
     (case md of Stress \<Rightarrow> [''--stress''] | Harden \<Rightarrow> [''--harden''] | Sim \<Rightarrow> [''--sim''] | Local \<Rightarrow> [])"

definition mode_report :: "IsolatedMode \<Rightarrow> string" where
  "mode_report md =
     (case md of Stress \<Rightarrow> ''stress.json'' | Harden \<Rightarrow> ''harden.json'' | Sim \<Rightarrow> ''sim.json'' | Local \<Rightarrow> ''latest.json'')"

definition mode_empty :: "IsolatedMode \<Rightarrow> string" where
  "mode_empty md =
     (case md of
        Stress \<Rightarrow> ''no scenarios with stress=true in load-bench.toml''
      | Harden \<Rightarrow> ''no scenarios with harden=true in load-bench.toml''
      | Sim \<Rightarrow> ''no scenarios with sim=true in load-bench.toml''
      | Local \<Rightarrow> ''no scenarios in load-bench.toml'')"

text \<open>A skip applies only to an optional scenario: any other scenario goes to the child, which reports
  the reason as its failure.  Recovery pauses are not modelled.\<close>

definition isolated_skip :: "'w bench_env \<Rightarrow> Scenario list \<Rightarrow> string \<Rightarrow> bool" where
  "isolated_skip E scs i =
     (case List.find (\<lambda>s. sc_id s = i) scs of
        Some sc \<Rightarrow> scenario_skip_reason (be_linux E) (be_root E) sc \<noteq> None \<and> optional sc
      | None \<Rightarrow> False)"

fun isolated_loop :: "'w bench_env \<Rightarrow> IsolatedMode \<Rightarrow> string \<Rightarrow> Scenario list \<Rightarrow> string list \<Rightarrow> ScenarioResult list \<Rightarrow> nat
    \<Rightarrow> 'w \<Rightarrow> (string + ScenarioResult list \<times> nat) \<times> 'w" where
  "isolated_loop E md runs scs [] acc failures w = (Inr (acc, failures), w)"
| "isolated_loop E md runs scs (i # is) acc failures w =
     (if isolated_skip E scs i then isolated_loop E md runs scs is acc failures w
      else (case be_child E ([''load-bench'', ''--scenario'', i] @ mode_flag md) w of
              (Inl e, w') \<Rightarrow> (Inl e, w')
            | (Inr success, w') \<Rightarrow>
                (case be_partial E (path_join runs (i @ ''.json'')) w' of
                   Inl e \<Rightarrow> (Inl e, w')
                 | Inr partial \<Rightarrow>
                     isolated_loop E md runs scs is
                       (acc @ (case partial of Some p \<Rightarrow> report_scenarios p | None \<Rightarrow> []))
                       (failures + fails (\<not> success)) w')))"

definition load_bench_isolated :: "'w bench_env \<Rightarrow> string + LoadBenchFile \<Rightarrow> IsolatedMode \<Rightarrow> 'w \<Rightarrow> (string + unit) \<times> 'w" where
  "load_bench_isolated E contents md w =
     (case contents of
        Inl e \<Rightarrow> (Inl e, w)
      | Inr file \<Rightarrow>
          (let ids = map sc_id (filter (mode_selects md) (scenario file));
               runs = runs_dir (report_dir (settings file))
           in if ids = [] then (Inl (mode_empty md), w)
              else (case be_reset_runs E runs w of
                      (Inl e, w') \<Rightarrow> (Inl e, w')
                    | (Inr _, w') \<Rightarrow>
                        (case isolated_loop E md runs (scenario file) ids [] 0 w' of
                           (Inl e, w2) \<Rightarrow> (Inl e, w2)
                         | (Inr (results, failures), w2) \<Rightarrow>
                             (case be_write E (path_join (report_dir (settings file)) (mode_report md))
                                     \<lparr>generated_at = be_stamp E w2, hostname = be_host E, report_scenarios = results\<rparr> w2 of
                                (Inl e, w3) \<Rightarrow> (Inl e, w3)
                              | (Inr _, w3) \<Rightarrow>
                                  if 0 < failures
                                  then (Inl (str_of (dec_nat failures) @ '' isolated scenario run(s) failed''), w3)
                                  else (Inr (), w3))))))"

definition load_bench :: "'w bench_env \<Rightarrow> string + LoadBenchFile \<Rightarrow> bool \<Rightarrow> string option \<Rightarrow> bool \<Rightarrow> bool \<Rightarrow> bool
    \<Rightarrow> 'w \<Rightarrow> (string + unit) \<times> 'w" where
  "load_bench E contents ci_only only_scenario str hrd sm w =
     (if str \<and> hrd then (Inl ''load-bench: --stress and --harden are mutually exclusive'', w)
      else if sm \<and> (str \<or> hrd \<or> ci_only)
        then (Inl ''load-bench: --sim is mutually exclusive with --stress, --harden, --ci'', w)
      else if only_scenario = None \<and> \<not> ci_only
        then load_bench_isolated E contents (if hrd then Harden else if str then Stress else if sm then Sim else Local) w
      else load_bench_inner E contents ci_only only_scenario str hrd sm w)"

section \<open>Both evaluations agree\<close>

lemma fails_0 [simp]: "fails b = 0 \<longleftrightarrow> \<not> b"
  by (simp add: fails_def)

lemmas gate_defs = ScenarioGateConfig_from_def unwrap_or_def

lemma errors_agree:
  assumes "rs_errors_graceful r = None" "rs_errors_hard r = None"
    "sc_max_hard_errors sc = None \<or> sc_max_kv_admit_rejects sc = None"
    "unwrap_or (rs_kv_admit_rejects r) 0 \<le> rs_errors r"
  shows "error_failures sc r + floor_failures sc r = 0 \<longleftrightarrow> list_all pass (error_gates (ScenarioGateConfig_from sc) r)"
  using assms
  by (cases "sc_max_hard_errors sc"; cases "sc_max_kv_admit_rejects sc"; cases "sc_min_kv_admit_rejects sc"; cases "sc_min_errors sc")
     (auto simp: error_failures_def floor_failures_def error_gates_def hard_gate_def errors_gate_def floor_gates_def gate_defs
        Let_def saturating_sub_def not_le not_less dest: order_trans)

lemma kv_peak_agree: "kv_peak_failures sc r = 0 \<longleftrightarrow> list_all pass (kv_peak_gate (ScenarioGateConfig_from sc) r)"
  by (auto simp: kv_peak_failures_def kv_peak_gate_def gate_defs Let_def not_less split: option.splits)

lemma p99_agree: "defined (rs_max_p99_ms r) \<Longrightarrow> p99_failures r = 0 \<longleftrightarrow> list_all pass (p99_gate r)"
  using p99_ms_number [of r]
  by (auto simp: p99_failures_def p99_gate_def defined_def fle_flt word_gt_0 split: option.splits)

lemma accept_agree:
  "defined (accept_p99_ratio r) \<Longrightarrow> defined (sc_max_accept_p99_ratio sc) \<Longrightarrow>
   accept_failures sc r = 0 \<longleftrightarrow> list_all pass (accept_gate (ScenarioGateConfig_from sc) r)"
  by (auto simp: accept_failures_def accept_gate_def gate_defs defined_def fle_flt split: option.splits)

lemma pi_agree:
  "defined (rs_dataplane_pi r) \<Longrightarrow> defined (sc_min_dataplane_pi sc) \<Longrightarrow>
   pi_failures sc r = 0 \<longleftrightarrow> list_all pass (pi_gate (ScenarioGateConfig_from sc) r)"
  by (auto simp: pi_failures_def pi_gate_def gate_defs defined_def fle_flt split: option.splits)

lemma tail_agree:
  "defined (sc_max_p99_tail_ratio sc) \<Longrightarrow>
   tail_failures sc r = 0 \<longleftrightarrow> list_all pass (tail_gate (ScenarioGateConfig_from sc) r)"
  using tail_ratio_number [of r]
  by (auto simp: tail_failures_def tail_gate_def gate_defs defined_def fle_flt split: option.splits)

lemma misroute_agree:
  "defined (rs_fastpath_misroute_mean r) \<Longrightarrow> defined (sc_max_misroute_mean sc) \<Longrightarrow>
   misroute_failures sc r = 0 \<longleftrightarrow> list_all pass (misroute_gate (ScenarioGateConfig_from sc) r)"
  by (auto simp: misroute_failures_def misroute_gate_def gate_defs defined_def fle_flt split: option.splits)

lemma rdma_agree:
  "defined (rdma_transfer_ratio_median r) \<Longrightarrow> defined (sc_min_rdma_transfer_ratio sc) \<Longrightarrow>
   defined (sc_max_rdma_transfer_ratio sc) \<Longrightarrow>
   rdma_failures sc r = 0 \<longleftrightarrow> list_all pass (rdma_gates (ScenarioGateConfig_from sc) r)"
  by (auto simp: rdma_failures_def rdma_gates_def gate_defs defined_def fle_flt not_less Let_def split: option.splits)

lemma fleet_agree_absent:
  "fleet_sim_gate_pass r = None \<Longrightarrow>
   fleet_failures sc r = 0 \<longleftrightarrow> list_all pass (fleet_gates (ScenarioGateConfig_from sc) r)"
  by (auto simp: fleet_failures_def fleet_gates_def gate_defs Let_def)

text \<open>The results of an end-to-end run: errors are not split and no fleet gate was evaluated.\<close>

definition e2e_shape :: "ScenarioResult \<Rightarrow> bool" where
  "e2e_shape r \<longleftrightarrow> rs_errors_graceful r = None \<and> rs_errors_hard r = None \<and> fleet_sim_gate_pass r = None"

definition measures_defined :: "Scenario \<Rightarrow> ScenarioResult \<Rightarrow> bool" where
  "measures_defined sc r \<longleftrightarrow>
     list_all defined [rs_max_p99_ms r, accept_p99_ratio r, rs_dataplane_pi r, rs_fastpath_misroute_mean r,
       rdma_transfer_ratio_median r, sc_max_accept_p99_ratio sc, sc_min_dataplane_pi sc, sc_max_p99_tail_ratio sc,
       sc_max_misroute_mean sc, sc_min_rdma_transfer_ratio sc, sc_max_rdma_transfer_ratio sc]"

lemma gates_agree_aux:
  assumes "e2e_shape r" "measures_defined sc r"
    "sc_max_hard_errors sc = None \<or> sc_max_kv_admit_rejects sc = None"
    "unwrap_or (rs_kv_admit_rejects r) 0 \<le> rs_errors r"
  shows "missed_gates sc r = 0 \<longleftrightarrow> list_all pass (evaluate_scenario_gates (ScenarioGateConfig_from sc) r)"
proof -
  have "missed_gates sc r = 0 \<longleftrightarrow>
     (error_failures sc r + floor_failures sc r = 0) \<and> kv_peak_failures sc r = 0 \<and> accept_failures sc r = 0 \<and> p99_failures r = 0
     \<and> rdma_failures sc r = 0 \<and> pi_failures sc r = 0 \<and> tail_failures sc r = 0 \<and> misroute_failures sc r = 0 \<and> fleet_failures sc r = 0"
    by (auto simp: missed_gates_def)
  also have "\<dots> \<longleftrightarrow> list_all pass (evaluate_scenario_gates (ScenarioGateConfig_from sc) r)"
    using assms
    by (subst errors_agree) (simp_all add: e2e_shape_def measures_defined_def kv_peak_agree p99_agree accept_agree pi_agree
          tail_agree misroute_agree rdma_agree fleet_agree_absent evaluate_scenario_gates_def conj_ac)
  finally show ?thesis .
qed

section \<open>What a successful exit means\<close>

definition runs :: "'w bench_env \<Rightarrow> Scenario \<Rightarrow> bool" where
  "runs E sc \<longleftrightarrow> scenario_skip_reason (be_linux E) (be_root E) sc = None"

definition executed :: "'w bench_env \<Rightarrow> LoadBenchFile \<Rightarrow> bool \<Rightarrow> bool \<Rightarrow> bool \<Rightarrow> bool \<Rightarrow> Scenario list" where
  "executed E file ci_only str hrd sm = filter (runs E) (filter (selected ci_only None str hrd sm) (scenario file))"

lemma inner_loop_done:
  "inner_loop E strict warmup only scs done g s w = (Done rs g' s', w') \<Longrightarrow>
   \<exists>new. rs = done @ new \<and> length new = length (filter (runs E) scs)
     \<and> s' = s + (\<Sum>(sc, r)\<leftarrow>zip (filter (runs E) scs) new. if strict sc then missed_gates sc r else 0)"
proof (induction scs arbitrary: "done" g s w)
  case Nil
  then show ?case by simp
next
  case (Cons sc scs)
  show ?case
  proof (cases "scenario_skip_reason (be_linux E) (be_root E) sc")
    case (Some reason)
    then show ?thesis using Cons by (auto simp: runs_def split: if_splits)
  next
    case None
    then obtain r w1 where run: "be_run E sc warmup w = (Inr r, w1)"
      using Cons.prems by (cases "be_run E sc warmup w"; cases "fst (be_run E sc warmup w)") auto
    have "inner_loop E strict warmup only scs (done @ [r]) (g + missed_gates sc r)
            (s + (if strict sc then missed_gates sc r else 0)) w1 = (Done rs g' s', w')"
      using Cons.prems None run by simp
    from Cons.IH [OF this] obtain new where "rs = done @ r # new" "length new = length (filter (runs E) scs)"
      "s' = s + (if strict sc then missed_gates sc r else 0)
          + (\<Sum>(sc, r)\<leftarrow>zip (filter (runs E) scs) new. if strict sc then missed_gates sc r else 0)" by auto
    moreover have "runs E sc" using None by (simp add: runs_def)
    ultimately show ?thesis by (intro exI [of _ "r # new"]) simp
  qed
qed

lemma inner_loop_not_skipped: "fst (inner_loop E strict warmup None scs done g s w) \<noteq> SkippedOnly"
  by (induction scs arbitrary: "done" g s w) (auto split: option.splits prod.splits sum.splits)

lemma sum_zip_zero:
  "(\<Sum>(x, y)\<leftarrow>zip xs ys. if P x then f x y else (0 :: nat)) = 0 \<Longrightarrow> (x, y) \<in> set (zip xs ys) \<Longrightarrow> P x \<Longrightarrow> f x y = 0"
  by (induction xs ys rule: list_induct2') (auto split: if_splits)

lemma load_bench_inner_ok:
  assumes "load_bench_inner E (Inr file) ci_only None str hrd sm w = (Inr (), w')"
  obtains results g w1 where
    "inner_loop E (is_strict (settings file) ci_only str hrd sm) (warmup_requests (settings file)) None
       (filter (selected ci_only None str hrd sm) (scenario file)) [] 0 0 w = (Done results g 0, w1)"
    "be_write E (path_join (report_dir (settings file)) ''latest.json'')
       \<lparr>generated_at = be_stamp E w1, hostname = be_host E, report_scenarios = results\<rparr> w1 = (Inr (), w')"
proof -
  let ?loop = "inner_loop E (is_strict (settings file) ci_only str hrd sm) (warmup_requests (settings file)) None
       (filter (selected ci_only None str hrd sm) (scenario file)) [] 0 0 w"
  obtain ex w1 where l: "?loop = (ex, w1)" by (cases ?loop) auto
  then have "ex \<noteq> SkippedOnly" by (metis fst_conv inner_loop_not_skipped)
  then show ?thesis using assms l that
    by (cases ex) (auto simp: load_bench_inner_def finish_inner_def Let_def split: if_splits prod.splits sum.splits)
qed

section \<open>Modes\<close>

lemma modes_cover: "\<exists>md. mode_selects md s"
  by (cases "stress s"; cases "harden s"; cases "sim s")
     (auto simp: mode_selects_def split: IsolatedMode.splits)

text \<open>The child that a mode starts for a scenario selects that scenario under the flag it is given.\<close>

lemma isolated_child_selects:
  "mode_selects md s \<Longrightarrow> selected False (Some (sc_id s)) (md = Stress) (md = Harden) (md = Sim) s"
  by (cases md) (auto simp: mode_selects_def selected_def)

lemma isolated_loop_ok:
  "isolated_loop E md rd scs is acc n w = (Inr (results, n'), w') \<Longrightarrow> n \<le> n' \<and> prefix acc results"
proof (induction "is" arbitrary: acc n w)
  case Nil
  then show ?case by simp
next
  case (Cons i "is")
  then show ?case
    by (auto split: if_splits prod.splits sum.splits option.splits dest!: Cons.IH) (auto simp: prefix_def)
qed

section \<open>Where the two evaluations differ\<close>

definition idle_result :: "ScenarioResult" where
  "idle_result =
     \<lparr>rs_id = ''S'', rs_summary = [], rs_backends = 1, rs_decode_backends = 1, rs_concurrency = 1,
      rs_requests_per_worker = 100, rs_backend_delay_us = 0, rs_request_style = ''path'', rs_use_kv_pool = True,
      total_requests = 100, rs_ok = 100, rs_errors = 0, rs_errors_graceful = None, rs_errors_hard = None,
      duration_secs = 1, req_per_sec = 1, min_us = 1, p50_us = 1, p90_us = 1, rs_p99_us = 1, max_us = 1,
      rs_max_p99_ms = None, kv_bytes_reserved_peak = None, rs_kv_admit_rejects = Some 0,
      handoff_transfer_count = None, handoff_bytes_p50 = None, handoff_bytes_p99 = None, handoff_wall_us_p50 = None,
      handoff_wall_us_p99 = None, accept_p99_us_low = None, accept_p99_us_high = None, accept_p99_ratio = None,
      latencies_us = [], rs_dataplane_pi = None, rs_dataplane_age_ms = None, rs_rcu_stale = None, rs_pi_star = None,
      min_dataplane_pi_sampled = None, rs_fast_path_ratio = None, rs_colocated_routes = None, rs_disagg_routes = None,
      rs_fastpath_misroute_mean = None, rs_fastpath_misroute_samples = None, rs_corrector_shadow_samples = None,
      fleet_windows = [], fleet_live_pi_correlation = None, fleet_shadow_correlation = None,
      fleet_heavy_graceful_rate = None, fleet_sim_gate_pass = None, rs_rdma_shadow_samples = None,
      rdma_transfer_ratio_median = None\<rparr>"

abbreviation plain_scenario :: Scenario where
  "plain_scenario \<equiv> Scenario_default ''S'' [] 1 (Fin 0) (Fin 0) 1 100"

lemmas sample_defs = Scenario_default_def idle_result_def default_prefill_fraction_def default_request_style_def
  default_bytes_per_token_def default_long_tokens_def default_measure_def

lemmas counter_defs = missed_gates_def error_failures_def kv_peak_failures_def accept_failures_def p99_failures_def
  rdma_failures_def pi_failures_def tail_failures_def misroute_failures_def floor_failures_def fleet_failures_def unwrap_or_def fails_def

lemmas verdict_defs = evaluate_scenario_gates_def error_gates_def hard_gate_def errors_gate_def floor_gates_def kv_peak_gate_def
  p99_gate_def accept_gate_def pi_gate_def tail_gate_def misroute_gate_def fleet_gates_def rdma_gates_def
  ScenarioGateConfig_from_def unwrap_or_def

text \<open>With a hard-error cap the run no longer enforces the reject cap, which the report does.\<close>

lemma hard_cap_hides_reject_cap:
  fixes sc r
  defines "sc \<equiv> plain_scenario\<lparr>sc_max_hard_errors := Some 0, sc_max_kv_admit_rejects := Some 50\<rparr>"
    and "r \<equiv> idle_result\<lparr>rs_errors := 90, rs_errors_graceful := Some 90, rs_errors_hard := Some 0,
            rs_kv_admit_rejects := Some 90\<rparr>"
  shows "missed_gates sc r = 0 \<and> \<not> list_all pass (evaluate_scenario_gates (ScenarioGateConfig_from sc) r)"
  by (simp add: sc_def r_def sample_defs counter_defs verdict_defs Let_def)

text \<open>A graceful refusal under a hard-error cap alone fails the run and is a passing verdict of the report.\<close>

lemma graceful_shed_differs:
  fixes sc r
  defines "sc \<equiv> plain_scenario\<lparr>sc_max_hard_errors := Some 0\<rparr>"
    and "r \<equiv> idle_result\<lparr>rs_errors := 1, rs_errors_graceful := Some 1, rs_errors_hard := Some 0\<rparr>"
  shows "missed_gates sc r = 1 \<and> list_all pass (evaluate_scenario_gates (ScenarioGateConfig_from sc) r)"
  by (simp add: sc_def r_def sample_defs counter_defs verdict_defs Let_def)

text \<open>A measurement that is not a number passes the run and fails the report.\<close>

lemma nan_measure_differs:
  fixes sc r
  defines "sc \<equiv> plain_scenario\<lparr>sc_max_misroute_mean := Some (Fin 1)\<rparr>"
    and "r \<equiv> idle_result\<lparr>rs_fastpath_misroute_mean := Some NaN\<rparr>"
  shows "missed_gates sc r = 0 \<and> \<not> list_all pass (evaluate_scenario_gates (ScenarioGateConfig_from sc) r)"
  by (simp add: sc_def r_def sample_defs counter_defs verdict_defs Let_def)

text \<open>A gate whose measurement is missing passes both: nothing is compared.\<close>

lemma missing_measure_passes:
  fixes sc
  defines "sc \<equiv> plain_scenario\<lparr>sc_min_dataplane_pi := Some (Fin 1), sc_min_rdma_transfer_ratio := Some (Fin 1)\<rparr>"
  shows "missed_gates sc idle_result = 0 \<and> list_all pass (evaluate_scenario_gates (ScenarioGateConfig_from sc) idle_result)"
  by (simp add: sc_def sample_defs counter_defs verdict_defs Let_def)

section \<open>Properties\<close>

text \<open>The verdicts of the report and the gate counter that decides the exit status agree on an end-to-end
  result: no gate was missed exactly when every verdict passes.  Required are numbers as measurements and
  limits, not both error caps at once, and no more rejects than errors.\<close>

theorem gates_agree:
  assumes "e2e_shape r" "measures_defined sc r"
    "sc_max_hard_errors sc = None \<or> sc_max_kv_admit_rejects sc = None"
    "unwrap_or (rs_kv_admit_rejects r) 0 \<le> rs_errors r"
  shows "missed_gates sc r = 0 \<longleftrightarrow> list_all pass (evaluate_scenario_gates (ScenarioGateConfig_from sc) r)"
  using assms by (rule gates_agree_aux)

theorem gates_agree_witness:
  "missed_gates (plain_scenario\<lparr>sc_max_kv_admit_rejects := Some 5\<rparr>) (idle_result\<lparr>rs_errors := 9\<rparr>) = 1 \<and>
   \<not> list_all pass (evaluate_scenario_gates (ScenarioGateConfig_from (plain_scenario\<lparr>sc_max_kv_admit_rejects := Some 5\<rparr>))
       (idle_result\<lparr>rs_errors := 9\<rparr>))"
proof -
  have "missed_gates (plain_scenario\<lparr>sc_max_kv_admit_rejects := Some 5\<rparr>) (idle_result\<lparr>rs_errors := 9\<rparr>) = 1"
    by (simp add: sample_defs counter_defs)
  then show ?thesis
    using gates_agree [of "idle_result\<lparr>rs_errors := 9\<rparr>" "plain_scenario\<lparr>sc_max_kv_admit_rejects := Some 5\<rparr>"]
    by (simp add: e2e_shape_def measures_defined_def defined_def unwrap_or_def sample_defs)
qed

text \<open>A suite run that exits successfully wrote a report with one result per scenario that was not skipped,
  in order, and no scenario under strict gating missed a gate.\<close>

theorem load_bench_inner_clean:
  assumes "load_bench_inner E (Inr file) ci_only None str hrd sm w = (Inr (), w')"
  shows "let todo = executed E file ci_only str hrd sm in
    \<exists>report w1. be_write E (path_join (report_dir (settings file)) ''latest.json'') report w1 = (Inr (), w')
    \<and> length (report_scenarios report) = length todo
    \<and> (\<forall>(sc, r) \<in> set (zip todo (report_scenarios report)).
         is_strict (settings file) ci_only str hrd sm sc \<longrightarrow> missed_gates sc r = 0)"
proof -
  let ?strict = "is_strict (settings file) ci_only str hrd sm"
  let ?todo = "executed E file ci_only str hrd sm"
  obtain results g w1 where
    l: "inner_loop E ?strict (warmup_requests (settings file)) None
          (filter (selected ci_only None str hrd sm) (scenario file)) [] 0 0 w = (Done results g 0, w1)" and
    wr: "be_write E (path_join (report_dir (settings file)) ''latest.json'')
          \<lparr>generated_at = be_stamp E w1, hostname = be_host E, report_scenarios = results\<rparr> w1 = (Inr (), w')"
    using assms(1) by (rule load_bench_inner_ok)
  from inner_loop_done [OF l] have "length results = length ?todo"
    "(\<Sum>(sc, r)\<leftarrow>zip ?todo results. if ?strict sc then missed_gates sc r else 0) = 0" by (auto simp: executed_def)
  then show ?thesis using wr sum_zip_zero [of ?strict missed_gates ?todo results]
    unfolding Let_def
    by (intro exI [of _ "\<lparr>generated_at = be_stamp E w1, hostname = be_host E, report_scenarios = results\<rparr>"] exI [of _ w1]) auto
qed

definition bench_sample_env :: "unit bench_env" where
  "bench_sample_env =
     \<lparr>be_linux = True, be_root = False, be_run = (\<lambda>sc n w. (Inr idle_result, w)), be_write = (\<lambda>p r w. (Inr (), w)),
      be_child = (\<lambda>a w. (Inr True, w)), be_partial = (\<lambda>p w. Inr None), be_reset_runs = (\<lambda>p w. (Inr (), w)),
      be_stamp = (\<lambda>w. []), be_host = ''local''\<rparr>"

definition sample_file :: LoadBenchFile where
  "sample_file =
     \<lparr>settings = \<lparr>report_dir = ''target'', warmup_requests = 0, startup_delay_ms = 0, stress_recovery_ms = 0, gate_strict = True\<rparr>,
      scenario = [plain_scenario, plain_scenario\<lparr>track_b_kernel := True\<rparr>]\<rparr>"

lemma sample_run: "load_bench_inner bench_sample_env (Inr sample_file) False None False False False () = (Inr (), ())"
  by (simp add: load_bench_inner_def finish_inner_def bench_sample_env_def sample_file_def selected_def is_strict_def scenario_skip_reason_def Let_def
      sample_defs counter_defs)

theorem load_bench_inner_clean_witness:
  "\<exists>report w1. be_write bench_sample_env (path_join ''target'' ''latest.json'') report w1 = (Inr (), ())
    \<and> length (report_scenarios report) = 1"
  using load_bench_inner_clean [OF sample_run]
  by (auto simp: executed_def Let_def sample_file_def runs_def selected_def bench_sample_env_def scenario_skip_reason_def Scenario_default_def)

end
