(* ===== verification/LoadRun.thy ===== *)
theory LoadRun
  imports LoadClient LoadBench "HOL-Library.Multiset"
begin

text \<open>
  The scenario runners of the load bench (\<open>xtask/src/load_bench.rs\<close>): the backend pools and router they
  build, the requests the workers send, what the workers count, and the results the three runners
  assemble.  What the workers observed, the clock and the router's metrics are arguments; sleeping,
  sockets and threads are not modelled.
\<close>

section \<open>Pools and router\<close>

definition bench_backend_topology :: "string \<Rightarrow> u32 \<Rightarrow> u32 \<Rightarrow> TopologyId" where
  "bench_backend_topology pre i cnt =
     (let nodes = max cnt 3
      in \<lparr>node = ''n'' @ str_of (fmt_u64 (i mod nodes)), rack = ''r'' @ str_of (fmt_u64 ((i div max nodes 1) mod 2)),
          cluster = (if pre \<noteq> ''pf'' \<and> i mod 2 \<noteq> 0 then ''cB'' else ''cA'')\<rparr>)"

text \<open>The server a pool member runs on: a large-body server or a mock that may print KV headers.\<close>

datatype bench_server = LargeBody u64 u64 | Mock u64 u64 "u64 option"

definition remote_cutoff :: "u32 \<Rightarrow> u32" where
  "remote_cutoff cnt = max (cnt - cnt div 3) 1"

definition pool_delay :: "Scenario \<Rightarrow> u64 \<Rightarrow> f64 \<Rightarrow> u32 \<Rightarrow> u32 \<Rightarrow> u64" where
  "pool_delay sc base_delay_us window_mult cnt i =
     (let delay_us = (if heterogeneous_backends sc then tier_delay_us i cnt base_delay_us window_mult else base_delay_us)
      in if 0 < sim_netem_us sc \<and> remote_cutoff cnt \<le> i then saturating_add delay_us (sim_netem_us sc) else delay_us)"

definition pool_label :: "Scenario \<Rightarrow> string \<Rightarrow> u32 \<Rightarrow> string" where
  "pool_label sc pre i = (if paired_labels sc then ''node'' else pre) @ str_of (fmt_u64 i)"

definition build_pool_calibrated ::
    "(f64 \<Rightarrow> f64) \<Rightarrow> (bench_server \<Rightarrow> nat \<Rightarrow> string) \<Rightarrow> u32 \<Rightarrow> string \<Rightarrow> Scenario \<Rightarrow> u64 option \<Rightarrow> u64 \<Rightarrow> f64 \<Rightarrow> Backend list" where
  "build_pool_calibrated lg spawn cnt pre sc kvb base_delay_us window_mult =
     map (\<lambda>k. let i = of_nat k;
                  delay_us = pool_delay sc base_delay_us window_mult cnt i;
                  server = (if sc_request_style sc = ''large_response'' \<and> 0 < large_body_bytes sc
                            then LargeBody delay_us (large_body_bytes sc)
                            else Mock delay_us (backend_delay_jitter_us sc) kvb);
                  cost = base_cost_seconds sc + cost_step_seconds sc * f64_of_nat k;
                  topo = (if rdma_modeled sc then bench_backend_topology pre i cnt else TopologyId_default)
              in new_with_topology lg (pool_label sc pre i) (spawn server k) cost topo)
       [0..<unat cnt]"

definition build_pool ::
    "(f64 \<Rightarrow> f64) \<Rightarrow> (bench_server \<Rightarrow> nat \<Rightarrow> string) \<Rightarrow> u32 \<Rightarrow> string \<Rightarrow> Scenario \<Rightarrow> u64 option \<Rightarrow> Backend list" where
  "build_pool lg spawn cnt pre sc kvb =
     build_pool_calibrated lg spawn cnt pre sc kvb (sc_backend_delay_us sc) 1"

text \<open>The labels of both pools with their topologies; a later insertion replaces an earlier one.\<close>

definition topo_map :: "Backend list \<Rightarrow> Backend list \<Rightarrow> (string \<times> TopologyId) list" where
  "topo_map pf dc = rev (map (\<lambda>b. (label b, topology b)) (pf @ dc))"

definition apply_scenario_router_flags :: "Scenario \<Rightarrow> Backend list \<Rightarrow> Backend list \<Rightarrow> 'b Router \<Rightarrow> 'b Router" where
  "apply_scenario_router_flags sc pf dc r =
     (let r = (if sc_io_uring sc \<or> track_b_kernel sc then with_io_uring True r else r);
          r = (case sc_admit_mode sc of
                 Some md \<Rightarrow> (case AdmitMode_parse (of_ascii md) of Some m \<Rightarrow> with_admit_mode m r | None \<Rightarrow> r)
               | None \<Rightarrow> if track_b_kernel sc then with_admit_mode KernelXdp r else r);
          r = (if rdma_modeled sc \<or> sc_rdma_routing sc then with_rdma_routing True r else r)
      in if rdma_modeled sc then with_handoff_transport (ModeledRdma (topo_map pf dc)) r
         else case sc_handoff_transport sc of
                Some md \<Rightarrow>
                  with_handoff_transport
                    (if md = ''mock_rdma'' then MockRdma DEFAULT_LATENCY_US
                     else if md = ''modeled_rdma'' then ModeledRdma (topo_map pf dc)
                     else HeaderPassthrough) r
              | None \<Rightarrow> r)"

text \<open>The router of a scenario, up to the veth pair of the kernel dataplane.\<close>

definition scenario_router ::
    "('b, 'k) renv \<Rightarrow> router_vars \<Rightarrow> Scenario \<Rightarrow> Backend list \<Rightarrow> Backend list \<Rightarrow> 'b Router" where
  "scenario_router E V sc pf dc =
     (let r = (if sc_use_kv_pool sc
               then with_kv_pool V (e_now_ms E) (e_now E) pf dc (effective_decode_capacity_bytes sc) (sc_bytes_per_token sc)
               else Router_new V (e_now_ms E) (e_now E) pf dc);
          r = (if sc_rebalancer_actuation sc then with_rebalancer_actuation True (e_now E) r else r);
          r = apply_scenario_router_flags sc pf dc r
      in if 0 < sc_admit_capacity sc then sync_admit_capacity E (sc_admit_capacity sc) r else r)"

definition rdma_result_fields :: "(f64 \<Rightarrow> f64) \<Rightarrow> RdmaCostShadowSample list \<Rightarrow> u64 option \<times> f64 option" where
  "rdma_result_fields ex ss =
     (if ss = [] then (Some 0, Some 1)
      else (Some (of_nat (length ss)), Some (eval_transfer_ratio_median ex ss)))"

section \<open>What the workers send and count\<close>

definition worker_seq :: "u64 \<Rightarrow> u32 \<Rightarrow> u32 \<Rightarrow> u32 \<Rightarrow> u64" where
  "worker_seq seq_base rpw w r = seq_base + ucast w * ucast rpw + ucast r"

definition phase_seqs :: "u64 \<Rightarrow> u32 \<Rightarrow> u32 \<Rightarrow> u64 list" where
  "phase_seqs seq_base conc rpw =
     concat (map (\<lambda>w. map (\<lambda>r. worker_seq seq_base rpw (of_nat w) (of_nat r)) [0..<unat rpw]) [0..<unat conc])"

definition by_fraction :: "f64 \<Rightarrow> u64 \<Rightarrow> bool" where
  "by_fraction fraction seq = flt (f64_of_u64 (seq mod 100) / lit 100) fraction"

definition window_prefill :: "string \<Rightarrow> f64 \<Rightarrow> u64 \<Rightarrow> bool" where
  "window_prefill style fraction seq =
     (if style = ''mixed_tokens'' \<or> style = ''short_tokens'' \<or> style = ''long_tokens'' then True else by_fraction fraction seq)"

definition e2e_prefill :: "string \<Rightarrow> f64 \<Rightarrow> u64 \<Rightarrow> bool" where
  "e2e_prefill style fraction seq =
     (if style = ''long_tokens'' \<or> style = ''short_tokens'' then True else by_fraction fraction seq)"

text \<open>The shared counters.  A success also samples the ledger's reserved bytes, when there is a ledger.\<close>

record tally =
  t_ok :: u64
  t_graceful :: u64
  t_hard :: u64
  t_lat :: "u64 list"
  t_peak :: u64

definition tally_zero :: tally where
  "tally_zero = \<lparr>t_ok = 0, t_graceful = 0, t_hard = 0, t_lat = [], t_peak = 0\<rparr>"

type_synonym observation = "RequestOutcome \<times> u64"

definition count_one :: "bool \<Rightarrow> observation \<Rightarrow> tally \<Rightarrow> tally" where
  "count_one ledger ob t =
     (case fst ob of
        OkIn us \<Rightarrow>
          (let t = t\<lparr>t_ok := t_ok t + 1, t_lat := t_lat t @ [us]\<rparr>
           in if ledger then t\<lparr>t_peak := max (t_peak t) (snd ob)\<rparr> else t)
      | Graceful503 \<Rightarrow> t\<lparr>t_graceful := t_graceful t + 1\<rparr>
      | HardError \<Rightarrow> t\<lparr>t_hard := t_hard t + 1\<rparr>)"

definition run_window_workers :: "bool \<Rightarrow> observation list \<Rightarrow> u64 \<Rightarrow> tally" where
  "run_window_workers ledger obs peak = fold (count_one ledger) obs (tally_zero\<lparr>t_peak := peak\<rparr>)"

section \<open>The end-to-end runner\<close>

definition e2e_phases :: "Scenario \<Rightarrow> (f64 \<times> string) list" where
  "e2e_phases sc =
     (if step_prefill_fraction sc = [] then [(sc_prefill_fraction sc, sc_request_style sc)]
      else map (\<lambda>(i, frac). (frac, if i < length (step_request_style sc) then step_request_style sc ! i else sc_request_style sc))
             (enumerate 0 (step_prefill_fraction sc)))"

definition first_or_zero :: "u64 list \<Rightarrow> u64" where
  "first_or_zero xs = (case xs of [] \<Rightarrow> 0 | x # _ \<Rightarrow> x)"

definition last_or_zero :: "u64 list \<Rightarrow> u64" where
  "last_or_zero xs = (if xs = [] then 0 else last xs)"

text \<open>What the finished router reports: control metrics, ledger metrics, transfer metrics, cost samples.\<close>

record run_end =
  en_duration :: f64
  en_control :: ControlMetrics
  en_rejects :: "u64 option"
  en_transfer :: "HandoffTransferMetrics option"
  en_rdma :: "RdmaCostShadowSample list"

definition transfer_seen :: "run_end \<Rightarrow> HandoffTransferMetrics option" where
  "transfer_seen en = (case en_transfer en of Some m \<Rightarrow> if 0 < HandoffTransferMetrics.count m then Some m else None | None \<Rightarrow> None)"

definition kv_seen :: "run_end \<Rightarrow> u64 \<Rightarrow> u64 \<times> u64" where
  "kv_seen en peak = (case en_rejects en of Some n \<Rightarrow> (peak, n) | None \<Rightarrow> (0, 0))"

definition min_pi_seen :: "f64 list \<Rightarrow> f64 option" where
  "min_pi_seen pis = (let m = foldl fmin f64_MAX pis in if is_finite m then Some m else None)"

definition rate :: "u64 \<Rightarrow> f64 \<Rightarrow> f64" where
  "rate n dur = (if flt 0 dur then f64_of_u64 n / dur else 0)"

definition e2e_result :: "(f64 \<Rightarrow> f64) \<Rightarrow> Scenario \<Rightarrow> run_end \<Rightarrow> f64 list \<Rightarrow> observation list \<Rightarrow> ScenarioResult" where
  "e2e_result ex sc en pis obs =
     (let t = run_window_workers (en_rejects en \<noteq> None) obs 0;
          lats = sort (t_lat t);
          err = t_graceful t + t_hard t;
          (kv_peak, kv_rejects) = kv_seen en (t_peak t);
          tr = transfer_seen en;
          c = en_control en;
          (rdma_n, rdma_ratio) = (if rdma_modeled sc then rdma_result_fields ex (en_rdma en) else (None, None))
      in \<lparr>rs_id = sc_id sc, rs_summary = sc_summary sc, rs_backends = sc_backends sc, rs_decode_backends = sc_decode_backends sc,
          rs_concurrency = sc_concurrency sc, rs_requests_per_worker = sc_requests_per_worker sc,
          rs_backend_delay_us = sc_backend_delay_us sc, rs_request_style = sc_request_style sc, rs_use_kv_pool = sc_use_kv_pool sc,
          total_requests = ucast (sc_concurrency sc) * ucast (sc_requests_per_worker sc) * of_nat (length (e2e_phases sc)),
          rs_ok = t_ok t, rs_errors = err, rs_errors_graceful = None, rs_errors_hard = None,
          duration_secs = en_duration en, req_per_sec = rate (t_ok t) (en_duration en),
          min_us = first_or_zero lats, p50_us = lb_percentile lats (lit (50 / 100)),
          p90_us = lb_percentile lats (lit (90 / 100)), rs_p99_us = lb_percentile lats (lit (99 / 100)),
          max_us = last_or_zero lats, rs_max_p99_ms = sc_max_p99_ms sc,
          kv_bytes_reserved_peak = (if sc_use_kv_pool sc then Some kv_peak else None),
          rs_kv_admit_rejects = (if sc_use_kv_pool sc then Some kv_rejects else None),
          handoff_transfer_count = map_option HandoffTransferMetrics.count tr, handoff_bytes_p50 = map_option bytes_p50 tr,
          handoff_bytes_p99 = map_option bytes_p99 tr, handoff_wall_us_p50 = map_option wall_us_p50 tr,
          handoff_wall_us_p99 = map_option wall_us_p99 tr, accept_p99_us_low = None, accept_p99_us_high = None,
          accept_p99_ratio = None, latencies_us = lats, rs_dataplane_pi = Some (m_dataplane_pi c),
          rs_dataplane_age_ms = Some (m_dataplane_age_ms c), rs_rcu_stale = Some (rcu_stale c), rs_pi_star = Some (m_pi_star c),
          min_dataplane_pi_sampled = min_pi_seen pis, rs_fast_path_ratio = Some (fast_path_ratio c),
          rs_colocated_routes = Some (m_colocated_routes c), rs_disagg_routes = Some (m_disagg_routes c),
          rs_fastpath_misroute_mean = Some (fastpath_misroute_mean c),
          rs_fastpath_misroute_samples = Some (m_fastpath_misroute_samples c),
          rs_corrector_shadow_samples = Some (corrector_shadow_samples c), fleet_windows = [], fleet_live_pi_correlation = None,
          fleet_shadow_correlation = None, fleet_heavy_graceful_rate = None, fleet_sim_gate_pass = None,
          rs_rdma_shadow_samples = rdma_n, rdma_transfer_ratio_median = rdma_ratio\<rparr>)"

section \<open>The replay runner\<close>

definition replay_knobs :: "Scenario \<Rightarrow> SimBaseKnobs" where
  "replay_knobs sc =
     \<lparr>bk_concurrency = sc_concurrency sc, bk_requests_per_worker = sc_requests_per_worker sc,
      base_prefill_delay_us = max (sc_backend_delay_us sc) 1, base_decode_delay_us = max (sc_backend_delay_us sc) 1 div 2,
      bk_long_prompt_tokens = sc_long_prompt_tokens sc, long_prompt_tokens_heavy = max (sc_long_prompt_tokens sc) 2048,
      bk_request_style = sc_request_style sc\<rparr>"

definition avg_window_mult :: "Scenario \<Rightarrow> TraceWindow list \<Rightarrow> f64" where
  "avg_window_mult sc windows =
     foldl (+) 0 (map (\<lambda>w. delay_window_mult (window_knobs w (replay_knobs sc))) windows) / f64_of_nat (max (length windows) 1)"

text \<open>A relative trace path is taken from the repository root.\<close>

definition trace_path_of :: "string \<Rightarrow> Scenario \<Rightarrow> string + string" where
  "trace_path_of root_dir sc =
     (case sc_trace_path sc of
        None \<Rightarrow> Inl (sc_id sc @ '': trace_path required for fleet_replay'')
      | Some p \<Rightarrow> Inr (if starts_with ''/'' p then p else path_join root_dir p))"

text \<open>One window: what its workers observed, the peak so far and the ratio read afterwards.\<close>

definition window_result :: "bool \<Rightarrow> FleetPilotReport \<Rightarrow> nat \<Rightarrow> TraceWindow \<Rightarrow> observation list \<Rightarrow> f64 \<Rightarrow> FleetWindowResult" where
  "window_result ledger pilot i w obs pi_now =
     (let t = run_window_workers ledger obs 0
      in \<lparr>fw_ts_ms = ts_ms w, fw_prefill_heavy = prefill_heavy w, fw_held_out = held_out w, fw_ok = t_ok t,
          fw_errors = t_graceful t + t_hard t, errors_graceful = t_graceful t, errors_hard = t_hard t,
          p99_us = lb_percentile (sort (t_lat t)) (lit (99 / 100)), fw_dataplane_pi = pi_now,
          fw_pi_star = (if i < length (replays pilot) then pi_star (replays pilot ! i) else lit (1 / 2))\<rparr>)"

definition window_results_of :: "bool \<Rightarrow> FleetPilotReport \<Rightarrow> TraceWindow list \<Rightarrow> (observation list \<times> f64) list \<Rightarrow> FleetWindowResult list" where
  "window_results_of ledger pilot windows seen =
     map (\<lambda>(i, w, obs, p). window_result ledger pilot i w obs p) (enumerate 0 (zip windows seen))"

definition heavy_shed_rate :: "FleetWindowResult list \<Rightarrow> f64" where
  "heavy_shed_rate ws =
     (let heavy_graceful = sum_list (map errors_graceful (filter fw_prefill_heavy ws));
          heavy_total = sum_list (map (\<lambda>w. fw_ok w + fw_errors w) (filter fw_prefill_heavy ws))
      in if 0 < heavy_total then f64_of_u64 heavy_graceful / f64_of_u64 heavy_total else 0)"

definition replay_result ::
    "Scenario \<Rightarrow> FleetPilotReport \<Rightarrow> TraceWindow list \<Rightarrow> run_end \<Rightarrow> (observation list \<times> f64) list \<Rightarrow> ScenarioResult" where
  "replay_result sc pilot windows en seen =
     (let ledger = (en_rejects en \<noteq> None);
          min_corr = unwrap_or (sc_min_fleet_correlation sc) (lit (45 / 100));
          ws = window_results_of ledger pilot windows seen;
          all = run_window_workers ledger (concat (map fst (take (length windows) seen))) 0;
          lats = sort (t_lat all);
          total_ok = sum_list (map fw_ok ws);
          total_err = sum_list (map fw_errors ws);
          sim_gate = eval_fleet_sim_gate pilot ws min_corr (sc_min_live_fleet_correlation sc) (sc_max_heavy_graceful_rate sc);
          (kv_peak, kv_rejects) = kv_seen en (t_peak all);
          tr = transfer_seen en;
          c = en_control en
      in \<lparr>rs_id = sc_id sc, rs_summary = sc_summary sc, rs_backends = sc_backends sc, rs_decode_backends = sc_decode_backends sc,
          rs_concurrency = sc_concurrency sc, rs_requests_per_worker = sc_requests_per_worker sc,
          rs_backend_delay_us = sc_backend_delay_us sc, rs_request_style = sc_request_style sc, rs_use_kv_pool = sc_use_kv_pool sc,
          total_requests = total_ok + total_err, rs_ok = total_ok, rs_errors = total_err,
          rs_errors_graceful = Some (sum_list (map errors_graceful ws)), rs_errors_hard = Some (sum_list (map errors_hard ws)),
          duration_secs = en_duration en, req_per_sec = rate total_ok (en_duration en),
          min_us = first_or_zero lats, p50_us = lb_percentile lats (lit (50 / 100)),
          p90_us = lb_percentile lats (lit (90 / 100)), rs_p99_us = lb_percentile lats (lit (99 / 100)),
          max_us = last_or_zero lats, rs_max_p99_ms = sc_max_p99_ms sc,
          kv_bytes_reserved_peak = (if sc_use_kv_pool sc then Some kv_peak else None),
          rs_kv_admit_rejects = (if sc_use_kv_pool sc then Some kv_rejects else None),
          handoff_transfer_count = map_option HandoffTransferMetrics.count tr, handoff_bytes_p50 = map_option bytes_p50 tr,
          handoff_bytes_p99 = map_option bytes_p99 tr, handoff_wall_us_p50 = map_option wall_us_p50 tr,
          handoff_wall_us_p99 = map_option wall_us_p99 tr, accept_p99_us_low = None, accept_p99_us_high = None,
          accept_p99_ratio = None, latencies_us = lats, rs_dataplane_pi = Some (m_dataplane_pi c),
          rs_dataplane_age_ms = Some (m_dataplane_age_ms c), rs_rcu_stale = Some (rcu_stale c), rs_pi_star = None,
          min_dataplane_pi_sampled = min_pi_seen (map snd (take (length windows) seen)), rs_fast_path_ratio = Some (fast_path_ratio c),
          rs_colocated_routes = Some (m_colocated_routes c), rs_disagg_routes = Some (m_disagg_routes c),
          rs_fastpath_misroute_mean = Some (fastpath_misroute_mean c),
          rs_fastpath_misroute_samples = Some (m_fastpath_misroute_samples c),
          rs_corrector_shadow_samples = Some (corrector_shadow_samples c), fleet_windows = ws,
          fleet_live_pi_correlation = map_option (\<lambda>_. live_pi_correlation sim_gate) (sc_min_fleet_correlation sc),
          fleet_shadow_correlation = map_option (\<lambda>_. sim_heldout_correlation sim_gate) (sc_min_fleet_correlation sc),
          fleet_heavy_graceful_rate = map_option (\<lambda>_. heavy_shed_rate ws) (sc_max_heavy_graceful_rate sc),
          fleet_sim_gate_pass = map_option (\<lambda>_. sim_gate_pass sim_gate) (sc_min_fleet_correlation sc),
          rs_rdma_shadow_samples = None, rdma_transfer_ratio_median = None\<rparr>)"

section \<open>The accept-path runner\<close>

definition admit_delays :: "Scenario \<Rightarrow> u64 list" where
  "admit_delays sc =
     (if 2 \<le> length (prefill_delay_sweep_us sc) then prefill_delay_sweep_us sc
      else let low = max (sc_backend_delay_us sc) 1 in [low, max (saturating_mul low 50) (low + 1000)])"

definition admit_result :: "Scenario \<Rightarrow> u64 list list \<Rightarrow> f64 \<Rightarrow> ScenarioResult" where
  "admit_result sc sampled dur =
     (let p99s = map (\<lambda>s. lb_percentile (sort s) (lit (99 / 100))) sampled;
          p99_low = (case p99s of [] \<Rightarrow> 1 | x # _ \<Rightarrow> x);
          p99_high = (if p99s = [] then 1 else last p99s);
          ratio = f64_of_u64 p99_high / f64_of_u64 (max p99_low 1);
          total_n = ucast (sc_concurrency sc) * ucast (sc_requests_per_worker sc) * of_nat (length (admit_delays sc))
      in \<lparr>rs_id = sc_id sc, rs_summary = sc_summary sc, rs_backends = sc_backends sc, rs_decode_backends = sc_decode_backends sc,
          rs_concurrency = sc_concurrency sc, rs_requests_per_worker = sc_requests_per_worker sc,
          rs_backend_delay_us = sc_backend_delay_us sc, rs_request_style = sc_request_style sc, rs_use_kv_pool = False,
          total_requests = total_n, rs_ok = total_n, rs_errors = 0, rs_errors_graceful = None, rs_errors_hard = None,
          duration_secs = dur, req_per_sec = rate total_n dur, min_us = p99_low, p50_us = p99_low, p90_us = p99_high,
          rs_p99_us = p99_high, max_us = p99_high, rs_max_p99_ms = sc_max_p99_ms sc, kv_bytes_reserved_peak = None,
          rs_kv_admit_rejects = None, handoff_transfer_count = None, handoff_bytes_p50 = None, handoff_bytes_p99 = None,
          handoff_wall_us_p50 = None, handoff_wall_us_p99 = None, accept_p99_us_low = Some p99_low,
          accept_p99_us_high = Some p99_high, accept_p99_ratio = Some ratio, latencies_us = p99s, rs_dataplane_pi = None,
          rs_dataplane_age_ms = None, rs_rcu_stale = None, rs_pi_star = None, min_dataplane_pi_sampled = None,
          rs_fast_path_ratio = None, rs_colocated_routes = None, rs_disagg_routes = None, rs_fastpath_misroute_mean = None,
          rs_fastpath_misroute_samples = None, rs_corrector_shadow_samples = None, fleet_windows = [],
          fleet_live_pi_correlation = None, fleet_shadow_correlation = None, fleet_heavy_graceful_rate = None,
          fleet_sim_gate_pass = None, rs_rdma_shadow_samples = None, rdma_transfer_ratio_median = None\<rparr>)"

datatype runner = FleetReplay | AdmitDecouple | EndToEnd

definition run_scenario :: "Scenario \<Rightarrow> runner" where
  "run_scenario sc =
     (if measure_kind sc = ''fleet_replay'' then FleetReplay
      else if measure_kind sc = ''admit_decouple'' then AdmitDecouple
      else EndToEnd)"


section \<open>Interleaving does not matter\<close>

definition ok_lat :: "observation \<Rightarrow> u64 option" where
  "ok_lat ob = (case fst ob of OkIn us \<Rightarrow> Some us | _ \<Rightarrow> None)"

definition peaks :: "bool \<Rightarrow> observation list \<Rightarrow> u64 list" where
  "peaks ledger obs = (if ledger then map snd (filter (\<lambda>ob. ok_lat ob \<noteq> None) obs) else [])"

lemma count_fold:
  "t_lat (fold (count_one ledger) obs t) = t_lat t @ List.map_filter ok_lat obs"
  "t_ok (fold (count_one ledger) obs t) = t_ok t + of_nat (length (List.map_filter ok_lat obs))"
  "t_graceful (fold (count_one ledger) obs t) = t_graceful t + of_nat (count_list (map fst obs) Graceful503)"
  "t_hard (fold (count_one ledger) obs t) = t_hard t + of_nat (count_list (map fst obs) HardError)"
  "t_peak (fold (count_one ledger) obs t) = fold max (peaks ledger obs) (t_peak t)"
  by (induction obs arbitrary: t)
     (auto simp: count_one_def ok_lat_def peaks_def Let_def map_filter_simps max.commute split: RequestOutcome.splits)

lemma fold_max_perm: "mset xs = mset ys \<Longrightarrow> fold max xs (a :: u64) = fold max ys a"
  by (rule fun_cong [OF fold_multiset_equiv]) (auto simp: fun_eq_iff max.left_commute)

lemma map_filter_perm: "mset xs = mset ys \<Longrightarrow> mset (List.map_filter f xs) = mset (List.map_filter f ys)"
  by (simp add: List.map_filter_def)

lemma count_list_perm: "mset xs = mset ys \<Longrightarrow> count_list xs a = count_list ys a"
  by (metis count_mset)

lemma tally_perm:
  assumes "mset obs = mset obs'"
  shows "(run_window_workers ledger obs p)\<lparr>t_lat := sort (t_lat (run_window_workers ledger obs p))\<rparr>
       = (run_window_workers ledger obs' p)\<lparr>t_lat := sort (t_lat (run_window_workers ledger obs' p))\<rparr>"
proof -
  have l: "mset (List.map_filter ok_lat obs) = mset (List.map_filter ok_lat obs')" using assms by (rule map_filter_perm)
  then have "sort (List.map_filter ok_lat obs) = sort (List.map_filter ok_lat obs')" by (metis properties_for_sort mset_sort sorted_sort)
  moreover have "length (List.map_filter ok_lat obs) = length (List.map_filter ok_lat obs')" using l by (rule mset_eq_length)
  moreover have "count_list (map fst obs) a = count_list (map fst obs') a" for a
    using assms by (intro count_list_perm) simp
  moreover have "fold max (peaks ledger obs) p = fold max (peaks ledger obs') p"
    using assms by (intro fold_max_perm) (simp add: peaks_def)
  ultimately show ?thesis by (simp add: tally.equality count_fold run_window_workers_def tally_zero_def)
qed

lemma outcome_total:
  "of_nat (length (List.map_filter ok_lat obs)) + of_nat (count_list (map fst obs) Graceful503)
     + of_nat (count_list (map fst obs) HardError) = (of_nat (length obs) :: u64)"
  by (induction obs) (auto simp: map_filter_simps ok_lat_def add.assoc split: RequestOutcome.splits option.splits)

lemma lit_unit: "0 \<le> x \<Longrightarrow> x \<le> 1 \<Longrightarrow> lit x = Fin (rnd x)"
  by (rule mk64_small(1) [of _ 1]) auto

lemma percentiles_ordered:
  assumes "length xs \<le> 2 ^ 53"
  shows "lb_percentile (sort xs) (lit (50 / 100)) \<le> lb_percentile (sort xs) (lit (90 / 100))"
    and "lb_percentile (sort xs) (lit (90 / 100)) \<le> lb_percentile (sort xs) (lit (99 / 100))"
    and "first_or_zero (sort xs) \<le> lb_percentile (sort xs) (lit (50 / 100))"
    and "lb_percentile (sort xs) (lit (99 / 100)) \<le> last_or_zero (sort xs)"
proof -
  show "lb_percentile (sort xs) (lit (50 / 100)) \<le> lb_percentile (sort xs) (lit (90 / 100))"
    "lb_percentile (sort xs) (lit (90 / 100)) \<le> lb_percentile (sort xs) (lit (99 / 100))"
    using assms by (simp_all add: lit_unit lb_percentile_mono rnd_mono)
  show "first_or_zero (sort xs) \<le> lb_percentile (sort xs) (lit (50 / 100))"
  proof (cases "sort xs")
    case (Cons y ys)
    then show ?thesis using hd_le_lb_percentile [of "sort xs"] sorted_sort [of xs]
      by (metis first_or_zero_def list.case(2) list.distinct(1) list.sel(1))
  qed (simp add: first_or_zero_def lb_percentile_def)
  show "lb_percentile (sort xs) (lit (99 / 100)) \<le> last_or_zero (sort xs)"
    using lb_percentile_le_last [of "sort xs"] by (auto simp: last_or_zero_def lb_percentile_def)
qed

section \<open>Requests of a phase\<close>

lemma concat_blocks: "concat (map (\<lambda>w. map (\<lambda>r. b + w * n + r) [0..<n]) [0..<c]) = [b..<b + c * (n :: nat)]"
proof (induction c)
  case (Suc c)
  have "map (\<lambda>r. b + c * n + r) [0..<n] = [b + c * n..<b + c * n + n]"
    by (simp add: map_add_upt add.commute)
  then show ?case using Suc upt_add_eq_append [of b "b + c * n" n] by (simp add: algebra_simps)
qed simp

lemma unat_u32: "unat (x :: u32) < 4294967296"
  using unsigned_less [of x] by simp

lemma unat_worker_seq:
  assumes "unat base + unat conc * unat rpw < 2 ^ 64" "w < unat (conc :: u32)" "r < unat (rpw :: u32)"
  shows "unat (worker_seq base rpw (of_nat w) (of_nat r)) = unat base + w * unat rpw + r"
proof -
  have w: "unat (of_nat w :: u32) = w" "unat (of_nat r :: u32) = r"
    using assms(2,3) unat_u32 [of conc] unat_u32 [of rpw] by (simp_all add: unat_of_nat)
  have up: "unat (ucast x :: u64) = unat x" for x :: u32
    using unat_u32 [of x] by (simp add: unsigned_ucast_eq take_bit_nat_eq_self)
  have "w * unat rpw + r < Suc w * unat rpw" using assms(3) by simp
  also have "\<dots> \<le> unat conc * unat rpw" using assms(2) by (intro mult_le_mono1) simp
  finally have lt: "unat base + (w * unat rpw + r) < 2 ^ 64" using assms(1) by linarith
  have m: "unat (ucast (of_nat w :: u32) * ucast rpw :: u64) = w * unat rpw"
    using lt by (subst unat_mult_no_wrap) (simp_all add: up w)
  have "unat (base + ucast (of_nat w :: u32) * ucast rpw) = unat base + w * unat rpw"
    using lt m by (subst unat_add_no_wrap) simp_all
  then show ?thesis unfolding worker_seq_def using lt by (subst unat_add_no_wrap) (simp_all add: up w)
qed

lemma phase_seqs_range:
  assumes "unat base + unat conc * unat rpw < 2 ^ 64"
  shows "map unat (phase_seqs base conc rpw) = [unat base..<unat base + unat conc * unat rpw]"
proof -
  have "map unat (phase_seqs base conc rpw)
      = concat (map (\<lambda>w. map (\<lambda>r. unat base + w * unat rpw + r) [0..<unat rpw]) [0..<unat conc])"
    using unat_worker_seq [OF assms]
    by (auto simp: phase_seqs_def map_concat comp_def intro!: arg_cong [of _ _ concat] map_cong)
  then show ?thesis by (simp only: concat_blocks)
qed

section \<open>Pools\<close>

lemma str_of_dec_inject: "str_of (dec_nat m) = str_of (dec_nat n) \<Longrightarrow> m = n"
proof -
  have r: "map of_char (str_of (dec_nat k)) = dec_nat k" for k
  proof -
    have "of_char (char_of c :: char) = c" if "c \<in> set (dec_nat k)" for c using dec_nat_digits [OF that] by simp
    then show ?thesis by (auto simp: str_of_def intro!: map_idI)
  qed
  assume "str_of (dec_nat m) = str_of (dec_nat n)"
  then have "dec_nat m = dec_nat n" using r by metis
  then show ?thesis using read_dec_dec_nat by metis
qed

lemma pool_labels_distinct: "distinct (map label (build_pool_calibrated lg spawn cnt pre sc kvb d m))"
proof -
  have "i = j" if "i < unat cnt" "j < unat cnt" "pool_label sc pre (of_nat i) = pool_label sc pre (of_nat j)" for i j
  proof -
    have "unat (of_nat i :: u32) = i" "unat (of_nat j :: u32) = j"
      using that(1,2) unat_u32 [of cnt] by (simp_all add: unat_of_nat)
    then show ?thesis using that(3) by (auto simp: pool_label_def fmt_u64_def dest: str_of_dec_inject)
  qed
  then show ?thesis
    by (auto simp: build_pool_calibrated_def distinct_map inj_on_def Let_def new_with_topology_def comp_def)
qed

section \<open>Results\<close>

lemma e2e_result_shape: "e2e_shape (e2e_result ex sc en pis obs)"
  by (simp add: e2e_shape_def e2e_result_def Let_def split: prod.splits)

lemma admit_result_shape: "e2e_shape (admit_result sc sampled dur)"
  by (simp add: e2e_shape_def admit_result_def Let_def)

lemma admit_ratio_number: "\<exists>v. accept_p99_ratio (admit_result sc sampled dur) = Some v \<and> v \<noteq> NaN"
proof -
  have "0 < rnd (real (unat (max x 1)))" for x :: u64
  proof -
    have "1 \<le> unat (max x 1)" using word_le_nat_alt [of 1 "max x 1"] by simp
    then show ?thesis using rnd_real_pos [of "unat (max x 1)"] by simp
  qed
  then show ?thesis by (auto simp: admit_result_def Let_def f64_of_u64_Fin rnd_repr dest: less_imp_neq [THEN not_sym])
qed

lemma sim_gate_passD:
  assumes "sim_gate_pass (eval_fleet_sim_gate pilot ws mn ml mg)"
  shows "fle mn (heldout_correlation pilot)"
    and "ml = Some a \<Longrightarrow> fle a (live_pi_correlation (eval_fleet_sim_gate pilot ws mn ml mg))"
    and "mg = Some b \<Longrightarrow> fle (heavy_shed_rate ws) b"
proof -
  have "served = (\<lambda>w. fw_ok w + fw_errors w)" by (simp add: served_def fun_eq_iff)
  then show "fle mn (heldout_correlation pilot)"
    "ml = Some a \<Longrightarrow> fle a (live_pi_correlation (eval_fleet_sim_gate pilot ws mn ml mg))"
    "mg = Some b \<Longrightarrow> fle (heavy_shed_rate ws) b"
    using assms by (auto simp: eval_fleet_sim_gate_def heavy_shed_rate_def Let_def split: if_splits)
qed

lemma sim_heldout [simp]: "sim_heldout_correlation (eval_fleet_sim_gate pilot ws mn ml mg) = heldout_correlation pilot"
  by (simp add: eval_fleet_sim_gate_def Let_def)

definition replay_gate :: "Scenario \<Rightarrow> FleetPilotReport \<Rightarrow> FleetWindowResult list \<Rightarrow> FleetSimReport" where
  "replay_gate sc pilot ws =
     eval_fleet_sim_gate pilot ws (unwrap_or (sc_min_fleet_correlation sc) (lit (45 / 100)))
       (sc_min_live_fleet_correlation sc) (sc_max_heavy_graceful_rate sc)"

lemma replay_fleet_fields:
  fixes sc pilot windows en seen
  defines "r \<equiv> replay_result sc pilot windows en seen"
  defines "ws \<equiv> fleet_windows r"
  shows "fleet_sim_gate_pass r = map_option (\<lambda>_. sim_gate_pass (replay_gate sc pilot ws)) (sc_min_fleet_correlation sc)"
    and "fleet_shadow_correlation r = map_option (\<lambda>_. heldout_correlation pilot) (sc_min_fleet_correlation sc)"
    and "fleet_live_pi_correlation r = map_option (\<lambda>_. live_pi_correlation (replay_gate sc pilot ws)) (sc_min_fleet_correlation sc)"
    and "fleet_heavy_graceful_rate r = map_option (\<lambda>_. heavy_shed_rate ws) (sc_max_heavy_graceful_rate sc)"
  by (simp_all add: r_def ws_def replay_gate_def replay_result_def Let_def split: prod.splits)

lemma replay_fleet_agree:
  "fleet_failures sc (replay_result sc pilot windows en seen) = 0 \<longleftrightarrow>
   list_all pass (fleet_gates (ScenarioGateConfig_from sc) (replay_result sc pilot windows en seen))"
proof -
  let ?r = "replay_result sc pilot windows en seen"
  let ?g = "replay_gate sc pilot (fleet_windows ?r)"
  note f = replay_fleet_fields [of sc pilot windows en seen]
  show ?thesis
  proof (cases "sc_min_fleet_correlation sc")
    case None
    then show ?thesis by (simp add: fleet_failures_def fleet_gates_def ScenarioGateConfig_from_def f)
  next
    case (Some mn)
    show ?thesis
    proof (cases "sim_gate_pass ?g")
      case False
      then show ?thesis using Some by (simp add: fleet_failures_def fleet_gates_def ScenarioGateConfig_from_def f unwrap_or_def Let_def)
    next
      case True
      note p = sim_gate_passD [OF True [unfolded replay_gate_def]]
      show ?thesis using Some True p
        by (auto simp: fleet_failures_def fleet_gates_def ScenarioGateConfig_from_def f unwrap_or_def Let_def replay_gate_def
            split: option.splits)
    qed
  qed
qed

lemma tally_permD:
  assumes "mset obs = mset obs'"
  shows "t_ok (run_window_workers l obs p) = t_ok (run_window_workers l obs' p)"
    and "t_graceful (run_window_workers l obs p) = t_graceful (run_window_workers l obs' p)"
    and "t_hard (run_window_workers l obs p) = t_hard (run_window_workers l obs' p)"
    and "t_peak (run_window_workers l obs p) = t_peak (run_window_workers l obs' p)"
    and "sort (t_lat (run_window_workers l obs p)) = sort (t_lat (run_window_workers l obs' p))"
  using arg_cong [OF tally_perm [OF assms], of t_ok] arg_cong [OF tally_perm [OF assms], of t_graceful]
    arg_cong [OF tally_perm [OF assms], of t_hard] arg_cong [OF tally_perm [OF assms], of t_peak]
    arg_cong [OF tally_perm [OF assms], of t_lat] by simp_all

lemma e2e_result_perm:
  assumes "mset obs = mset obs'"
  shows "e2e_result ex sc en pis obs = e2e_result ex sc en pis obs'"
  unfolding e2e_result_def Let_def by (simp only: tally_permD [OF assms])

lemma e2e_result_counts:
  "rs_ok (e2e_result ex sc en pis obs) + rs_errors (e2e_result ex sc en pis obs) = of_nat (length obs)"
  using outcome_total [of obs]
  by (simp add: e2e_result_def Let_def run_window_workers_def count_fold tally_zero_def add.assoc split: prod.splits)

lemma length_ok_lats: "length (List.map_filter f xs) \<le> length xs"
  by (simp add: List.map_filter_def)

lemma e2e_result_ordered:
  assumes "length obs \<le> 2 ^ 53"
  shows "let r = e2e_result ex sc en pis obs
         in min_us r \<le> p50_us r \<and> p50_us r \<le> p90_us r \<and> p90_us r \<le> rs_p99_us r \<and> rs_p99_us r \<le> max_us r"
proof -
  let ?ls = "t_lat (run_window_workers (en_rejects en \<noteq> None) obs 0)"
  have "length ?ls \<le> 2 ^ 53"
    using assms length_ok_lats [of ok_lat obs] by (simp add: run_window_workers_def count_fold tally_zero_def)
  note o = percentiles_ordered [OF this]
  show ?thesis using o by (simp add: e2e_result_def Let_def split: prod.splits)
qed

section \<open>Properties\<close>

text \<open>C31: The result of an end-to-end run does not depend on how the worker threads interleaved: any order of the
  same observations gives the same result.  Its counters add up to the requests sent and its latency
  percentiles are ordered.\<close>

theorem e2e_result_interleaving:
  assumes "mset obs = mset obs'" "length obs \<le> 2 ^ 53"
  shows "let r = e2e_result ex sc en pis obs
         in r = e2e_result ex sc en pis obs' \<and> rs_ok r + rs_errors r = of_nat (length obs)
            \<and> min_us r \<le> p50_us r \<and> p50_us r \<le> p90_us r \<and> p90_us r \<le> rs_p99_us r \<and> rs_p99_us r \<le> max_us r"
  using e2e_result_perm [OF assms(1), of ex sc en pis] e2e_result_counts [of ex sc en pis obs]
    e2e_result_ordered [OF assms(2), of ex sc en pis] by (simp add: Let_def)

definition sample_end :: run_end where
  "sample_end =
     \<lparr>en_duration = 1, en_control = \<lparr>m_pi = 0, m_pi_star = 0, pairing_regret_mean = 0, pairing_regret_samples = 0,
        predictor_p90_tokens = 0, m_dataplane_pi = 0, m_dataplane_age_ms = 0, rcu_stale = False, rcu_stale_alert_ms = 0,
        admit_shed_total = 0, fast_path_ratio = 0, m_colocated_routes = 0, m_disagg_routes = 0, fastpath_misroute_mean = 0,
        m_fastpath_misroute_samples = 0, corrector_shadow_samples = 0, rdma_cost_shadow_samples = 0\<rparr>,
      en_rejects = Some 0, en_transfer = None, en_rdma = []\<rparr>"

theorem e2e_result_interleaving_witness:
  "e2e_result id plain_scenario sample_end [] [(OkIn 7, 1), (HardError, 0), (OkIn 3, 2)]
     = e2e_result id plain_scenario sample_end [] [(OkIn 3, 2), (OkIn 7, 1), (HardError, 0)]"
  using e2e_result_interleaving [of "[(OkIn 7, 1), (HardError, 0), (OkIn 3, 2)]" "[(OkIn 3, 2), (OkIn 7, 1), (HardError, 0)]"
      id plain_scenario sample_end "[]"] by (simp add: Let_def add_mset_commute)

text \<open>For a fleet replay the report and the exit status judge the fleet gates alike: the four verdicts, on
  held-out shadow correlation, live correlation, shed rate and the overall gate, all pass exactly when the
  replay gate passed.\<close>

theorem replay_gates_agree:
  "fleet_failures sc (replay_result sc pilot windows en seen) = 0 \<longleftrightarrow>
   list_all pass (fleet_gates (ScenarioGateConfig_from sc) (replay_result sc pilot windows en seen))"
  by (rule replay_fleet_agree)

end
