(* ===== verification/Stamp.thy ===== *)
theory Stamp
  imports Fmt "HOL-Library.Signed_Division"
begin

text \<open>
  The timestamp of a load report (\<open>rfc3339_now\<close> and \<open>civil_from_days\<close> of \<open>xtask/src/load_bench.rs\<close>), and the
  proof that the branch-light calendar conversion is the Gregorian calendar.  Every intermediate value
  of a 64-bit seconds count fits \<open>i64\<close>, so the arithmetic is that of the integers; division truncates.
\<close>

section \<open>The conversion\<close>

definition civil_from_days :: "int \<Rightarrow> int \<times> int \<times> int" where
  "civil_from_days z0 =
     (let z = z0 + 719468;
          era = (if 0 \<le> z then z else z - 146096) sdiv 146097;
          doe = z - era * 146097;
          yoe = (doe - doe sdiv 1460 + doe sdiv 36524 - doe sdiv 146096) sdiv 365;
          y = yoe + era * 400;
          doy = doe - (365 * yoe + yoe sdiv 4 - yoe sdiv 100);
          mp = (5 * doy + 2) sdiv 153;
          d = doy - (153 * mp + 2) sdiv 5 + 1;
          mo = mp + (if mp < 10 then 3 else -9);
          y = y + (if mo \<le> 2 then 1 else 0)
      in (y, mo, d))"

definition two :: "int \<Rightarrow> utext" where
  "two v = pad_zero 2 (dec_nat (nat v))"

definition rfc3339 :: "u64 \<Rightarrow> utext" where
  "rfc3339 secs =
     (let days = unat secs div 86400; rem = unat secs mod 86400;
          h = rem div 3600; m = rem mod 3600 div 60; s = rem mod 60;
          (y, mo, d) = civil_from_days (int days)
      in pad_zero 4 (dec_nat (nat y)) @ [45] @ two mo @ [45] @ two d @ [84] @ two (int h) @ [58] @ two (int m) @ [58] @ two (int s) @ [90])"

section \<open>The calendar\<close>

definition leap :: "int \<Rightarrow> bool" where
  "leap y \<longleftrightarrow> y mod 4 = 0 \<and> (y mod 100 \<noteq> 0 \<or> y mod 400 = 0)"

definition days_in_month :: "int \<Rightarrow> int \<Rightarrow> int" where
  "days_in_month y m = (if m = 2 then (if leap y then 29 else 28) else if m \<in> {4, 6, 9, 11} then 30 else 31)"

definition days_before_year :: "int \<Rightarrow> int" where
  "days_before_year y = 365 * (y - 1) + (y - 1) div 4 - (y - 1) div 100 + (y - 1) div 400"

definition days_before_month :: "int \<Rightarrow> int \<Rightarrow> int" where
  "days_before_month y m = (\<Sum>k\<leftarrow>[1..m - 1]. days_in_month y k)"

text \<open>Days since 1970-01-01, counted year by year and month by month.\<close>

definition days_from_civil :: "int \<times> int \<times> int \<Rightarrow> int" where
  "days_from_civil c = (case c of (y, m, d) \<Rightarrow>
     days_before_year y + days_before_month y m + (d - 1) - days_before_year 1970)"

definition valid_date :: "int \<times> int \<times> int \<Rightarrow> bool" where
  "valid_date c = (case c of (y, m, d) \<Rightarrow> 1 \<le> m \<and> m \<le> 12 \<and> 1 \<le> d \<and> d \<le> days_in_month y m)"

section \<open>Arithmetic\<close>

lemma sdiv_nonneg: "0 \<le> a \<Longrightarrow> 0 < b \<Longrightarrow> a sdiv b = a div (b :: int)"
  by (simp add: signed_divide_int_def sgn_if)

lemma div_by: "a = b * q + r \<Longrightarrow> 0 \<le> r \<Longrightarrow> r < b \<Longrightarrow> a div b = (q :: int)"
  by (rule int_div_pos_eq) (auto simp: algebra_simps)

lemma era_floor: "(if 0 \<le> z then z else z - 146096) sdiv 146097 = z div (146097 :: int)"
proof (cases "0 \<le> z")
  case False
  have a: "\<bar>z - 146096\<bar> = 146096 - z" using False by simp
  have "(146096 - z) div 146097 = - (z div 146097)"
  proof (rule div_by)
    show "146096 - z = 146097 * - (z div 146097) + (146096 - z mod 146097)" using mult_div_mod_eq [of 146097 z] by linarith
  qed (use pos_mod_bound [of 146097 z] pos_mod_sign [of 146097 z] in linarith)+
  then show ?thesis using False a by (simp add: signed_divide_int_def sgn_if)
qed (simp add: sdiv_nonneg)

text \<open>The year of the era and the day of the year counted from March.\<close>

definition yoe_of :: "int \<Rightarrow> int" where
  "yoe_of doe = (doe - doe div 1460 + doe div 36524 - doe div 146096) div 365"

definition doy_of :: "int \<Rightarrow> int" where
  "doy_of doe = doe - (365 * yoe_of doe + yoe_of doe div 4 - yoe_of doe div 100)"

lemma yoe_doy:
  assumes "0 \<le> doe" "doe < 146097"
  shows "0 \<le> yoe_of doe \<and> yoe_of doe \<le> 399 \<and> 0 \<le> doy_of doe
    \<and> doy_of doe \<le> (if leap (yoe_of doe + 1) then 365 else 364)"
proof (cases "doe = 146096")
  case True
  then show ?thesis by (simp add: yoe_of_def doy_of_def leap_def)
next
  case False
  define b r where "b = doe div 36524" and "r = doe mod 36524"
  define q s where "q = r div 1461" and "s = r mod 1461"
  define t where "t = (24 * b + q + s) div 1460"
  define j where "j = (s - t) div 365"
  have doe: "doe = 36524 * b + r" by (simp add: b_def r_def)
  have r: "r = 1461 * q + s" by (simp add: q_def s_def)
  have rb: "0 \<le> r" "r < 36524" by (simp_all add: r_def)
  have sb: "0 \<le> s" "s < 1461" by (simp_all add: s_def)
  have bb: "0 \<le> b" "b \<le> 3" using doe rb assms False by linarith+
  have qb: "0 \<le> q" "q \<le> 24" using r rb sb by linarith+
  have tb: "0 \<le> t" "t \<le> 1" "t = 1 \<longrightarrow> 1364 \<le> s" "s = 1460 \<longrightarrow> t = 1"
  proof -
    have e: "24 * b + q + s = 1460 * t + (24 * b + q + s) mod 1460" by (simp add: t_def)
    have m: "0 \<le> (24 * b + q + s) mod 1460" "(24 * b + q + s) mod 1460 < 1460" by simp_all
    show "0 \<le> t" "t \<le> 1" "t = 1 \<longrightarrow> 1364 \<le> s" "s = 1460 \<longrightarrow> t = 1" using e m bb qb sb by linarith+
  qed
  have je: "s - t = 365 * j + (s - t) mod 365" by (simp add: j_def)
  have jm: "0 \<le> (s - t) mod 365" "(s - t) mod 365 < 365" by simp_all
  have "0 \<le> s - t" using tb sb by (cases "t = 1") linarith+
  moreover have "s - t \<le> 1459" using tb sb by (cases "s = 1460") linarith+
  ultimately have jb: "0 \<le> j" "j \<le> 3" "t = 1 \<longrightarrow> j = 3" using je jm tb sb by linarith+
  have d1: "doe div 1460 = 25 * b + q + t"
    by (rule div_by [of _ _ _ "(24 * b + q + s) mod 1460"]) (use mult_div_mod_eq [of 1460 "24 * b + q + s"] in \<open>simp_all add: doe r t_def\<close>)
  have d2: "doe div 36524 = b" by (simp add: b_def)
  have d3: "doe div 146096 = 0" using assms False by simp
  have y: "yoe_of doe = 100 * b + 4 * q + j"
    unfolding yoe_of_def d1 d2 d3
    by (rule div_by [of _ _ _ "(s - t) mod 365"]) (use je jm in \<open>simp_all add: doe r\<close>)
  have y4: "yoe_of doe div 4 = 25 * b + q" by (rule div_by [of _ _ _ j]) (use y jb in simp_all)
  have y100: "yoe_of doe div 100 = b" by (rule div_by [of _ _ _ "4 * q + j"]) (use y jb qb in simp_all)
  have dy: "doy_of doe = s - 365 * j" unfolding doy_of_def y4 y100 using y doe r by linarith
  have "leap (yoe_of doe + 1)" if "365 \<le> s - 365 * j"
  proof -
    have "t = 1" using that je jm tb by linarith
    then have "j = 3" "s = 1460" using jb that sb by auto
    then have "q \<noteq> 24" using r rb by auto
    then have "q \<le> 23" using qb by simp
    have p: "yoe_of doe + 1 = 4 * (25 * b + q + 1)" "yoe_of doe + 1 = 100 * b + (4 * q + 4)" using y \<open>j = 3\<close> by simp_all
    have "(yoe_of doe + 1) mod 100 = 4 * q + 4" unfolding p(2) using \<open>q \<le> 23\<close> qb by simp
    moreover have "(yoe_of doe + 1) mod 4 = 0" unfolding p(1) by simp
    ultimately show ?thesis unfolding leap_def using qb by linarith
  qed
  then have "s - 365 * j \<le> (if leap (yoe_of doe + 1) then 365 else 364)"
    using je jm tb by (cases "365 \<le> s - 365 * j") (simp_all, linarith?)
  moreover have "0 \<le> s - 365 * j" using je jm tb by linarith
  ultimately show ?thesis using y bb qb jb by (simp add: dy)
qed

lemma div_pred: "0 < n \<Longrightarrow> y div n = (y - 1) div n + (if y mod n = 0 then 1 else (0 :: int))"
proof -
  assume n: "0 < n"
  note e = mult_div_mod_eq [of n y]
  show ?thesis
  proof (cases "y mod n = 0")
    case True
    have "(y - 1) div n = y div n - 1"
      by (rule div_by [of _ _ _ "n - 1"]) (use e True n in \<open>simp_all add: algebra_simps\<close>)
    then show ?thesis using True by simp
  next
    case False
    have "(y - 1) div n = y div n"
      by (rule div_by [of _ _ _ "y mod n - 1"])
         (use e False n pos_mod_sign [of n y] pos_mod_bound [of n y] in linarith)+
    then show ?thesis using False by simp
  qed
qed

lemma leap_bits:
  "(c \<longrightarrow> b) \<Longrightarrow> (b \<longrightarrow> a) \<Longrightarrow> x = x' + (if a then 1 else 0) \<Longrightarrow> y = y' + (if b then 1 else 0) \<Longrightarrow> z = z' + (if c then 1 else 0) \<Longrightarrow>
   x - y + z = x' - y' + z' + (if a \<and> (\<not> b \<or> c) then 1 else (0 :: int))"
  by (cases a; cases b; cases c) simp_all

lemma leap_count:
  "y div 4 - y div 100 + y div 400 = (y - 1) div 4 - (y - 1) div 100 + (y - 1) div 400 + (if leap y then 1 else (0 :: int))"
proof -
  have "(100 :: int) dvd 400" "(4 :: int) dvd 100" by (rule dvdI [of _ _ 4], simp) (rule dvdI [of _ _ 25], simp)
  note m = mod_mod_cancel [OF this(1), of y] mod_mod_cancel [OF this(2), of y]
  have "y mod 400 = 0 \<longrightarrow> y mod 100 = 0" using m(1) by auto
  moreover have "y mod 100 = 0 \<longrightarrow> y mod 4 = 0" using m(2) by auto
  ultimately show ?thesis
    unfolding leap_def by (rule leap_bits) (rule div_pred, simp)+
qed

lemma month_starts:
  "days_before_month y 1 = 0" "days_before_month y 2 = 31"
  "days_before_month y 3 = 59 + (if leap y then 1 else 0)" "days_before_month y 4 = 90 + (if leap y then 1 else 0)"
  "days_before_month y 5 = 120 + (if leap y then 1 else 0)" "days_before_month y 6 = 151 + (if leap y then 1 else 0)"
  "days_before_month y 7 = 181 + (if leap y then 1 else 0)" "days_before_month y 8 = 212 + (if leap y then 1 else 0)"
  "days_before_month y 9 = 243 + (if leap y then 1 else 0)" "days_before_month y 10 = 273 + (if leap y then 1 else 0)"
  "days_before_month y 11 = 304 + (if leap y then 1 else 0)" "days_before_month y 12 = 334 + (if leap y then 1 else 0)"
  by (simp_all add: days_before_month_def upto.simps days_in_month_def)

text \<open>Day of the March-based year to month and day.\<close>

lemma month_day:
  assumes "153 * mp \<le> 5 * doy + 2" "5 * doy + 2 < 153 * mp + 153" "0 \<le> doy" "doy \<le> (if leap (y + 1) then 365 else 364)"
  defines "d \<equiv> doy - (153 * mp + 2) div 5 + 1"
  defines "mo \<equiv> mp + (if mp < 10 then 3 else -9)"
  defines "yy \<equiv> y + (if mo \<le> 2 then 1 else 0)"
  shows "valid_date (yy, mo, d)
    \<and> days_before_month yy mo + (d - 1) = doy + (if mo \<le> 2 then -306 else 59 + (if leap yy then 1 else 0))"
proof -
  have "doy \<le> 365" using assms(4) by (simp split: if_splits)
  then have "0 \<le> mp" "mp \<le> 11" using assms(1-3) by linarith+
  then have "mp = 0 \<or> mp = 1 \<or> mp = 2 \<or> mp = 3 \<or> mp = 4 \<or> mp = 5 \<or> mp = 6 \<or> mp = 7 \<or> mp = 8 \<or> mp = 9 \<or> mp = 10 \<or> mp = 11"
    by presburger
  then show ?thesis using assms(1-4) unfolding d_def yy_def mo_def
    by (elim disjE) (simp_all add: valid_date_def days_in_month_def month_starts split: if_splits)
qed

section \<open>Properties\<close>

lemma year_shift: "(yoe + era * 400) div n = yoe div n + era * (400 div n)" if "n \<in> {4, 100, 400}" for yoe era n :: int
proof -
  have "yoe + era * 400 = yoe + (era * (400 div n)) * n" using that by auto
  then show ?thesis using that by (simp only: div_mult_self1) auto
qed

lemma civil_unfold:
  fixes z :: int
  defines "doe \<equiv> (z + 719468) mod 146097" and "era \<equiv> (z + 719468) div 146097"
  defines "doy \<equiv> doy_of doe" and "yoe \<equiv> yoe_of doe"
  defines "mp \<equiv> (5 * doy + 2) div 153"
  defines "mo \<equiv> mp + (if mp < 10 then 3 else -9)"
  shows "civil_from_days z = (yoe + era * 400 + (if mo \<le> 2 then 1 else 0), mo, doy - (153 * mp + 2) div 5 + 1)"
proof -
  have doe: "0 \<le> doe" "doe < 146097" by (simp_all add: doe_def)
  have e: "z + 719468 - era * 146097 = doe" unfolding doe_def era_def by (simp add: minus_div_mult_eq_mod)
  note yd = yoe_doy [OF doe, folded yoe_def doy_def]
  have d: "doe sdiv 1460 = doe div 1460" "doe sdiv 36524 = doe div 36524" "doe sdiv 146096 = doe div 146096"
    using doe by (simp_all add: sdiv_nonneg)
  have "1460 * (doe div 1460) \<le> doe" "146096 * (doe div 146096) \<le> doe" "0 \<le> doe div 36524"
    using doe mult_div_mod_eq [of 1460 doe] pos_mod_sign [of 1460 doe] mult_div_mod_eq [of 146096 doe] pos_mod_sign [of 146096 doe]
    by (linarith, linarith, simp add: pos_imp_zdiv_nonneg_iff)
  then have "0 \<le> doe - doe div 1460 + doe div 36524 - doe div 146096" using doe by linarith
  then have y: "(doe - doe sdiv 1460 + doe sdiv 36524 - doe sdiv 146096) sdiv 365 = yoe"
    unfolding d yoe_def yoe_of_def by (rule sdiv_nonneg) simp
  have y4: "yoe sdiv 4 = yoe div 4" "yoe sdiv 100 = yoe div 100" using yd by (simp_all add: sdiv_nonneg)
  have dy: "doe - (365 * yoe + yoe sdiv 4 - yoe sdiv 100) = doy" using y4 by (simp add: doy_def doy_of_def yoe_def)
  have m: "(5 * doy + 2) sdiv 153 = mp" using yd by (simp add: sdiv_nonneg mp_def)
  have "0 \<le> mp" using yd by (simp add: mp_def pos_imp_zdiv_nonneg_iff)
  then have m5: "(153 * mp + 2) sdiv 5 = (153 * mp + 2) div 5" by (simp add: sdiv_nonneg)
  show ?thesis
    unfolding civil_from_days_def Let_def era_floor era_def [symmetric] e y dy m m5 mo_def [symmetric] ..
qed

lemma civil_spec: "valid_date (civil_from_days z) \<and> days_from_civil (civil_from_days z) = z"
proof -
  define doe era where "doe = (z + 719468) mod 146097" and "era = (z + 719468) div 146097"
  define yoe doy where "yoe = yoe_of doe" and "doy = doy_of doe"
  define mp where "mp = (5 * doy + 2) div 153"
  define mo where "mo = mp + (if mp < 10 then 3 else -9)"
  define d where "d = doy - (153 * mp + 2) div 5 + 1"
  define Y where "Y = yoe + era * 400"
  define yy where "yy = Y + (if mo \<le> 2 then 1 else 0)"
  have c: "civil_from_days z = (yy, mo, d)"
    using civil_unfold [of z] by (simp add: doe_def era_def yoe_def doy_def mp_def mo_def d_def yy_def Y_def)
  have doe: "0 \<le> doe" "doe < 146097" "z + 719468 = 146097 * era + doe" by (simp_all add: doe_def era_def)
  note yd = yoe_doy [OF doe(1,2), folded yoe_def doy_def]
  have lp: "leap (Y + 1) = leap (yoe + 1)"
  proof -
    have e: "Y + 1 = (yoe + 1) + era * 400" by (simp add: Y_def)
    have m: "((yoe + 1) + era * 400) mod n = (yoe + 1) mod n" if "n = 4 \<or> n = 100 \<or> n = 400" for n
    proof -
      have "era * 400 = (era * (400 div n)) * n" using that by auto
      then show ?thesis by (metis mod_mult_self1)
    qed
    show ?thesis unfolding leap_def e using m [of 4] m [of 100] m [of 400] by simp
  qed
  have b: "153 * mp \<le> 5 * doy + 2" "5 * doy + 2 < 153 * mp + 153"
    using mult_div_mod_eq [of 153 "5 * doy + 2"] pos_mod_bound [of 153 "5 * doy + 2"] pos_mod_sign [of 153 "5 * doy + 2"]
    by (simp_all add: mp_def)
  have md: "valid_date (yy, mo, d)" "days_before_month yy mo + (d - 1) = doy + (if mo \<le> 2 then -306 else 59 + (if leap yy then 1 else 0))"
    using month_day [OF b, of Y] yd lp by (simp_all add: d_def mo_def yy_def split: if_splits)
  have q: "Y div 4 - Y div 100 + Y div 400 = yoe div 4 - yoe div 100 + era * 97"
    using year_shift [of 4 yoe era] year_shift [of 100 yoe era] year_shift [of 400 yoe era] yd by (simp add: Y_def)
  have "days_before_year yy + (days_before_month yy mo + (d - 1)) = 365 * Y + (Y div 4 - Y div 100 + Y div 400) + doy - 306"
    using leap_count [of yy] unfolding md(2) days_before_year_def by (cases "mo \<le> 2") (simp_all add: yy_def)
  also have "\<dots> = z + 719162"
    unfolding q using doe(3) by (simp add: Y_def doy_def doy_of_def yoe_def)
  finally show ?thesis using md(1) unfolding c by (simp add: days_from_civil_def days_before_year_def)
qed


lemma dec_nat_step: "n < 10 \<Longrightarrow> dec_nat n = [48 + n]" "10 \<le> n \<Longrightarrow> dec_nat n = dec_nat (n div 10) @ [48 + n mod 10]"
  by (simp_all add: dec_nat.simps)

lemma rfc3339_leap_day: "rfc3339 951827696 = of_ascii ''2000-02-29T12:34:56Z''"
proof -
  have "yoe_of 146096 = 399" by (simp add: yoe_of_def)
  moreover from this have "doy_of 146096 = 365" by (simp add: doy_of_def)
  ultimately have "civil_from_days 11016 = (2000, 2, 29)" by (simp add: civil_unfold)
  then show ?thesis by (simp add: rfc3339_def two_def pad_zero_def dec_nat_step of_ascii_def)
qed

end
