(* ===== verification/BenchGate.thy ===== *)
theory BenchGate
  imports LoadGates
begin

text \<open>
  The CPU bench gates (\<open>xtask/src/bench_gate.rs\<close>): statistics of repeated measurements, the limit of a
  gate, thin gates, suggested limits, and the pass over all gates.  What the clock measured for a gate
  is an argument, the list of elapsed nanoseconds of its samples; \<open>None\<close> is a panic.
\<close>

section \<open>Model\<close>

record Settings =
  ci_slack :: f64
  bg_samples :: u32

record Gate =
  bg_id :: string
  phase_no :: u32
  bg_summary :: string
  bg_parent :: "string option"
  warmup_iters :: u32
  bench_iters :: u32
  max_median_ns :: u64

record BenchGatesFile =
  bg_settings :: Settings
  gate_list :: "Gate list"

record SampleStats =
  floor_ns :: u64
  median_ns :: u64
  p95_ns :: u64

definition p95_index :: "nat \<Rightarrow> nat" where
  "p95_index n = nat_of_f64 (fceil (f64_of_nat n * lit (95 / 100))) - 1"

text \<open>Dividing by no iterations and taking the median of no samples panic.\<close>

definition sample_ns_per_op :: "u32 \<Rightarrow> u64 list \<Rightarrow> SampleStats option" where
  "sample_ns_per_op iters elapsed =
     (if elapsed = [] \<or> iters = 0 then None
      else let ns = sort (map (\<lambda>e. e div ucast iters) elapsed)
           in if p95_index (length ns) < length ns
              then Some \<lparr>floor_ns = hd ns, median_ns = ns ! (length ns div 2), p95_ns = ns ! p95_index (length ns)\<rparr>
              else None)"

definition gate_limit :: "bool \<Rightarrow> Gate \<Rightarrow> Settings \<Rightarrow> u64" where
  "gate_limit ci_env gate st =
     (let slack = (if ci_env then ci_slack st else 1)
      in u64_of_f64 (fceil (f64_of_u64 (max_median_ns gate) * slack)))"

definition known_gates :: "string list" where
  "known_gates = [''BENCH-COMPOSE-8'', ''BENCH-SELECT-64'', ''BENCH-BACKEND-COST'', ''BENCH-CLASSIFY'', ''BENCH-ROUTE-DISPATCH'',
     ''BENCH-KV-RESERVE'', ''BENCH-WARM-LOOKUP'', ''BENCH-PAIR-GREEDY'', ''BENCH-REBALANCE'', ''BENCH-RCU-SNAPSHOT'', ''BENCH-IOURING-FWD'']"

definition quoted :: "string \<Rightarrow> string" where
  "quoted s = [CHR 0x22] @ s @ [CHR 0x22]"

definition run_gate :: "bool \<Rightarrow> (Gate \<Rightarrow> u64 list) \<Rightarrow> Settings \<Rightarrow> Gate \<Rightarrow> (string + SampleStats \<times> u64) option" where
  "run_gate ci_env clock st gate =
     (if bg_id gate \<in> set known_gates
      then map_option (\<lambda>s. Inr (s, gate_limit ci_env gate st)) (sample_ns_per_op (bench_iters gate) (clock gate))
      else Some (Inl (''unknown bench gate id '' @ quoted (bg_id gate))))"

definition headroom_pct :: "u64 \<Rightarrow> u64 \<Rightarrow> f64" where
  "headroom_pct median limit =
     (if median = 0 then lit 100 else (f64_of_u64 limit / f64_of_u64 median - 1) * lit 100)"

definition is_thin :: "u64 \<Rightarrow> u64 \<Rightarrow> bool" where
  "is_thin median limit \<longleftrightarrow> limit < median * 3 \<or> limit * 35 < median * 100"

definition suggest_max_median_ns :: "u64 \<Rightarrow> u64" where
  "suggest_max_median_ns p95 = u64_of_f64 (fceil (f64_of_u64 p95 * lit (3 / 2)))"

fun gate_failures_loop :: "bool \<Rightarrow> (Gate \<Rightarrow> u64 list) \<Rightarrow> Settings \<Rightarrow> Gate list \<Rightarrow> nat \<Rightarrow> (string + nat) option" where
  "gate_failures_loop ci_env clock st [] failures = Some (Inr failures)"
| "gate_failures_loop ci_env clock st (g # gs) failures =
     (case run_gate ci_env clock st g of
        None \<Rightarrow> None
      | Some (Inl e) \<Rightarrow> Some (Inl e)
      | Some (Inr (stats, limit)) \<Rightarrow>
          gate_failures_loop ci_env clock st gs (if median_ns stats \<le> limit then failures else failures + 1))"

definition bench_gate :: "bool \<Rightarrow> (Gate \<Rightarrow> u64 list) \<Rightarrow> string + BenchGatesFile \<Rightarrow> (string + unit) option" where
  "bench_gate ci_env clock contents =
     (case contents of
        Inl e \<Rightarrow> Some (Inl e)
      | Inr file \<Rightarrow>
          if gate_list file = [] then Some (Inl ''no gates declared in bench-gates.toml'')
          else map_option (\<lambda>res. and_then res (\<lambda>failures.
                 if failures = 0 then Inr ()
                 else Inl (map char_of (dec_nat failures) @ '' CPU bench gate(s) failed'')))
               (gate_failures_loop ci_env clock (bg_settings file) (gate_list file) 0))"

text \<open>The gates that \<open>bench_probe\<close> flags, with a sample count of its own.\<close>

fun thin_gates :: "bool \<Rightarrow> (Gate \<Rightarrow> u64 list) \<Rightarrow> Settings \<Rightarrow> Gate list \<Rightarrow> string list \<Rightarrow> (string + string list) option" where
  "thin_gates ci_env clock st [] acc = Some (Inr acc)"
| "thin_gates ci_env clock st (g # gs) acc =
     (case run_gate ci_env clock st g of
        None \<Rightarrow> None
      | Some (Inl e) \<Rightarrow> Some (Inl e)
      | Some (Inr (stats, limit)) \<Rightarrow>
          thin_gates ci_env clock st gs (if is_thin (median_ns stats) limit then acc @ [bg_id g] else acc))"

record GateMeasurement =
  gm_id :: string
  gm_summary :: string
  gm_parent :: "string option"
  gm_floor_ns :: u64
  gm_median_ns :: u64
  gm_p95_ns :: u64
  gm_limit_ns :: u64
  gm_headroom_pct :: f64
  gm_thin :: bool

definition gate_measurement :: "Gate \<Rightarrow> SampleStats \<Rightarrow> u64 \<Rightarrow> GateMeasurement" where
  "gate_measurement g stats limit =
     \<lparr>gm_id = bg_id g, gm_summary = bg_summary g, gm_parent = bg_parent g, gm_floor_ns = floor_ns stats,
      gm_median_ns = median_ns stats, gm_p95_ns = p95_ns stats, gm_limit_ns = limit,
      gm_headroom_pct = headroom_pct (median_ns stats) limit, gm_thin = is_thin (median_ns stats) limit\<rparr>"

fun measure_gates :: "bool \<Rightarrow> (Gate \<Rightarrow> u64 list) \<Rightarrow> Settings \<Rightarrow> Gate list \<Rightarrow> (string + GateMeasurement list) option" where
  "measure_gates ci_env clock st [] = Some (Inr [])"
| "measure_gates ci_env clock st (g # gs) =
     (case run_gate ci_env clock st g of
        None \<Rightarrow> None
      | Some (Inl e) \<Rightarrow> Some (Inl e)
      | Some (Inr (stats, limit)) \<Rightarrow>
          map_option (\<lambda>res. and_then res (\<lambda>ms. Inr (gate_measurement g stats limit # ms))) (measure_gates ci_env clock st gs))"

definition measure_all :: "bool \<Rightarrow> (Gate \<Rightarrow> u64 list) \<Rightarrow> u32 \<Rightarrow> string + BenchGatesFile \<Rightarrow> (string + GateMeasurement list) option" where
  "measure_all ci_env clock n contents =
     (case contents of
        Inl e \<Rightarrow> Some (Inl e)
      | Inr file \<Rightarrow>
          if gate_list file = [] then Some (Inl ''no gates declared in bench-gates.toml'')
          else measure_gates ci_env clock \<lparr>ci_slack = ci_slack (bg_settings file), bg_samples = n\<rparr> (gate_list file))"

section \<open>Statistics\<close>

lemma lit_95: obtains u where "lit (95 / 100) = Fin u" "15 / 16 \<le> u" "u \<le> 1"
proof -
  have "repr64 (15 / 16)" using repr64_dyadic [of 15 4] by simp
  then obtain y where "lit (95 / 100) = Fin y" "15 / 16 \<le> y" "y \<le> 1"
    using mk64_between [of "15 / 16" "95 / 100" 1] by auto
  then show thesis by (rule that)
qed

lemma nat_of_ceil:
  assumes "0 \<le> x" "x \<le> 2 ^ 53"
  shows "nat_of_f64 (fceil (Fin x)) = nat \<lceil>x\<rceil>"
proof -
  have "\<lceil>x\<rceil> \<le> 2 ^ 53" using assms(2) by (simp add: ceiling_le_iff)
  moreover have "0 \<le> \<lceil>x\<rceil>" using assms(1) by linarith
  ultimately show ?thesis by simp
qed

lemma p95_index_bounds:
  assumes "0 < n" "n \<le> 2 ^ 52"
  shows "n div 2 \<le> p95_index n" "p95_index n < n"
proof -
  obtain u where u: "lit (95 / 100) = Fin u" "15 / 16 \<le> u" "u \<le> 1" by (rule lit_95)
  have up: "real n * u \<le> real n" using u(3) by (simp add: mult_left_le)
  have n53: "real n \<le> 2 ^ 52" using assms(2) by (metis of_nat_le_iff of_nat_numeral of_nat_power)
  have lo: "real n * (15 / 16) \<le> real n * u" using u(2) by (intro mult_left_mono) auto
  have rn: "repr64 (real n)" using assms(2) by (intro repr64_nat) simp
  have m: "mk64 (real n * u) = Fin (rnd (real n * u))"
    by (rule mk64_small(1) [of _ "real n"]) (use u up rn n53 f64_lim_gt(2) [of "real n"] in auto)
  let ?x = "rnd (real n * u)"
  have x: "?x \<le> real n" using up rn by (rule rnd_le_repr)
  have x0: "0 \<le> ?x" using u(2) by (intro rnd_nonneg) simp
  have fn: "f64_of_nat n = Fin (real n)" by (rule f64_of_nat_exact) (use assms(2) in simp)
  have "?x \<le> 2 ^ 53" using x n53 by simp
  then have idx: "p95_index n = nat \<lceil>?x\<rceil> - 1"
    unfolding p95_index_def fn u(1) times_f64.simps m using nat_of_ceil [OF x0] by simp
  have "\<lceil>?x\<rceil> \<le> int n" using x by (simp add: ceiling_le_iff)
  then show "p95_index n < n" using idx assms(1) by linarith
  show "n div 2 \<le> p95_index n"
  proof (cases "n \<le> 2")
    case True
    have r: "repr64 (15 / 8)" using repr64_dyadic [of 15 3] by simp
    consider "n = 1" | "n = 2" using True assms(1) by linarith
    then show ?thesis
    proof cases
      case 2
      then have "15 / 8 \<le> ?x" using lo r by (intro rnd_ge_repr) auto
      then have "2 \<le> \<lceil>?x\<rceil>" by linarith
      then have "1 \<le> nat \<lceil>?x\<rceil> - 1" by linarith
      then show ?thesis using idx 2 by simp
    qed simp
  next
    case False
    have "repr64 (real_of_int (int n + 2) / 2 ^ 1)" by (rule repr64_dyadic) (use assms(2) in auto)
    then have r: "repr64 ((real n + 2) / 2)" by (simp add: add.commute)
    have "(real n + 2) / 2 \<le> real n * (15 / 16)" using False by simp
    also note lo
    finally have "(real n + 2) / 2 \<le> real n * u" .
    then have "(real n + 2) / 2 \<le> ?x" using r by (rule rnd_ge_repr)
    moreover have "real (n div 2) \<le> real n / 2" by simp
    ultimately have "real (n div 2) + 1 \<le> ?x" by simp
    then have "int (n div 2) + 1 \<le> \<lceil>?x\<rceil>" by linarith
    then show ?thesis using idx by linarith
  qed
qed

lemma sample_stats_exist:
  assumes "elapsed \<noteq> []" "iters \<noteq> 0" "length elapsed \<le> 2 ^ 52"
  shows "\<exists>st. sample_ns_per_op iters elapsed = Some st \<and> floor_ns st \<le> median_ns st \<and> median_ns st \<le> p95_ns st
    \<and> {floor_ns st, median_ns st, p95_ns st} \<subseteq> (\<lambda>e. e div ucast iters) ` set elapsed"
proof -
  let ?ns = "sort (map (\<lambda>e. e div ucast iters) elapsed)"
  have n: "0 < length ?ns" "length ?ns \<le> 2 ^ 52" using assms by simp_all
  note b = p95_index_bounds [OF n]
  have m: "length ?ns div 2 < length ?ns" using n(1) by simp
  have "hd ?ns = ?ns ! 0" using n(1) by (simp add: hd_conv_nth del: length_sort)
  moreover have "?ns ! 0 \<le> ?ns ! (length ?ns div 2)" using m by (intro sorted_nth_mono) simp_all
  moreover have "?ns ! (length ?ns div 2) \<le> ?ns ! p95_index (length ?ns)" using b by (intro sorted_nth_mono) simp_all
  moreover have "?ns ! 0 \<in> set ?ns" "?ns ! (length ?ns div 2) \<in> set ?ns" "?ns ! p95_index (length ?ns) \<in> set ?ns"
    using nth_mem [OF n(1)] nth_mem [OF m] nth_mem [OF b(2)] by blast+
  ultimately show ?thesis using assms b(2) by (auto simp: sample_ns_per_op_def Let_def)
qed

section \<open>Limits\<close>

lemma f64_of_u64_exact: "unat w \<le> 2 ^ 53 \<Longrightarrow> f64_of_u64 w = Fin (real (unat w))"
  by (rule f64_of_nat_exact)

lemma scaled_ceil_ge:
  assumes "unat w \<le> 2 ^ 52" "f64_ok (Fin x)" "1 \<le> x"
  shows "w \<le> u64_of_f64 (fceil (f64_of_u64 w * Fin x))"
proof -
  let ?n = "real (unat w)"
  have f: "f64_of_u64 w = Fin ?n" using assms(1) by (intro f64_of_u64_exact) simp
  have n: "?n \<le> 2 ^ 52" using assms(1) by (metis of_nat_le_iff of_nat_numeral of_nat_power)
  have "?n * 1 \<le> ?n * x" by (rule mult_left_mono [OF assms(3) of_nat_0_le_iff])
  then have "?n \<le> ?n * x" by (simp only: mult_1_right)
  then have r: "?n \<le> rnd (?n * x)" by (rule rnd_ge_repr) (rule repr64_nat, use assms(1) in simp)
  have "unat w \<le> nat_of_f64 (fceil (mk64 (?n * x)))"
  proof (cases "mk64 (?n * x)")
    case (Fin y)
    then have "y = rnd (?n * x)" by (auto simp: mk64_def Let_def split: if_splits)
    then have "int (unat w) \<le> \<lceil>y\<rceil>" using r by linarith
    then have "unat w \<le> nat \<lceil>y\<rceil>" by linarith
    then show ?thesis using Fin by simp
  next
    case (Infinity s)
    then have "\<not> s" using r order_trans [OF of_nat_0_le_iff r] by (auto simp: mk64_def Let_def split: if_splits)
    then show ?thesis using Infinity by simp
  qed simp
  then show ?thesis by (simp add: word_le_nat_alt unat_u64_of_f64 f)
qed

lemma limit_ge_nominal:
  "unat (max_median_ns g) \<le> 2 ^ 52 \<Longrightarrow> ci_slack st = Fin x \<Longrightarrow> f64_ok (Fin x) \<Longrightarrow> 1 \<le> x \<Longrightarrow>
   max_median_ns g \<le> gate_limit ci_env g st"
  using scaled_ceil_ge [of "max_median_ns g" x] scaled_ceil_ge [of "max_median_ns g" 1] by (simp add: gate_limit_def)

lemma thin_redundant:
  assumes "unat m * 100 < 2 ^ 64" "unat l * 35 < 2 ^ 64"
  shows "is_thin m l \<longleftrightarrow> unat l < 3 * unat m"
proof -
  have "unat (m * 3) = unat m * 3" "unat (m * 100) = unat m * 100" "unat (l * 35) = unat l * 35"
    using assms by (subst unat_mult_no_wrap; simp)+
  then show ?thesis by (auto simp: is_thin_def word_less_nat_alt)
qed

section \<open>The gate run\<close>

definition gate_met :: "bool \<Rightarrow> (Gate \<Rightarrow> u64 list) \<Rightarrow> Settings \<Rightarrow> Gate \<Rightarrow> bool" where
  "gate_met ci_env clock st g \<longleftrightarrow> bg_id g \<in> set known_gates \<and>
     (\<exists>s. sample_ns_per_op (bench_iters g) (clock g) = Some s \<and> median_ns s \<le> gate_limit ci_env g st)"

lemma gate_failures_mono: "gate_failures_loop ci_env clock st gs n = Some (Inr m) \<Longrightarrow> n \<le> m"
proof (induction gs arbitrary: n)
  case (Cons g gs)
  then show ?case by (auto split: option.splits sum.splits prod.splits if_splits dest!: Cons.IH)
qed simp

lemma gate_failures_zero: "gate_failures_loop ci_env clock st gs 0 = Some (Inr 0) \<longleftrightarrow> (\<forall>g\<in>set gs. gate_met ci_env clock st g)"
proof (induction gs)
  case (Cons g gs)
  show ?case
    using Cons gate_failures_mono [of ci_env clock st gs 1 0]
    by (cases "sample_ns_per_op (bench_iters g) (clock g)") (auto simp: gate_met_def run_gate_def)
qed simp

section \<open>Main results\<close>

text \<open>The bench gate run succeeds exactly when the file lists at least one gate, every listed gate is a known
  benchmark, and the median of its samples is within the limit; any other outcome is an error or a panic.\<close>

theorem bench_gate_ok:
  "bench_gate ci_env clock (Inr file) = Some (Inr ()) \<longleftrightarrow>
     gate_list file \<noteq> [] \<and> (\<forall>g \<in> set (gate_list file). gate_met ci_env clock (bg_settings file) g)"
  unfolding gate_failures_zero [symmetric] by (auto simp: bench_gate_def and_then_Inr split: if_splits)

text \<open>A gate whose limit was set from the suggestion of a measurement passes on that measurement: the median
  is at most the 95th percentile, and neither the factor, the rounding nor a slack of at least one loses a
  nanosecond.\<close>

theorem suggested_limit_passes:
  assumes "elapsed \<noteq> []" "iters \<noteq> 0" "length elapsed \<le> 2 ^ 52"
    and "sample_ns_per_op iters elapsed = Some s" "unat (p95_ns s) \<le> 2 ^ 51"
    and "max_median_ns g = suggest_max_median_ns (p95_ns s)" "ci_slack st = Fin x" "f64_ok (Fin x)" "1 \<le> x"
  shows "median_ns s \<le> gate_limit ci_env g st"
proof -
  have r: "repr64 (3 / 2)" using repr64_dyadic [of 3 1] by simp
  then have l: "lit (3 / 2) = Fin (3 / 2)" by (intro mk64_repr) (use f64_lim_gt(2) [of "3 / 2"] in auto)
  have ok: "f64_ok (Fin (3 / 2))" using l mk64_ok by metis
  have "median_ns s \<le> p95_ns s" using sample_stats_exist [OF assms(1-3)] assms(4) by auto
  also have "\<dots> \<le> max_median_ns g"
    unfolding assms(6) suggest_max_median_ns_def l by (rule scaled_ceil_ge [OF _ ok]) (use assms(5) in simp_all)
  also have "\<dots> \<le> gate_limit ci_env g st"
  proof (rule limit_ge_nominal [OF _ assms(7-9)])
    let ?n = "real (unat (p95_ns s))"
    have n: "?n \<le> 2 ^ 51" using assms(5) by (metis of_nat_le_iff of_nat_numeral of_nat_power)
    have q: "repr64 (2 ^ 52)" using repr64_powi2 [of 52] by simp
    have b: "rnd (?n * (3 / 2)) \<le> 2 ^ 52" using n q by (intro rnd_le_repr) simp_all
    have b0: "0 \<le> rnd (?n * (3 / 2))" by (intro rnd_nonneg mult_nonneg_nonneg of_nat_0_le_iff) simp
    have n0: "0 \<le> ?n" by (rule of_nat_0_le_iff)
    have m: "mk64 (?n * (3 / 2)) = Fin (rnd (?n * (3 / 2)))"
      by (rule mk64_small(1) [of _ "2 ^ 52"]) (use n n0 q f64_lim_gt(2) [of "2 ^ 52"] in \<open>auto simp: abs_if\<close>)
    have f: "f64_of_u64 (p95_ns s) = Fin ?n" using assms(5) by (intro f64_of_u64_exact) simp
    have "\<lceil>rnd (?n * (3 / 2))\<rceil> \<le> 2 ^ 52" using b by (simp add: ceiling_le_iff)
    then show "unat (max_median_ns g) \<le> 2 ^ 52"
      unfolding assms(6) suggest_max_median_ns_def l unat_u64_of_f64 f
      using m nat_of_ceil [of "rnd (?n * (3 / 2))"] b b0 by simp
  qed
  finally show ?thesis .
qed

end
