(* ===== verification/AbBench.thy ===== *)
theory AbBench
  imports LoadClient LoadBench
begin

text \<open>
  The A/B routing benchmark (\<open>xtask/src/ab_bench.rs\<close>): the baseline policies and their shared state, the tiered
  mock fleet, the external fleet specification, the command line, and the driver over the four arms.
  The parsers of addresses and numbers and the network are parameters.
\<close>

section \<open>Policies\<close>

datatype Policy = CostPolicy | LeastConn | RoundRobin | Random

definition Policy_ALL :: "Policy list" where
  "Policy_ALL = [CostPolicy, LeastConn, RoundRobin, Random]"

definition Policy_name :: "Policy \<Rightarrow> string" where
  "Policy_name p = (case p of CostPolicy \<Rightarrow> ''cost'' | LeastConn \<Rightarrow> ''least_conn'' | RoundRobin \<Rightarrow> ''round_robin'' | Random \<Rightarrow> ''random'')"

record BaselinePool =
  bp_addrs :: "string list"
  bp_inflight :: "u64 list"
  cursor :: u64
  rng :: u64

definition BaselinePool_new :: "string list \<Rightarrow> BaselinePool" where
  "BaselinePool_new addrs =
     \<lparr>bp_addrs = addrs, bp_inflight = replicate (length addrs) 0, cursor = 0, rng = 0x9E3779B97F4A7C15\<rparr>"

text \<open>xorshift64*.\<close>

definition xorshift :: "u64 \<Rightarrow> u64" where
  "xorshift x0 =
     (let x = x0 XOR drop_bit 12 x0; x = x XOR push_bit 25 x in x XOR drop_bit 27 x)"

text \<open>The first index with the fewest connections, zero for an empty pool.\<close>

definition least_index :: "u64 list \<Rightarrow> nat" where
  "least_index ns = (case min_by snd (enumerate 0 ns) of Some (i, _) \<Rightarrow> i | None \<Rightarrow> 0)"

text \<open>The cost arm and a remainder by an empty pool panic.\<close>

definition pick_baseline :: "Policy \<Rightarrow> BaselinePool \<Rightarrow> (nat \<times> BaselinePool) option" where
  "pick_baseline policy p =
     (case policy of
        RoundRobin \<Rightarrow>
          if bp_addrs p = [] then None
          else Some (unat (cursor p) mod length (bp_addrs p), p\<lparr>cursor := cursor p + 1\<rparr>)
      | LeastConn \<Rightarrow> Some (least_index (bp_inflight p), p)
      | Random \<Rightarrow>
          let x = xorshift (rng p)
          in if bp_addrs p = [] then None
             else Some (unat (drop_bit 33 (x * 0x2545F4914F6CDD1D)) mod length (bp_addrs p), p\<lparr>rng := x\<rparr>)
      | CostPolicy \<Rightarrow> None)"

text \<open>One connection through the baseline proxy: the counter is held while the backend is proxied.  The second
  component is what the client got: the backend's answer or the refusal.\<close>

definition begin_proxy :: "nat \<Rightarrow> BaselinePool \<Rightarrow> BaselinePool" where
  "begin_proxy i p = p\<lparr>bp_inflight := (bp_inflight p)[i := bp_inflight p ! i + 1]\<rparr>"

definition end_proxy :: "nat \<Rightarrow> BaselinePool \<Rightarrow> BaselinePool" where
  "end_proxy i p = p\<lparr>bp_inflight := (bp_inflight p)[i := bp_inflight p ! i - 1]\<rparr>"

definition baseline_conn :: "(string \<Rightarrow> string + bytes) \<Rightarrow> Policy \<Rightarrow> BaselinePool \<Rightarrow> (bytes \<times> BaselinePool) option" where
  "baseline_conn proxy_once policy p =
     (case pick_baseline policy p of
        None \<Rightarrow> None
      | Some (i, p1) \<Rightarrow>
          if i < length (bp_inflight p1) \<and> i < length (bp_addrs p1)
          then let p2 = begin_proxy i p1; res = proxy_once (bp_addrs p1 ! i); p3 = end_proxy i p2
               in Some (case res of Inl _ \<Rightarrow> UNAVAILABLE | Inr answer \<Rightarrow> answer, p3)
          else None)"

section \<open>The fleet\<close>

record AbConfig =
  ab_backends :: u32
  ab_base_delay_us :: u64
  ab_concurrency :: u32
  ab_requests :: u32
  backend_spec :: "string option"
  ab_report_dir :: string

definition AbConfig_default :: AbConfig where
  "AbConfig_default = \<lparr>ab_backends = 6, ab_base_delay_us = 800, ab_concurrency = 16, ab_requests = 60, backend_spec = None,
     ab_report_dir = ''target/ab-bench''\<rparr>"

definition tier_delay :: "u64 \<Rightarrow> u32 \<Rightarrow> u32 \<Rightarrow> u64" where
  "tier_delay base_us i cnt = (let tier = i * 3 div max cnt 1 in push_bit (unat (min tier 2)) base_us)"

definition build_mock_fleet :: "(u64 \<Rightarrow> nat \<Rightarrow> string) \<Rightarrow> AbConfig \<Rightarrow> (string \<times> string \<times> f64) list" where
  "build_mock_fleet spawn cfg =
     map (\<lambda>k. let delay = tier_delay (ab_base_delay_us cfg) (of_nat k) (ab_backends cfg)
              in (''b'' @ str_of (dec_nat k), spawn delay k, f64_of_u64 delay / lit 1000000))
       [0..<unat (ab_backends cfg)]"

text \<open>\<open>str::trim\<close> on text.\<close>

definition ab_ws :: "char \<Rightarrow> bool" where
  "ab_ws c \<longleftrightarrow> is_whitespace (of_char c)"

definition ab_trim :: "string \<Rightarrow> string" where
  "ab_trim s = rev (dropWhile ab_ws (rev (dropWhile ab_ws s)))"

fun external_items :: "(string \<Rightarrow> string + string) \<Rightarrow> (string \<Rightarrow> string + f64) \<Rightarrow> string list \<Rightarrow> (string \<times> string \<times> f64) list
    \<Rightarrow> string + (string \<times> string \<times> f64) list" where
  "external_items parse_addr parse_secs [] out = Inr out"
| "external_items parse_addr parse_secs (item # rest) out =
     (case split_on (\<lambda>c. c = CHR ''@'') item of
        [l, a, t] \<Rightarrow>
          (case parse_addr a of
             Inl e \<Rightarrow> Inl (''bad addr '' @ debug_str a @ '': '' @ e)
           | Inr ad \<Rightarrow>
               (case parse_secs t of
                  Inl e \<Rightarrow> Inl (''bad seconds '' @ debug_str t @ '': '' @ e)
                | Inr v \<Rightarrow> external_items parse_addr parse_secs rest (out @ [(l, ad, v)])))
      | _ \<Rightarrow> Inl (''bad backend '' @ debug_str item @ ''; want label@host:port@seconds''))"

definition parse_external_fleet :: "(string \<Rightarrow> string + string) \<Rightarrow> (string \<Rightarrow> string + f64) \<Rightarrow> string \<Rightarrow> string + (string \<times> string \<times> f64) list" where
  "parse_external_fleet parse_addr parse_secs spec =
     and_then (external_items parse_addr parse_secs
                 (filter (\<lambda>s. s \<noteq> []) (map ab_trim (split_on (\<lambda>c. c = CHR '','') spec))) [])
       (\<lambda>out. if out = [] then Inl ''empty --backends spec'' else Inr out)"

section \<open>Arms\<close>

record ArmResult =
  policy_name :: string
  arm_ok :: u64
  arm_errors :: u64
  arm_duration :: f64
  arm_rate :: f64
  arm_p50 :: u64
  arm_p90 :: u64
  arm_p99 :: u64
  arm_max :: u64

definition arm_result :: "Policy \<Rightarrow> RequestOutcome list \<Rightarrow> f64 \<Rightarrow> ArmResult" where
  "arm_result policy outs dur =
     (let lats = sort (List.map_filter (\<lambda>out. case out of OkIn us \<Rightarrow> Some us | _ \<Rightarrow> None) outs);
          ok_n = of_nat (length lats)
      in \<lparr>policy_name = Policy_name policy, arm_ok = ok_n,
          arm_errors = of_nat (length (filter (\<lambda>out. out = Graceful503 \<or> out = HardError) outs)), arm_duration = dur,
          arm_rate = (if flt 0 dur then f64_of_u64 ok_n / dur else 0), arm_p50 = lb_percentile lats (lit (50 / 100)),
          arm_p90 = lb_percentile lats (lit (90 / 100)), arm_p99 = lb_percentile lats (lit (99 / 100)),
          arm_max = (if lats = [] then 0 else last lats)\<rparr>)"

record AbReport =
  ar_backends :: u32
  ar_base_delay_us :: u64
  ar_concurrency :: u32
  ar_requests :: u32
  external_fleet :: bool
  arms :: "ArmResult list"

text \<open>What the number and address parsers of the standard library answer, how a mock backend gets its address, the
  logarithm, the variables and clocks a router starts from, and the network: a front under a list of
  sequence numbers, all sent as \<open>short_tokens\<close> prefill requests, answers an outcome each and the elapsed seconds.\<close>

datatype 'b front = RouterFront "'b Router" | ProxyFront Policy BaselinePool

record 'b ab_host =
  ap_u32 :: "string \<Rightarrow> string + u32"
  ap_u64 :: "string \<Rightarrow> string + u64"
  ap_addr :: "string \<Rightarrow> string + string"
  ap_secs :: "string \<Rightarrow> string + f64"
  ap_spawn :: "u64 \<Rightarrow> nat \<Rightarrow> string"
  ap_ln :: "f64 \<Rightarrow> f64"
  ap_vars :: router_vars
  ap_now_ms :: u64
  ap_now :: nat
  ap_drive :: "'b front \<Rightarrow> u64 list \<Rightarrow> string + RequestOutcome list \<times> f64"

definition arm_fleet :: "'b ab_host \<Rightarrow> AbConfig \<Rightarrow> string + (string \<times> string \<times> f64) list" where
  "arm_fleet H cfg =
     (case backend_spec cfg of
        Some spec \<Rightarrow> parse_external_fleet (ap_addr H) (ap_secs H) spec
      | None \<Rightarrow> Inr (build_mock_fleet (ap_spawn H) cfg))"

definition arm_front :: "'b ab_host \<Rightarrow> Policy \<Rightarrow> (string \<times> string \<times> f64) list \<Rightarrow> 'b front" where
  "arm_front H policy fleet =
     (if policy = CostPolicy
      then RouterFront (Router_new (ap_vars H) (ap_now_ms H) (ap_now H) (map (\<lambda>(l, a, v). Backend_new (ap_ln H) l a v) fleet) [])
      else ProxyFront policy (BaselinePool_new (map (\<lambda>(l, a, v). a) fleet)))"

text \<open>The sequence numbers of the measured requests, worker by worker.\<close>

definition arm_seqs :: "AbConfig \<Rightarrow> u64 list" where
  "arm_seqs cfg =
     concat (map (\<lambda>w. map (\<lambda>r. of_nat w * ucast (ab_requests cfg) + of_nat r) [0..<unat (ab_requests cfg)])
       [0..<unat (ab_concurrency cfg)])"

definition run_arm :: "'b ab_host \<Rightarrow> AbConfig \<Rightarrow> Policy \<Rightarrow> string + ArmResult" where
  "run_arm H cfg policy =
     and_then (arm_fleet H cfg) (\<lambda>fleet.
       and_then (ap_drive H (arm_front H policy fleet) (arm_seqs cfg)) (\<lambda>(outs, dur). Inr (arm_result policy outs dur)))"

fun ab_args :: "'b ab_host \<Rightarrow> string list \<Rightarrow> AbConfig \<Rightarrow> string + AbConfig" where
  "ab_args P [] cfg = Inr cfg"
| "ab_args P (f # rest) cfg =
     (if f \<notin> {''--backends-count'', ''--base-delay-us'', ''--concurrency'', ''--requests'', ''--backends''}
      then Inl (''ab-bench: unknown flag '' @ debug_str f)
      else case rest of
             [] \<Rightarrow> Inl (f @ '' needs a value'')
           | v # args \<Rightarrow>
               and_then (if f = ''--backends-count'' then and_then (ap_u32 P v) (\<lambda>n. Inr (cfg\<lparr>ab_backends := n\<rparr>))
                         else if f = ''--base-delay-us'' then and_then (ap_u64 P v) (\<lambda>n. Inr (cfg\<lparr>ab_base_delay_us := n\<rparr>))
                         else if f = ''--concurrency'' then and_then (ap_u32 P v) (\<lambda>n. Inr (cfg\<lparr>ab_concurrency := n\<rparr>))
                         else if f = ''--requests'' then and_then (ap_u32 P v) (\<lambda>n. Inr (cfg\<lparr>ab_requests := n\<rparr>))
                         else Inr (cfg\<lparr>backend_spec := Some v\<rparr>))
                 (\<lambda>cfg. ab_args P args cfg))"

fun run_arms :: "'b ab_host \<Rightarrow> AbConfig \<Rightarrow> Policy list \<Rightarrow> string + ArmResult list" where
  "run_arms H cfg [] = Inr []"
| "run_arms H cfg (p # ps) =
     and_then (run_arm H cfg p) (\<lambda>a. and_then (run_arms H cfg ps) (\<lambda>as. Inr (a # as)))"

text \<open>The report that \<open>ab_bench\<close> prints and writes.\<close>

definition ab_bench :: "'b ab_host \<Rightarrow> string list \<Rightarrow> string + AbReport" where
  "ab_bench H args =
     and_then (ab_args H args AbConfig_default) (\<lambda>cfg.
       and_then (run_arms H cfg Policy_ALL) (\<lambda>as.
         Inr \<lparr>ar_backends = ab_backends cfg, ar_base_delay_us = ab_base_delay_us cfg, ar_concurrency = ab_concurrency cfg,
              ar_requests = ab_requests cfg, external_fleet = (backend_spec cfg \<noteq> None), arms = as\<rparr>))"

section \<open>Lemmas\<close>

definition wf_pool :: "BaselinePool \<Rightarrow> bool" where
  "wf_pool p \<longleftrightarrow> bp_addrs p \<noteq> [] \<and> length (bp_inflight p) = length (bp_addrs p)"

lemma least_index_lt: "ns \<noteq> [] \<Longrightarrow> least_index ns < length ns"
proof -
  assume "ns \<noteq> []"
  then obtain m where m: "min_by snd (enumerate 0 ns) = Some m" using min_by_Some_ex [of "enumerate 0 ns" snd] by (auto simp: enumerate_eq_zip)
  then have "m \<in> set (enumerate 0 ns)" by (rule min_by_in_set)
  then show ?thesis using m by (auto simp: least_index_def in_set_enumerate_eq split: prod.splits)
qed

lemma least_index_min: "ns \<noteq> [] \<Longrightarrow> n \<in> set ns \<Longrightarrow> ns ! least_index ns \<le> n"
proof -
  assume ns: "ns \<noteq> []" "n \<in> set ns"
  obtain m where m: "min_by snd (enumerate 0 ns) = Some m"
    using min_by_Some_ex [of "enumerate 0 ns" snd] ns(1) by (auto simp: enumerate_eq_zip)
  then have i: "m \<in> set (enumerate 0 ns)" by (rule min_by_in_set)
  obtain k where "k < length ns" "ns ! k = n" using ns(2) by (auto simp: in_set_conv_nth)
  then have "(k, n) \<in> set (enumerate 0 ns)" by (auto simp: in_set_enumerate_eq)
  then have "snd m \<le> n" using min_by_le [OF m] by fastforce
  then show ?thesis using m i by (auto simp: least_index_def in_set_enumerate_eq split: prod.splits)
qed

lemma pick_in_range:
  "wf_pool p \<Longrightarrow> policy \<noteq> CostPolicy \<Longrightarrow> \<exists>i p'. pick_baseline policy p = Some (i, p') \<and> i < length (bp_addrs p)
     \<and> bp_addrs p' = bp_addrs p \<and> bp_inflight p' = bp_inflight p"
  using least_index_lt [of "bp_inflight p"]
  by (cases policy) (auto simp: pick_baseline_def wf_pool_def Let_def mod_less_divisor simp flip: length_greater_0_conv)

lemma baseline_conn_settles:
  assumes "wf_pool p" "policy \<noteq> CostPolicy"
  shows "\<exists>answer p'. baseline_conn proxy_once policy p = Some (answer, p') \<and> wf_pool p' \<and> bp_inflight p' = bp_inflight p"
proof -
  obtain i p1 where p1: "pick_baseline policy p = Some (i, p1)" "i < length (bp_addrs p)" "bp_addrs p1 = bp_addrs p"
    "bp_inflight p1 = bp_inflight p" using pick_in_range [OF assms] by blast
  have "i < length (bp_inflight p)" using p1(2) assms(1) by (simp add: wf_pool_def)
  then have "bp_inflight (end_proxy i (begin_proxy i p1)) = bp_inflight p"
    using p1(4) by (simp add: end_proxy_def begin_proxy_def)
  moreover have "bp_addrs (end_proxy i (begin_proxy i p1)) = bp_addrs p" using p1(3) by (simp add: end_proxy_def begin_proxy_def)
  ultimately show ?thesis using p1 assms(1) by (auto simp: baseline_conn_def wf_pool_def Let_def split: sum.splits)
qed

text \<open>A full turn of the rotation visits every backend once.\<close>

fun turns :: "nat \<Rightarrow> BaselinePool \<Rightarrow> nat list" where
  "turns 0 p = []"
| "turns (Suc n) p = (case pick_baseline RoundRobin p of None \<Rightarrow> [] | Some (i, p') \<Rightarrow> i # turns n p')"

lemma turns_eq:
  "bp_addrs p \<noteq> [] \<Longrightarrow> unat (cursor p) + n < 2 ^ 64 \<Longrightarrow>
   turns n p = map (\<lambda>k. (unat (cursor p) + k) mod length (bp_addrs p)) [0..<n]"
proof (induction n arbitrary: p)
  case (Suc n)
  let ?p = "p\<lparr>cursor := cursor p + 1\<rparr>"
  have u: "unat (cursor p + 1) = Suc (unat (cursor p))" using Suc.prems(2) by (subst unat_add_no_wrap) simp_all
  have "turns n ?p = map (\<lambda>k. (unat (cursor ?p) + k) mod length (bp_addrs ?p)) [0..<n]"
    by (rule Suc.IH) (use Suc.prems u in simp_all)
  then have r: "turns n ?p = map (\<lambda>k. (unat (cursor p) + k) mod length (bp_addrs p)) (map Suc [0..<n])"
    using u by (simp add: comp_def)
  have "[0..<Suc n] = 0 # map Suc [0..<n]" by (simp add: map_Suc_upt upt_conv_Cons)
  then show ?case using Suc.prems(1) r by (simp add: pick_baseline_def)
qed simp

lemma round_robin_fair:
  assumes "bp_addrs p \<noteq> []" "cursor p = 0" "length (bp_addrs p) < 2 ^ 64"
  shows "turns (length (bp_addrs p)) p = [0..<length (bp_addrs p)]"
  using assms by (subst turns_eq) (auto intro!: map_idI)

lemma tier_delay_tiers:
  assumes "i < cnt" "unat cnt < 2 ^ 30"
  shows "tier_delay base i cnt = push_bit (unat i * 3 div unat cnt) base" "unat i * 3 div unat cnt \<le> 2"
proof -
  have c: "0 < unat cnt" "unat i < unat cnt" using assms(1) by (simp_all add: word_less_nat_alt)
  have "1 \<le> cnt" using c(1) by (simp add: word_le_nat_alt)
  then have m: "max cnt 1 = cnt" by (rule max.absorb1)
  have "unat (i * 3) = unat i * 3"
    using assms(2) c by (simp add: unat_word_ariths)
  then have t: "unat (i * 3 div max cnt 1) = unat i * 3 div unat cnt" unfolding m by (simp add: unat_div)
  show b: "unat i * 3 div unat cnt \<le> 2" using c by (simp add: less_mult_imp_div_less flip: less_Suc_eq_le numeral_3_eq_3)
  then have "min (i * 3 div max cnt 1) 2 = i * 3 div max cnt 1" using t by (simp add: min_def word_le_nat_alt)
  then show "tier_delay base i cnt = push_bit (unat i * 3 div unat cnt) base" using t by (simp add: tier_delay_def)
qed

lemma run_arms_all: "run_arms H cfg ps = Inr as \<Longrightarrow> list_all2 (\<lambda>p a. run_arm H cfg p = Inr a) ps as"
  by (induction ps arbitrary: as) (auto simp: and_then_Inr)

text \<open>A report has one arm per policy, in order, and every arm counts each answered request once.\<close>

lemma outcomes_split:
  "length (List.map_filter (\<lambda>out. case out of OkIn us \<Rightarrow> Some us | _ \<Rightarrow> None) outs)
   + length (filter (\<lambda>out. out = Graceful503 \<or> out = HardError) outs) = length outs"
  by (induction outs) (auto simp: map_filter_simps split: RequestOutcome.splits)

lemma arm_counts: "arm_ok (arm_result policy outs dur) + arm_errors (arm_result policy outs dur) = of_nat (length outs)"
  unfolding outcomes_split [of outs, symmetric] by (simp add: arm_result_def Let_def)

theorem ab_report_complete:
  assumes "ab_bench H args = Inr rep"
  shows "map policy_name (arms rep) = [''cost'', ''least_conn'', ''round_robin'', ''random'']"
    and "\<forall>a\<in>set (arms rep). \<exists>front outs dur. ap_drive H front (arm_seqs \<lparr>ab_backends = ar_backends rep, ab_base_delay_us = ar_base_delay_us rep,
      ab_concurrency = ar_concurrency rep, ab_requests = ar_requests rep, backend_spec = None, ab_report_dir = []\<rparr>) = Inr (outs, dur)
      \<and> arm_ok a + arm_errors a = of_nat (length outs)"
proof -
  obtain cfg as where as: "run_arms H cfg Policy_ALL = Inr as"
    and rep: "rep = \<lparr>ar_backends = ab_backends cfg, ar_base_delay_us = ab_base_delay_us cfg, ar_concurrency = ab_concurrency cfg,
              ar_requests = ab_requests cfg, external_fleet = (backend_spec cfg \<noteq> None), arms = as\<rparr>"
    using assms by (auto simp: ab_bench_def and_then_Inr)
  have arm: "policy_name a = Policy_name p \<and> (\<exists>front outs dur. ap_drive H front (arm_seqs cfg) = Inr (outs, dur)
      \<and> arm_ok a + arm_errors a = of_nat (length outs))" if "run_arm H cfg p = Inr a" for p a
    using that arm_counts by (fastforce simp: run_arm_def and_then_Inr arm_result_def Let_def split: prod.splits)
  note all = run_arms_all [OF as, unfolded Policy_ALL_def]
  show "map policy_name (arms rep) = [''cost'', ''least_conn'', ''round_robin'', ''random'']"
    using all arm by (auto simp: rep list_all2_Cons1 Policy_name_def)
  have seqs: "arm_seqs \<lparr>ab_backends = ar_backends rep, ab_base_delay_us = ar_base_delay_us rep, ab_concurrency = ar_concurrency rep,
      ab_requests = ar_requests rep, backend_spec = None, ab_report_dir = []\<rparr> = arm_seqs cfg" by (simp add: rep arm_seqs_def)
  show "\<forall>a\<in>set (arms rep). \<exists>front outs dur. ap_drive H front (arm_seqs \<lparr>ab_backends = ar_backends rep, ab_base_delay_us = ar_base_delay_us rep,
      ab_concurrency = ar_concurrency rep, ab_requests = ar_requests rep, backend_spec = None, ab_report_dir = []\<rparr>) = Inr (outs, dur)
      \<and> arm_ok a + arm_errors a = of_nat (length outs)"
    unfolding seqs using all arm by (auto simp: rep list_all2_Cons1)
qed

end
