(* ===== verification/Banner.thy ===== *)
theory Banner
  imports Fmt Routing
begin

text \<open>
  The startup banner (\<open>demiurge-router/src/banner.rs\<close>): the visible width of styled text, padding, rows, byte
  counts, the whole banner as lines, and the decision between banner and compact line.  The terminal
  test, the environment and the package version are arguments.
\<close>

section \<open>Width and styling\<close>

definition W :: nat where
  "W = 120"

text \<open>An escape sequence runs from the escape character to the next \<open>m\<close>, or to the end.\<close>

function visible_len :: "utext \<Rightarrow> nat" where
  "visible_len [] = 0"
| "visible_len (c # cs) =
     (if c = 27 then visible_len (drop 1 (dropWhile (\<lambda>n. n \<noteq> 109) cs)) else Suc (visible_len cs))"
  by pat_completeness auto

termination
  by (relation "measure length") (auto simp: le_imp_less_Suc [OF le_trans [OF diff_le_self length_dropWhile_le]])

declare visible_len.simps [simp del]

abbreviation BAR :: nat where "BAR \<equiv> 9553"
abbreviation DOUBLE :: nat where "DOUBLE \<equiv> 9552"
abbreviation SINGLE :: nat where "SINGLE \<equiv> 9472"
abbreviation DOT :: utext where "DOT \<equiv> [183]"

abbreviation bt :: "string \<Rightarrow> utext" where
  "bt \<equiv> of_ascii"

definition boxed :: "utext \<Rightarrow> utext" where
  "boxed body = [BAR, 32] @ body @ [32, BAR]"

definition pad :: "utext \<Rightarrow> utext" where
  "pad t = boxed (t @ replicate (W - 4 - visible_len t) 32)"

definition rule_line :: "nat \<Rightarrow> nat \<Rightarrow> nat \<Rightarrow> utext" where
  "rule_line left ch right = left # replicate (W - 2) ch @ [right]"

definition style_wrap :: "bool \<Rightarrow> string \<Rightarrow> utext \<Rightarrow> utext" where
  "style_wrap enabled code s = (if enabled then 27 # bt code @ s @ 27 # bt ''[0m'' else s)"

definition style_title :: "bool \<Rightarrow> utext \<Rightarrow> utext" where "style_title en s = style_wrap en ''[1;97m'' s"
definition style_label :: "bool \<Rightarrow> utext \<Rightarrow> utext" where "style_label en s = style_wrap en ''[2;36m'' s"
definition style_value :: "bool \<Rightarrow> utext \<Rightarrow> utext" where "style_value en s = style_wrap en ''[1m'' s"
definition style_accent :: "bool \<Rightarrow> utext \<Rightarrow> utext" where "style_accent en s = style_wrap en ''[1;32m'' s"
definition style_dim :: "bool \<Rightarrow> utext \<Rightarrow> utext" where "style_dim en s = style_wrap en ''[2m'' s"

definition admit_label :: "AdmitMode \<Rightarrow> bool \<Rightarrow> utext" where
  "admit_label m k =
     (case m of
        Userspace \<Rightarrow> bt ''userspace token bucket''
      | KernelXdp \<Rightarrow> if k then bt ''kernel XDP shed'' else bt ''kernel XDP '' @ DOT @ bt '' userspace fallback''
      | Hybrid \<Rightarrow> if k then bt ''hybrid '' @ DOT @ bt '' kernel XDP live'' else bt ''hybrid '' @ DOT @ bt '' userspace fallback'')"

definition format_bytes :: "u64 \<Rightarrow> utext" where
  "format_bytes b =
     (let MIB = 1024 * 1024; GIB = 1024 * MIB
      in if GIB \<le> b \<and> b mod MIB = 0 then fmt_u64 (b div GIB) @ bt '' GiB''
         else if MIB \<le> b then fmt_f64 1 (f64_of_u64 b / f64_of_u64 MIB) @ bt '' MiB''
         else if 1024 \<le> b then fmt_u64 (b div 1024) @ bt '' KiB''
         else fmt_u64 b @ bt '' B'')"

definition row :: "bool \<Rightarrow> string \<Rightarrow> utext \<Rightarrow> utext" where
  "row en lab v =
     (let left = bt ''  '' @ style_label en (pad_right 12 (bt lab));
          right = style_value en v
      in left @ replicate (W - 4 - (visible_len left + visible_len right)) 32 @ right)"

section \<open>The banner\<close>

definition plural :: "nat \<Rightarrow> utext" where
  "plural n = dec_nat n @ bt '' backend'' @ (if n = 1 then [] else bt ''s'')"

definition render_startup_banner :: "bool \<Rightarrow> utext \<Rightarrow> 'b Router \<Rightarrow> utext \<Rightarrow> utext option \<Rightarrow> bool \<Rightarrow> utext list" where
  "render_startup_banner linux version r listen xdp_iface color =
     (let kernel = kernel_admit_attached r;
          reb = (if rebalancer_actuation r then bt ''actuated '' @ DOT @ bt '' '' @ [960] @ bt ''='' @ fmt_f64 3 (read_pi (r_dataplane r))
                 else bt ''shadow'');
          title_left = style_title color (bt ''DEMIURGE ROUTER'');
          title_right = style_dim color (bt ''phase-aware forwarder'');
          title_gap = W - 4 - (visible_len title_left + visible_len title_right);
          xdp = (if kernel then (case xdp_iface of Some i \<Rightarrow> bt ''attached '' @ DOT @ bt '' '' @ i | None \<Rightarrow> bt ''attached'') else bt ''off'');
          ring = (if linux then (if r_io_uring r then bt ''accept + TCP proxy'' else bt ''off'') else bt ''off (linux only)'');
          ready = style_accent color ([9679] @ bt '' READY'') @ bt ''  '' @ style_dim color (bt ''accepting connections'') @ bt ''  v''
                  @ version @ bt ''  '' @ style_dim color (bt ''Ctrl+C to stop'')
      in [rule_line 9556 DOUBLE 9559,
          pad [],
          boxed (title_left @ replicate title_gap 32 @ title_right),
          pad (style_dim color (bt ''KV-native routing '' @ DOT @ bt '' disaggregated prefill/decode '' @ DOT @ bt '' RCU dataplane'')),
          pad [],
          rule_line 9568 DOUBLE 9571,
          pad (row color ''listen'' listen),
          pad (row color ''admit'' (admit_label (r_admit_mode r) kernel @ bt '' '' @ DOT @ bt '' burst '' @ fmt_u64 (ab_capacity (r_admit r)))),
          pad (row color ''kernel xdp'' xdp),
          pad (row color ''io_uring'' ring),
          pad (row color ''rebalancer'' reb),
          rule_line 9567 SINGLE 9570,
          pad (row color ''prefill pool'' (plural (length (pool r Prefill)))),
          pad (row color ''decode pool'' (plural (length (pool r Decode))))]
         @ (case r_ledger r of Some l \<Rightarrow> [pad (row color ''kv pool'' (format_bytes (capacity_bytes l) @ bt '' decode cap''))] | None \<Rightarrow> [])
         @ (if state_plane_active r then [pad (row color ''state plane'' (bt ''live warmth '' @ DOT @ bt '' AP gossip''))] else [])
         @ [rule_line 9568 DOUBLE 9571, pad ready, rule_line 9562 DOUBLE 9565])"

definition banner_enabled :: "string option \<Rightarrow> bool \<Rightarrow> bool" where
  "banner_enabled env tty =
     (case env of
        Some v \<Rightarrow> if v \<in> {''0'', ''false'', ''no''} then False else if v \<in> {''1'', ''true'', ''yes''} then True else tty
      | None \<Rightarrow> tty)"

definition quiet_mode :: "string option \<Rightarrow> bool" where
  "quiet_mode env = (case env of Some v \<Rightarrow> v \<in> {''1'', ''true'', ''yes''} | None \<Rightarrow> False)"

datatype startup_output = CompactLine | FullBanner bool

text \<open>What is printed: the compact line, or the banner with or without colours.\<close>

definition print_startup_banner :: "string option \<Rightarrow> string option \<Rightarrow> string option \<Rightarrow> bool \<Rightarrow> startup_output" where
  "print_startup_banner quiet_env banner_env no_color tty =
     (if quiet_mode quiet_env \<or> \<not> banner_enabled banner_env tty then CompactLine
      else FullBanner (tty \<and> \<not> (case no_color of Some v \<Rightarrow> v \<in> {''1'', ''true''} | None \<Rightarrow> False)))"

section \<open>Width of styled text\<close>

text \<open>Text without escape characters.\<close>

definition plain :: "utext \<Rightarrow> bool" where
  "plain s \<longleftrightarrow> 27 \<notin> set s"

lemma visible_plain_append: "plain s \<Longrightarrow> visible_len (s @ t) = length s + visible_len t"
  by (induction s) (auto simp: plain_def visible_len.simps)

lemma visible_plain: "plain s \<Longrightarrow> visible_len s = length s"
  using visible_plain_append [of s "[]"] by (simp add: visible_len.simps)

lemma visible_esc: "109 \<notin> set code \<Longrightarrow> visible_len (27 # code @ 109 # t) = visible_len t"
proof -
  assume "109 \<notin> set code"
  then have "dropWhile (\<lambda>n. n \<noteq> 109) (code @ 109 # t) = 109 # t" by (induction code) auto
  then show ?thesis by (simp add: visible_len.simps)
qed

text \<open>A width-exact text: appending to it adds widths.\<close>

definition closed :: "utext \<Rightarrow> bool" where
  "closed s \<longleftrightarrow> (\<forall>t. visible_len (s @ t) = visible_len s + visible_len t)"

lemma visible_Nil [simp]: "visible_len [] = 0"
  by (simp add: visible_len.simps)

lemma closed_plain: "plain s \<Longrightarrow> closed s"
  by (simp add: closed_def visible_plain_append visible_plain)

lemma closed_append: "closed s \<Longrightarrow> closed t \<Longrightarrow> closed (s @ t) \<and> visible_len (s @ t) = visible_len s + visible_len t"
  by (simp add: closed_def)

lemma style_wrap_width:
  assumes "closed s" "bt code = c @ [109]" "109 \<notin> set c"
  shows "closed (style_wrap en code s) \<and> visible_len (style_wrap en code s) = visible_len s"
proof (cases en)
  case True
  have v: "visible_len (style_wrap en code s @ t) = visible_len s + visible_len t" for t
  proof -
    have "style_wrap en code s @ t = 27 # c @ 109 # (s @ 27 # bt ''[0'' @ 109 # t)"
      using True assms(2) by (simp add: style_wrap_def of_ascii_def)
    then have "visible_len (style_wrap en code s @ t) = visible_len (s @ 27 # bt ''[0'' @ 109 # t)"
      using visible_esc [OF assms(3)] by simp
    also have "\<dots> = visible_len s + visible_len (27 # bt ''[0'' @ 109 # t)" using assms(1) by (simp add: closed_def)
    also have "visible_len (27 # bt ''[0'' @ 109 # t) = visible_len t" by (rule visible_esc) (simp add: of_ascii_def)
    finally show ?thesis .
  qed
  then show ?thesis using v [of "[]"] by (simp add: closed_def)
qed (use assms in \<open>simp add: style_wrap_def\<close>)

lemma style_widths:
  assumes "closed s"
  shows "closed (style_title en s) \<and> visible_len (style_title en s) = visible_len s"
    "closed (style_label en s) \<and> visible_len (style_label en s) = visible_len s"
    "closed (style_value en s) \<and> visible_len (style_value en s) = visible_len s"
    "closed (style_accent en s) \<and> visible_len (style_accent en s) = visible_len s"
    "closed (style_dim en s) \<and> visible_len (style_dim en s) = visible_len s"
  unfolding style_title_def style_label_def style_value_def style_accent_def style_dim_def
  using style_wrap_width [OF assms, of "''[1;97m''" "bt ''[1;97''"] style_wrap_width [OF assms, of "''[2;36m''" "bt ''[2;36''"]
    style_wrap_width [OF assms, of "''[1m''" "bt ''[1''"] style_wrap_width [OF assms, of "''[1;32m''" "bt ''[1;32''"]
    style_wrap_width [OF assms, of "''[2m''" "bt ''[2''"] by (simp_all add: of_ascii_def)

lemma plain_simps [simp]: "plain []" "plain (x # s) \<longleftrightarrow> x \<noteq> 27 \<and> plain s" "plain (s @ t) \<longleftrightarrow> plain s \<and> plain t"
  "plain (replicate n x) \<longleftrightarrow> n = 0 \<or> x \<noteq> 27" "plain (dec_nat n)"
  using dec_nat_digits [of 27 n] by (auto simp: plain_def)

lemma pad_width: "closed t \<Longrightarrow> visible_len t \<le> 116 \<Longrightarrow> visible_len (pad t) = W"
proof -
  assume t: "closed t" "visible_len t \<le> 116"
  have "visible_len (pad t) = visible_len ([BAR, 32] @ t @ replicate (116 - visible_len t) 32 @ [32, BAR])"
    by (simp add: pad_def boxed_def W_def)
  also have "\<dots> = 2 + visible_len (t @ replicate (116 - visible_len t) 32 @ [32, BAR])" by (subst visible_plain_append) simp_all
  also have "visible_len (t @ replicate (116 - visible_len t) 32 @ [32, BAR])
      = visible_len t + visible_len (replicate (116 - visible_len t) 32 @ [32, BAR])" using t(1) by (simp add: closed_def)
  also have "visible_len (replicate (116 - visible_len t) 32 @ [32, BAR]) = 118 - visible_len t"
    using t(2) by (subst visible_plain) simp_all
  finally show ?thesis using t(2) by (simp add: W_def)
qed

lemma row_width:
  assumes "closed v" "visible_len v \<le> 102" "length lab \<le> 12" "plain (bt lab)"
  shows "closed (row en lab v) \<and> visible_len (row en lab v) = 116"
proof -
  let ?left = "bt ''  '' @ style_label en (pad_right 12 (bt lab))"
  have p: "plain (pad_right 12 (bt lab))" "length (pad_right 12 (bt lab)) = 12"
    using assms(3,4) by (simp_all add: pad_right_def of_ascii_def)
  have sp: "closed (bt ''  '')" "visible_len (bt ''  '') = 2"
    using closed_plain [of "bt ''  ''"] visible_plain [of "bt ''  ''"] by (simp_all add: of_ascii_def)
  have l: "closed ?left" "visible_len ?left = 14"
    using closed_append [OF sp(1), of "style_label en (pad_right 12 (bt lab))"] style_widths(2) [OF closed_plain [OF p(1)], of en]
      visible_plain [OF p(1)] p(2) sp(2) by simp_all
  have r: "closed (style_value en v)" "visible_len (style_value en v) = visible_len v" using style_widths(3) [OF assms(1)] by simp_all
  let ?gap = "replicate (102 - visible_len v) (32 :: nat)"
  have g: "closed ?gap" "visible_len ?gap = 102 - visible_len v" using closed_plain [of ?gap] visible_plain [of ?gap] by simp_all
  have "row en lab v = ?left @ (?gap @ style_value en v)" using l(2) r(2) by (simp add: row_def Let_def W_def)
  then show ?thesis
    using closed_append [OF g(1) r(1)] closed_append [OF l(1), of "?gap @ style_value en v"] l(2) g(2) r(2) assms(2) by simp
qed

lemma pad_row: "closed v \<Longrightarrow> visible_len v \<le> 102 \<Longrightarrow> length lab \<le> 12 \<Longrightarrow> plain (bt lab) \<Longrightarrow> visible_len (pad (row en lab v)) = W"
  using row_width [of v lab en] by (intro pad_width) simp_all

lemma rule_line_width: "l \<noteq> 27 \<Longrightarrow> c \<noteq> 27 \<Longrightarrow> r \<noteq> 27 \<Longrightarrow> visible_len (rule_line l c r) = W"
  by (subst visible_plain) (simp_all add: rule_line_def W_def)

lemma length_fmt_u64: "length (fmt_u64 (w :: u64)) \<le> 20"
  using length_dec_nat [of "unat w" 20] unat_lt_2p64 [of w] by (simp add: fmt_u64_def)

text \<open>A fraction of a GiB is dropped whenever the capacity is a whole number of MiB.\<close>

lemma format_bytes_truncates: "format_bytes (1024 * 1024 * 1536) = bt ''1 GiB''"
  by (simp add: format_bytes_def Let_def fmt_u64_def dec_nat.simps of_ascii_def)

lemma plain_fmt [simp]: "plain (fmt_u64 w)" "plain (fmt_f64 p v)"
  by (simp add: fmt_u64_def, cases v) (simp_all add: of_ascii_def pad_zero_def Let_def)

lemma length_fmt_f64:
  assumes "0 \<le> x" "x \<le> 2 ^ 44"
  shows "length (fmt_f64 1 (Fin x)) \<le> 20"
proof -
  let ?n = "nat (rne (\<bar>x\<bar> * 10))"
  have "rne (\<bar>x\<bar> * 10) \<le> rne (of_int (2 ^ 44 * 10))" by (rule rne_mono) (use assms in simp)
  then have "rne (\<bar>x\<bar> * 10) \<le> 2 ^ 44 * 10" unfolding rne_of_int .
  then have n: "?n \<le> 2 ^ 44 * 10" by simp
  have "length (dec_nat (?n div 10)) \<le> 14" by (rule length_dec_nat) (use n in simp_all)
  moreover have "length (dec_nat (?n mod 10)) = 1" by (simp add: dec_nat.simps)
  ultimately show ?thesis using assms(1) by (simp add: Let_def pad_zero_def)
qed

lemma mib_ratio: "\<exists>y. f64_of_u64 b / f64_of_u64 (1024 * 1024) = Fin y \<and> 0 \<le> y \<and> y \<le> 2 ^ 44"
proof -
  let ?n = "rnd (real (unat b))"
  have q: "repr64 (2 ^ 64)" "repr64 (2 ^ 44)" using repr64_powi2 [of 64] repr64_powi2 [of 44] by simp_all
  have "unat b \<le> 2 ^ 64" by (rule order_trans [OF unat_le_u64_max]) simp
  then have "real (unat b) \<le> real (2 ^ 64)" by (simp only: of_nat_le_iff)
  then have "real (unat b) \<le> 2 ^ 64" by (simp only: of_nat_power of_nat_numeral)
  then have "?n \<le> 2 ^ 64" using q(1) by (rule rnd_le_repr)
  moreover have "0 \<le> ?n" by (rule rnd_nonneg) (rule of_nat_0_le_iff)
  ultimately have b: "0 \<le> ?n / 1048576" "?n / 1048576 \<le> 2 ^ 44" by simp_all
  then have "mk64 (?n / 1048576) = Fin (rnd (?n / 1048576))"
    by (intro mk64_small(1) [of _ "2 ^ 44"]) (use q(2) f64_lim_gt(2) [of "2 ^ 44"] in auto)
  moreover have "f64_of_u64 (1024 * 1024) = Fin 1048576" using f64_of_nat_exact [of 1048576] by simp
  moreover have "0 \<le> rnd (?n / 1048576)" "rnd (?n / 1048576) \<le> 2 ^ 44"
    using b q(2) by (auto intro: rnd_nonneg rnd_le_repr)
  ultimately show ?thesis by (simp add: f64_of_u64_Fin)
qed

lemma format_bytes_ok: "plain (format_bytes b) \<and> length (format_bytes b) \<le> 30"
proof -
  obtain y where y: "f64_of_u64 b / f64_of_u64 (1024 * 1024) = Fin y" "0 \<le> y" "y \<le> 2 ^ 44" using mib_ratio by blast
  have "length (fmt_f64 1 (f64_of_u64 b / f64_of_u64 (1024 * 1024))) \<le> 20" unfolding y(1) by (rule length_fmt_f64 [OF y(2,3)])
  then show ?thesis
    using length_fmt_u64 [of "b div (1024 * (1024 * 1024))"] length_fmt_u64 [of "b div 1024"] length_fmt_u64 [of b]
    by (auto simp: format_bytes_def Let_def of_ascii_def)
qed

section \<open>Alignment\<close>

definition short :: "nat \<Rightarrow> utext \<Rightarrow> bool" where
  "short n t \<longleftrightarrow> plain t \<and> length t \<le> n"

lemma shortD: "short n t \<Longrightarrow> closed t \<and> visible_len t \<le> n"
  by (simp add: short_def closed_plain visible_plain)

lemma pad_row_short: "short 102 v \<Longrightarrow> length lab \<le> 12 \<Longrightarrow> plain (bt lab) \<Longrightarrow> visible_len (pad (row en lab v)) = W"
  by (drule shortD) (simp add: pad_row)

lemma short_append: "short m s \<Longrightarrow> short n t \<Longrightarrow> m + n \<le> k \<Longrightarrow> short k (s @ t)"
  by (simp add: short_def)

lemma boxed_width:
  assumes "closed l" "closed r" "visible_len l + visible_len r \<le> 116"
  shows "visible_len (boxed (l @ replicate (W - 4 - (visible_len l + visible_len r)) 32 @ r)) = W"
proof -
  let ?g = "replicate (116 - (visible_len l + visible_len r)) (32 :: nat)"
  have g: "closed ?g" "visible_len ?g = 116 - (visible_len l + visible_len r)" using closed_plain [of ?g] visible_plain [of ?g] by simp_all
  have gr: "closed (?g @ r)" "visible_len (?g @ r) = visible_len ?g + visible_len r" using closed_append [OF g(1) assms(2)] by simp_all
  have t: "closed (l @ ?g @ r)" "visible_len (l @ ?g @ r) = 116" using closed_append [OF assms(1) gr(1)] gr(2) g(2) assms(3) by simp_all
  then have "pad (l @ ?g @ r) = boxed (l @ ?g @ r)" by (simp add: pad_def W_def)
  then show ?thesis using pad_width [OF t(1)] t(2) by (simp add: W_def)
qed

lemma ready_width:
  assumes "short 60 version"
  shows "visible_len (pad (style_accent color ([9679] @ bt '' READY'') @ bt ''  '' @ style_dim color (bt ''accepting connections'') @ bt ''  v''
           @ version @ bt ''  '' @ style_dim color (bt ''Ctrl+C to stop''))) = W"
proof -
  have p: "plain ([9679] @ bt '' READY'')" "plain (bt ''accepting connections'')" "plain (bt ''Ctrl+C to stop'')" "plain (bt ''  '')" "plain (bt ''  v'')"
    by (simp_all add: of_ascii_def)
  note s = style_widths(4) [OF closed_plain [OF p(1)], of color] style_widths(5) [OF closed_plain [OF p(2)], of color]
    style_widths(5) [OF closed_plain [OF p(3)], of color]
  note w = visible_plain [OF p(1)] visible_plain [OF p(2)] visible_plain [OF p(3)] visible_plain [OF p(4)] visible_plain [OF p(5)]
  note c = closed_plain [OF p(4)] closed_plain [OF p(5)] shortD [OF assms]
  have l: "length ([9679] @ bt '' READY'') = 7" "length (bt ''accepting connections'') = 21" "length (bt ''Ctrl+C to stop'') = 14"
    "length (bt ''  '') = 2" "length (bt ''  v'') = 3" by (simp_all add: of_ascii_def)
  show ?thesis by (rule pad_width) (use s w c l in \<open>simp_all add: closed_def\<close>)
qed

theorem banner_aligned:
  assumes "short 102 listen" "\<And>i. xdp_iface = Some i \<Longrightarrow> short 80 i" "short 60 version"
    and "length (fmt_f64 3 (read_pi (r_dataplane r))) \<le> 80"
    and "length (pool r Prefill) < 10 ^ 40" "length (pool r Decode) < 10 ^ 40"
    and "line \<in> set (render_startup_banner linux version r listen xdp_iface color)"
  shows "visible_len line = W"
proof -
  have adm: "short 102 (admit_label m k @ bt '' '' @ DOT @ bt '' burst '' @ fmt_u64 (c :: u64))" for m k c
    using length_fmt_u64 [of c] by (cases m; cases k) (auto simp: short_def admit_label_def of_ascii_def)
  have pl: "short 102 (plural (length xs))" if "length xs < 10 ^ 40" for xs :: "Backend list"
    using length_dec_nat [OF that] by (auto simp: short_def plural_def of_ascii_def)
  have fb: "short 102 (format_bytes b @ bt '' decode cap'')" for b
    using format_bytes_ok [of b] by (auto simp: short_def of_ascii_def)
  have xd: "short 102 (if k then (case xdp_iface of Some i \<Rightarrow> bt ''attached '' @ DOT @ bt '' '' @ i | None \<Rightarrow> bt ''attached'') else bt ''off'')" for k
    using assms(2) by (cases xdp_iface) (auto simp: short_def of_ascii_def)
  have rg: "short 102 (if linux then (if k then bt ''accept + TCP proxy'' else bt ''off'') else bt ''off (linux only)'')" for k
    by (simp add: short_def of_ascii_def)
  have rb: "short 102 (if k then bt ''actuated '' @ DOT @ bt '' '' @ [960] @ bt ''='' @ fmt_f64 3 (read_pi (r_dataplane r)) else bt ''shadow'')" for k
    using assms(4) by (simp add: short_def of_ascii_def)
  have gs: "short 102 (bt ''live warmth '' @ DOT @ bt '' AP gossip'')" by (simp add: short_def of_ascii_def)
  have sub: "visible_len (pad (style_dim color (bt ''KV-native routing '' @ DOT @ bt '' disaggregated prefill/decode '' @ DOT @ bt '' RCU dataplane''))) = W"
    (is "visible_len (pad (style_dim color ?s)) = W")
  proof -
    have p: "plain ?s" by (simp add: of_ascii_def)
    have "length ?s \<le> 116" by (simp add: of_ascii_def)
    then show ?thesis using style_widths(5) [OF closed_plain [OF p], of color] visible_plain [OF p] by (intro pad_width) simp_all
  qed
  have tl: "visible_len (boxed (style_title color (bt ''DEMIURGE ROUTER'') @ replicate (W - 4 -
      (visible_len (style_title color (bt ''DEMIURGE ROUTER'')) + visible_len (style_dim color (bt ''phase-aware forwarder'')))) 32
      @ style_dim color (bt ''phase-aware forwarder''))) = W"
  proof -
    have p: "plain (bt ''DEMIURGE ROUTER'')" "plain (bt ''phase-aware forwarder'')" by (simp_all add: of_ascii_def)
    have "length (bt ''DEMIURGE ROUTER'') + length (bt ''phase-aware forwarder'') \<le> 116" by (simp add: of_ascii_def)
    then show ?thesis
      using style_widths(1) [OF closed_plain [OF p(1)], of color] style_widths(5) [OF closed_plain [OF p(2)], of color]
        visible_plain [OF p(1)] visible_plain [OF p(2)] by (intro boxed_width) simp_all
  qed
  have em: "visible_len (pad []) = W" by (rule pad_width) (simp_all add: closed_def)
  have labs: "length ''listen'' \<le> 12" "plain (bt ''listen'')" "length ''admit'' \<le> 12" "plain (bt ''admit'')"
    "length ''kernel xdp'' \<le> 12" "plain (bt ''kernel xdp'')" "length ''io_uring'' \<le> 12" "plain (bt ''io_uring'')"
    "length ''rebalancer'' \<le> 12" "plain (bt ''rebalancer'')" "length ''prefill pool'' \<le> 12" "plain (bt ''prefill pool'')"
    "length ''decode pool'' \<le> 12" "plain (bt ''decode pool'')" "length ''kv pool'' \<le> 12" "plain (bt ''kv pool'')"
    "length ''state plane'' \<le> 12" "plain (bt ''state plane'')" by (simp_all add: of_ascii_def)
  note rows = pad_row_short [OF assms(1) labs(1,2)] pad_row_short [OF adm labs(3,4)] pad_row_short [OF xd labs(5,6)]
    pad_row_short [OF rg labs(7,8)] pad_row_short [OF rb labs(9,10)] pad_row_short [OF pl [OF assms(5)] labs(11,12)]
    pad_row_short [OF pl [OF assms(6)] labs(13,14)] pad_row_short [OF fb labs(15,16)] pad_row_short [OF gs labs(17,18)]
  have rules: "visible_len (rule_line 9556 DOUBLE 9559) = W" "visible_len (rule_line 9568 DOUBLE 9571) = W"
    "visible_len (rule_line 9567 SINGLE 9570) = W" "visible_len (rule_line 9562 DOUBLE 9565) = W"
    by (rule rule_line_width; simp)+
  have "list_all (\<lambda>l. visible_len l = W) (render_startup_banner linux version r listen xdp_iface color)"
    unfolding render_startup_banner_def Let_def
    by (cases "r_ledger r"; cases "state_plane_active r")
       (simp_all only: list_all_append list.pred_inject option.simps if_True if_False rows sub tl em rules ready_width [OF assms(3)] simp_thms)
  then show ?thesis using assms(7) by (simp only: list_all_iff)
qed

end
