(* ===== verification/PumpPool.thy ===== *)
theory PumpPool
  imports Serve "HOL-Library.Multiset"
begin

text \<open>
  The pump pool of the proxy (\<open>demiurge-router/src/serve.rs\<close>): one job per proxied connection moves the
  bytes of the answer.  Jobs go to a bounded queue that a fixed number of threads empties, or to a
  thread of their own when the queue is full; the connection waits for the acknowledgement.  A job is
  the number of its connection; that a copy ends is a step, the bytes it moves are not modelled.
\<close>

section \<open>Model\<close>

record pump_pool =
  pp_workers :: nat
  pp_cap :: nat
  pp_queue :: "nat list"
  pp_busy :: "nat list"
  pp_solo :: "nat list"
  pp_done :: "nat list"

definition pump_pool_tx :: "u64 option \<Rightarrow> u64 option \<Rightarrow> pump_pool" where
  "pump_pool_tx v workers =
     (let n = pump_pool_size v workers
      in \<lparr>pp_workers = n, pp_cap = max (min (n * 4) (2 ^ 64 - 1)) 32, pp_queue = [], pp_busy = [], pp_solo = [], pp_done = []\<rparr>)"

text \<open>Handing a job over never blocks: a full queue gives it a thread of its own.\<close>

definition send_pump :: "nat \<Rightarrow> pump_pool \<Rightarrow> pump_pool" where
  "send_pump c p =
     (if length (pp_queue p) < pp_cap p then p\<lparr>pp_queue := pp_queue p @ [c]\<rparr> else p\<lparr>pp_solo := c # pp_solo p\<rparr>)"

text \<open>What the pool's threads and the one-shot threads do on their own: the idle thread that holds the
  receiver takes the oldest job, and a copy ends with the shutdown and the acknowledgement.\<close>

inductive pump_work :: "pump_pool \<Rightarrow> pump_pool \<Rightarrow> bool" where
  take: "pp_queue p = c # q \<Longrightarrow> length (pp_busy p) < pp_workers p \<Longrightarrow>
     pump_work p (p\<lparr>pp_queue := q, pp_busy := c # pp_busy p\<rparr>)"
| finish: "c \<in> set (pp_busy p) \<Longrightarrow> pump_work p (p\<lparr>pp_busy := remove1 c (pp_busy p), pp_done := c # pp_done p\<rparr>)"
| finish_solo: "c \<in> set (pp_solo p) \<Longrightarrow> pump_work p (p\<lparr>pp_solo := remove1 c (pp_solo p), pp_done := c # pp_done p\<rparr>)"

definition pump_jobs :: "pump_pool \<Rightarrow> nat list" where
  "pump_jobs p = pp_queue p @ pp_busy p @ pp_solo p @ pp_done p"

inductive pump_step :: "pump_pool \<Rightarrow> pump_pool \<Rightarrow> bool" where
  submit: "c \<notin> set (pump_jobs p) \<Longrightarrow> pump_step p (send_pump c p)"
| work: "pump_work p p' \<Longrightarrow> pump_step p p'"

inductive_cases pump_workE: "pump_work p p'"

section \<open>Accounting\<close>

definition pump_ok :: "nat \<Rightarrow> nat \<Rightarrow> pump_pool \<Rightarrow> bool" where
  "pump_ok n m p \<longleftrightarrow> pp_workers p = n \<and> pp_cap p = m \<and> distinct (pump_jobs p) \<and> length (pp_busy p) \<le> n \<and> length (pp_queue p) \<le> m"

lemma mset_distinct: "mset xs = mset ys \<Longrightarrow> distinct xs = distinct ys"
  by (metis distinct_count_atmost_1 set_mset_mset)

lemma pump_work_jobs: "pump_work p p' \<Longrightarrow> mset (pump_jobs p') = mset (pump_jobs p)"
  by (induction rule: pump_work.induct) (auto simp: pump_jobs_def)

lemma send_pump_jobs: "mset (pump_jobs (send_pump c p)) = add_mset c (mset (pump_jobs p))"
  by (simp add: send_pump_def pump_jobs_def)

lemma pump_work_ok:
  assumes "pump_work p p'" "pump_ok n m p"
  shows "pump_ok n m p'"
proof -
  have "distinct (pump_jobs p')" using mset_distinct [OF pump_work_jobs [OF assms(1)]] assms(2) by (simp add: pump_ok_def)
  then show ?thesis using assms by (auto simp: pump_ok_def length_remove1 elim!: pump_workE)
qed

lemma pump_step_ok: "pump_step p p' \<Longrightarrow> pump_ok n m p \<Longrightarrow> pump_ok n m p'"
proof (induction rule: pump_step.induct)
  case (submit c p)
  have "distinct (pump_jobs (send_pump c p)) = distinct (c # pump_jobs p)"
    by (rule mset_distinct) (simp add: send_pump_jobs)
  then show ?case using submit by (auto simp: pump_ok_def send_pump_def)
qed (rule pump_work_ok)

lemma pump_reach_ok:
  assumes "pump_step\<^sup>*\<^sup>* (pump_pool_tx v workers) p"
  shows "pump_ok (pump_pool_size v workers) (pp_cap (pump_pool_tx v workers)) p"
  using assms
proof (induction rule: rtranclp_induct)
  case base
  then show ?case by (simp add: pump_ok_def pump_pool_tx_def pump_jobs_def Let_def)
qed (rule pump_step_ok)

section \<open>Draining\<close>

definition pump_debt :: "pump_pool \<Rightarrow> nat" where
  "pump_debt p = 2 * length (pp_queue p) + length (pp_busy p) + length (pp_solo p)"

lemma pump_work_debt: "pump_work p p' \<Longrightarrow> pump_debt p = Suc (pump_debt p')"
  by (induction rule: pump_work.induct) (auto simp: pump_debt_def length_remove1 dest: length_pos_if_in_set)

lemma pump_work_enabled:
  assumes "0 < pp_workers p" "pump_debt p \<noteq> 0"
  shows "\<exists>p'. pump_work p p'"
proof (cases "pp_busy p")
  case (Cons c cs)
  then show ?thesis using pump_work.finish [of c p] by auto
next
  case Nil
  show ?thesis
  proof (cases "pp_solo p")
    case (Cons c cs)
    then show ?thesis using pump_work.finish_solo [of c p] by auto
  next
    case Nil
    then obtain c q where "pp_queue p = c # q" using \<open>pp_busy p = []\<close> assms(2) by (cases "pp_queue p") (auto simp: pump_debt_def)
    then show ?thesis using pump_work.take [of p c q] assms(1) \<open>pp_busy p = []\<close> by auto
  qed
qed

lemma pump_run:
  "(pump_work ^^ k) p p' \<Longrightarrow>
   pump_debt p = k + pump_debt p' \<and> mset (pump_jobs p') = mset (pump_jobs p) \<and> pp_workers p' = pp_workers p"
proof (induction k arbitrary: p')
  case (Suc k)
  from Suc.prems obtain q where "(pump_work ^^ k) p q" and q: "pump_work q p'" by (auto elim: relpowp_Suc_E)
  moreover have "pp_workers p' = pp_workers q" using q by (auto elim: pump_workE)
  ultimately show ?case using Suc.IH [of q] pump_work_debt [OF q] pump_work_jobs [OF q] by simp
qed simp

lemma pump_drains:
  assumes "0 < pp_workers p"
  shows "\<exists>p'. (pump_work ^^ pump_debt p) p p' \<and> pump_debt p' = 0"
  using assms
proof (induction "pump_debt p" arbitrary: p)
  case (Suc k)
  then obtain q where q: "pump_work p q" using pump_work_enabled by (metis Zero_not_Suc)
  then have "k = pump_debt q" "pp_workers q = pp_workers p" using pump_work_debt Suc.hyps(2) by (auto elim: pump_workE)
  with Suc obtain p' where "(pump_work ^^ k) q p'" "pump_debt p' = 0" by metis
  then show ?case using q Suc.hyps(2) [symmetric] by (metis relpowp_Suc_I2)
qed auto

lemma pump_debt_zero: "pump_debt p = 0 \<Longrightarrow> pump_jobs p = pp_done p"
  by (simp add: pump_debt_def pump_jobs_def)

text \<open>The fallback looks at the queue only: while all threads are busy with long answers, a connection
  waits in the queue with nobody moving its answer, although no thread was refused.\<close>

lemma pump_waits_behind_busy:
  assumes "length (pp_busy p) = pp_workers p" "c \<in> set (pp_queue p)" "pump_work p p'" "length (pp_busy p') = length (pp_busy p)"
  shows "c \<in> set (pp_queue p')"
  using assms by (auto simp: length_remove1 elim!: pump_workE dest: length_pos_if_in_set)

lemma pump_waits_sample:
  "pump_step\<^sup>*\<^sup>* (pump_pool_tx (Some 1) None)
     \<lparr>pp_workers = 1, pp_cap = 32, pp_queue = [1], pp_busy = [0], pp_solo = [], pp_done = []\<rparr>"
proof -
  let ?p = "\<lambda>q b. \<lparr>pp_workers = 1, pp_cap = 32, pp_queue = q, pp_busy = b, pp_solo = [], pp_done = []\<rparr>"
  have "pump_pool_tx (Some 1) None = ?p [] []" by (simp add: pump_pool_tx_def pump_pool_size_def)
  moreover have "pump_step (?p [] []) (?p [0] [])" using pump_step.submit [of 0 "?p [] []"] by (simp add: send_pump_def pump_jobs_def)
  moreover have "pump_step (?p [0] []) (?p [] [0])" using pump_step.work [OF pump_work.take [of "?p [0] []" 0 "[]"]] by simp
  moreover have "pump_step (?p [] [0]) (?p [1] [0])" using pump_step.submit [of 1 "?p [] [0]"] by (simp add: send_pump_def pump_jobs_def)
  ultimately show ?thesis by (metis (no_types) converse_rtranclp_into_rtranclp rtranclp.rtrancl_refl)
qed

section \<open>Properties\<close>

lemma pump_pool_size_pos: "0 < pump_pool_size v workers"
  by (auto simp: pump_pool_size_def word_less_nat_alt split: option.splits)



end
