(* ===== verification/Lint.thy ===== *)
theory Lint
  imports LoadBench "HOL-Library.Char_ord" "HOL-Library.List_Lexorder"
begin

text \<open>
  The conformance tool (\<open>xtask/src/main.rs\<close>): generation of the derived files, the traceability lint with its
  blur guard, and the dispatch of subcommands.  A file is the string of its bytes, so positions are
  the byte offsets of the source.  The TOML decoder, the regular expressions and the display of floating
  point numbers are parameters; the directory is a tree.
\<close>

section \<open>Requirements\<close>

record Requirement =
  rq_id :: string
  rq_kind :: string
  rq_status :: string
  rq_phase :: u32
  rq_section :: string
  rq_summary :: string
  requires_test :: bool
  rq_tests :: "string list"

definition default_status :: string where
  "default_status = ''intended''"

definition REQS :: string where "REQS = ''design/requirements.toml''"
definition RS_OUT :: string where "RS_OUT = ''crates/demiurge-cost/src/generated_params.rs''"
definition PARAMS_TEX :: string where "PARAMS_TEX = ''spec/generated/params_table.tex''"
definition MATRIX_TEX :: string where "MATRIX_TEX = ''spec/generated/conformance_matrix.tex''"
definition SPEC_TEX :: string where "SPEC_TEX = ''spec/demiurge.tex''"

abbreviation BS :: char where "BS \<equiv> CHR 0x5C"
abbreviation NL :: char where "NL \<equiv> CHR 0x0A"

section \<open>LaTeX text\<close>

definition tex_escape :: "string \<Rightarrow> string" where
  "tex_escape s =
     replace_char CHR ''#'' [BS, CHR ''#''] (replace_char CHR ''&'' [BS, CHR ''&''] (replace_char CHR ''%'' [BS, CHR ''%'']
       (replace_char CHR ''_'' [BS, CHR ''_''] (replace_char BS (BS # ''textbackslash{}'') s))))"

text \<open>\<open>str::lines\<close> on bytes.\<close>

definition str_lines :: "string \<Rightarrow> string list" where
  "str_lines t =
     (let ps = split_on (\<lambda>c. c = NL) t;
          strip = (\<lambda>l. case strip_suffix [CHR 0x0D] l of Some l' \<Rightarrow> l' | None \<Rightarrow> l)
      in map strip (butlast ps) @ (if last ps = [] then [] else [last ps]))"

text \<open>A line up to the first percent sign that does not follow a backslash; the first argument is the
  preceding byte.\<close>

fun cut_comment :: "char option \<Rightarrow> string \<Rightarrow> string" where
  "cut_comment prev [] = []"
| "cut_comment prev (c # cs) = (if c = CHR ''%'' \<and> prev \<noteq> Some BS then [] else c # cut_comment (Some c) cs)"

definition strip_tex_comments :: "string \<Rightarrow> string" where
  "strip_tex_comments s = concat (map (\<lambda>l. cut_comment None l @ [NL]) (str_lines s))"

text \<open>The closing brace of the brace at \<open>open\<close>; the scan counts the depth from the opening brace on.\<close>

fun brace_scan :: "nat \<Rightarrow> nat \<Rightarrow> string \<Rightarrow> nat option" where
  "brace_scan depth i [] = None"
| "brace_scan depth i (c # cs) =
     (if c = CHR ''{'' then brace_scan (depth + 1) (i + 1) cs
      else if c = CHR ''}'' then (if depth - 1 = 0 then Some i else brace_scan (depth - 1) (i + 1) cs)
      else brace_scan depth (i + 1) cs)"

definition find_matching_brace :: "string \<Rightarrow> nat \<Rightarrow> nat option" where
  "find_matching_brace tex opn =
     (if opn < length tex \<and> tex ! opn = CHR ''{'' then brace_scan 0 opn (drop opn tex) else None)"

lemma brace_scan_bounds: "brace_scan d i cs = Some k \<Longrightarrow> i \<le> k \<and> k < i + length cs"
  by (induction d i cs rule: brace_scan.induct) (auto split: if_splits)

lemma find_matching_brace_bounds: "find_matching_brace tex opn = Some k \<Longrightarrow> opn \<le> k \<and> k < length tex"
  using brace_scan_bounds [of 0 opn "drop opn tex" k] by (auto simp: find_matching_brace_def split: if_splits)

text \<open>The loop over the occurrences of \<open>\name{\<close>.\<close>

function macro_ranges :: "string \<Rightarrow> string \<Rightarrow> nat \<Rightarrow> (nat \<times> nat) list" where
  "macro_ranges tex name from =
     (let needle = BS # name @ ''{''
      in case find_sub needle (drop from tex) of
           None \<Rightarrow> []
         | Some rel \<Rightarrow>
             (let open_brace = from + rel + length needle - 1
              in case find_matching_brace tex open_brace of
                   None \<Rightarrow> []
                 | Some close_brace \<Rightarrow> (open_brace + 1, close_brace) # macro_ranges tex name (close_brace + 1)))"
  by pat_completeness auto

termination
  by (relation "measure (\<lambda>(tex, name, from). length tex - from)") (auto dest!: find_matching_brace_bounds)

declare macro_ranges.simps [simp del]

definition find_macro_content_ranges :: "string \<Rightarrow> string \<Rightarrow> (nat \<times> nat) list" where
  "find_macro_content_ranges tex name = macro_ranges tex name 0"

definition position_in_ranges :: "nat \<Rightarrow> (nat \<times> nat) list \<Rightarrow> bool" where
  "position_in_ranges pos ranges = list_ex (\<lambda>(s, e). s \<le> pos \<and> pos < e) ranges"

section \<open>The blur guard\<close>

text \<open>What the regular expressions find: the requirement references of a text with their offsets, the
  requirement ids, the functions under a test attribute, all functions.\<close>

record regexes =
  req_re :: "string \<Rightarrow> (nat \<times> string) list"
  id_re :: "string \<Rightarrow> string list"
  test_attr :: "string \<Rightarrow> string list"
  any_fn :: "string \<Rightarrow> string list"

definition place_req :: "(nat \<times> nat) list \<Rightarrow> nat \<times> string \<Rightarrow> (string \<rightharpoonup> bool \<times> bool) \<Rightarrow> (string \<rightharpoonup> bool \<times> bool)" where
  "place_req ranges = (\<lambda>(pos, i) m.
     (let (outside, inside) = (case m i of Some p \<Rightarrow> p | None \<Rightarrow> (False, False))
      in m(i \<mapsto> if position_in_ranges pos ranges then (outside, True) else (True, inside))))"

definition spec_req_placement :: "regexes \<Rightarrow> string \<Rightarrow> (string \<rightharpoonup> bool \<times> bool)" where
  "spec_req_placement R tex =
     (let tex = strip_tex_comments tex
      in fold (place_req (find_macro_content_ranges tex ''intent'')) (req_re R tex) Map.empty)"

definition blur_errors :: "(string \<rightharpoonup> bool \<times> bool) \<Rightarrow> Requirement \<Rightarrow> string list" where
  "blur_errors placement req =
     (let (outside, inside) = (case placement (rq_id req) of Some p \<Rightarrow> p | None \<Rightarrow> (False, False))
      in if rq_status req = ''intended''
         then (if outside
               then [''blur: requirement `'' @ rq_id req @ ''` is intended but '' @ [BS] @ ''req{} appears outside '' @ [BS] @ ''intent{} in ''
                     @ SPEC_TEX @ '' (spec must not read as shipped)'']
               else [])
              @ (if \<not> inside \<and> \<not> outside
                 then [''blur: requirement `'' @ rq_id req @ ''` is intended but has no '' @ [BS] @ ''req{} in '' @ SPEC_TEX]
                 else [])
         else if rq_status req = ''implemented'' \<and> \<not> outside
         then [''blur: requirement `'' @ rq_id req @ ''` is implemented but '' @ [BS] @ ''req{} is missing or only inside '' @ [BS] @ ''intent{} in '' @ SPEC_TEX]
         else [])"

definition lint_blur_guard :: "regexes \<Rightarrow> Requirement list \<Rightarrow> string \<Rightarrow> string list" where
  "lint_blur_guard R reqs spec_tex = concat (map (blur_errors (spec_req_placement R spec_tex)) reqs)"

section \<open>Files\<close>

datatype entry = FileE string "string + string" | DirE string "entry list"

text \<open>\<open>Path::extension\<close>: what follows the last dot, unless the dot starts the name.\<close>

definition extension :: "string \<Rightarrow> string option" where
  "extension name =
     (if CHR ''.'' \<in> set name \<and> dropWhile (\<lambda>c. c \<noteq> CHR ''.'') (rev name) \<noteq> [CHR ''.'']
      then Some (rev (takeWhile (\<lambda>c. c \<noteq> CHR ''.'') (rev name))) else None)"

text \<open>A file of the tree carries what reading it gives.  The files below a directory with the given extension; build output is left out.\<close>

fun collect_entry :: "string \<Rightarrow> entry \<Rightarrow> (string + string) list" where
  "collect_entry ext (FileE name contents) = (if extension name = Some ext then [contents] else [])"
| "collect_entry ext (DirE name es) = (if name = ''target'' then [] else concat (map (collect_entry ext) es))"

definition collect_files :: "string \<Rightarrow> entry list \<Rightarrow> (string + string) list" where
  "collect_files ext es = concat (map (collect_entry ext) es)"

fun read_all :: "(string + string) list \<Rightarrow> string + string list" where
  "read_all [] = Inr []"
| "read_all (f # fs) = and_then f (\<lambda>t. and_then (read_all fs) (\<lambda>ts. Inr (t # ts)))"

definition str_contains :: "string \<Rightarrow> string \<Rightarrow> bool" where
  "str_contains s pat \<longleftrightarrow> find_sub pat s \<noteq> None"

definition collect_test_fns :: "regexes \<Rightarrow> string list \<Rightarrow> string list" where
  "collect_test_fns R rs_files =
     concat (map (\<lambda>t. test_attr R t @ (if str_contains t ''proptest!'' then any_fn R t else [])) rs_files)"

section \<open>The lint\<close>

definition refs_all :: "regexes \<Rightarrow> string list \<Rightarrow> string list \<Rightarrow> string list" where
  "refs_all R rs_files tex_files =
     concat (map (id_re R) rs_files) @ concat (map (\<lambda>t. map snd (req_re R (strip_tex_comments t))) tex_files)"

text \<open>\<open>BTreeSet::difference\<close>, in order.\<close>

definition set_difference :: "string list \<Rightarrow> string list \<Rightarrow> string list" where
  "set_difference xs ys = sort (remdups (filter (\<lambda>x. x \<notin> set ys) xs))"

definition reference_errors :: "string list \<Rightarrow> string list \<Rightarrow> string list" where
  "reference_errors refs declared =
     map (\<lambda>r. ''reference to undeclared requirement `'' @ r @ ''` (add it to '' @ REQS @ '')'') (set_difference refs declared)
     @ map (\<lambda>r. ''requirement `'' @ r @ ''` is declared but never referenced in spec or code'') (set_difference declared refs)"

definition test_errors :: "string list \<Rightarrow> Requirement \<Rightarrow> string list" where
  "test_errors test_fns req =
     (if rq_status req = ''implemented''
      then (if requires_test req then [] else [''requirement `'' @ rq_id req @ ''` is implemented but requires_test=false''])
           @ (if rq_tests req = [] then [''requirement `'' @ rq_id req @ ''` is implemented but lists no backing tests''] else [])
           @ map (\<lambda>t. ''requirement `'' @ rq_id req @ ''` names test `'' @ t @ ''` but no such #[test]/proptest fn exists'')
               (filter (\<lambda>t. t \<notin> set test_fns) (rq_tests req))
      else if rq_status req = ''intended''
      then (if requires_test req then [''requirement `'' @ rq_id req @ ''` is intended (no code) but requires_test=true''] else [])
           @ (if rq_tests req \<noteq> [] then [''requirement `'' @ rq_id req @ ''` is intended but lists backing tests''] else [])
      else [''requirement `'' @ rq_id req @ ''` has unknown status '' @ debug_str (rq_status req) @ '' (want implemented|intended)''])"

record repo =
  rp_reqs :: "string + Requirement list"
  rp_rs :: "entry list"
  rp_tex :: "entry list"
  rp_spec :: "string option"

definition lint_errors :: "regexes \<Rightarrow> Requirement list \<Rightarrow> string list \<Rightarrow> string list \<Rightarrow> string \<Rightarrow> string list" where
  "lint_errors R reqs rs_files tex_files spec_tex =
     reference_errors (refs_all R rs_files tex_files) (map rq_id reqs)
     @ concat (map (test_errors (collect_test_fns R rs_files)) reqs)
     @ lint_blur_guard R reqs spec_tex"

definition lint :: "regexes \<Rightarrow> repo \<Rightarrow> string + unit" where
  "lint R rp =
     and_then (rp_reqs rp) (\<lambda>reqs.
     and_then (read_all (collect_files ''rs'' (rp_rs rp))) (\<lambda>rs_files.
     and_then (read_all (collect_files ''tex'' (rp_tex rp))) (\<lambda>tex_files.
       (let errors = lint_errors R reqs rs_files tex_files (unwrap_or (rp_spec rp) [])
        in if errors = [] then Inr () else Inl (str_of (dec_nat (length errors)) @ '' traceability error(s)'')))))"

text \<open>The summary of a clean run: requirements done and in all, per phase.\<close>

definition count_phase :: "Requirement \<Rightarrow> (u32 \<rightharpoonup> nat \<times> nat) \<Rightarrow> (u32 \<rightharpoonup> nat \<times> nat)" where
  "count_phase r m =
     (let (done_n, total_n) = unwrap_or (m (rq_phase r)) (0, 0)
      in m(rq_phase r \<mapsto> (if rq_status r = ''implemented'' then done_n + 1 else done_n, total_n + 1)))"

definition by_phase :: "Requirement list \<Rightarrow> (u32 \<rightharpoonup> nat \<times> nat)" where
  "by_phase reqs = fold count_phase reqs Map.empty"

definition burndown :: "Requirement list \<Rightarrow> string list" where
  "burndown reqs =
     map (\<lambda>p. case unwrap_or (by_phase reqs p) (0, 0) of
            (done_n, total_n) \<Rightarrow> ''P'' @ str_of (fmt_u64 p) @ '': '' @ str_of (dec_nat done_n) @ ''/'' @ str_of (dec_nat total_n))
       (sort (remdups (map rq_phase reqs)))"

section \<open>Balanced braces\<close>

inductive balanced :: "string \<Rightarrow> bool" where
  nil: "balanced []"
| plain: "c \<noteq> CHR ''{'' \<Longrightarrow> c \<noteq> CHR ''}'' \<Longrightarrow> balanced w \<Longrightarrow> balanced (c # w)"
| nest: "balanced u \<Longrightarrow> balanced w \<Longrightarrow> balanced (CHR ''{'' # u @ CHR ''}'' # w)"

lemma scan_balanced: "balanced w \<Longrightarrow> 0 < d \<Longrightarrow> brace_scan d i (w @ cs) = brace_scan d (i + length w) cs"
proof (induction arbitrary: d i cs rule: balanced.induct)
  case (nest u w)
  have "brace_scan (d + 1) (i + 1) (u @ CHR ''}'' # w @ cs) = brace_scan (d + 1) (i + 1 + length u) (CHR ''}'' # w @ cs)"
    by (rule nest.IH(1)) simp
  then show ?case using nest.IH(2) [of d "i + 2 + length u" cs] nest.prems by (simp add: add.assoc)
qed simp_all

text \<open>What a scan at depth \<open>d\<close> has passed when it stops: \<open>d\<close> balanced pieces, each closing one level.\<close>

lemma scan_pieces:
  "brace_scan d i cs = Some k \<Longrightarrow> 0 < d \<Longrightarrow>
   \<exists>us post. length us = d \<and> list_all balanced us \<and> cs = join CHR ''}'' us @ CHR ''}'' # post \<and> k = i + length (join CHR ''}'' us)"
proof (induction d i cs rule: brace_scan.induct)
  case (2 d i c cs)
  consider (deeper) "c = CHR ''{''" | (last) "c = CHR ''}''" "d = 1" | (closing) "c = CHR ''}''" "1 < d" | (other) "c \<noteq> CHR ''{''" "c \<noteq> CHR ''}''"
    using "2.prems"(2) by (cases "d = 1") auto
  then show ?case
  proof cases
    case deeper
    then obtain us post where us: "length us = d + 1" "list_all balanced us" "cs = join CHR ''}'' us @ CHR ''}'' # post"
      "k = i + 1 + length (join CHR ''}'' us)" using 2 by auto
    then obtain u1 u2 vs where v: "us = u1 # u2 # vs" using "2.prems"(2) by (cases us; cases "tl us") auto
    let ?us = "(CHR ''{'' # u1 @ CHR ''}'' # u2) # vs"
    have "join CHR ''}'' ?us = CHR ''{'' # join CHR ''}'' us" by (cases vs) (simp_all add: v)
    then show ?thesis using us v deeper by (intro exI [of _ ?us] exI [of _ post]) (auto intro: balanced.nest)
  next
    case last
    then show ?thesis using "2.prems" by (intro exI [of _ "[[]]"]) (auto intro: balanced.nil)
  next
    case closing
    then obtain us post where us: "length us = d - 1" "list_all balanced us" "cs = join CHR ''}'' us @ CHR ''}'' # post"
      "k = i + 1 + length (join CHR ''}'' us)" using 2 by auto
    have "join CHR ''}'' ([] # us) = CHR ''}'' # join CHR ''}'' us" using us(1) closing by (cases us) auto
    then show ?thesis using us closing by (intro exI [of _ "[] # us"] exI [of _ post]) (auto intro: balanced.nil)
  next
    case other
    then obtain us post where us: "length us = d" "list_all balanced us" "cs = join CHR ''}'' us @ CHR ''}'' # post"
      "k = i + 1 + length (join CHR ''}'' us)" using 2 by auto
    then obtain u vs where v: "us = u # vs" using "2.prems"(2) by (cases us) auto
    have "join CHR ''}'' ((c # u) # vs) = c # join CHR ''}'' us" by (cases vs) (simp_all add: v)
    then show ?thesis using us v other by (intro exI [of _ "(c # u) # vs"] exI [of _ post]) (auto intro: balanced.plain)
  qed
qed simp

lemma find_matching_brace_iff:
  "find_matching_brace tex opn = Some k \<longleftrightarrow>
   (\<exists>pre w post. tex = pre @ CHR ''{'' # w @ CHR ''}'' # post \<and> length pre = opn \<and> balanced w \<and> k = opn + length w + 1)"
proof
  assume "find_matching_brace tex opn = Some k"
  then have o: "opn < length tex" "tex ! opn = CHR ''{''" and "brace_scan 0 opn (drop opn tex) = Some k"
    by (auto simp: find_matching_brace_def split: if_splits)
  moreover have d: "drop opn tex = CHR ''{'' # drop (opn + 1) tex" using Cons_nth_drop_Suc [OF o(1)] o(2) by simp
  ultimately have "brace_scan 1 (opn + 1) (drop (opn + 1) tex) = Some k" by simp
  from scan_pieces [OF this] obtain w post where "balanced w" "drop (opn + 1) tex = w @ CHR ''}'' # post" "k = opn + 1 + length w"
    by (auto simp: length_Suc_conv)
  moreover have "tex = take opn tex @ CHR ''{'' # drop (opn + 1) tex" using d by (metis append_take_drop_id)
  ultimately show "\<exists>pre w post. tex = pre @ CHR ''{'' # w @ CHR ''}'' # post \<and> length pre = opn \<and> balanced w \<and> k = opn + length w + 1"
    using o(1) by (intro exI [of _ "take opn tex"] exI [of _ w] exI [of _ post]) simp
next
  assume "\<exists>pre w post. tex = pre @ CHR ''{'' # w @ CHR ''}'' # post \<and> length pre = opn \<and> balanced w \<and> k = opn + length w + 1"
  then obtain pre w post where "tex = pre @ CHR ''{'' # w @ CHR ''}'' # post" "length pre = opn" "balanced w" "k = opn + length w + 1" by blast
  then show "find_matching_brace tex opn = Some k"
    using scan_balanced [of w 1 "opn + 1" "CHR ''}'' # post"] by (auto simp: find_matching_brace_def nth_append)
qed

section \<open>Macro ranges\<close>

lemma find_sub_Some: "find_sub pat xs = Some k \<Longrightarrow> \<exists>ys. drop k xs = pat @ ys"
  by (induction pat xs arbitrary: k rule: find_sub.induct)
     (auto simp: starts_with_def strip_prefix_Some split: if_splits)

text \<open>One turn of the loop.\<close>

lemma macro_ranges_stop:
  "find_sub (BS # name @ ''{'') (drop from tex) = None \<Longrightarrow> macro_ranges tex name from = []"
  "find_sub (BS # name @ ''{'') (drop from tex) = Some rel \<Longrightarrow> find_matching_brace tex (from + rel + length name + 1) = None
   \<Longrightarrow> macro_ranges tex name from = []"
  by (simp_all add: macro_ranges.simps [of tex name "from"])

lemma macro_ranges_turn:
  "find_sub (BS # name @ ''{'') (drop from tex) = Some rel \<Longrightarrow> find_matching_brace tex (from + rel + length name + 1) = Some k
   \<Longrightarrow> macro_ranges tex name from = (from + rel + length name + 2, k) # macro_ranges tex name (k + 1)"
  by (simp add: macro_ranges.simps [of tex name "from"])

lemma macro_ranges_induct [case_names stop turn]:
  assumes stop: "\<And>from. macro_ranges tex name from = [] \<Longrightarrow> P from"
    and turn: "\<And>from rel k. find_sub (BS # name @ ''{'') (drop from tex) = Some rel
      \<Longrightarrow> find_matching_brace tex (from + rel + length name + 1) = Some k
      \<Longrightarrow> macro_ranges tex name from = (from + rel + length name + 2, k) # macro_ranges tex name (k + 1)
      \<Longrightarrow> P (k + 1) \<Longrightarrow> P from"
  shows "P from"
proof (induction "length tex - from" arbitrary: "from" rule: less_induct)
  case less
  show ?case
  proof (cases "find_sub (BS # name @ ''{'') (drop from tex)")
    case None
    then show ?thesis by (intro stop macro_ranges_stop(1))
  next
    case (Some rel)
    show ?thesis
    proof (cases "find_matching_brace tex (from + rel + length name + 1)")
      case None
      then show ?thesis using Some by (intro stop macro_ranges_stop(2))
    next
      case k: (Some k)
      have "length tex - (k + 1) < length tex - from" using find_matching_brace_bounds [OF k] by auto
      from turn [OF Some k macro_ranges_turn [OF Some k] less [OF this]] show ?thesis .
    qed
  qed
qed

lemma macro_ranges_sound:
  "(s, e) \<in> set (macro_ranges tex name from) \<Longrightarrow>
   from \<le> s \<and> s \<le> e \<and> e < length tex \<and> tex ! e = CHR ''}'' \<and> balanced (take (e - s) (drop s tex))
   \<and> (\<exists>p. s = p + length name + 2 \<and> take (length name + 2) (drop p tex) = BS # name @ ''{'')"
proof (induction "from" rule: macro_ranges_induct [of tex name])
  case (turn "from" rel k)
  let ?needle = "BS # name @ ''{''"
  obtain pre w post where t: "tex = pre @ CHR ''{'' # w @ CHR ''}'' # post" "length pre = from + rel + length name + 1" "balanced w"
    "k = from + rel + length name + 1 + length w + 1" using turn(2) unfolding find_matching_brace_iff by auto
  from turn(5) turn(3) consider "s = from + rel + length name + 2" "e = k" | "(s, e) \<in> set (macro_ranges tex name (k + 1))" by auto
  then show ?case
  proof cases
    case 1
    obtain ys where "drop (rel + from) tex = ?needle @ ys" using find_sub_Some [OF turn(1)] by auto
    then have "take (length name + 2) (drop (from + rel) tex) = ?needle" by (simp add: add.commute)
    moreover have "take (e - s) (drop s tex) = w" "tex ! e = CHR ''}''" using t 1 by (simp_all add: nth_append)
    ultimately show ?thesis using t 1 by (intro conjI exI [of _ "from + rel"]) auto
  next
    case 2
    then show ?thesis using turn(4) t(4) by auto
  qed
qed simp

lemma macro_ranges_ordered: "sorted_wrt (\<lambda>(s, e) (s', e'). e < s') (macro_ranges tex name from)"
proof (induction "from" rule: macro_ranges_induct [of tex name])
  case (turn "from" rel k)
  then show ?case by (auto dest!: macro_ranges_sound)
qed simp

text \<open>An opening brace inside balanced text is closed inside it.\<close>

lemma balanced_inner:
  "balanced w \<Longrightarrow> w = a @ CHR ''{'' # b \<Longrightarrow> \<exists>u c. b = u @ CHR ''}'' # c \<and> balanced u"
proof (induction arbitrary: a b rule: balanced.induct)
  case (plain x w)
  then obtain a' where "w = a' @ CHR ''{'' # b" by (cases a) auto
  then show ?case by (rule plain.IH)
next
  case (nest u w)
  show ?case
  proof (cases a)
    case Nil
    then show ?thesis using nest by auto
  next
    case (Cons x a')
    then have "u @ CHR ''}'' # w = a' @ CHR ''{'' # b" using nest.prems by simp
    then consider us where "u = a' @ CHR ''{'' # us" "b = us @ CHR ''}'' # w" | us where "w = us @ CHR ''{'' # b"
      by (auto simp: append_eq_append_conv2 Cons_eq_append_conv append_eq_Cons_conv)
    then show ?thesis
    proof cases
      case 1
      then obtain v c where "us = v @ CHR ''}'' # c" "balanced v" using nest.IH(1) by blast
      then show ?thesis using 1 by (intro exI [of _ v] exI [of _ "c @ CHR ''}'' # w"]) simp
    next
      case 2
      then show ?thesis by (rule nest.IH(2))
    qed
  qed
qed simp

section \<open>Arguments of a macro\<close>

definition occurs_at :: "string \<Rightarrow> string \<Rightarrow> nat \<Rightarrow> bool" where
  "occurs_at pat tex p \<longleftrightarrow> (\<exists>ys. drop p tex = pat @ ys)"

text \<open>The argument of an occurrence of \<open>\name\<close> covers the position; every occurrence has its closing brace.\<close>

definition within_macro :: "string \<Rightarrow> string \<Rightarrow> nat \<Rightarrow> bool" where
  "within_macro tex name pos \<longleftrightarrow>
     (\<exists>p e. occurs_at (BS # name @ ''{'') tex p \<and> find_matching_brace tex (p + length name + 1) = Some e
       \<and> p + length name + 2 \<le> pos \<and> pos < e)"

definition macros_closed :: "string \<Rightarrow> string \<Rightarrow> bool" where
  "macros_closed tex name \<longleftrightarrow>
     (\<forall>p. occurs_at (BS # name @ ''{'') tex p \<longrightarrow> find_matching_brace tex (p + length name + 1) \<noteq> None)"

lemma find_sub_least: "find_sub pat xs = Some k \<Longrightarrow> occurs_at pat xs p \<Longrightarrow> k \<le> p"
proof (induction pat xs arbitrary: k p rule: find_sub.induct)
  case (2 pat x xs)
  then show ?case by (cases p) (auto simp: occurs_at_def starts_with_iff split: if_splits)
qed (auto split: if_splits)

lemma find_sub_None: "find_sub pat xs = None \<Longrightarrow> \<not> occurs_at pat xs p"
proof (induction pat xs arbitrary: p rule: find_sub.induct)
  case (2 pat x xs)
  then show ?case by (cases p) (auto simp: occurs_at_def starts_with_iff split: if_splits)
qed (auto simp: occurs_at_def split: if_splits)

lemma occurs_at_drop: "n \<le> p \<Longrightarrow> occurs_at pat tex p \<longleftrightarrow> occurs_at pat (drop n tex) (p - n)"
  by (simp add: occurs_at_def)

text \<open>Closing braces nest.\<close>

lemma find_matching_brace_nested:
  assumes "find_matching_brace tex opn = Some k" "opn < j" "j < k" "tex ! j = CHR ''{''"
  shows "\<exists>e. find_matching_brace tex j = Some e \<and> e < k"
proof -
  obtain pre w post where t: "tex = pre @ CHR ''{'' # w @ CHR ''}'' # post" "length pre = opn" "balanced w" "k = opn + length w + 1"
    using assms(1) unfolding find_matching_brace_iff by auto
  define i where "i = j - opn - 1"
  have j: "j = opn + 1 + i" using assms(2) by (simp add: i_def)
  then have i: "i < length w" "w ! i = CHR ''{''" using assms(3,4) t by (auto simp: nth_append)
  then have w: "w = take i w @ CHR ''{'' # drop (Suc i) w" by (metis id_take_nth_drop)
  then obtain u c where u: "drop (Suc i) w = u @ CHR ''}'' # c" "balanced u" using balanced_inner [OF t(3)] by blast
  have "find_matching_brace tex j = Some (j + length u + 1)"
    unfolding find_matching_brace_iff
  proof (intro exI conjI)
    show "tex = (pre @ CHR ''{'' # take i w) @ CHR ''{'' # u @ CHR ''}'' # (c @ CHR ''}'' # post)"
      using t(1) w u(1) by simp
    show "length (pre @ CHR ''{'' # take i w) = j" using t(2) i assms(2) by (simp add: i_def)
  qed (use u in auto)
  moreover have "i + 1 + length u + 1 + length c = length w" using arg_cong [OF u(1), of length] i by simp
  ultimately show ?thesis using t(4) assms(2) by (auto simp: i_def)
qed

lemma macro_ranges_cover:
  assumes closed: "macros_closed tex name" and name: "CHR ''}'' \<notin> set name"
    and p: "occurs_at (BS # name @ ''{'') tex p" and e: "find_matching_brace tex (p + length name + 1) = Some e"
  shows "from \<le> p \<Longrightarrow> \<exists>(s, e') \<in> set (macro_ranges tex name from). s \<le> p + length name + 2 \<and> e \<le> e'"
proof (induction "from" rule: macro_ranges_induct [of tex name])
  case (stop "from")
  show ?case
  proof (cases "find_sub (BS # name @ ''{'') (drop from tex)")
    case None
    then show ?thesis using find_sub_None occurs_at_drop [OF stop(2)] p by blast
  next
    case (Some rel)
    then have "occurs_at (BS # name @ ''{'') tex (from + rel)"
      using find_sub_Some [OF Some] by (auto simp: occurs_at_def add.commute)
    then obtain k where "find_matching_brace tex (from + rel + length name + 1) = Some k" using closed by (auto simp: macros_closed_def)
    from macro_ranges_turn [OF Some this] show ?thesis using stop(1) by simp
  qed
next
  case (turn "from" rel k)
  have le: "from + rel \<le> p" using find_sub_least [OF turn(1)] occurs_at_drop [OF turn(5)] p turn(5) by fastforce
  consider "p = from + rel" | "from + rel < p" "k + 1 \<le> p" | "from + rel < p" "p \<le> k" using le by linarith
  then show ?case
  proof cases
    case 1
    then show ?thesis using turn(2,3) e by auto
  next
    case 2
    then show ?thesis using turn(3,4) by auto
  next
    case 3
    obtain ys where ys: "drop p tex = (BS # name @ ''{'') @ ys" using p by (auto simp: occurs_at_def)
    have nth: "tex ! (p + i) = (BS # name @ ''{'') ! i" if "i < length name + 2" for i
    proof -
      have "p < length tex" using ys by (cases "p < length tex") auto
      then have "tex ! (p + i) = drop p tex ! i" by simp
      also have "\<dots> = (BS # name @ ''{'') ! i" unfolding ys using that by (subst nth_append) simp
      finally show ?thesis .
    qed
    have "tex ! k = CHR ''}''" using turn(2) unfolding find_matching_brace_iff by (auto simp: nth_append)
    moreover have "CHR ''}'' \<notin> set (BS # name @ ''{'')" using name by simp
    ultimately have "\<not> k - p < length name + 2" using nth [of "k - p"] 3(2)
      by (metis add_diff_inverse_nat length_Cons length_append list.size(3) not_le nth_mem add_2_eq_Suc' add.right_neutral add_Suc_right le_add_diff_inverse)
    then have "p + length name + 1 < k" by simp
    moreover have "tex ! (p + length name + 1) = CHR ''{''" using nth [of "length name + 1"] by (simp add: nth_append)
    ultimately have "e < k" using find_matching_brace_nested [OF turn(2), of "p + length name + 1"] 3(1) e by auto
    then show ?thesis using turn(3) 3(1) by auto
  qed
qed

lemma position_in_ranges_iff:
  assumes "macros_closed tex name" "CHR ''}'' \<notin> set name"
  shows "position_in_ranges pos (find_macro_content_ranges tex name) \<longleftrightarrow> within_macro tex name pos"
proof
  assume "position_in_ranges pos (find_macro_content_ranges tex name)"
  then obtain s e where r: "(s, e) \<in> set (macro_ranges tex name 0)" "s \<le> pos" "pos < e"
    by (auto simp: position_in_ranges_def find_macro_content_ranges_def list_ex_iff)
  from macro_ranges_sound [OF r(1)] obtain p where s: "s = p + length name + 2" and o: "take (length name + 2) (drop p tex) = BS # name @ ''{''"
    and b: "e < length tex" "s \<le> e" "tex ! e = CHR ''}''" "balanced (take (e - s) (drop s tex))" by auto
  have o': "drop p tex = (BS # name @ ''{'') @ drop (length name + 2) (drop p tex)" using o by (metis append_take_drop_id)
  have "tex = take p tex @ drop p tex" by simp
  also have "\<dots> = (take p tex @ BS # name) @ CHR ''{'' # drop s tex" by (subst o') (simp add: s add.commute)
  also have "drop s tex = take (e - s) (drop s tex) @ drop (e - s) (drop s tex)" by (rule append_take_drop_id [symmetric])
  also have "drop (e - s) (drop s tex) = CHR ''}'' # drop (Suc e) tex" using b Cons_nth_drop_Suc [OF b(1)] by simp
  finally have t: "tex = (take p tex @ BS # name) @ CHR ''{'' # take (e - s) (drop s tex) @ CHR ''}'' # drop (Suc e) tex" by simp
  have "length (take p tex @ BS # name) = p + length name + 1" using b s by simp
  moreover have "e = (p + length name + 1) + length (take (e - s) (drop s tex)) + 1" using b s by simp
  ultimately have "find_matching_brace tex (p + length name + 1) = Some e"
    unfolding find_matching_brace_iff using t b(4) by blast
  then show "within_macro tex name pos" using o' s r unfolding within_macro_def occurs_at_def by blast
next
  assume "within_macro tex name pos"
  then obtain p e where "occurs_at (BS # name @ ''{'') tex p" "find_matching_brace tex (p + length name + 1) = Some e"
    "p + length name + 2 \<le> pos" "pos < e" by (auto simp: within_macro_def)
  moreover from this(1,2) obtain s e' where "(s, e') \<in> set (macro_ranges tex name 0)" "s \<le> p + length name + 2" "e \<le> e'"
    using macro_ranges_cover [OF assms, of p e 0] by blast
  ultimately show "position_in_ranges pos (find_macro_content_ranges tex name)"
    by (auto simp: position_in_ranges_def find_macro_content_ranges_def list_ex_iff intro!: bexI [of _ "(s, e')"])
qed

section \<open>The placement of references\<close>

lemma place_req_fold:
  "fold (place_req ranges) caps m i =
     (let m0 = (case m i of Some p \<Rightarrow> p | None \<Rightarrow> (False, False));
          hits = filter (\<lambda>c. snd c = i) caps
      in if m i = None \<and> hits = [] then None
         else Some (fst m0 \<or> list_ex (\<lambda>c. \<not> position_in_ranges (fst c) ranges) hits,
                    snd m0 \<or> list_ex (\<lambda>c. position_in_ranges (fst c) ranges) hits))"
proof (induction caps arbitrary: m)
  case Nil
  then show ?case by (auto split: option.splits)
next
  case (Cons c caps)
  obtain pos j where c: "c = (pos, j)" by (cases c)
  show ?case unfolding fold_simps o_apply Cons.IH
    by (auto simp: c place_req_def Let_def split: option.splits prod.splits)
qed

text \<open>The marks of a requirement: some reference stands outside, some inside the intent macro.\<close>

lemma spec_req_placement_eq:
  fixes R tex
  defines "t \<equiv> strip_tex_comments tex"
  assumes "macros_closed t ''intent''"
  shows "(case spec_req_placement R tex i of Some p \<Rightarrow> p | None \<Rightarrow> (False, False)) =
     ((\<exists>pos. (pos, i) \<in> set (req_re R t) \<and> \<not> within_macro t ''intent'' pos),
      (\<exists>pos. (pos, i) \<in> set (req_re R t) \<and> within_macro t ''intent'' pos))"
proof -
  have w: "position_in_ranges pos (find_macro_content_ranges t ''intent'') = within_macro t ''intent'' pos" for pos
    by (rule position_in_ranges_iff [OF assms(2)]) simp
  show ?thesis
    unfolding spec_req_placement_def Let_def t_def [symmetric] place_req_fold w
    by (force simp: list_ex_iff filter_empty_conv)
qed

text \<open>What the lint asks of one requirement.\<close>

definition traced :: "regexes \<Rightarrow> string list \<Rightarrow> string \<Rightarrow> Requirement \<Rightarrow> bool" where
  "traced R rs_files t r \<longleftrightarrow>
     (rq_status r = ''implemented'' \<and> requires_test r \<and> rq_tests r \<noteq> [] \<and> set (rq_tests r) \<subseteq> set (collect_test_fns R rs_files)
        \<and> (\<exists>pos. (pos, rq_id r) \<in> set (req_re R t) \<and> \<not> within_macro t ''intent'' pos))
   \<or> (rq_status r = ''intended'' \<and> \<not> requires_test r \<and> rq_tests r = []
        \<and> (\<exists>pos. (pos, rq_id r) \<in> set (req_re R t))
        \<and> (\<forall>pos. (pos, rq_id r) \<in> set (req_re R t) \<longrightarrow> within_macro t ''intent'' pos))"

lemma test_and_blur_clean:
  assumes "macros_closed (strip_tex_comments tex) ''intent''"
  shows "test_errors (collect_test_fns R rs_files) r = [] \<and> blur_errors (spec_req_placement R tex) r = []
     \<longleftrightarrow> traced R rs_files (strip_tex_comments tex) r"
  unfolding test_errors_def blur_errors_def spec_req_placement_eq [OF assms] traced_def Let_def prod.case
  by (auto simp: filter_empty_conv)

lemma set_difference_Nil: "set_difference xs ys = [] \<longleftrightarrow> set xs \<subseteq> set ys"
  by (simp add: set_difference_def flip: set_empty) auto

lemma lint_errors_Nil:
  assumes "macros_closed (strip_tex_comments tex) ''intent''"
  shows "lint_errors R reqs rs_files tex_files tex = [] \<longleftrightarrow>
     set (refs_all R rs_files tex_files) = rq_id ` set reqs \<and> (\<forall>r\<in>set reqs. traced R rs_files (strip_tex_comments tex) r)"
  by (auto simp: lint_errors_def reference_errors_def set_difference_Nil lint_blur_guard_def
        test_and_blur_clean [OF assms, symmetric])

section \<open>The burndown\<close>

lemma count_phase_fold:
  "unwrap_or (fold count_phase reqs m p) (0, 0) =
     (fst (unwrap_or (m p) (0, 0)) + length (filter (\<lambda>r. rq_phase r = p \<and> rq_status r = ''implemented'') reqs),
      snd (unwrap_or (m p) (0, 0)) + length (filter (\<lambda>r. rq_phase r = p) reqs))"
  by (induction reqs arbitrary: m) (auto simp: count_phase_def unwrap_or_def Let_def split: prod.splits)

text \<open>Every requirement is counted once, in its phase.\<close>

lemma by_phase_counts:
  "unwrap_or (by_phase reqs p) (0, 0) =
     (length (filter (\<lambda>r. rq_phase r = p \<and> rq_status r = ''implemented'') reqs), length (filter (\<lambda>r. rq_phase r = p) reqs))"
  using count_phase_fold [of reqs Map.empty p] by (simp add: by_phase_def unwrap_or_def)

lemma by_phase_total: "(\<Sum>p\<in>rq_phase ` set reqs. snd (unwrap_or (by_phase reqs p) (0, 0))) = length reqs"
proof -
  have "(\<Sum>p\<in>rq_phase ` set reqs. length (filter (\<lambda>r. rq_phase r = p) reqs)) = length reqs" (is "?f reqs = _")
  proof (induction reqs)
    case (Cons r reqs)
    let ?A = "rq_phase ` set reqs" and ?g = "\<lambda>p. length (filter (\<lambda>r. rq_phase r = p) reqs)"
    have "(\<Sum>p\<in>insert (rq_phase r) ?A. ?g p) = (\<Sum>p\<in>?A. ?g p)"
      by (rule sum.mono_neutral_right) (auto simp: filter_empty_conv)
    moreover have "(\<Sum>p\<in>insert (rq_phase r) ?A. if rq_phase r = p then 1 else 0) = (1 :: nat)" by (simp add: sum.delta')
    moreover have "length (filter (\<lambda>r'. rq_phase r' = p) (r # reqs)) = (if rq_phase r = p then 1 else 0) + ?g p" for p by simp
    ultimately show ?case using Cons by (simp only: list.set image_insert sum.distrib length_Cons)
  qed simp
  then show ?thesis by (simp add: by_phase_counts)
qed

text \<open>A requirement declared twice is not an error.\<close>

lemma lint_duplicates:
  "macros_closed (strip_tex_comments tex) ''intent'' \<Longrightarrow>
   lint_errors R (reqs @ reqs) rs_files tex_files tex = [] \<longleftrightarrow> lint_errors R reqs rs_files tex_files tex = []"
  by (simp add: lint_errors_Nil)


lemma macros_closed_code:
  "macros_closed tex name \<longleftrightarrow>
     list_all (\<lambda>p. starts_with (BS # name @ ''{'') (drop p tex) \<longrightarrow> find_matching_brace tex (p + length name + 1) \<noteq> None) [0..<length tex]"
proof -
  have "p < length tex" if "occurs_at (BS # name @ ''{'') tex p" for p
    using that by (cases "p < length tex") (auto simp: occurs_at_def)
  then show ?thesis by (auto simp: macros_closed_def list_all_iff starts_with_iff occurs_at_def)
qed

definition sample_req_re :: "string \<Rightarrow> (nat \<times> string) list" where
  "sample_req_re t =
     concat (map (\<lambda>p. if starts_with (BS # ''req{'') (drop p t)
                      then (case find_sub ''}'' (drop (p + 5) t) of Some (Suc n) \<Rightarrow> [(p, take (Suc n) (drop (p + 5) t))] | _ \<Rightarrow> [])
                      else []) [0..<length t])"

definition sample_regexes :: regexes where
  "sample_regexes =
     \<lparr>req_re = sample_req_re, id_re = (\<lambda>t. if str_contains t ''ALG-1'' then [''ALG-1''] else []),
      test_attr = (\<lambda>t. if str_contains t ''#[test]fn a()'' then [''a''] else []), any_fn = (\<lambda>t. [])\<rparr>"

definition sample_spec :: string where
  "sample_spec = BS # ''req{ALG-1}'' @ BS # ''intent{x'' @ BS # ''req{ALG-2}}'' @ [NL]"

definition sample_reqs :: "Requirement list" where
  "sample_reqs =
     [\<lparr>rq_id = ''ALG-1'', rq_kind = ''alg'', rq_status = ''implemented'', rq_phase = 0, rq_section = ''1'', rq_summary = [],
       requires_test = True, rq_tests = [''a'']\<rparr>,
      \<lparr>rq_id = ''ALG-2'', rq_kind = ''alg'', rq_status = default_status, rq_phase = 1, rq_section = ''2'', rq_summary = [],
       requires_test = False, rq_tests = []\<rparr>]"

definition sample_repo :: repo where
  "sample_repo =
     \<lparr>rp_reqs = Inr sample_reqs,
      rp_rs = [DirE ''src'' [FileE ''l.rs'' (Inr ''ALG-1 #[test]fn a()''), FileE ''l.md'' (Inl ''unread'')], DirE ''target'' [FileE ''x.rs'' (Inl ''unread'')]],
      rp_tex = [FileE ''s.tex'' (Inr sample_spec)], rp_spec = Some sample_spec\<rparr>"

lemma sample_lint: "lint sample_regexes sample_repo = Inr ()"
  by code_simp


end
