(* ===== verification/Gen.thy ===== *)
theory Gen
  imports Lint "HOL-Library.Product_Lexorder"
begin

text \<open>
  Generation of the derived files (\<open>xtask/src/main.rs\<close>, \<open>gen\<close>): parameters to Rust constants and a LaTeX table,
  requirements to the conformance matrix.  The disk is a map from paths to contents with a log of the writes.  The TOML
  decoder and the shortest decimal form of a floating-point number are parameters; names are ASCII.
\<close>

section \<open>Inputs\<close>

datatype toml_value =
    TString string | TInteger "64 word" | TFloat f64 | TBoolean bool | TDatetime string
  | TArray "toml_value list" | TTable "(string \<times> toml_value) list"

definition PARAMS :: string where "PARAMS = ''design/demiurge.params.toml''"

record disk =
  files :: "string \<rightharpoonup> string"
  writes :: "string list"

record gen_env =
  ge_table :: "string \<Rightarrow> string + (string \<times> toml_value) list"
  ge_reqs :: "string \<Rightarrow> string + Requirement list"
  ge_display :: "f64 \<Rightarrow> string"
  ge_dir_ok :: "string \<Rightarrow> bool"
  ge_write_ok :: "string \<Rightarrow> bool"

definition read_to_string :: "disk \<Rightarrow> string \<Rightarrow> string + string" where
  "read_to_string d path = (case files d path of Some t \<Rightarrow> Inr t | None \<Rightarrow> Inl ''No such file or directory'')"

definition write_if_changed :: "gen_env \<Rightarrow> string \<Rightarrow> string \<Rightarrow> disk \<Rightarrow> (string + unit) \<times> disk" where
  "write_if_changed E path contents d =
     (if \<not> ge_dir_ok E path then (Inl ''create_dir_all'', d)
      else (let prev = unwrap_or (files d path) []
            in if prev \<noteq> contents
               then (if ge_write_ok E path then (Inr (), d\<lparr>files := (files d)(path \<mapsto> contents), writes := writes d @ [path]\<rparr>)
                     else (Inl ''write'', d))
               else (Inr (), d)))"

section \<open>Constants and table rows\<close>

definition to_uppercase :: "string \<Rightarrow> string" where
  "to_uppercase s = map (\<lambda>c. if 97 \<le> (of_char c :: nat) \<and> (of_char c :: nat) \<le> 122 then char_of ((of_char c :: nat) - 32) else c) s"

definition fmt_i64 :: "64 word \<Rightarrow> string" where
  "fmt_i64 w = (if sint w < 0 then ''-'' else []) @ str_of (dec_nat (nat \<bar>sint w\<bar>))"

definition fmt_float :: "gen_env \<Rightarrow> f64 \<Rightarrow> string" where
  "fmt_float E f =
     (let s = ge_display E f
      in if CHR ''.'' \<notin> set s \<and> CHR ''e'' \<notin> set s then s @ ''.0'' else s)"

definition fmt_bool :: "bool \<Rightarrow> string" where
  "fmt_bool b = (if b then ''true'' else ''false'')"

text \<open>Type and literal of a value; strings, dates, arrays and tables are skipped.\<close>

fun param_literal :: "gen_env \<Rightarrow> toml_value \<Rightarrow> (string \<times> string) option" where
  "param_literal E (TInteger i) = Some (''u64'', fmt_i64 i)"
| "param_literal E (TFloat f) = Some (''f64'', fmt_float E f)"
| "param_literal E (TBoolean b) = Some (''bool'', fmt_bool b)"
| "param_literal E _ = None"

fun group_params :: "string \<times> toml_value \<Rightarrow> (string \<times> string \<times> toml_value) list" where
  "group_params (g, TTable t) = map (\<lambda>(k, v). (g, k, v)) t"
| "group_params (g, _) = []"

definition table_params :: "gen_env \<Rightarrow> (string \<times> toml_value) list \<Rightarrow> (string \<times> string \<times> string \<times> string) list" where
  "table_params E table =
     List.map_filter (\<lambda>(g, k, v). map_option (\<lambda>(ty, lit). (g, k, ty, lit)) (param_literal E v)) (concat (map group_params table))"

definition gen_consts :: "gen_env \<Rightarrow> (string \<times> toml_value) list \<Rightarrow> (string \<times> string) list" where
  "gen_consts E table =
     sort (map (\<lambda>(g, k, ty, lit). (to_uppercase g @ ''_'' @ to_uppercase k, ty @ '' = '' @ lit)) (table_params E table))"

definition gen_tex_rows :: "gen_env \<Rightarrow> (string \<times> toml_value) list \<Rightarrow> (string \<times> string \<times> string) list" where
  "gen_tex_rows E table = sort (map (\<lambda>(g, k, ty, lit). (g, k, lit)) (table_params E table))"

section \<open>Rendered files\<close>

abbreviation EOL :: string where "EOL \<equiv> [NL]"
abbreviation BSBS :: string where "BSBS \<equiv> [BS, BS]"

definition table_end :: string where
  "table_end = BS # ''bottomrule'' @ EOL @ BS # ''end{tabular}'' @ EOL"

definition render_rs :: "(string \<times> string) list \<Rightarrow> string" where
  "render_rs consts =
     ''// @generated by `cargo xtask gen` from design/demiurge.params.toml. DO NOT EDIT.'' @ EOL
     @ ''#![allow(dead_code)]'' @ EOL @ EOL
     @ concat (map (\<lambda>(name, tylit). ''pub const '' @ name @ '': '' @ tylit @ '';'' @ EOL) consts)"

definition render_params_tex :: "(string \<times> string \<times> string) list \<Rightarrow> string" where
  "render_params_tex rows =
     ''% @generated by `cargo xtask gen` from design/demiurge.params.toml. DO NOT EDIT.'' @ EOL
     @ BS # ''begin{tabular}{lll}'' @ EOL @ BS # ''toprule'' @ EOL @ ''Group & Parameter & Value '' @ BSBS @ EOL @ BS # ''midrule'' @ EOL
     @ concat (map (\<lambda>(g, k, v). tex_escape g @ '' & '' @ tex_escape k @ '' & '' @ tex_escape v @ '' '' @ BSBS @ EOL) rows)
     @ table_end"

definition matrix_row :: "Requirement \<Rightarrow> string" where
  "matrix_row r =
     (let tests = (if rq_tests r = [] then ''--'' else str_of (dec_nat (length (rq_tests r))))
      in tex_escape (rq_id r) @ '' & P'' @ str_of (fmt_u64 (rq_phase r)) @ '' & '' @ tex_escape (rq_status r)
         @ '' & '' @ tex_escape (rq_kind r) @ '' & '' @ tex_escape (rq_section r) @ '' & '' @ tex_escape tests @ '' '' @ BSBS @ EOL)"

definition render_matrix :: "Requirement list \<Rightarrow> string" where
  "render_matrix reqs =
     ''% @generated by `cargo xtask gen` from design/requirements.toml. DO NOT EDIT.'' @ EOL
     @ BS # ''begin{tabular}{llllll}'' @ EOL @ BS # ''toprule'' @ EOL
     @ ''Requirement & Phase & Status & Kind & Spec '' @ BS # ''S & Tests '' @ BSBS @ EOL @ BS # ''midrule'' @ EOL
     @ concat (map matrix_row (sort_key rq_id reqs))
     @ table_end"

section \<open>The run\<close>

definition gen :: "gen_env \<Rightarrow> disk \<Rightarrow> (string + unit) \<times> disk" where
  "gen E d =
     (case and_then (read_to_string d PARAMS) (ge_table E) of
        Inl e \<Rightarrow> (Inl e, d)
      | Inr table \<Rightarrow>
          (case write_if_changed E RS_OUT (render_rs (gen_consts E table)) d of
             (Inl e, d1) \<Rightarrow> (Inl e, d1)
           | (Inr _, d1) \<Rightarrow>
               (case write_if_changed E PARAMS_TEX (render_params_tex (gen_tex_rows E table)) d1 of
                  (Inl e, d2) \<Rightarrow> (Inl e, d2)
                | (Inr _, d2) \<Rightarrow>
                    (case and_then (read_to_string d2 REQS) (ge_reqs E) of
                       Inl e \<Rightarrow> (Inl e, d2)
                     | Inr reqs \<Rightarrow> write_if_changed E MATRIX_TEX (render_matrix reqs) d2))))"

section \<open>Escaping\<close>

definition esc1 :: "char \<Rightarrow> string" where
  "esc1 c = (if c = BS then BS # ''textbackslash{}'' else if c \<in> {CHR ''_'', CHR ''%'', CHR ''&'', CHR ''#''} then [BS, c] else [c])"

text \<open>The five passes never touch what an earlier pass inserted.\<close>

lemma tex_escape_eq: "tex_escape s = concat (map esc1 s)"
  by (induction s) (simp_all add: tex_escape_def esc1_def)

interpretation tex: escape_code esc1
  by unfold_locales (auto simp: esc1_def split: if_splits)

lemma tex_escape_inj: "tex_escape s = tex_escape t \<Longrightarrow> s = t"
  unfolding tex_escape_eq by (rule tex.escaped_inj)

section \<open>Generation is idempotent\<close>

lemmas path_defs = PARAMS_def REQS_def RS_OUT_def PARAMS_TEX_def MATRIX_TEX_def

lemma paths_distinct [simp]:
  "PARAMS \<noteq> REQS" "PARAMS \<noteq> RS_OUT" "PARAMS \<noteq> PARAMS_TEX" "PARAMS \<noteq> MATRIX_TEX" "REQS \<noteq> RS_OUT" "REQS \<noteq> PARAMS_TEX" "REQS \<noteq> MATRIX_TEX"
  "RS_OUT \<noteq> PARAMS_TEX" "RS_OUT \<noteq> MATRIX_TEX" "PARAMS_TEX \<noteq> MATRIX_TEX"
  by (simp_all add: path_defs)

lemmas paths_distinct_sym [simp] = paths_distinct [symmetric]

lemma write_if_changed_ok:
  assumes "write_if_changed E path contents d = (Inr u, d')" "contents \<noteq> []"
  shows "files d' = (files d)(path \<mapsto> contents)" and "ge_dir_ok E path"
    and "writes d' = writes d @ (if files d path = Some contents then [] else [path])"
  using assms by (auto simp: write_if_changed_def unwrap_or_def Let_def fun_upd_idem_iff split: if_splits option.splits)

lemma write_if_changed_again: "ge_dir_ok E path \<Longrightarrow> files d path = Some contents \<Longrightarrow> write_if_changed E path contents d = (Inr (), d)"
  by (simp add: write_if_changed_def unwrap_or_def)

lemma write_if_changed_new:
  "ge_dir_ok E path \<Longrightarrow> ge_write_ok E path \<Longrightarrow> files d path = None \<Longrightarrow> contents \<noteq> []
   \<Longrightarrow> write_if_changed E path contents d = (Inr (), d\<lparr>files := (files d)(path \<mapsto> contents), writes := writes d @ [path]\<rparr>)"
  by (auto simp: write_if_changed_def unwrap_or_def)

lemma rendered_nonempty [simp]: "render_rs c \<noteq> []" "render_params_tex r \<noteq> []" "render_matrix q \<noteq> []"
  by (simp_all add: render_rs_def render_params_tex_def render_matrix_def)

lemma gen_ok:
  assumes "gen E d = (Inr u, d')"
  obtains ptext rtext table reqs where
    "files d PARAMS = Some ptext" "ge_table E ptext = Inr table" "files d REQS = Some rtext" "ge_reqs E rtext = Inr reqs"
    "files d' = (files d)(RS_OUT \<mapsto> render_rs (gen_consts E table), PARAMS_TEX \<mapsto> render_params_tex (gen_tex_rows E table),
       MATRIX_TEX \<mapsto> render_matrix reqs)"
    "writes d' = writes d @ (if files d RS_OUT = Some (render_rs (gen_consts E table)) then [] else [RS_OUT])
       @ (if files d PARAMS_TEX = Some (render_params_tex (gen_tex_rows E table)) then [] else [PARAMS_TEX])
       @ (if files d MATRIX_TEX = Some (render_matrix reqs) then [] else [MATRIX_TEX])"
    "\<forall>p\<in>{RS_OUT, PARAMS_TEX, MATRIX_TEX}. ge_dir_ok E p"
proof -
  from assms obtain table d1 d2 reqs u1 u2 where
    t: "and_then (read_to_string d PARAMS) (ge_table E) = Inr table"
    and w1: "write_if_changed E RS_OUT (render_rs (gen_consts E table)) d = (Inr u1, d1)"
    and w2: "write_if_changed E PARAMS_TEX (render_params_tex (gen_tex_rows E table)) d1 = (Inr u2, d2)"
    and r: "and_then (read_to_string d2 REQS) (ge_reqs E) = Inr reqs"
    and w3: "write_if_changed E MATRIX_TEX (render_matrix reqs) d2 = (Inr u, d')"
    by (auto simp: gen_def split: sum.splits prod.splits)
  obtain ptext where p: "files d PARAMS = Some ptext" "ge_table E ptext = Inr table"
    using t by (auto simp: read_to_string_def split: option.splits)
  obtain rtext where q: "files d2 REQS = Some rtext" "ge_reqs E rtext = Inr reqs"
    using r by (auto simp: read_to_string_def split: option.splits)
  note f = write_if_changed_ok [OF w1] write_if_changed_ok [OF w2] write_if_changed_ok [OF w3]
  show thesis by (rule that [of ptext table rtext reqs]) (use p q f in auto)
qed

text \<open>The derived files are the renderings of the canonical inputs.\<close>

definition derived_ok :: "gen_env \<Rightarrow> (string \<rightharpoonup> string) \<Rightarrow> bool" where
  "derived_ok E m =
     (case (Option.bind (m PARAMS) (\<lambda>t. case ge_table E t of Inr table \<Rightarrow> Some table | Inl _ \<Rightarrow> None),
            Option.bind (m REQS) (\<lambda>t. case ge_reqs E t of Inr reqs \<Rightarrow> Some reqs | Inl _ \<Rightarrow> None)) of
        (Some table, Some reqs) \<Rightarrow>
          m RS_OUT = Some (render_rs (gen_consts E table)) \<and> m PARAMS_TEX = Some (render_params_tex (gen_tex_rows E table))
          \<and> m MATRIX_TEX = Some (render_matrix reqs)
      | _ \<Rightarrow> False)"

lemma gen_settled:
  assumes "files d PARAMS = Some ptext" "ge_table E ptext = Inr table" "files d REQS = Some rtext" "ge_reqs E rtext = Inr reqs"
    and "derived_ok E (files d)" "\<forall>p\<in>{RS_OUT, PARAMS_TEX, MATRIX_TEX}. ge_dir_ok E p"
  shows "gen E d = (Inr (), d)"
  using assms by (simp add: gen_def read_to_string_def derived_ok_def write_if_changed_again)

text \<open>C36: after a successful generation the three derived files are the renderings of the inputs on disk, a second
  generation succeeds and changes nothing, and the generation wrote nothing exactly when the files on disk were up to
  date already: a clean diff after \<open>gen\<close> is the absence of drift.\<close>

theorem gen_drift:
  assumes "gen E d = (Inr u, d')"
  shows "derived_ok E (files d') \<and> gen E d' = (Inr (), d') \<and> (writes d' = writes d \<longleftrightarrow> derived_ok E (files d))"
proof -
  obtain ptext rtext table reqs where
    p: "files d PARAMS = Some ptext" "ge_table E ptext = Inr table" "files d REQS = Some rtext" "ge_reqs E rtext = Inr reqs"
    and f: "files d' = (files d)(RS_OUT \<mapsto> render_rs (gen_consts E table), PARAMS_TEX \<mapsto> render_params_tex (gen_tex_rows E table),
       MATRIX_TEX \<mapsto> render_matrix reqs)"
    and w: "writes d' = writes d @ (if files d RS_OUT = Some (render_rs (gen_consts E table)) then [] else [RS_OUT])
       @ (if files d PARAMS_TEX = Some (render_params_tex (gen_tex_rows E table)) then [] else [PARAMS_TEX])
       @ (if files d MATRIX_TEX = Some (render_matrix reqs) then [] else [MATRIX_TEX])"
    and ok: "\<forall>p\<in>{RS_OUT, PARAMS_TEX, MATRIX_TEX}. ge_dir_ok E p"
    by (rule gen_ok [OF assms]) (rule that)
  have d: "derived_ok E (files d')" by (simp add: derived_ok_def f p)
  moreover have "gen E d' = (Inr (), d')" by (rule gen_settled [of d' ptext E table rtext reqs]) (use d p ok f in auto)
  moreover have "writes d' = writes d \<longleftrightarrow> derived_ok E (files d)" by (simp add: w derived_ok_def p)
  ultimately show ?thesis by blast
qed

definition sample_gen :: gen_env where
  "sample_gen =
     \<lparr>ge_table = (\<lambda>t. Inr [(''kv'', TTable [(''ttl_s'', TInteger 300), (''on'', TBoolean False), (''note'', TString t)]), (''v'', TInteger 1)]),
      ge_reqs = (\<lambda>t. Inr sample_reqs), ge_display = (\<lambda>f. ''1''), ge_dir_ok = (\<lambda>p. True), ge_write_ok = (\<lambda>p. True)\<rparr>"

definition sample_disk :: disk where
  "sample_disk = \<lparr>files = [PARAMS \<mapsto> ''p'', REQS \<mapsto> ''r''], writes = []\<rparr>"

theorem gen_drift_witness:
  "\<exists>d'. gen sample_gen sample_disk = (Inr (), d') \<and> writes d' = [RS_OUT, PARAMS_TEX, MATRIX_TEX]
     \<and> derived_ok sample_gen (files d') \<and> gen sample_gen d' = (Inr (), d')"
proof -
  define table where "table = [(''kv'', TTable [(''ttl_s'', TInteger 300), (''on'', TBoolean False), (''note'', TString ''p'')]), (''v'', TInteger 1)]"
  have E: "ge_table sample_gen ''p'' = Inr table" "ge_reqs sample_gen ''r'' = Inr sample_reqs" "ge_dir_ok sample_gen p" "ge_write_ok sample_gen p" for p
    by (simp_all add: sample_gen_def table_def)
  obtain d' where g: "gen sample_gen sample_disk = (Inr (), d')" and w: "writes d' = [RS_OUT, PARAMS_TEX, MATRIX_TEX]"
    by (simp add: gen_def sample_disk_def read_to_string_def write_if_changed_new E)
  from gen_drift [OF g] g w show ?thesis by blast
qed

section \<open>Limits of the generated constants\<close>

text \<open>A negative integer becomes an unsigned constant, which does not compile; two groups can give the same name.\<close>

lemma negative_param: "param_literal E (TInteger (- 1)) = Some (''u64'', ''-1'')"
proof -
  have "fmt_i64 (- 1) = ''-1''" by code_simp
  then show ?thesis by simp
qed

lemma const_name_clash:
  "map fst (gen_consts E [(''a_b'', TTable [(''c'', TBoolean True)]), (''a'', TTable [(''b_c'', TBoolean True)])]) = [''A_B_C'', ''A_B_C'']"
proof -
  have "to_uppercase ''a_b'' = ''A_B''" "to_uppercase ''c'' = ''C''" "to_uppercase ''a'' = ''A''" "to_uppercase ''b_c'' = ''B_C''"
    by code_simp+
  then show ?thesis by (simp add: gen_consts_def table_params_def)
qed

end
