(* ===== verification/PseudoReport.thy ===== *)
theory PseudoReport
  imports LoadBench
begin

text \<open>
  The boxed text report of a load run (\<open>xtask/src/pseudo_ui.rs\<close>, \<open>xtask/src/pseudo_report.rs\<close>): width, padding and
  truncation of lines, bars and the latency histogram, the sections of a scenario, the gate table and
  the suite verdict.  A report is the list of its lines as decoded text; what is printed is assumed to
  hold no line break of its own.
\<close>

section \<open>Boxes\<close>

definition DEFAULT_PSEUDO_WIDTH :: nat where
  "DEFAULT_PSEUDO_WIDTH = 120"

definition pseudo_width :: "utext option \<Rightarrow> nat" where
  "pseudo_width var =
     (case Option.bind var parse_u64 of
        Some w \<Rightarrow> if 80 \<le> w \<and> w \<le> 200 then unat w else DEFAULT_PSEUDO_WIDTH
      | None \<Rightarrow> DEFAULT_PSEUDO_WIDTH)"

definition inner_width :: "nat \<Rightarrow> nat" where
  "inner_width w = w - 4"

definition pad_line :: "utext \<Rightarrow> nat \<Rightarrow> utext" where
  "pad_line t w =
     (let max_len = inner_width w;
          content = (if max_len < length t then take (max_len - 1) t @ [8230] else t)
      in [9553, 32] @ pad_right max_len content @ [32, 9553])"

definition h_rule :: "nat \<Rightarrow> nat \<Rightarrow> utext" where
  "h_rule w ch = replicate (w - 2) ch"

definition histogram_bar_width :: "nat \<Rightarrow> nat" where
  "histogram_bar_width w = max 32 (min 56 (inner_width w - 24))"

text \<open>The framed rules: top, double and single separator, bottom.\<close>

definition top_rule :: "nat \<Rightarrow> utext" where "top_rule w = 9556 # h_rule w 9552 @ [9559]"
definition double_rule :: "nat \<Rightarrow> utext" where "double_rule w = 9568 # h_rule w 9552 @ [9571]"
definition single_rule :: "nat \<Rightarrow> utext" where "single_rule w = 9567 # h_rule w 9472 @ [9570]"
definition bottom_rule :: "nat \<Rightarrow> utext" where "bottom_rule w = 9562 # h_rule w 9552 @ [9565]"

text \<open>\<open>{:>n}\<close>: spaces on the left.\<close>

definition pad_left :: "nat \<Rightarrow> utext \<Rightarrow> utext" where
  "pad_left n t = replicate (n - length t) 32 @ t"

abbreviation padn :: "nat \<Rightarrow> 'w::len word \<Rightarrow> utext" where
  "padn n v \<equiv> pad_left n (fmt_u64 v)"

abbreviation padf :: "nat \<Rightarrow> nat \<Rightarrow> f64 \<Rightarrow> utext" where
  "padf n p v \<equiv> pad_left n (fmt_f64 p v)"

abbreviation MIDDOT :: utext where "MIDDOT \<equiv> [183]"
abbreviation TIMES :: utext where "TIMES \<equiv> [215]"
abbreviation ARROW :: utext where "ARROW \<equiv> [8594]"

section \<open>Bars and histogram\<close>

definition bar_line :: "utext \<Rightarrow> f64 \<Rightarrow> f64 \<Rightarrow> nat \<Rightarrow> utext" where
  "bar_line lab val mx width =
     (let frac = (if flt 0 mx then fclamp (val / mx) 0 1 else 0);
          filled = min (nat_of_f64 (fround (frac * f64_of_nat width))) width
      in pad_right 16 lab @ tx '' '' @ replicate filled 9608 @ replicate (width - filled) 9617 @ tx '' '' @ padf 6 0 val)"

definition bucket_of :: "u64 \<Rightarrow> u64 \<Rightarrow> nat \<Rightarrow> u64 \<Rightarrow> nat" where
  "bucket_of mn spn buckets us =
     min (nat_of_f64 (f64_of_u64 (us - mn) / f64_of_u64 spn * f64_of_nat buckets)) (buckets - 1)"

definition bucket_counts :: "u64 \<Rightarrow> u64 \<Rightarrow> nat \<Rightarrow> u64 list \<Rightarrow> u64 list" where
  "bucket_counts mn spn buckets lats =
     fold (\<lambda>us counts. let b = bucket_of mn spn buckets us in counts[b := counts ! b + 1]) lats (replicate buckets 0)"

definition bucket_label :: "u64 \<Rightarrow> u64 \<Rightarrow> nat \<Rightarrow> nat \<Rightarrow> utext" where
  "bucket_label mn spn buckets i =
     (let lo = mn + spn * of_nat i div of_nat buckets; hi = mn + spn * of_nat (i + 1) div of_nat buckets
      in padn 5 lo @ tx ''-'' @ padn 5 hi @ MICRO @ tx ''s'')"

definition histogram :: "u64 list \<Rightarrow> nat \<Rightarrow> nat \<Rightarrow> utext list" where
  "histogram lats buckets bar_w =
     (if lats = [] then [tx ''  (no samples)'']
      else let mx = Max (set lats); mn = Min (set lats); spn = max (mx - mn) 1;
               counts = bucket_counts mn spn buckets lats;
               peak = max (Max (set counts)) 1
           in map (\<lambda>(i, c). bar_line (bucket_label mn spn buckets i) (f64_of_u64 c) (f64_of_u64 peak) bar_w)
                (enumerate 0 counts))"

definition fmt_ms :: "u64 \<Rightarrow> utext" where
  "fmt_ms us = fmt_f64 2 (f64_of_u64 us / lit 1000)"

definition gate_status :: "bool \<Rightarrow> utext" where
  "gate_status p = (if p then tx ''PASS '' @ [10003] else tx ''FAIL '' @ [10007])"

section \<open>Sections of a scenario\<close>

definition write_gates :: "GateVerdict list \<Rightarrow> nat \<Rightarrow> utext list" where
  "write_gates gates w =
     (if gates = [] then []
      else let passed = length (filter pass gates); all_pass = (passed = length gates)
           in [single_rule w, pad_line (tx ''GATES (strict + soft)'') w]
              @ map (\<lambda>g. pad_line (tx ''  '' @ pad_right 22 (gv_name g) @ tx '' '' @ ARROW @ tx '' '' @ gate_status (pass g) @ tx ''  '' @ detail g) w)
                  gates
              @ [pad_line (tx ''  scenario summary .... '' @ ARROW @ tx '' '' @ gate_status all_pass @ tx ''  ('' @ dec_nat passed @ tx ''/''
                   @ dec_nat (length gates) @ tx '' gates)'') w])"

definition title_lines :: "LoadBenchReport \<Rightarrow> bool \<Rightarrow> nat \<Rightarrow> utext list" where
  "title_lines report sim_brand w =
     [top_rule w,
      pad_line (if sim_brand then tx ''DEMIURGE '' @ MIDDOT @ [32, 39] @ tx ''sim '' @ MIDDOT @ tx '' FLEET SIMULATION '' @ MIDDOT @ tx '' PSEUDO REPORT''
                else tx ''DEMIURGE '' @ MIDDOT @ tx '' LOCAL LOAD BENCH '' @ MIDDOT @ tx '' PSEUDO REPORT'') w,
      double_rule w,
      pad_line (tx ''generated: '' @ generated_at report) w,
      pad_line (tx ''host:      '' @ tx (hostname report)) w,
      double_rule w]"

definition head_lines :: "ScenarioResult \<Rightarrow> nat \<Rightarrow> utext list" where
  "head_lines s w =
     [pad_line (tx ''scenario:  '' @ tx (rs_id s)) w,
      pad_line (tx ''summary:   '' @ tx (rs_summary s)) w,
      pad_line (tx ''topology:  '' @ fmt_u64 (rs_backends s) @ tx '' pf '' @ MIDDOT @ tx '' '' @ fmt_u64 (rs_decode_backends s) @ tx '' dc '' @ MIDDOT
        @ tx '' '' @ fmt_u64 (rs_concurrency s) @ TIMES @ fmt_u64 (rs_requests_per_worker s) @ tx '' reqs '' @ MIDDOT @ tx '' style ''
        @ tx (rs_request_style s) @ tx '' '' @ MIDDOT @ tx '' delay '' @ fmt_u64 (rs_backend_delay_us s) @ MICRO @ tx ''s'') w]"

definition throughput_lines :: "ScenarioResult \<Rightarrow> nat \<Rightarrow> utext list" where
  "throughput_lines s w =
     [single_rule w,
      pad_line (tx ''THROUGHPUT'') w,
      pad_line (tx ''  total .............. '' @ padn 8 (total_requests s)) w,
      pad_line (tx ''  ok / errors ........ '' @ padn 8 (rs_ok s) @ tx '' / '' @ fmt_u64 (rs_errors s)) w]
     @ (if rs_errors_graceful s \<noteq> None \<or> rs_errors_hard s \<noteq> None
        then [pad_line (tx ''  503 / hard ......... '' @ padn 8 (unwrap_or (rs_errors_graceful s) 0) @ tx '' / '' @ fmt_u64 (unwrap_or (rs_errors_hard s) 0)) w]
        else [])
     @ [pad_line (tx ''  wall ............... '' @ padf 8 2 (duration_secs s) @ tx ''s'') w,
        pad_line (tx ''  req/s .............. '' @ padf 8 1 (req_per_sec s)) w]"

definition latency_lines :: "ScenarioResult \<Rightarrow> nat \<Rightarrow> utext list" where
  "latency_lines s w =
     [single_rule w,
      pad_line (tx ''LATENCY'') w,
      pad_line (tx ''  min   p50   p90   p99   max  (ms)'') w,
      pad_line (tx ''  '' @ pad_left 5 (fmt_ms (min_us s)) @ tx '' '' @ pad_left 5 (fmt_ms (p50_us s)) @ tx '' '' @ pad_left 5 (fmt_ms (p90_us s)) @ tx '' ''
        @ pad_left 5 (fmt_ms (rs_p99_us s)) @ tx '' '' @ pad_left 5 (fmt_ms (max_us s))) w]"

definition histogram_lines :: "ScenarioResult \<Rightarrow> nat \<Rightarrow> utext list" where
  "histogram_lines s w =
     [single_rule w, pad_line (tx ''HISTOGRAM (latency '' @ MICRO @ tx ''s)'') w]
     @ map (\<lambda>l. pad_line l w) (filter (\<lambda>l. l \<noteq> []) (histogram (latencies_us s) 8 (histogram_bar_width w)))"

definition accept_lines :: "ScenarioResult \<Rightarrow> nat \<Rightarrow> utext list" where
  "accept_lines s w =
     (case (accept_p99_us_low s, accept_p99_us_high s, accept_p99_ratio s) of
        (Some low, Some high, Some ratio) \<Rightarrow>
          [single_rule w,
           pad_line (tx ''ACCEPT DECOUPLE (P1)'') w,
           pad_line (tx ''  p99 low / high ('' @ MICRO @ tx ''s) .. '' @ padn 6 low @ tx '' / '' @ fmt_u64 high) w,
           pad_line (tx ''  p99 ratio ............ '' @ padf 8 2 ratio) w]
      | _ \<Rightarrow> [])"

definition kv_lines :: "ScenarioResult \<Rightarrow> nat \<Rightarrow> utext list" where
  "kv_lines s w =
     (case kv_bytes_reserved_peak s of
        Some peak \<Rightarrow>
          [single_rule w,
           pad_line (tx ''KV POOL (Phase 2)'') w,
           pad_line (tx ''  peak reserved ....... '' @ padn 12 peak @ tx '' bytes'') w]
          @ (case rs_kv_admit_rejects s of Some n \<Rightarrow> [pad_line (tx ''  admit rejects ....... '' @ padn 12 n) w] | None \<Rightarrow> [])
      | None \<Rightarrow> [])"

definition handoff_lines :: "ScenarioResult \<Rightarrow> nat \<Rightarrow> utext list" where
  "handoff_lines s w =
     (case handoff_transfer_count s of
        Some n \<Rightarrow>
          [single_rule w,
           pad_line (tx ''HAND-OFF TRANSFER (Phase 2 exit)'') w,
           pad_line (tx ''  transfers ............ '' @ padn 12 n) w,
           pad_line (tx ''  bytes p50 / p99 ...... '' @ padn 6 (unwrap_or (handoff_bytes_p50 s) 0) @ tx '' / '' @ fmt_u64 (unwrap_or (handoff_bytes_p99 s) 0)) w,
           pad_line (tx ''  wall p50 / p99 ('' @ MICRO @ tx ''s) .. '' @ padn 6 (unwrap_or (handoff_wall_us_p50 s) 0) @ tx '' / ''
             @ fmt_u64 (unwrap_or (handoff_wall_us_p99 s) 0)) w]
      | None \<Rightarrow> [])"

definition dataplane_lines :: "ScenarioResult \<Rightarrow> nat \<Rightarrow> utext list" where
  "dataplane_lines s w =
     (case rs_dataplane_pi s of
        Some p \<Rightarrow>
          [single_rule w,
           pad_line (tx ''DATAPLANE'') w,
           pad_line (tx ''  '' @ PI @ tx '' / '' @ PI @ tx ''* / age ......... '' @ padf 5 3 p @ tx '' / '' @ fmt_f64 3 (unwrap_or (rs_pi_star s) 0) @ tx '' / ''
             @ fmt_u64 (unwrap_or (rs_dataplane_age_ms s) 0) @ tx ''ms'') w]
      | None \<Rightarrow> [])"

definition rdma_lines :: "ScenarioResult \<Rightarrow> nat \<Rightarrow> utext list" where
  "rdma_lines s w =
     (case rs_rdma_shadow_samples s of
        Some n \<Rightarrow>
          [single_rule w,
           pad_line (tx ''RDMA COST SHADOW'') w,
           pad_line (tx ''  shadow samples ....... '' @ padn 12 n) w]
          @ (case rdma_transfer_ratio_median s of Some r \<Rightarrow> [pad_line (tx ''  transfer ratio median '' @ padf 12 3 r) w] | None \<Rightarrow> [])
      | None \<Rightarrow> [])"

definition window_line :: "FleetWindowResult \<Rightarrow> nat \<Rightarrow> utext" where
  "window_line v w =
     pad_line (tx ''  '' @ padn 7 (fw_ts_ms v) @ tx ''  '' @ pad_left 5 (tx (if fw_prefill_heavy v then ''yes'' else ''no'')) @ tx ''  '' @ padn 4 (fw_ok v)
       @ tx ''  '' @ padn 3 (errors_graceful v) @ tx ''  '' @ padn 4 (errors_hard v) @ tx ''  '' @ padf 8 2 (f64_of_u64 (p99_us v) / lit 1000) @ tx ''  ''
       @ padf 7 3 (fw_dataplane_pi v) @ tx ''  '' @ padf 7 3 (fw_pi_star v)) w"

definition fleet_lines :: "ScenarioResult \<Rightarrow> nat \<Rightarrow> utext list" where
  "fleet_lines s w =
     (if fleet_windows s = [] then []
      else [single_rule w,
            pad_line (39 # tx ''sim FLEET WINDOWS (live replay)'') w,
            pad_line (tx ''  ts(ms)   heavy    ok   503  hard   p99(ms)   '' @ PI @ tx ''_live   '' @ PI @ tx ''*_shadow'') w]
           @ map (\<lambda>v. window_line v w) (fleet_windows s)
           @ (case fleet_live_pi_correlation s of Some c \<Rightarrow> [pad_line (tx ''  held-out live '' @ PI @ tx '' corr .. '' @ padf 6 3 c) w] | None \<Rightarrow> [])
           @ (case fleet_shadow_correlation s of Some c \<Rightarrow> [pad_line (tx ''  held-out shadow '' @ PI @ tx ''* corr '' @ padf 6 3 c) w] | None \<Rightarrow> []))"

definition scenario_gates :: "(string \<rightharpoonup> ScenarioGateConfig) \<Rightarrow> ScenarioResult \<Rightarrow> GateVerdict list" where
  "scenario_gates cfgs s = (case cfgs (rs_id s) of Some cfg \<Rightarrow> evaluate_scenario_gates cfg s | None \<Rightarrow> [])"

definition scenario_lines :: "(string \<rightharpoonup> ScenarioGateConfig) \<Rightarrow> nat \<Rightarrow> nat \<times> ScenarioResult \<Rightarrow> utext list" where
  "scenario_lines cfgs w = (\<lambda>(idx, s).
     (if 0 < idx then [single_rule w] else []) @ head_lines s w @ throughput_lines s w @ latency_lines s w @ histogram_lines s w
     @ accept_lines s w @ kv_lines s w @ handoff_lines s w @ dataplane_lines s w @ rdma_lines s w @ fleet_lines s w
     @ write_gates (scenario_gates cfgs s) w)"

section \<open>The report\<close>

record suite_count =
  suite_gates :: nat
  suite_pass :: nat
  scenario_fail :: nat

definition count_scenario :: "(string \<rightharpoonup> ScenarioGateConfig) \<Rightarrow> ScenarioResult \<Rightarrow> suite_count \<Rightarrow> suite_count" where
  "count_scenario cfgs s n =
     (let gates = scenario_gates cfgs s
      in \<lparr>suite_gates = suite_gates n + length gates, suite_pass = suite_pass n + length (filter pass gates),
          scenario_fail = scenario_fail n + (if gates \<noteq> [] \<and> \<not> list_all pass gates then 1 else 0)\<rparr>)"

definition count_suite :: "(string \<rightharpoonup> ScenarioGateConfig) \<Rightarrow> ScenarioResult list \<Rightarrow> suite_count" where
  "count_suite cfgs ss = fold (count_scenario cfgs) ss \<lparr>suite_gates = 0, suite_pass = 0, scenario_fail = 0\<rparr>"

definition suite_lines :: "suite_count \<Rightarrow> nat \<Rightarrow> nat \<Rightarrow> utext list" where
  "suite_lines n cnt w =
     (if 0 < suite_gates n
      then [double_rule w,
            pad_line (tx ''SUITE GATES '' @ ARROW @ tx '' '' @ gate_status (scenario_fail n = 0) @ tx ''  '' @ dec_nat (suite_pass n) @ tx ''/''
              @ dec_nat (suite_gates n) @ tx '' gates '' @ MIDDOT @ tx '' '' @ dec_nat (cnt - scenario_fail n) @ tx ''/'' @ dec_nat cnt @ tx '' scenarios'') w]
      else [])"

definition render :: "utext option \<Rightarrow> LoadBenchReport \<Rightarrow> (string \<rightharpoonup> ScenarioGateConfig) \<Rightarrow> bool \<Rightarrow> utext list" where
  "render width_var report cfgs sim_brand =
     (let w = pseudo_width width_var
      in title_lines report sim_brand w
         @ concat (map (scenario_lines cfgs w) (enumerate 0 (report_scenarios report)))
         @ suite_lines (count_suite cfgs (report_scenarios report)) (length (report_scenarios report)) w
         @ [bottom_rule w])"

section \<open>Every line is as wide as the box\<close>

lemma pseudo_width_range: "80 \<le> pseudo_width v \<and> pseudo_width v \<le> 200"
  by (auto simp: pseudo_width_def DEFAULT_PSEUDO_WIDTH_def word_le_nat_alt split: option.splits)

definition aligned :: "nat \<Rightarrow> utext list \<Rightarrow> bool" where
  "aligned w ls \<longleftrightarrow> list_all (\<lambda>l. length l = w) ls"

lemma aligned_Nil [simp]: "aligned w []"
  and aligned_Cons [simp]: "aligned w (l # ls) \<longleftrightarrow> length l = w \<and> aligned w ls"
  and aligned_append [simp]: "aligned w (ls @ ms) \<longleftrightarrow> aligned w ls \<and> aligned w ms"
  by (simp_all add: aligned_def)

lemma aligned_map [simp]: "aligned w (map f xs) \<longleftrightarrow> (\<forall>x\<in>set xs. length (f x) = w)"
  by (simp add: aligned_def list_all_iff)

lemma aligned_concat [simp]: "aligned w (concat lss) \<longleftrightarrow> (\<forall>ls\<in>set lss. aligned w ls)"
  by (induction lss) simp_all

lemma length_pad_line [simp]: "5 \<le> w \<Longrightarrow> length (pad_line t w) = w"
  by (auto simp: pad_line_def pad_right_def inner_width_def Let_def)

lemma length_rules [simp]:
  "5 \<le> w \<Longrightarrow> length (top_rule w) = w" "5 \<le> w \<Longrightarrow> length (double_rule w) = w"
  "5 \<le> w \<Longrightarrow> length (single_rule w) = w" "5 \<le> w \<Longrightarrow> length (bottom_rule w) = w"
  by (simp_all add: top_rule_def double_rule_def single_rule_def bottom_rule_def h_rule_def)

lemmas section_defs = title_lines_def head_lines_def throughput_lines_def latency_lines_def histogram_lines_def accept_lines_def
  kv_lines_def handoff_lines_def dataplane_lines_def rdma_lines_def window_line_def fleet_lines_def write_gates_def suite_lines_def

lemma aligned_sections:
  assumes "5 \<le> w"
  shows "aligned w (title_lines r b w)" "aligned w (head_lines s w)" "aligned w (throughput_lines s w)" "aligned w (latency_lines s w)"
    "aligned w (histogram_lines s w)" "aligned w (accept_lines s w)" "aligned w (kv_lines s w)" "aligned w (handoff_lines s w)"
    "aligned w (dataplane_lines s w)" "aligned w (rdma_lines s w)" "aligned w (fleet_lines s w)" "aligned w (write_gates gs w)"
    "aligned w (suite_lines n k w)"
  using assms by (simp_all add: section_defs Let_def split: option.splits)

lemma aligned_scenario: "5 \<le> w \<Longrightarrow> aligned w (scenario_lines cfgs w p)"
  by (cases p) (simp add: scenario_lines_def aligned_sections)

section \<open>No sample is lost in the histogram\<close>

lemma sum_list_update_incr:
  "b < length xs \<Longrightarrow> sum_list (xs[b := xs ! b + 1]) = sum_list xs + (1 :: u64)"
  by (induction xs arbitrary: b) (auto simp: nth_Cons' list_update.simps split: nat.splits)

lemma bucket_counts_gen:
  fixes counts :: "u64 list"
  assumes "0 < buckets" "length counts = buckets"
  shows "length (fold (\<lambda>us counts. let b = bucket_of mn spn buckets us in counts[b := counts ! b + 1]) lats counts) = buckets
    \<and> sum_list (fold (\<lambda>us counts. let b = bucket_of mn spn buckets us in counts[b := counts ! b + 1]) lats counts)
        = sum_list counts + of_nat (length lats)"
  using assms(2)
proof (induction lats arbitrary: counts)
  case (Cons us lats)
  have "bucket_of mn spn buckets us < length counts" using assms(1) Cons.prems by (auto simp: bucket_of_def)
  then have "sum_list (counts[bucket_of mn spn buckets us := counts ! bucket_of mn spn buckets us + 1]) = sum_list counts + 1"
    by (rule sum_list_update_incr)
  then show ?case using Cons.IH [of "counts[bucket_of mn spn buckets us := counts ! bucket_of mn spn buckets us + 1]"] Cons.prems
    by (simp add: Let_def)
qed simp

lemma bucket_counts_complete:
  "0 < buckets \<Longrightarrow> length (bucket_counts mn spn buckets lats) = buckets
     \<and> sum_list (bucket_counts mn spn buckets lats) = of_nat (length lats)"
  unfolding bucket_counts_def by (subst bucket_counts_gen bucket_counts_gen; simp add: sum_list_replicate)+

section \<open>The suite verdict\<close>

lemma count_suite_gen:
  "fold (count_scenario cfgs) ss n =
     \<lparr>suite_gates = suite_gates n + (\<Sum>s\<leftarrow>ss. length (scenario_gates cfgs s)),
      suite_pass = suite_pass n + (\<Sum>s\<leftarrow>ss. length (filter pass (scenario_gates cfgs s))),
      scenario_fail = scenario_fail n + length (filter (\<lambda>s. \<not> list_all pass (scenario_gates cfgs s)) ss)\<rparr>"
  by (induction ss arbitrary: n) (auto simp: count_scenario_def Let_def)

lemma count_suite_eq:
  "suite_gates (count_suite cfgs ss) = (\<Sum>s\<leftarrow>ss. length (scenario_gates cfgs s))"
  "suite_pass (count_suite cfgs ss) = (\<Sum>s\<leftarrow>ss. length (filter pass (scenario_gates cfgs s)))"
  "scenario_fail (count_suite cfgs ss) = length (filter (\<lambda>s. \<not> list_all pass (scenario_gates cfgs s)) ss)"
  by (simp_all add: count_suite_def count_suite_gen)

lemma suite_ok_iff:
  "scenario_fail (count_suite cfgs ss) = 0 \<longleftrightarrow> (\<forall>s\<in>set ss. list_all pass (scenario_gates cfgs s))"
  by (simp add: count_suite_eq filter_empty_conv)

lemma suite_pass_all:
  "scenario_fail (count_suite cfgs ss) = 0 \<longleftrightarrow> suite_pass (count_suite cfgs ss) = suite_gates (count_suite cfgs ss)"
proof -
  have le: "length (filter pass gs) \<le> length gs" for gs by simp
  have eq: "length (filter pass gs) = length gs \<longleftrightarrow> list_all pass gs" for gs
    by (metis filter_id_conv length_filter_less list_all_iff nat_neq_iff)
  show ?thesis unfolding suite_ok_iff count_suite_eq
  proof (induction ss)
    case (Cons s ss)
    have "(\<Sum>s\<leftarrow>ss. length (filter pass (scenario_gates cfgs s))) \<le> (\<Sum>s\<leftarrow>ss. length (scenario_gates cfgs s))"
      by (rule sum_list_mono) (rule le)
    moreover have "length (filter pass (scenario_gates cfgs s)) < length (scenario_gates cfgs s) \<or> list_all pass (scenario_gates cfgs s)"
      using le [of "scenario_gates cfgs s"] eq [of "scenario_gates cfgs s"] by linarith
    ultimately show ?case using Cons eq [of "scenario_gates cfgs s"] by (auto simp del: sum_list_eq_0_iff)
  qed simp
qed

section \<open>Properties\<close>

text \<open>Every line of a report, whatever it prints, is exactly as wide as the configured box, which is between
  80 and 200 columns; a full histogram has eight bars whose counts add up to the number of samples.\<close>

theorem report_aligned:
  "80 \<le> pseudo_width v \<and> pseudo_width v \<le> 200
   \<and> list_all (\<lambda>l. length l = pseudo_width v) (render v report cfgs sim_brand)
   \<and> length (bucket_counts mn spn 8 lats) = 8 \<and> sum_list (bucket_counts mn spn 8 lats) = of_nat (length lats)"
proof -
  have "5 \<le> pseudo_width v" using pseudo_width_range [of v] by simp
  then have "aligned (pseudo_width v) (render v report cfgs sim_brand)"
    by (simp add: render_def Let_def aligned_sections aligned_scenario)
  then show ?thesis using pseudo_width_range [of v] bucket_counts_complete [of 8 mn spn lats] by (simp add: aligned_def)
qed



end
