(* ===== verification/Harden.thy ===== *)
theory Harden
  imports PseudoReport
begin

text \<open>
  The hardening check (\<open>xtask/src/harden_report.rs\<close>, \<open>xtask/src/harden_verify.rs\<close>, and the report lines that
  \<open>load_bench_inner\<close> prints): parsing \<open>HARDEN_REPORT\<close> lines, the verdict on a load scenario, collecting the
  cases of the test suites and of the load reports, both renderings, and the exit status.  The test
  runner, the file system and the load runs behind them are parameters over a world.
\<close>

section \<open>Report lines\<close>

record HardenEntry =
  he_tier :: u8
  he_id :: utext
  he_status :: utext
  he_detail :: utext

text \<open>\<open>str::split_whitespace\<close>, \<open>str::split_once\<close> and \<open>str::parse::<u8>\<close>.\<close>

definition split_whitespace :: "utext \<Rightarrow> utext list" where
  "split_whitespace t = filter (\<lambda>p. p \<noteq> []) (split_on is_whitespace t)"

definition split_eq :: "utext \<Rightarrow> (utext \<times> utext) option" where
  "split_eq t = (if 61 \<in> set t then Some (takeWhile (\<lambda>c. c \<noteq> 61) t, drop 1 (dropWhile (\<lambda>c. c \<noteq> 61) t)) else None)"

definition parse_u8 :: "utext \<Rightarrow> u8 option" where
  "parse_u8 t = Option.bind (parse_u64 t) (\<lambda>v. if unat v < 256 then Some (ucast v) else None)"

definition parse_part :: "utext \<Rightarrow> HardenEntry \<Rightarrow> HardenEntry" where
  "parse_part part e =
     (case split_eq part of
        Some (k, v) \<Rightarrow>
          if k = tx ''tier'' then e\<lparr>he_tier := unwrap_or (parse_u8 v) 0\<rparr>
          else if k = tx ''id'' then e\<lparr>he_id := v\<rparr>
          else if k = tx ''status'' then e\<lparr>he_status := v\<rparr>
          else if k = tx ''detail'' then e\<lparr>he_detail := v\<rparr>
          else e
      | None \<Rightarrow> e)"

definition parse_line :: "utext \<Rightarrow> HardenEntry option" where
  "parse_line line =
     (let line = trim line
      in if \<not> starts_with (tx ''HARDEN_REPORT '') line then None
         else let e = fold parse_part (drop 1 (split_whitespace line)) \<lparr>he_tier = 0, he_id = [], he_status = [], he_detail = []\<rparr>
              in if he_id e = [] then None else Some e)"

text \<open>What \<open>load_bench_inner\<close> prints for a scenario that ran and missed \<open>n\<close> gates, and for a skipped one.\<close>

definition report_line :: "string \<Rightarrow> string \<Rightarrow> utext \<Rightarrow> utext" where
  "report_line i st d = tx ''HARDEN_REPORT tier=4 id='' @ tx i @ tx '' status='' @ tx st @ tx '' detail='' @ d"

definition pass_detail :: "Scenario \<Rightarrow> ScenarioResult \<Rightarrow> utext" where
  "pass_detail sc r =
     (if sc_min_kv_admit_rejects sc \<noteq> None \<or> sc_min_errors sc \<noteq> None
      then tx ''graceful_rejects='' @ fmt_u64 (rs_errors r) @ tx ''/'' @ fmt_u64 (total_requests r) @ tx '' kv_rejects=''
           @ fmt_u64 (unwrap_or (rs_kv_admit_rejects r) 0)
      else if rs_errors_graceful r \<noteq> None
      then tx ''ok='' @ fmt_u64 (rs_ok r) @ tx ''/'' @ fmt_u64 (total_requests r) @ tx '' p99='' @ fmt_u64 (rs_p99_us r) @ tx ''us errs=''
           @ fmt_u64 (rs_errors r) @ tx '' (503='' @ fmt_u64 (unwrap_or (rs_errors_graceful r) 0) @ tx '' hard=''
           @ fmt_u64 (unwrap_or (rs_errors_hard r) 0) @ tx '')''
      else tx ''ok='' @ fmt_u64 (rs_ok r) @ tx ''/'' @ fmt_u64 (total_requests r) @ tx '' p99='' @ fmt_u64 (rs_p99_us r) @ tx ''us max=''
           @ fmt_u64 (max_us r) @ tx ''us errs='' @ fmt_u64 (rs_errors r))"

definition scenario_report_line :: "Scenario \<Rightarrow> ScenarioResult \<Rightarrow> utext option" where
  "scenario_report_line sc r =
     (if (harden sc \<or> stress sc \<or> sim sc) \<and> missed_gates sc r = 0 then Some (report_line (rs_id r) ''PASS'' (pass_detail sc r))
      else if (harden sc \<or> stress sc) \<and> 0 < missed_gates sc r
      then Some (report_line (rs_id r) ''FAIL'' (tx ''gate_miss errs='' @ fmt_u64 (rs_errors r)))
      else None)"

section \<open>Verdicts\<close>

definition id_contains :: "ScenarioResult \<Rightarrow> string \<Rightarrow> bool" where
  "id_contains s pat \<longleftrightarrow> find_sub pat (rs_id s) \<noteq> None"

definition scenario_passes :: "ScenarioResult \<Rightarrow> bool" where
  "scenario_passes s =
     (if id_contains s ''KV-EXHAUST''
      then 100 \<le> unwrap_or (rs_kv_admit_rejects s) 0 \<and> rs_errors s \<le> total_requests s
      else if id_contains s ''ADMIT-FLOOD''
      then 50 \<le> rs_errors s \<and> rs_errors s \<le> total_requests s \<and> 0 < rs_ok s
      else if id_contains s ''RDMA-TOPO''
      then (let ratio = unwrap_or (rdma_transfer_ratio_median s) 0
            in rs_errors s = 0 \<and> 50 \<le> unwrap_or (rs_rdma_shadow_samples s) 0 \<and> fle (lit (95 / 100)) ratio \<and> fle ratio (lit (105 / 100)))
      else rs_errors s = 0 \<or> rs_errors s \<le> unwrap_or (rs_kv_admit_rejects s) 0)"

definition scenario_status :: "ScenarioResult \<Rightarrow> utext" where
  "scenario_status s = (if scenario_passes s then tx ''PASS'' else tx ''FAIL'')"

definition plain_detail :: "ScenarioResult \<Rightarrow> utext" where
  "plain_detail s = tx ''ok='' @ fmt_u64 (rs_ok s) @ tx ''/'' @ fmt_u64 (total_requests s) @ tx '' p99='' @ fmt_ms (rs_p99_us s) @ tx ''ms max=''
     @ fmt_u64 (max_us s) @ MICRO @ tx ''s''"

definition harden_detail :: "ScenarioResult \<Rightarrow> utext" where
  "harden_detail s =
     (if id_contains s ''KV-EXHAUST'' \<or> id_contains s ''ADMIT-FLOOD''
      then tx ''graceful_rejects='' @ fmt_u64 (rs_errors s) @ tx ''/'' @ fmt_u64 (total_requests s) @ tx '' kv_rejects=''
           @ fmt_u64 (unwrap_or (rs_kv_admit_rejects s) 0)
      else if id_contains s ''RDMA-TOPO''
      then tx ''shadow_samples='' @ fmt_u64 (unwrap_or (rs_rdma_shadow_samples s) 0) @ tx '' ratio=''
           @ fmt_f64 3 (unwrap_or (rdma_transfer_ratio_median s) 1) @ tx '' ok='' @ fmt_u64 (rs_ok s) @ tx ''/'' @ fmt_u64 (total_requests s)
      else plain_detail s)"

text \<open>The ids seen so far and the cases collected; a scenario whose id was seen is not looked at again.\<close>

definition add_scenario :: "(ScenarioResult \<Rightarrow> utext) \<Rightarrow> ScenarioResult \<Rightarrow> utext list \<times> HardenEntry list \<Rightarrow> utext list \<times> HardenEntry list" where
  "add_scenario det s = (\<lambda>(seen, entries).
     if tx (rs_id s) \<in> set seen then (seen, entries)
     else (tx (rs_id s) # seen,
           entries @ [\<lparr>he_tier = 4, he_id = tx (rs_id s), he_status = scenario_status s, he_detail = det s\<rparr>]))"

definition add_report :: "(ScenarioResult \<Rightarrow> utext) \<Rightarrow> LoadBenchReport option \<Rightarrow> utext list \<times> HardenEntry list \<Rightarrow> utext list \<times> HardenEntry list" where
  "add_report det report acc = (case report of Some r \<Rightarrow> fold (add_scenario det) (report_scenarios r) acc | None \<Rightarrow> acc)"

definition add_linux_only :: "bool \<Rightarrow> utext list \<times> HardenEntry list \<Rightarrow> utext list \<times> HardenEntry list" where
  "add_linux_only linux = (\<lambda>(seen, entries).
     (let i = tx ''LOAD-IOURING-LARGE-BODY''
      in if linux \<or> i \<in> set seen then (seen, entries)
         else (i # seen, entries @ [\<lparr>he_tier = 4, he_id = i, he_status = tx ''SKIP'', he_detail = tx ''Linux only (optional)''\<rparr>])))"

section \<open>The run\<close>

record 'w harden_env =
  hv_linux :: bool
  hv_mkdir :: "'w \<Rightarrow> (string + unit) \<times> 'w"
  hv_suite :: "string \<Rightarrow> string \<Rightarrow> 'w \<Rightarrow> (string + bytes \<times> bytes \<times> bool) \<times> 'w"
  hv_report :: "string \<Rightarrow> 'w \<Rightarrow> string + LoadBenchReport option"
  hv_load :: "'w \<Rightarrow> (string + unit) \<times> 'w"
  hv_write :: "string \<Rightarrow> utext list \<Rightarrow> 'w \<Rightarrow> (string + unit) \<times> 'w"
  hv_width :: "utext option"

definition suite_entries :: "bytes \<Rightarrow> bytes \<Rightarrow> HardenEntry list" where
  "suite_entries out err = List.map_filter parse_line (lines (from_utf8_lossy out @ [10] @ from_utf8_lossy err))"

fun run_suites :: "'w harden_env \<Rightarrow> (string \<times> string) list \<Rightarrow> HardenEntry list \<Rightarrow> nat \<Rightarrow> 'w
    \<Rightarrow> (string + HardenEntry list \<times> nat) \<times> 'w" where
  "run_suites H [] entries failures w = (Inr (entries, failures), w)"
| "run_suites H ((pkg, flt_name) # rest) entries failures w =
     (case hv_suite H pkg flt_name w of
        (Inl e, w') \<Rightarrow> (Inl e, w')
      | (Inr (out, err, success), w') \<Rightarrow>
          run_suites H rest (entries @ suite_entries out err) (failures + fails (\<not> success)) w')"

definition harden_suites :: "bool \<Rightarrow> (string \<times> string) list" where
  "harden_suites linux =
     [(''demiurge-router'', ''harden_''), (''demiurge-dataplane'', ''admit_bucket_invariants''),
      (''demiurge-control'', ''reservation_ledger_invariants'')]
     @ (if linux then [(''demiurge-router'', ''harden_io_uring'')] else [])"

definition HARDEN_JSON :: string where
  "HARDEN_JSON = ''target/load-bench/harden.json''"

text \<open>The load report that counts: one that was there before, replaced after the load run by one that is there then.\<close>

definition harden_load :: "'w harden_env \<Rightarrow> bool \<Rightarrow> 'w \<Rightarrow> (string + LoadBenchReport option \<times> nat) \<times> 'w" where
  "harden_load H skip_load w =
     (case hv_report H HARDEN_JSON w of
        Inl e \<Rightarrow> (Inl e, w)
      | Inr before \<Rightarrow>
          if skip_load then (Inr (before, 0), w)
          else (case hv_load H w of
                  (res, w') \<Rightarrow>
                    (case hv_report H HARDEN_JSON w' of
                       Inl e \<Rightarrow> (Inl e, w')
                     | Inr after \<Rightarrow>
                         (Inr (case after of Some r \<Rightarrow> Some r | None \<Rightarrow> before, fails (isl res)), w'))))"

fun add_extras :: "'w harden_env \<Rightarrow> string list \<Rightarrow> 'w \<Rightarrow> utext list \<times> HardenEntry list \<Rightarrow> string + utext list \<times> HardenEntry list" where
  "add_extras H [] w acc = Inr acc"
| "add_extras H (path # rest) w acc =
     and_then (hv_report H path w) (\<lambda>report. add_extras H rest w (add_report plain_detail report acc))"

definition harden_collect :: "'w harden_env \<Rightarrow> bool \<Rightarrow> bool \<Rightarrow> 'w
    \<Rightarrow> (string + HardenEntry list \<times> LoadBenchReport option \<times> nat) \<times> 'w" where
  "harden_collect H skip_load skip_tests w =
     (case run_suites H (if skip_tests then [] else harden_suites (hv_linux H)) [] 0 w of
        (Inl e, w1) \<Rightarrow> (Inl e, w1)
      | (Inr (tests, n), w1) \<Rightarrow>
          (case harden_load H skip_load w1 of
             (Inl e, w2) \<Rightarrow> (Inl e, w2)
           | (Inr (report, m), w2) \<Rightarrow>
               (case add_extras H [''target/load-bench/stress.json'', ''target/load-bench/latest.json''] w2
                       (add_linux_only (hv_linux H) (add_report harden_detail report (map he_id tests, tests))) of
                  Inl e \<Rightarrow> (Inl e, w2)
                | Inr (seen, entries) \<Rightarrow> (Inr (entries, report, n + m), w2))))"

definition entry_ok :: "HardenEntry \<Rightarrow> bool" where
  "entry_ok e \<longleftrightarrow> he_status e = tx ''PASS'' \<or> he_status e = tx ''SKIP''"

section \<open>Renderings and exit status\<close>

definition harden_mark :: "utext \<Rightarrow> utext" where
  "harden_mark st = (if st = tx ''PASS'' then [10003] else if st = tx ''SKIP'' then [9675] else [10007])"

definition tier_lines :: "HardenEntry list \<Rightarrow> nat \<Rightarrow> nat \<Rightarrow> utext list" where
  "tier_lines entries w tier =
     (let es = filter (\<lambda>e. he_tier e = of_nat tier) entries
      in if es = [] then []
         else pad_line (tx ''Tier '' @ dec_nat tier) w
              # map (\<lambda>e. pad_line (tx ''  '' @ harden_mark (he_status e) @ tx '' '' @ he_id e @ tx '' '' @ DASH @ tx '' '' @ he_status e @ tx '' (''
                  @ he_detail e @ tx '')'') w) es
              @ [single_rule w])"

definition load_case_lines :: "nat \<Rightarrow> ScenarioResult \<Rightarrow> utext list" where
  "load_case_lines w s =
     pad_line (tx ''  '' @ tx (rs_id s) @ tx '' ok='' @ fmt_u64 (rs_ok s) @ tx ''/'' @ fmt_u64 (total_requests s) @ tx '' p99='' @ fmt_ms (rs_p99_us s)
       @ tx ''ms max='' @ fmt_u64 (max_us s) @ MICRO @ tx ''s tail=''
       @ fmt_f64 1 (if 0 < rs_p99_us s then f64_of_u64 (max_us s) / f64_of_u64 (rs_p99_us s) else 0) @ tx ''x'') w
     # (case rs_kv_admit_rejects s of
          Some n \<Rightarrow> [pad_line (tx ''    kv_rejects='' @ fmt_u64 n @ (if rs_ok s = 0 \<and> 0 < n then tx '' (graceful shed)'' else [])) w]
        | None \<Rightarrow> [])
     @ (case rs_fastpath_misroute_mean s of Some m \<Rightarrow> [pad_line (tx ''    misroute_mean='' @ fmt_f64 3 m) w] | None \<Rightarrow> [])"

definition harden_render :: "HardenEntry list \<Rightarrow> LoadBenchReport option \<Rightarrow> nat \<Rightarrow> utext list" where
  "harden_render entries load w =
     [top_rule w,
      pad_line (tx ''DEMIURGE '' @ MIDDOT @ tx '' DIE-HARD VERIFY '' @ MIDDOT @ tx '' PSEUDO REPORT'') w,
      double_rule w,
      pad_line (tx ''cases: PASS '' @ dec_nat (length (filter (\<lambda>e. he_status e = tx ''PASS'') entries)) @ tx '' '' @ MIDDOT @ tx '' SKIP ''
        @ dec_nat (length (filter (\<lambda>e. he_status e = tx ''SKIP'') entries)) @ tx '' '' @ MIDDOT @ tx '' FAIL ''
        @ dec_nat (length (filter (\<lambda>e. \<not> entry_ok e) entries)) @ tx '' '' @ MIDDOT @ tx '' total '' @ dec_nat (length entries)) w,
      double_rule w]
     @ concat (map (tier_lines entries w) [1..<5])
     @ (case load of
          Some r \<Rightarrow> pad_line (tx ''Tier 4 load scenarios'') w # concat (map (load_case_lines w) (report_scenarios r))
        | None \<Rightarrow> [])
     @ [bottom_rule w]"

definition render_markdown :: "HardenEntry list \<Rightarrow> LoadBenchReport option \<Rightarrow> utext list" where
  "render_markdown entries load =
     [tx ''# Demiurge die-hard verify'', [], tx ''| Tier | ID | Status | Detail |'', tx ''|------|-----|--------|--------|'']
     @ map (\<lambda>e. tx ''| '' @ fmt_u64 (he_tier e) @ tx '' | `'' @ he_id e @ tx ''` | '' @ he_status e @ tx '' | '' @ he_detail e @ tx '' |'') entries
     @ (case load of
          Some r \<Rightarrow>
            [[], tx ''## Load scenarios'', [], tx ''| Scenario | OK | Total | p99 (ms) | max ('' @ MICRO @ tx ''s) | KV rejects |'',
             tx ''|----------|-----|-------|----------|----------|------------|'']
            @ map (\<lambda>s. tx ''| '' @ tx (rs_id s) @ tx '' | '' @ fmt_u64 (rs_ok s) @ tx '' | '' @ fmt_u64 (total_requests s) @ tx '' | ''
                @ fmt_ms (rs_p99_us s) @ tx '' | '' @ fmt_u64 (max_us s) @ tx '' | '' @ fmt_u64 (unwrap_or (rs_kv_admit_rejects s) 0) @ tx '' |'')
                (report_scenarios r)
        | None \<Rightarrow> [])"

definition harden_verify :: "'w harden_env \<Rightarrow> bool \<Rightarrow> bool \<Rightarrow> 'w \<Rightarrow> (string + unit) \<times> 'w" where
  "harden_verify H skip_load skip_tests w =
     (case hv_mkdir H w of
        (Inl e, w0) \<Rightarrow> (Inl e, w0)
      | (Inr _, w0) \<Rightarrow>
          (case harden_collect H skip_load skip_tests w0 of
             (Inl e, w1) \<Rightarrow> (Inl e, w1)
           | (Inr (entries, report, suite_failures), w1) \<Rightarrow>
               (case hv_write H ''target/harden-verify/report.pseudo'' (harden_render entries report (pseudo_width (hv_width H))) w1 of
                  (Inl e, w2) \<Rightarrow> (Inl e, w2)
                | (Inr _, w2) \<Rightarrow>
                    (case hv_write H ''target/harden-verify/report.md'' (render_markdown entries report) w2 of
                       (Inl e, w3) \<Rightarrow> (Inl e, w3)
                     | (Inr _, w3) \<Rightarrow>
                         (let entry_failures = length (filter (\<lambda>e. \<not> entry_ok e) entries)
                          in if 0 < suite_failures \<or> 0 < entry_failures
                             then (Inl (''harden-verify: '' @ str_of (dec_nat suite_failures) @ '' suite(s) failed, ''
                                     @ str_of (dec_nat entry_failures) @ '' case(s) non-PASS''), w3)
                             else (Inr (), w3))))))"

section \<open>Collected cases\<close>

lemma add_scenario_prefix: "\<exists>new. snd (add_scenario det s acc) = snd acc @ new"
  by (cases acc) (simp add: add_scenario_def)

lemma add_scenarios_prefix: "\<exists>new. snd (fold (add_scenario det) ss acc) = snd acc @ new"
proof (induction ss arbitrary: acc)
  case (Cons s ss)
  obtain a where "snd (add_scenario det s acc) = snd acc @ a" using add_scenario_prefix by blast
  moreover obtain b where "snd (fold (add_scenario det) ss (add_scenario det s acc)) = snd (add_scenario det s acc) @ b"
    using Cons by blast
  ultimately show ?case by simp
qed simp

lemma add_report_prefix: "\<exists>new. snd (add_report det r acc) = snd acc @ new"
  using add_scenarios_prefix by (cases r) (simp_all add: add_report_def)

lemma add_extras_prefix: "add_extras H ps w acc = Inr acc' \<Longrightarrow> \<exists>new. snd acc' = snd acc @ new"
proof (induction ps arbitrary: acc)
  case (Cons p ps)
  then obtain r where "add_extras H ps w (add_report plain_detail r acc) = Inr acc'" by (auto simp: and_then_Inr)
  with Cons.IH obtain a where "snd acc' = snd (add_report plain_detail r acc) @ a" by blast
  moreover obtain b where "snd (add_report plain_detail r acc) = snd acc @ b" using add_report_prefix by blast
  ultimately show ?case by simp
qed simp

lemma add_linux_only_prefix: "\<exists>new. snd (add_linux_only l acc) = snd acc @ new"
  by (cases acc) (simp add: add_linux_only_def Let_def)

text \<open>Ids seen are ids of collected cases.\<close>

lemma add_scenario_seen: "set (fst acc) = he_id ` set (snd acc) \<Longrightarrow> set (fst (add_scenario det s acc)) = he_id ` set (snd (add_scenario det s acc))"
  by (cases acc) (auto simp: add_scenario_def)

text \<open>Every scenario of a report gets a case, and one with a new id gets its own verdict.\<close>

lemma add_scenarios_covers:
  assumes "set (fst acc) = he_id ` set (snd acc)" "distinct (map rs_id ss)" "s \<in> set ss"
  shows "(\<exists>e\<in>set (snd (fold (add_scenario det) ss acc)). he_id e = tx (rs_id s) \<and> (e \<in> set (snd acc) \<or> he_status e = scenario_status s))"
  using assms
proof (induction ss arbitrary: acc)
  case (Cons x xs)
  let ?acc = "add_scenario det x acc"
  obtain new where new: "snd (fold (add_scenario det) xs ?acc) = snd ?acc @ new" using add_scenarios_prefix by blast
  show ?case
  proof (cases "s = x")
    case True
    have "\<exists>e\<in>set (snd ?acc). he_id e = tx (rs_id s) \<and> (e \<in> set (snd acc) \<or> he_status e = scenario_status s)"
      using Cons.prems(1) True by (cases acc) (auto simp: add_scenario_def image_iff)
    then show ?thesis using new by auto
  next
    case False
    then have "s \<in> set xs" using Cons.prems(3) by simp
    then obtain e where e: "e \<in> set (snd (fold (add_scenario det) xs ?acc))" "he_id e = tx (rs_id s)"
      "e \<in> set (snd ?acc) \<or> he_status e = scenario_status s"
      using Cons.IH [OF add_scenario_seen [OF Cons.prems(1), of det x]] Cons.prems(2) by auto
    have "rs_id s \<noteq> rs_id x" using Cons.prems(2) imageI [OF \<open>s \<in> set xs\<close>, of rs_id] by auto
    then have "tx (rs_id s) \<noteq> tx (rs_id x)" by (auto simp: of_ascii_def inj_map_eq_map [OF inj_of_char])
    then have "e \<in> set (snd ?acc) \<Longrightarrow> e \<in> set (snd acc)" using e(2) by (cases acc) (auto simp: add_scenario_def split: if_splits)
    then show ?thesis using e by auto
  qed
qed simp

lemma harden_collect_covers:
  assumes "harden_collect H skip_load skip_tests w = (Inr (entries, Some r, n), w')" "distinct (map rs_id (report_scenarios r))"
    "s \<in> set (report_scenarios r)"
  obtains tests e where "prefix tests entries" "e \<in> set entries" "he_id e = tx (rs_id s)"
    "e \<in> set tests \<or> he_status e = scenario_status s" "\<exists>k w1. run_suites H (if skip_tests then [] else harden_suites (hv_linux H)) [] 0 w = (Inr (tests, k), w1)"
proof -
  obtain tests k w1 where t: "run_suites H (if skip_tests then [] else harden_suites (hv_linux H)) [] 0 w = (Inr (tests, k), w1)"
    and ex: "\<exists>w2 seen. add_extras H [''target/load-bench/stress.json'', ''target/load-bench/latest.json''] w2
       (add_linux_only (hv_linux H) (add_report harden_detail (Some r) (map he_id tests, tests))) = Inr (seen, entries)"
    using assms(1) by (auto simp: harden_collect_def split: prod.splits sum.splits)
  let ?a = "add_report harden_detail (Some r) (map he_id tests, tests)"
  obtain e where e: "e \<in> set (snd ?a)" "he_id e = tx (rs_id s)" "e \<in> set tests \<or> he_status e = scenario_status s"
    using add_scenarios_covers [of "(map he_id tests, tests)" "report_scenarios r" s harden_detail] assms(2,3) by (auto simp: add_report_def)
  from ex obtain new where new: "entries = snd (add_linux_only (hv_linux H) ?a) @ new" using add_extras_prefix by fastforce
  obtain n1 where n1: "snd (add_linux_only (hv_linux H) ?a) = snd ?a @ n1" using add_linux_only_prefix by blast
  obtain n2 where n2: "snd ?a = tests @ n2" using add_report_prefix [of harden_detail "Some r" "(map he_id tests, tests)"] by auto
  show ?thesis
  proof (rule that [of tests e])
    show "prefix tests entries" using new n1 n2 by simp
    show "e \<in> set entries" using e(1) new n1 by simp
  qed (use e t in auto)
qed

lemma harden_verify_ok:
  assumes "harden_verify H skip_load skip_tests w = (Inr (), w')"
  obtains entries report w0 w1 where "hv_mkdir H w = (Inr (), w0)" "harden_collect H skip_load skip_tests w0 = (Inr (entries, report, 0), w1)"
    "list_all entry_ok entries"
  using assms by (auto simp: harden_verify_def Let_def list_all_iff filter_empty_conv split: prod.splits sum.splits if_splits)

section \<open>Lines are read back\<close>

lemma trim_plain:
  assumes "t \<noteq> []" "\<not> is_whitespace (hd t)" "\<not> is_whitespace (last t)"
  shows "trim t = t"
proof -
  have "dropWhile is_whitespace t = t" using assms(1,2) by (cases t) auto
  moreover have "dropWhile is_whitespace (rev t) = rev t"
    using assms(1,3) by (cases "rev t") (auto simp flip: hd_rev)
  ultimately show ?thesis by (simp add: trim_def)
qed

definition word_ok :: "utext \<Rightarrow> bool" where
  "word_ok p \<longleftrightarrow> p \<noteq> [] \<and> (\<forall>c\<in>set p. \<not> is_whitespace c)"

lemma last_join: "ws \<noteq> [] \<Longrightarrow> last ws \<noteq> [] \<Longrightarrow> join sep ws \<noteq> [] \<and> last (join sep ws) = last (last ws)"
  by (induction sep ws rule: join.induct) auto

lemma parse_words:
  assumes "ws \<noteq> []" "list_all word_ok ws"
  shows "parse_line (join 32 (tx ''HARDEN_REPORT'' # ws)) =
    (let e = fold parse_part ws \<lparr>he_tier = 0, he_id = [], he_status = [], he_detail = []\<rparr> in if he_id e = [] then None else Some e)"
proof -
  let ?h = "tx ''HARDEN_REPORT''"
  let ?l = "join 32 (?h # ws)"
  have h: "word_ok ?h" by (simp add: word_ok_def of_ascii_def is_whitespace_def)
  have l: "?l = ?h @ 32 # join 32 ws" using assms(1) by (cases ws) auto
  have "word_ok (last ws)" using assms by (simp add: list_all_iff)
  then have "\<not> is_whitespace (last ?l)" "?l \<noteq> []"
    using last_join [of "?h # ws" 32] assms(1) by (auto simp: word_ok_def)
  moreover have "\<not> is_whitespace (hd ?l)" unfolding l by (simp add: of_ascii_def is_whitespace_def)
  ultimately have t: "trim ?l = ?l" by (intro trim_plain)
  have st: "starts_with (tx ''HARDEN_REPORT '') ?l" unfolding l by (simp add: starts_with_def of_ascii_def)
  have "split_on is_whitespace ?l = ?h # ws"
    using assms(2) h by (intro split_on_join) (auto simp: list_all_iff word_ok_def is_whitespace_def)
  then have "split_whitespace ?l = ?h # ws"
    using assms(2) h by (auto simp: split_whitespace_def list_all_iff word_ok_def filter_id_conv)
  then show ?thesis using t st by (simp add: parse_line_def)
qed

lemma word_ok_fmt: "word_ok (fmt_u64 v)"
  using dec_nat_digits [of _ "unat v"] by (fastforce simp: word_ok_def fmt_u64_def is_whitespace_def)

lemma word_ok_append: "word_ok p \<Longrightarrow> word_ok q \<Longrightarrow> word_ok (p @ q)"
  by (auto simp: word_ok_def)

lemma word_ok_lit: "p \<noteq> [] \<Longrightarrow> list_all (\<lambda>c. \<not> is_whitespace c) p \<Longrightarrow> word_ok p"
  by (auto simp: word_ok_def list_all_iff)

definition id_ok :: "string \<Rightarrow> bool" where
  "id_ok i \<longleftrightarrow> word_ok (tx i)"

text \<open>The words of a printed line after its marker.\<close>

definition line_words :: "string \<Rightarrow> string \<Rightarrow> utext list \<Rightarrow> utext list" where
  "line_words i st ds = [tx ''tier=4'', tx ''id='' @ tx i, tx ''status='' @ tx st, tx ''detail='' @ hd ds] @ tl ds"

lemma report_line_words: "ds \<noteq> [] \<Longrightarrow> report_line i st (join 32 ds) = join 32 (tx ''HARDEN_REPORT'' # line_words i st ds)"
  by (cases ds; cases "tl ds") (simp_all add: report_line_def line_words_def of_ascii_def)

text \<open>A word that sets none of the four fields.\<close>

definition inert :: "utext \<Rightarrow> bool" where
  "inert p \<longleftrightarrow> (\<forall>e. parse_part p e = e)"

lemma fold_inert: "list_all inert ps \<Longrightarrow> fold parse_part ps e = e"
  by (induction ps) (simp_all add: inert_def)

lemma parse_report_line:
  assumes "id_ok i" "word_ok (tx st)" "ds \<noteq> []" "list_all word_ok ds" "list_all inert (tl ds)"
  shows "parse_line (report_line i st (join 32 ds)) = Some \<lparr>he_tier = 4, he_id = tx i, he_status = tx st, he_detail = hd ds\<rparr>"
proof -
  have i: "tx i \<noteq> []" using assms(1) by (simp add: id_ok_def word_ok_def)
  have w: "list_all word_ok (line_words i st ds)"
    using assms by (auto simp: line_words_def id_ok_def list_all_iff list.set_sel(2) intro!: word_ok_append)
      (auto simp: word_ok_def of_ascii_def is_whitespace_def)
  have p4: "parse_u8 [52] = Some 4" by (simp add: parse_u8_def parse_u64_def from_str_radix_def digit_value_def checked_mul_def checked_add_def)
  have "fold parse_part (line_words i st ds) \<lparr>he_tier = 0, he_id = [], he_status = [], he_detail = []\<rparr>
      = \<lparr>he_tier = 4, he_id = tx i, he_status = tx st, he_detail = hd ds\<rparr>"
    using fold_inert [OF assms(5)] p4 by (simp add: line_words_def parse_part_def split_eq_def of_ascii_def unwrap_or_def)
  then show ?thesis using parse_words [of "line_words i st ds"] w i
    by (simp add: report_line_words [OF assms(3)]) (simp add: line_words_def)
qed

definition pass_words :: "Scenario \<Rightarrow> ScenarioResult \<Rightarrow> utext list" where
  "pass_words sc r =
     (if sc_min_kv_admit_rejects sc \<noteq> None \<or> sc_min_errors sc \<noteq> None
      then [tx ''graceful_rejects='' @ fmt_u64 (rs_errors r) @ tx ''/'' @ fmt_u64 (total_requests r),
            tx ''kv_rejects='' @ fmt_u64 (unwrap_or (rs_kv_admit_rejects r) 0)]
      else if rs_errors_graceful r \<noteq> None
      then [tx ''ok='' @ fmt_u64 (rs_ok r) @ tx ''/'' @ fmt_u64 (total_requests r), tx ''p99='' @ fmt_u64 (rs_p99_us r) @ tx ''us'',
            tx ''errs='' @ fmt_u64 (rs_errors r), tx ''(503='' @ fmt_u64 (unwrap_or (rs_errors_graceful r) 0),
            tx ''hard='' @ fmt_u64 (unwrap_or (rs_errors_hard r) 0) @ tx '')'']
      else [tx ''ok='' @ fmt_u64 (rs_ok r) @ tx ''/'' @ fmt_u64 (total_requests r), tx ''p99='' @ fmt_u64 (rs_p99_us r) @ tx ''us'',
            tx ''max='' @ fmt_u64 (max_us r) @ tx ''us'', tx ''errs='' @ fmt_u64 (rs_errors r)])"

lemma pass_detail_join: "pass_detail sc r = join 32 (pass_words sc r)"
  by (simp add: pass_detail_def pass_words_def of_ascii_def)

lemma lit_word_ok:
  "word_ok (tx ''graceful_rejects='')" "word_ok (tx ''/'')" "word_ok (tx ''kv_rejects='')" "word_ok (tx ''ok='')" "word_ok (tx ''p99='')" "word_ok (tx ''us'')"
  "word_ok (tx ''errs='')" "word_ok (tx ''(503='')" "word_ok (tx ''hard='')" "word_ok (tx '')'')" "word_ok (tx ''max='')" "word_ok (tx ''gate_miss'')"
  "word_ok (tx ''PASS'')" "word_ok (tx ''FAIL'')"
  by (simp_all add: word_ok_def of_ascii_def is_whitespace_def)

lemma lit_inert:
  "inert (tx ''kv_rejects='' @ v)" "inert (tx ''p99='' @ v)" "inert (tx ''errs='' @ v)" "inert (tx ''(503='' @ v)" "inert (tx ''hard='' @ v)" "inert (tx ''max='' @ v)"
  by (simp_all add: inert_def parse_part_def split_eq_def of_ascii_def)

lemma pass_words_ok: "pass_words sc r \<noteq> []" "list_all word_ok (pass_words sc r)" "list_all inert (tl (pass_words sc r))"
  by (simp_all add: pass_words_def lit_word_ok lit_inert word_ok_fmt word_ok_append)

lemma scenario_report_line_read:
  assumes "id_ok (rs_id r)" "scenario_report_line sc r = Some l"
  shows "\<exists>d. parse_line l = Some \<lparr>he_tier = 4, he_id = tx (rs_id r), he_status = tx (if missed_gates sc r = 0 then ''PASS'' else ''FAIL''), he_detail = d\<rparr>"
proof (cases "missed_gates sc r = 0")
  case True
  then have "l = report_line (rs_id r) ''PASS'' (join 32 (pass_words sc r))"
    using assms(2) by (auto simp: scenario_report_line_def pass_detail_join split: if_splits)
  then show ?thesis using True parse_report_line [OF assms(1) lit_word_ok(13) pass_words_ok [of sc r]] by simp
next
  case False
  let ?ds = "[tx ''gate_miss'', tx ''errs='' @ fmt_u64 (rs_errors r)]"
  have "l = report_line (rs_id r) ''FAIL'' (join 32 ?ds)"
    using assms(2) False by (auto simp: scenario_report_line_def of_ascii_def split: if_splits)
  then show ?thesis using False parse_report_line [OF assms(1) lit_word_ok(14), of ?ds] by (simp add: lit_word_ok lit_inert word_ok_fmt word_ok_append)
qed

text \<open>Only the first word of a detail survives.\<close>

lemma detail_truncated:
  "parse_line (report_line ''S'' ''FAIL'' (tx ''gate_miss errs=9'')) = Some \<lparr>he_tier = 4, he_id = tx ''S'', he_status = tx ''FAIL'', he_detail = tx ''gate_miss''\<rparr>"
  using parse_report_line [of "''S''" "''FAIL''" "[tx ''gate_miss'', tx ''errs=9'']"]
  by (simp add: id_ok_def word_ok_def of_ascii_def is_whitespace_def inert_def parse_part_def split_eq_def)

section \<open>Properties\<close>

text \<open>Whatever line a load scenario prints for the hardening report is read back with tier 4, the scenario's
  id and the verdict of its gates, provided the id is one word.\<close>

theorem harden_line_roundtrip:
  assumes "id_ok (rs_id r)" "scenario_report_line sc r = Some l"
  shows "\<exists>d. parse_line l = Some \<lparr>he_tier = 4, he_id = tx (rs_id r), he_status = tx (if missed_gates sc r = 0 then ''PASS'' else ''FAIL''), he_detail = d\<rparr>"
  using assms by (rule scenario_report_line_read)

theorem harden_line_roundtrip_witness:
  "\<exists>l. scenario_report_line (plain_scenario\<lparr>harden := True\<rparr>) idle_result = Some l \<and> parse_line l \<noteq> None"
proof -
  have m: "missed_gates (plain_scenario\<lparr>harden := True\<rparr>) idle_result = 0" by (simp add: sample_defs counter_defs)
  then obtain l where l: "scenario_report_line (plain_scenario\<lparr>harden := True\<rparr>) idle_result = Some l"
    by (simp add: scenario_report_line_def)
  moreover have "id_ok (rs_id idle_result)" by (simp add: id_ok_def word_ok_def idle_result_def of_ascii_def is_whitespace_def)
  ultimately show ?thesis using harden_line_roundtrip [of idle_result "plain_scenario\<lparr>harden := True\<rparr>" l] by auto
qed

lemma harden_collect_Inr:
  "harden_collect H skip_load skip_tests w = (Inr (entries, report, n), w') \<Longrightarrow>
   \<exists>tests k m w1. run_suites H (if skip_tests then [] else harden_suites (hv_linux H)) [] 0 w = (Inr (tests, k), w1)
     \<and> harden_load H skip_load w1 = (Inr (report, m), w') \<and> n = k + m"
  by (auto simp: harden_collect_def split: prod.splits sum.splits)

lemma harden_load_ok: "harden_load H False w = (Inr (report, 0), w') \<Longrightarrow> fst (hv_load H w) = Inr ()"
  by (auto simp: harden_load_def split: prod.splits sum.splits option.splits) (auto simp: isl_def intro: sum.exhaust)

text \<open>C34: A hardening check that exits successfully ran every test suite and, unless told to skip it, the load suite
  without a failure, every collected case passed or was skipped, and every scenario of the load report either
  passes its own criterion or was already reported by a test.\<close>

theorem harden_verify_sound:
  assumes "harden_verify H skip_load skip_tests w = (Inr (), w')"
  shows "\<exists>entries tests report w0 w1 w2.
    run_suites H (if skip_tests then [] else harden_suites (hv_linux H)) [] 0 w0 = (Inr (tests, 0), w1)
    \<and> harden_load H skip_load w1 = (Inr (report, 0), w2) \<and> (\<not> skip_load \<longrightarrow> fst (hv_load H w1) = Inr ())
    \<and> harden_collect H skip_load skip_tests w0 = (Inr (entries, report, 0), w2) \<and> list_all entry_ok entries
    \<and> (\<forall>r s. report = Some r \<and> distinct (map rs_id (report_scenarios r)) \<and> s \<in> set (report_scenarios r) \<longrightarrow>
         tx (rs_id s) \<in> he_id ` set tests \<or> scenario_passes s)"
proof -
  obtain entries report w0 w2 where c: "harden_collect H skip_load skip_tests w0 = (Inr (entries, report, 0), w2)" "list_all entry_ok entries"
    using harden_verify_ok [OF assms] by metis
  obtain tests w1 where t: "run_suites H (if skip_tests then [] else harden_suites (hv_linux H)) [] 0 w0 = (Inr (tests, 0), w1)"
    and l: "harden_load H skip_load w1 = (Inr (report, 0), w2)" using harden_collect_Inr [OF c(1)] by auto
  have "tx (rs_id s) \<in> he_id ` set tests \<or> scenario_passes s"
    if r: "report = Some r" "distinct (map rs_id (report_scenarios r))" "s \<in> set (report_scenarios r)" for r s
  proof -
    obtain ts e where e: "e \<in> set entries" "he_id e = tx (rs_id s)" "e \<in> set ts \<or> he_status e = scenario_status s"
      "\<exists>k w1. run_suites H (if skip_tests then [] else harden_suites (hv_linux H)) [] 0 w0 = (Inr (ts, k), w1)"
      using harden_collect_covers [OF c(1) [unfolded r(1)] r(2,3)] by metis
    have "entry_ok e" using e(1) c(2) by (simp add: list_all_iff)
    then have "he_status e = scenario_status s \<Longrightarrow> scenario_passes s"
      by (auto simp: entry_ok_def scenario_status_def of_ascii_def split: if_splits)
    moreover have "tests = ts" using e(4) t by auto
    ultimately show ?thesis using e(2,3) by (metis image_eqI)
  qed
  moreover have "\<not> skip_load \<longrightarrow> fst (hv_load H w1) = Inr ()" using l harden_load_ok [of H w1 report w2] by (cases skip_load) auto
  ultimately show ?thesis using c t l
    by (intro exI [of _ entries] exI [of _ tests] exI [of _ report] exI [of _ w0] exI [of _ w1] exI [of _ w2]) simp
qed

definition sample_harden :: "unit harden_env" where
  "sample_harden =
     \<lparr>hv_linux = True, hv_mkdir = \<lambda>w. (Inr (), w), hv_suite = \<lambda>p f w. (Inr ([], [], True), w),
      hv_report = \<lambda>p w. Inr (if p = HARDEN_JSON then Some \<lparr>generated_at = [], hostname = [], report_scenarios = [idle_result]\<rparr> else None),
      hv_load = \<lambda>w. (Inr (), w), hv_write = \<lambda>p t w. (Inr (), w), hv_width = None\<rparr>"

lemma suite_entries_Nil: "suite_entries [] [] = []"
  by code_simp

lemma sample_harden_run: "harden_verify sample_harden False False () = (Inr (), ())"
proof -
  have "scenario_status idle_result = tx ''PASS''" by (simp add: scenario_status_def scenario_passes_def id_contains_def idle_result_def starts_with_def)
  then show ?thesis
    by (simp add: harden_verify_def harden_collect_def sample_harden_def harden_suites_def harden_load_def suite_entries_Nil add_report_def
        add_scenario_def add_linux_only_def entry_ok_def HARDEN_JSON_def fails_def Let_def)
qed

theorem harden_verify_sound_witness:
  "harden_verify sample_harden False False () = (Inr (), ())
   \<and> (\<exists>entries report. harden_collect sample_harden False False () = (Inr (entries, report, 0), ()) \<and> list_all entry_ok entries)"
  using sample_harden_run harden_verify_sound [OF sample_harden_run] by auto

end
