(* ===== verification/Dispatch.thy ===== *)
theory Dispatch
  imports Gen Harden
begin

text \<open>
  The subcommands of the conformance tool (\<open>xtask/src/main.rs\<close>, \<open>main\<close>), the document builds, the re-rendering of a
  saved load report and the fleet simulation entry point.  Processes are started through a parameter; the exit status of a
  process is the code and its display.  The section on isolated runs joins the dispatcher with the load benchmark: a child
  process runs \<open>main\<close> again on the command line that the parent builds.
\<close>

section \<open>Command lines\<close>

datatype command =
    GenCmd | LintCmd | BenchGateCmd | BenchProbeCmd | BenchFlameCmd "string option"
  | LoadBenchCmd bool "string option" bool bool bool | LoadReportCmd bool bool bool | AbBenchCmd "string list"
  | ApostropheSimCmd | HardenVerifyCmd bool bool | BuildBpfCmd | FleetPilotCmd | SpecCmd | ProductDocCmd bool

text \<open>\<open>windows(2).find_map\<close>: the argument after the first occurrence of the flag that has one.\<close>

fun flag_value :: "string \<Rightarrow> string list \<Rightarrow> string option" where
  "flag_value flag (a # b # rest) = (if a = flag then Some b else flag_value flag (b # rest))"
| "flag_value flag _ = None"

definition parse_command :: "string list \<Rightarrow> command option" where
  "parse_command argv =
     (let cmd = (if 1 < length argv then argv ! 1 else []);
          args = drop 2 argv;
          has = (\<lambda>f. f \<in> set args)
      in if cmd = ''gen'' then Some GenCmd
         else if cmd = ''lint'' then Some LintCmd
         else if cmd = ''bench-gate'' then Some BenchGateCmd
         else if cmd = ''bench-probe'' then Some BenchProbeCmd
         else if cmd = ''bench-flame'' then Some (BenchFlameCmd (flag_value ''--theme'' args))
         else if cmd = ''load-bench''
           then Some (LoadBenchCmd (has ''--ci'') (flag_value ''--scenario'' args) (has ''--stress'') (has ''--harden'') (has ''--sim''))
         else if cmd = ''load-report'' then Some (LoadReportCmd (has ''--stress'') (has ''--harden'') (has ''--sim''))
         else if cmd = ''ab-bench'' then Some (AbBenchCmd args)
         else if cmd = [CHR 0x27] @ ''sim'' \<or> cmd = ''apostrophe-sim'' then Some ApostropheSimCmd
         else if cmd = ''harden-verify'' then Some (HardenVerifyCmd (has ''--skip-load'') (has ''--skip-tests''))
         else if cmd = ''build-bpf'' then Some BuildBpfCmd
         else if cmd = ''fleet-pilot'' then Some FleetPilotCmd
         else if cmd = ''spec'' then Some SpecCmd
         else if cmd = ''product-doc'' then Some (ProductDocCmd (''--plain'' \<in> set argv))
         else None)"

text \<open>The exit status: 2 for an unknown subcommand, 1 for an error of the subcommand, 0 otherwise.\<close>

definition main :: "(command \<Rightarrow> 'w \<Rightarrow> (string + unit) \<times> 'w) \<Rightarrow> string list \<Rightarrow> 'w \<Rightarrow> nat \<times> 'w" where
  "main run argv w =
     (case parse_command argv of
        None \<Rightarrow> (2, w)
      | Some c \<Rightarrow> (case run c w of (Inl e, w') \<Rightarrow> (1, w') | (Inr _, w') \<Rightarrow> (0, w')))"

section \<open>Builds through other programs\<close>

record 'w tool_env =
  te_run :: "string \<Rightarrow> string list \<Rightarrow> (string \<times> string) list \<Rightarrow> string option \<Rightarrow> 'w \<Rightarrow> (string + bool \<times> string) \<times> 'w"
  te_mkdir :: "string \<Rightarrow> 'w \<Rightarrow> (string + unit) \<times> 'w"
  te_copy :: "string \<Rightarrow> string \<Rightarrow> 'w \<Rightarrow> (string + unit) \<times> 'w"
  te_gen :: "'w \<Rightarrow> (string + unit) \<times> 'w"

text \<open>A program with its arguments, extra environment and working directory, whose failing status is an error.\<close>

definition run_checked :: "'w tool_env \<Rightarrow> string \<Rightarrow> string \<Rightarrow> string list \<Rightarrow> (string \<times> string) list \<Rightarrow> string option
    \<Rightarrow> 'w \<Rightarrow> (string + unit) \<times> 'w" where
  "run_checked T what prog args vars dir w =
     (case te_run T prog args vars dir w of
        (Inl e, w') \<Rightarrow> (Inl e, w')
      | (Inr (success, shown), w') \<Rightarrow> (if success then Inr () else Inl (what @ '' exited with '' @ shown), w'))"

definition build_bpf :: "'w tool_env \<Rightarrow> 'w \<Rightarrow> (string + unit) \<times> 'w" where
  "build_bpf T w = run_checked T ''build-bpf'' ''bash'' [''scripts/build-bpf.sh''] [] None w"

definition build_spec :: "'w tool_env \<Rightarrow> 'w \<Rightarrow> (string + unit) \<times> 'w" where
  "build_spec T w =
     (case te_gen T w of
        (Inl e, w') \<Rightarrow> (Inl e, w')
      | (Inr _, w') \<Rightarrow>
          run_checked T ''latexmk'' ''latexmk'' [''-pdf'', ''-interaction=nonstopmode'', ''-halt-on-error'', ''demiurge.tex''] [] (Some ''spec'') w')"

definition build_product_doc :: "'w tool_env \<Rightarrow> bool \<Rightarrow> 'w \<Rightarrow> (string + unit) \<times> 'w" where
  "build_product_doc T plain w =
     (let out_dir = ''target/product-doc/docs'';
          out_md = path_join out_dir ''PRODUCT-AND-DESIGN.md'';
          out_pdf = path_join out_dir ''PRODUCT-AND-DESIGN.pdf''
      in case te_mkdir T out_dir w of
           (Inl e, w1) \<Rightarrow> (Inl e, w1)
         | (Inr _, w1) \<Rightarrow>
             (case (if plain then te_copy T ''docs/PRODUCT-AND-DESIGN.md'' out_md w1
                    else run_checked T ''generate-product-doc'' ''bash'' [''scripts/generate-product-doc.sh'', out_md]
                           [(''ARTIFACT_DIR'', ''target/product-doc'')] None w1) of
                (Inl e, w2) \<Rightarrow> (Inl e, w2)
              | (Inr _, w2) \<Rightarrow>
                  run_checked T ''compile-product-doc'' ''bash'' [''scripts/compile-product-doc.sh'', out_md, out_pdf] [] None w2))"

section \<open>Re-rendering a load report\<close>

definition report_paths :: "string \<Rightarrow> string \<times> string" where
  "report_paths rd = (path_join rd ''latest.json'', path_join rd ''latest.pseudo'')"

definition load_report :: "(string \<Rightarrow> 'w \<Rightarrow> string + LoadBenchReport option) \<Rightarrow> (string \<Rightarrow> utext list \<Rightarrow> 'w \<Rightarrow> (string + unit) \<times> 'w)
    \<Rightarrow> utext option \<Rightarrow> string + LoadBenchFile \<Rightarrow> bool \<Rightarrow> bool \<Rightarrow> bool \<Rightarrow> 'w \<Rightarrow> (string + unit) \<times> 'w" where
  "load_report saved write width contents str hrd sm w =
     (case contents of
        Inl e \<Rightarrow> (Inl e, w)
      | Inr file \<Rightarrow>
          (let dir = report_dir (settings file);
               (json_path, pseudo_path) =
                 (if str then (path_join dir ''stress.json'', path_join dir ''stress.pseudo'')
                  else if hrd then (path_join dir ''harden.json'', path_join dir ''harden.pseudo'')
                  else if sm then (path_join dir ''sim.json'', path_join dir ''sim.pseudo'')
                  else report_paths dir)
           in case saved json_path w of
                Inl e \<Rightarrow> (Inl e, w)
              | Inr None \<Rightarrow> (Inl (''no results at '' @ json_path @ ''; run `cargo xtask load-bench` first''), w)
              | Inr (Some report) \<Rightarrow>
                  (case gate_configs_by_id contents of
                     Inl e \<Rightarrow> (Inl e, w)
                   | Inr cfgs \<Rightarrow> write pseudo_path (render width report cfgs sm) w)))"

definition apostrophe_sim :: "'w bench_env \<Rightarrow> (string \<Rightarrow> utext list \<Rightarrow> 'w \<Rightarrow> (string + unit) \<times> 'w)
    \<Rightarrow> utext option \<Rightarrow> string + LoadBenchFile \<Rightarrow> 'w \<Rightarrow> (string + unit) \<times> 'w" where
  "apostrophe_sim E write width contents w =
     (case load_bench E contents False None False False True w of
        (Inl e, w') \<Rightarrow> (Inl e, w')
      | (Inr _, w') \<Rightarrow> load_report (be_partial E) write width contents False False True w')"

section \<open>Isolated runs\<close>

text \<open>The environment of a parent whose child processes run \<open>main\<close>; only their \<open>load-bench\<close> matters here.\<close>

definition tool_run :: "'w bench_env \<Rightarrow> string + LoadBenchFile \<Rightarrow> (command \<Rightarrow> 'w \<Rightarrow> (string + unit) \<times> 'w)
    \<Rightarrow> command \<Rightarrow> 'w \<Rightarrow> (string + unit) \<times> 'w" where
  "tool_run E contents other c =
     (case c of LoadBenchCmd ci_only sc str hrd sm \<Rightarrow> load_bench E contents ci_only sc str hrd sm | _ \<Rightarrow> other c)"

definition child_main :: "'w bench_env \<Rightarrow> string + LoadBenchFile \<Rightarrow> (command \<Rightarrow> 'w \<Rightarrow> (string + unit) \<times> 'w)
    \<Rightarrow> string list \<Rightarrow> 'w \<Rightarrow> (string + bool) \<times> 'w" where
  "child_main E contents other args w =
     (let (code, w') = main (tool_run E contents other) (''xtask'' # args) w
      in (Inr (code = 0), w'))"

definition isolating :: "'w bench_env \<Rightarrow> string + LoadBenchFile \<Rightarrow> (command \<Rightarrow> 'w \<Rightarrow> (string + unit) \<times> 'w) \<Rightarrow> 'w bench_env" where
  "isolating E contents other = E\<lparr>be_child := child_main E contents other\<rparr>"

text \<open>Scenario names that are no flags of the command.\<close>

definition plain_id :: "string \<Rightarrow> bool" where
  "plain_id i \<longleftrightarrow> i \<notin> {''--ci'', ''--stress'', ''--harden'', ''--sim''}"

lemma child_command:
  "plain_id i \<Longrightarrow> parse_command (''xtask'' # [''load-bench'', ''--scenario'', i] @ mode_flag md)
     = Some (LoadBenchCmd False (Some i) (md = Stress) (md = Harden) (md = Sim))"
  by (cases md) (auto simp: parse_command_def plain_id_def mode_flag_def Let_def)

text \<open>A child does not start children: it runs one scenario in its own process.\<close>

lemma child_main_success:
  assumes "child_main E contents other ([''load-bench'', ''--scenario'', i] @ mode_flag md) w = (Inr True, w')" "plain_id i"
  shows "load_bench_inner E contents False (Some i) (md = Stress) (md = Harden) (md = Sim) w = (Inr (), w')"
  using assms(1) unfolding child_main_def main_def child_command [OF assms(2)]
  by (cases md) (auto simp: tool_run_def load_bench_def Let_def split: prod.splits sum.splits)

lemma isolated_loop_children:
  "isolated_loop E md rd scs is acc n w = (Inr (results, 0), w') \<Longrightarrow> i \<in> set is \<Longrightarrow> \<not> isolated_skip E scs i \<Longrightarrow>
   \<exists>w1 w2. be_child E ([''load-bench'', ''--scenario'', i] @ mode_flag md) w1 = (Inr True, w2)"
proof (induction "is" arbitrary: acc n w)
  case (Cons j "is")
  show ?case
  proof (cases "i = j")
    case True
    from Cons.prems True obtain ok w1 acc' where c: "be_child E ([''load-bench'', ''--scenario'', i] @ mode_flag md) w = (Inr ok, w1)"
      and l: "isolated_loop E md rd scs is acc' (n + fails (\<not> ok)) w1 = (Inr (results, 0), w')"
      by (auto split: prod.splits sum.splits)
    then have "ok" using isolated_loop_ok [OF l] by simp
    then show ?thesis using c by auto
  next
    case False
    then show ?thesis using Cons.prems Cons.IH by (auto split: if_splits prod.splits sum.splits)
  qed
qed simp

lemma inner_single:
  assumes "load_bench_inner E (Inr file) False (Some (sc_id s)) str hrd sm w = (Inr (), w')"
    and "filter (selected False (Some (sc_id s)) str hrd sm) (scenario file) = [s]"
  shows "(runs E s \<or> optional s) \<and>
    (runs E s \<longrightarrow> (\<exists>r w1. be_run E s (warmup_requests (settings file)) w = (Inr r, w1)
       \<and> (is_strict (settings file) False str hrd sm s \<longrightarrow> missed_gates s r = 0)))"
  using assms by (auto simp: load_bench_inner_def runs_def finish_inner_def Let_def split: option.splits prod.splits sum.splits if_splits)

lemma filter_distinct_single:
  assumes "distinct (map f xs)" "x \<in> set xs" "P x" "\<And>y. P y \<Longrightarrow> f y = f x"
  shows "filter P xs = [x]"
proof -
  have inj: "inj_on f (set xs)" and d: "distinct xs" using assms(1) by (simp_all add: distinct_map)
  have "filter P xs = filter (\<lambda>y. y = x) xs"
    using assms(2-4) inj_onD [OF inj] by (intro filter_cong) blast+
  also have "\<dots> = [x]" using d assms(2) by (induction xs) (auto simp: filter_empty_conv)
  finally show ?thesis .
qed

lemma isolated_skip_eq:
  "distinct (map sc_id scs) \<Longrightarrow> s \<in> set scs \<Longrightarrow> isolated_skip E scs (sc_id s) \<longleftrightarrow> \<not> runs E s \<and> optional s"
proof -
  assume "distinct (map sc_id scs)" "s \<in> set scs"
  then have "List.find (\<lambda>t. sc_id t = sc_id s) scs = Some s" by (induction scs) auto
  then show ?thesis by (auto simp: isolated_skip_def runs_def)
qed

lemma isolated_suite_ok:
  assumes run: "load_bench_isolated (isolating E (Inr file) other) (Inr file) md w = (Inr (), w')"
    and ids: "distinct (map sc_id (scenario file))" and s: "s \<in> set (scenario file)" "mode_selects md s" "plain_id (sc_id s)"
  shows "(runs E s \<or> optional s) \<and>
    (runs E s \<longrightarrow> (\<exists>w1 r w2. be_run E s (warmup_requests (settings file)) w1 = (Inr r, w2)
       \<and> (is_strict (settings file) False (md = Stress) (md = Harden) (md = Sim) s \<longrightarrow> missed_gates s r = 0)))"
proof (cases "runs E s \<or> \<not> optional s")
  case True
  let ?P = "isolating E (Inr file) other" and ?ids = "map sc_id (filter (mode_selects md) (scenario file))"
  have env: "runs ?P t = runs E t" for t by (simp add: runs_def isolating_def)
  obtain w1 w2 results where l: "isolated_loop ?P md (runs_dir (report_dir (settings file))) (scenario file) ?ids [] 0 w1 = (Inr (results, 0), w2)"
    using run by (auto simp: load_bench_isolated_def Let_def split: if_splits prod.splits sum.splits)
  have "\<not> isolated_skip ?P (scenario file) (sc_id s)" using isolated_skip_eq [OF ids s(1), of ?P] True env by blast
  moreover have "sc_id s \<in> set ?ids" using s by auto
  ultimately obtain w3 w4 where "be_child ?P ([''load-bench'', ''--scenario'', sc_id s] @ mode_flag md) w3 = (Inr True, w4)"
    using isolated_loop_children [OF l] by blast
  then have "load_bench_inner E (Inr file) False (Some (sc_id s)) (md = Stress) (md = Harden) (md = Sim) w3 = (Inr (), w4)"
    by (intro child_main_success [of E "Inr file" other]) (simp_all add: isolating_def s)
  moreover have "filter (selected False (Some (sc_id s)) (md = Stress) (md = Harden) (md = Sim)) (scenario file) = [s]"
    using isolated_child_selects [OF s(2)] by (intro filter_distinct_single [OF ids s(1)]) (auto simp: selected_def split: if_splits)
  ultimately have "(runs E s \<or> optional s) \<and> (runs E s \<longrightarrow> (\<exists>r w5. be_run E s (warmup_requests (settings file)) w3 = (Inr r, w5)
       \<and> (is_strict (settings file) False (md = Stress) (md = Harden) (md = Sim) s \<longrightarrow> missed_gates s r = 0)))"
    by (rule inner_single)
  then show ?thesis by blast
qed auto


text \<open>A suite of one strict scenario and one that needs root and is optional.\<close>

definition suite_file :: LoadBenchFile where
  "suite_file = sample_file\<lparr>scenario := [plain_scenario, plain_scenario\<lparr>sc_id := ''K'', track_b_kernel := True, optional := True\<rparr>]\<rparr>"

lemma suite_exit:
  "main (tool_run (isolating bench_sample_env (Inr suite_file) (\<lambda>c w. (Inr (), w))) (Inr suite_file) (\<lambda>c w. (Inr (), w)))
     (''xtask'' # ''load-bench'' # mode_flag Local) () = (0, ())"
  by (simp add: main_def parse_command_def mode_flag_def tool_run_def load_bench_def load_bench_isolated_def isolating_def child_main_def
      load_bench_inner_def finish_inner_def bench_sample_env_def suite_file_def sample_file_def mode_selects_def selected_def is_strict_def
      scenario_skip_reason_def isolated_skip_def Let_def sample_defs counter_defs)


end
