(* ===== verification/BenchWork.thy ===== *)
theory BenchWork
  imports BenchGate PseudoReport Routing
begin

text \<open>
  The benchmarked workloads of the CPU bench gates (\<open>xtask/src/bench_gate.rs\<close>): the fixtures that each gate builds
  and the call it times, over the models of the cost, routing, state, pairing, rebalancing and KV components; and the
  extended probe with its table, its hot-path stack and the scaling verdict.  \<open>None\<close> is a failed \<open>expect\<close>.
\<close>

section \<open>Fixtures\<close>

definition BENCH_ADDR :: string where
  "BENCH_ADDR = ''127.0.0.1:1''"

text \<open>\<open>map(.. expect ..).collect()\<close>.\<close>

fun expect_all :: "('e + 'a) list \<Rightarrow> 'a list option" where
  "expect_all [] = Some []"
| "expect_all (Inl e # xs) = None"
| "expect_all (Inr x # xs) = map_option (Cons x) (expect_all xs)"

record ComposeBench =
  cb_core :: TimeCore
  cb_barriers :: "BarrierFactor list"
  cb_discounts :: "Discount list"
  cb_corr :: Corrector

definition ComposeBench_new :: "ComposeBench option" where
  "ComposeBench_new =
     (case (TimeCore_new (lit (5 / 100)),
            expect_all (map (\<lambda>i. BarrierFactor_new (1 + f64_of_nat i * lit (5 / 100))) [0..<4]),
            expect_all (map (\<lambda>_. Discount_new (lit (92 / 100))) [0..<2])) of
        (Inr core, Some barriers, Some discounts) \<Rightarrow>
          Some \<lparr>cb_core = core, cb_barriers = barriers, cb_discounts = discounts, cb_corr = Corrector_identity\<rparr>
      | _ \<Rightarrow> None)"

definition ComposeBench_run :: "(f64 \<Rightarrow> f64) \<Rightarrow> ComposeBench \<Rightarrow> clamp_events \<Rightarrow> Cost \<times> clamp_events" where
  "ComposeBench_run lg cb ev = compose lg (cb_core cb) (cb_barriers cb) (cb_discounts cb) (cb_corr cb) ev"

definition SelectBench_with_size :: "(f64 \<Rightarrow> f64) \<Rightarrow> nat \<Rightarrow> Backend list" where
  "SelectBench_with_size lg n =
     map (\<lambda>i. Backend_new lg (''b'' @ map char_of (dec_nat i)) BENCH_ADDR (lit (1 / 100) + f64_of_nat i * lit (5 / 10000))) [0..<n]"

definition SelectBench_run :: "(f64 \<Rightarrow> f64) \<Rightarrow> Backend list \<Rightarrow> Backend option" where
  "SelectBench_run lg candidates = select lg candidates"

definition BackendCostBench_new :: "(f64 \<Rightarrow> f64) \<Rightarrow> Backend" where
  "BackendCostBench_new lg = incr_inflight (Backend_new lg ''b0'' BENCH_ADDR (lit (5 / 100)))"

abbreviation bench_crlf :: bytes where "bench_crlf \<equiv> [13, 10]"

definition CLASSIFY_HEAD :: bytes where
  "CLASSIFY_HEAD = ascii ''GET /long/2048 HTTP/1.1'' @ bench_crlf @ ascii ''host: x'' @ bench_crlf @ ascii ''x-demiurge-tokens: 2048'' @ bench_crlf @ bench_crlf"

definition SHORT_HEAD :: bytes where
  "SHORT_HEAD = ascii ''GET / HTTP/1.1'' @ bench_crlf @ ascii ''host: x'' @ bench_crlf @ ascii ''x-demiurge-tokens: 32'' @ bench_crlf @ bench_crlf"

definition bench_router :: "(f64 \<Rightarrow> f64) \<Rightarrow> router_vars \<Rightarrow> u64 \<Rightarrow> nat \<Rightarrow> 'b Router" where
  "bench_router lg V now_ms now =
     Router_new V now_ms now [Backend_new lg ''pf'' BENCH_ADDR (lit (1 / 100))] [Backend_new lg ''dc'' BENCH_ADDR (lit (2 / 100))]"

definition RouteBench_run :: "('b, 'k) renv \<Rightarrow> bytes \<Rightarrow> u64 \<Rightarrow> 'b Router \<Rightarrow> ((RouteError + RoutePath) \<times> u64 \<times> 'b Router) option" where
  "RouteBench_run E head nid r = route E head nid r"

definition WarmLookupBench_new :: "WarmthMap \<times> u64 list" where
  "WarmLookupBench_new =
     (fold (\<lambda>i m. snd (WarmthMap_insert (of_nat i * 256) m)) [0..<16] (WarmthMap_with_capacity 256), default_routing_blocks 2048)"

definition WarmLookupBench_run :: "WarmthMap \<times> u64 list \<Rightarrow> f64" where
  "WarmLookupBench_run = (\<lambda>(m, blocks). hit_strength m blocks)"

definition PairGreedyBench_new :: "ScoredBackend list \<times> ScoredBackend list" where
  "PairGreedyBench_new =
     (map (\<lambda>i. ScoredBackend_new (''pf'' @ map char_of (dec_nat i)) BENCH_ADDR (lit (1 / 100) + f64_of_nat i * lit (1 / 1000))) [0..<8],
      map (\<lambda>i. ScoredBackend_new (''dc'' @ map char_of (dec_nat i)) BENCH_ADDR (lit (2 / 100) + f64_of_nat i * lit (1 / 1000))) [0..<8])"

definition PairGreedyBench_run :: "(f64 \<Rightarrow> f64) \<Rightarrow> hashing \<Rightarrow> ScoredBackend list \<times> ScoredBackend list \<Rightarrow> (ScoredBackend \<times> ScoredBackend) option" where
  "PairGreedyBench_run lg h = (\<lambda>(pfs, dcs). greedy_pair lg h pfs dcs None 2048 (lit (105 / 100)))"

definition RcuSnapshotBench_run :: "u64 \<Rightarrow> f64" where
  "RcuSnapshotBench_run now_ms = read_pi (RcuRoutingTable_new now_ms (lit (1 / 2)))"

definition RebalanceBench_new :: "nat \<Rightarrow> PoolRebalancer \<times> PoolPressure" where
  "RebalanceBench_new now =
     (PoolRebalancer_new ModeShadow now,
      \<lparr>q_prefill = lit (8 / 10), q_decode = lit (2 / 10), kv_decode = lit (3 / 10), slo_prefill = 0, slo_decode = 0, fp_share = 0\<rparr>)"

definition RebalanceBench_run :: "nat \<Rightarrow> PoolRebalancer \<times> PoolPressure \<Rightarrow> f64 \<times> PoolRebalancer \<times> PoolPressure" where
  "RebalanceBench_run now = (\<lambda>(r, s). (shadow_pi_star r s, snd (maybe_update s now r), s))"

definition bench_kv_reserve :: "clamp_events \<Rightarrow> BarrierFactor \<times> clamp_events" where
  "bench_kv_reserve ev =
     (let b = kv_breakdown 2048 128
      in phi_barrier_marginal (kv_reserved b) (kv_reserved b div 2) (saturating_mul (kv_reserved b) 10) ev)"

section \<open>The probe\<close>

definition parse_u32 :: "utext \<Rightarrow> u32 option" where
  "parse_u32 t = Option.bind (parse_u64 t) (\<lambda>v. if unat v < 2 ^ 32 then Some (ucast v) else None)"

definition probe_samples :: "utext option \<Rightarrow> u32" where
  "probe_samples var = unwrap_or (Option.bind var parse_u32) 30"

definition probe_row :: "Gate \<Rightarrow> SampleStats \<Rightarrow> u64 \<Rightarrow> utext" where
  "probe_row gate stats limit =
     pad_right 22 (tx (bg_id gate)) @ tx '' '' @ padn 6 (floor_ns stats) @ tx ''ns '' @ padn 6 (median_ns stats) @ tx ''ns '' @ padn 6 (p95_ns stats)
     @ tx ''ns '' @ padn 6 limit @ tx ''ns '' @ padf 7 0 (headroom_pct (median_ns stats) limit) @ tx ''% ''
     @ pad_left 6 (if is_thin (median_ns stats) limit then tx ''YES'' else MIDDOT) @ tx ''  max_median_ns '' @ [8776, 32]
     @ fmt_u64 (suggest_max_median_ns (p95_ns stats))"

text \<open>The hot-path stack: what was measured under each name, in ascending order.\<close>

definition probe_items :: "(string \<times> string) list" where
  "probe_items =
     [(''parse_tokens'', ''X-Demiurge-Tokens header scan''), (''estimate_tokens'', ''header + path + default fallback''),
      (''backend_cost'', ''single target ln(C) + inflight barrier''), (''compose_8'', ''4 barriers + 2 discounts + identity corrector''),
      (''select_2'', ''min-cost over 2 backends''), (''select_64'', ''min-cost over 64 backends (pool scan)''),
      (''route_short'', ''colocated fast path''), (''route_long'', ''disaggregated admission + RequestId'')]"

definition probe_stack :: "(string \<Rightarrow> u64) \<Rightarrow> (string \<times> string \<times> u64) list" where
  "probe_stack measured = sort_key (\<lambda>(_, _, ns). ns) (map (\<lambda>(i, note). (i, note, measured i)) probe_items)"

definition stack_ns :: "string \<Rightarrow> (string \<times> string \<times> u64) list \<Rightarrow> u64 option" where
  "stack_ns i stack = map_option (\<lambda>(_, _, ns). ns) (List.find (\<lambda>(j, _, _). j = i) stack)"

definition scaling_super_linear :: "(string \<times> string \<times> u64) list \<Rightarrow> bool option" where
  "scaling_super_linear stack =
     (case (stack_ns ''select_64'' stack, stack_ns ''backend_cost'' stack) of
        (Some select64_ns, Some cost_ns) \<Rightarrow> (let implied = cost_ns * 64 in Some (implied * 2 < select64_ns))
      | _ \<Rightarrow> None)"

definition bench_probe :: "bool \<Rightarrow> (Gate \<Rightarrow> u64 list) \<Rightarrow> utext option \<Rightarrow> (string \<Rightarrow> u64) \<Rightarrow> string + BenchGatesFile
    \<Rightarrow> (string + string list \<times> (string \<times> string \<times> u64) list \<times> bool option) option" where
  "bench_probe ci_env clock var measured contents =
     (case contents of
        Inl e \<Rightarrow> Some (Inl e)
      | Inr file \<Rightarrow>
          map_option (\<lambda>res. and_then res (\<lambda>thin.
              (let stack = probe_stack measured in Inr (thin, stack, scaling_super_linear stack))))
            (thin_gates ci_env clock \<lparr>ci_slack = ci_slack (bg_settings file), bg_samples = probe_samples var\<rparr> (gate_list file) []))"

section \<open>The workloads take the paths they name\<close>

lemma mk64_within:
  assumes "repr64 a" "repr64 b" "a \<le> x" "x \<le> b" "- (2 ^ 64) \<le> a" "b \<le> 2 ^ 64"
  shows "\<exists>y. mk64 x = Fin y \<and> a \<le> y \<and> y \<le> b"
  using mk64_between [OF assms(3,4,1,2,5,6)] by metis

lemma dyadics: "repr64 (1 / 32)" "repr64 (1 / 16)" "repr64 (1 / 2)" "repr64 1" "repr64 4" "repr64 8" "repr64 0"
  using repr64_dyadic [of 1 5] repr64_dyadic [of 1 4] repr64_dyadic [of 1 1] repr64_dyadic [of 1 0] repr64_dyadic [of 4 0]
    repr64_dyadic [of 8 0] repr64_dyadic [of 0 0] by simp_all

lemma barrier_fixture:
  assumes "0 < y" "y \<le> 1" "i < 4"
  shows "\<exists>f. BarrierFactor_new (1 + f64_of_nat i * Fin y) = Inr f"
proof -
  have n: "f64_of_nat i = Fin (real i)" using assms(3) by (simp add: f64_of_nat_exact)
  have "real i * y \<le> 4 * 1" using assms by (intro mult_mono) auto
  moreover have "0 \<le> real i * y" using assms(1) by simp
  ultimately obtain z where z: "mk64 (real i * y) = Fin z" "0 \<le> z" "z \<le> 4"
    using mk64_within [OF dyadics(7,5), of "real i * y"] by auto
  obtain v where "mk64 (1 + z) = Fin v" "1 \<le> v" using mk64_within [OF dyadics(4,6), of "1 + z"] z by auto
  then show ?thesis using n z by (simp add: BarrierFactor_new_def)
qed

lemma compose_fixture: "\<exists>cb. ComposeBench_new = Some cb \<and> length (cb_barriers cb) = 4 \<and> length (cb_discounts cb) = 2"
proof -
  obtain y where y: "lit (5 / 100) = Fin y" "0 < y" "y \<le> 1" using mk64_within [OF dyadics(1,4), of "5 / 100"] by force
  obtain d where d: "lit (92 / 100) = Fin d" "0 < d" "d \<le> 1" using mk64_within [OF dyadics(1,4), of "92 / 100"] by force
  obtain f0 f1 f2 f3 where f: "BarrierFactor_new (1 + f64_of_nat 0 * Fin y) = Inr f0" "BarrierFactor_new (1 + f64_of_nat 1 * Fin y) = Inr f1"
    "BarrierFactor_new (1 + f64_of_nat 2 * Fin y) = Inr f2" "BarrierFactor_new (1 + f64_of_nat 3 * Fin y) = Inr f3"
    using barrier_fixture [OF y(2,3), of 0] barrier_fixture [OF y(2,3), of 1] barrier_fixture [OF y(2,3), of 2] barrier_fixture [OF y(2,3), of 3] by auto
  have "TimeCore_new (lit (5 / 100)) = Inr (TimeCore (Fin y))" "Discount_new (lit (92 / 100)) = Inr (Discount (Fin d))"
    unfolding y(1) d(1) using y d by (simp_all add: TimeCore_new_def Discount_new_def)
  moreover have "[0..<4] = [0, 1, 2, 3 :: nat]" "[0..<2] = [0, 1 :: nat]" by (simp_all add: upt_rec)
  ultimately show ?thesis unfolding ComposeBench_new_def y(1) by (simp only: list.map f expect_all.simps option.map prod.case sum.case option.case) simp
qed

lemma heads_read: "\<not> is_decode_only SHORT_HEAD" "\<not> is_decode_only CLASSIFY_HEAD"
  "estimate_prompt_tokens SHORT_HEAD = 32" "estimate_prompt_tokens CLASSIFY_HEAD = 2048"
  by code_simp+

lemma warm_insert_small:
  assumes "k \<notin> set (keys m)" "length (keys m) \<le> 16" "capacity m = 256"
  shows "WarmthMap_insert k m = (True, m\<lparr>keys := keys m @ [k]\<rparr>)"
proof -
  let ?n = "length (keys m)"
  have n: "f64_of_nat ?n = Fin (real ?n)" "f64_of_nat 256 = Fin 256" using assms(2) by (simp_all add: f64_of_nat_exact)
  obtain y where y: "mk64 (real ?n / 256) = Fin y" "y \<le> 1 / 16" using mk64_within [OF dyadics(7,2), of "real ?n / 256"] assms(2) by auto
  obtain c where c: "lit (9 / 10) = Fin c" "1 / 2 \<le> c" using mk64_within [OF dyadics(3,4), of "9 / 10"] by auto
  have "load_factor m = Fin y" using y(1) by (simp add: load_factor_def n assms(3))
  then have "\<not> fle CACHE_CUCKOO_MAX_LOADFACTOR (load_factor m)"
    using y(2) c by (simp add: CACHE_CUCKOO_MAX_LOADFACTOR_def)
  then show ?thesis using assms(1) by (simp add: WarmthMap_insert_def)
qed

lemma warm_keys:
  "fst WarmLookupBench_new = \<lparr>keys = [0, 256, 512, 768, 1024, 1280, 1536, 1792, 2048, 2304, 2560, 2816, 3072, 3328, 3584, 3840], capacity = 256\<rparr>"
proof -
  have "[0..<16] = [0, 1, 2, 3, 4, 5, 6, 7, 8, 9, 10, 11, 12, 13, 14, 15 :: nat]" by (simp add: upt_rec)
  then show ?thesis by (simp add: WarmLookupBench_new_def WarmthMap_with_capacity_def warm_insert_small)
qed

lemma warm_fixture: "WarmLookupBench_run WarmLookupBench_new = Fin 1"
proof -
  have b: "default_routing_blocks 2048 = [0, 256, 512, 768, 1024, 1280, 1536, 1792]" by code_simp
  have "WarmLookupBench_new = (fst WarmLookupBench_new, default_routing_blocks 2048)" by (simp add: WarmLookupBench_new_def)
  then have "WarmLookupBench_run WarmLookupBench_new = hit_strength (fst WarmLookupBench_new) (default_routing_blocks 2048)"
    by (metis WarmLookupBench_run_def case_prod_conv)
  also have "\<dots> = f64_of_nat 8 / f64_of_nat 8" unfolding b warm_keys by (simp add: hit_strength_def numeral_eq_Suc)
  finally show ?thesis using mk64_nat [of 1] by (simp add: f64_of_nat_exact)
qed

lemma rebalance_fixture: "snd (RebalanceBench_run now (RebalanceBench_new start)) = RebalanceBench_new start"
  by (simp add: RebalanceBench_run_def RebalanceBench_new_def maybe_update_def Let_def PoolRebalancer_new_def)

lemma route_fixture_short:
  fixes E :: "('b, 'k) renv"
  shows "\<exists>b r'. RouteBench_run E SHORT_HEAD nid (bench_router lg V now_ms now) = Some (Inr (Colocated b), nid, r')
     \<and> b \<in> {Backend_new lg ''pf'' BENCH_ADDR (lit (1 / 100)), Backend_new lg ''dc'' BENCH_ADDR (lit (2 / 100))}"
proof -
  let ?r = "bench_router lg V now_ms now :: 'b Router"
  have ne: "pool ?r ph \<noteq> []" for ph by (cases ph) (simp_all add: pool_def bench_router_def Router_new_def)
  have sub: "set (pool ?r ph) \<subseteq> {Backend_new lg ''pf'' BENCH_ADDR (lit (1 / 100)), Backend_new lg ''dc'' BENCH_ADDR (lit (2 / 100))}" for ph
    by (cases ph) (simp_all add: pool_def bench_router_def Router_new_def)
  obtain ph where ph: "pick_colocated E ?r = pick E ph ?r" by (auto simp: pick_colocated_def Let_def)
  obtain b where b: "pick E ph ?r = Some b" "b \<in> set (pool ?r ph)" using pick_ne [OF ne, of ph E] by blast
  have "routing_snapshot ?r = None" by (simp add: routing_snapshot_def bench_router_def Router_new_def)
  then have "route_impl E SHORT_HEAD None nid ?r = (Inr (Colocated b), nid, bump_route_counters True ?r)"
    using b ph by (simp add: route_impl_def heads_read ROUTING_SHORT_CONTEXT_TOKENS_def warmth_override_target_with_identity_def Let_def)
  moreover obtain r2 where "deferred_control_tick E (Some (estimate_prompt_tokens SHORT_HEAD)) False (bump_route_counters True ?r) = Some r2"
    using deferred_no_regret by blast
  ultimately have "RouteBench_run E SHORT_HEAD nid ?r = Some (Inr (Colocated b), nid, r2)"
    by (simp add: RouteBench_run_def route_def route_then_tick_def schedule_control_tick_def)
  then show ?thesis using b(2) sub by blast
qed

lemma route_fixture_long:
  fixes E :: "('b, 'k) renv"
  shows "\<exists>r'. RouteBench_run E CLASSIFY_HEAD nid (bench_router lg V now_ms now)
     = Some (Inr (Disaggregated (Backend_new lg ''pf'' BENCH_ADDR (lit (1 / 100))) nid 2048), nid + 1, r')"
proof -
  let ?r = "bench_router lg V now_ms now :: 'b Router"
  have "pool ?r Prefill = [Backend_new lg ''pf'' BENCH_ADDR (lit (1 / 100))]" by (simp add: pool_def bench_router_def Router_new_def)
  then have "select_prefill_with_identity_pi (e_lg E) (e_hash E) (pool ?r Prefill) (routing_snapshot ?r) 2048 (read_pi (r_dataplane ?r)) None
      = Some (Backend_new lg ''pf'' BENCH_ADDR (lit (1 / 100)))"
    using select_prefill_ne [of "pool ?r Prefill" "e_lg E" "e_hash E" "routing_snapshot ?r" 2048 "read_pi (r_dataplane ?r)" None] by simp
  then obtain r1 where "route_impl E CLASSIFY_HEAD None nid ?r = (Inr (Disaggregated (Backend_new lg ''pf'' BENCH_ADDR (lit (1 / 100))) nid 2048), nid + 1, r1)"
    by (simp add: route_impl_def heads_read ROUTING_SHORT_CONTEXT_TOKENS_def RequestId_new_def Let_def)
  moreover obtain r2 where "deferred_control_tick E (Some 2048) False r1 = Some r2" using deferred_no_regret by blast
  ultimately show ?thesis by (simp add: RouteBench_run_def route_def route_then_tick_def schedule_control_tick_def)
qed

text \<open>The timed workloads take the paths their gates are named after, whatever the environment: the compose fixture
  is built without a failed \<open>expect\<close>, with four barriers and two discounts; the short head is colocated and takes no
  request id, the long one is disaggregated to the prefill backend with a fresh request id and 2048 tokens; the warmth lookup
  hits every block; the rebalancer is left as it was, so that every iteration does the same work.\<close>

theorem bench_workloads_on_path:
  "(\<exists>cb. ComposeBench_new = Some cb \<and> length (cb_barriers cb) = 4 \<and> length (cb_discounts cb) = 2)
   \<and> (\<exists>b r'. RouteBench_run E SHORT_HEAD nid (bench_router lg V now_ms now) = Some (Inr (Colocated b), nid, r')
        \<and> b \<in> {Backend_new lg ''pf'' BENCH_ADDR (lit (1 / 100)), Backend_new lg ''dc'' BENCH_ADDR (lit (2 / 100))})
   \<and> (\<exists>r'. RouteBench_run E CLASSIFY_HEAD nid (bench_router lg V now_ms now)
        = Some (Inr (Disaggregated (Backend_new lg ''pf'' BENCH_ADDR (lit (1 / 100))) nid 2048), nid + 1, r'))
   \<and> WarmLookupBench_run WarmLookupBench_new = Fin 1
   \<and> snd (RebalanceBench_run t (RebalanceBench_new start)) = RebalanceBench_new start"
  by (intro conjI compose_fixture route_fixture_short route_fixture_long warm_fixture rebalance_fixture)

section \<open>The probe's stack\<close>

text \<open>The stack is in ascending order; the verdict compares the two entries wherever they land, up to wrap-around.\<close>

lemma probe_stack_sorted: "sorted (map (\<lambda>(_, _, ns). ns) (probe_stack measured))"
  unfolding probe_stack_def by (rule sorted_sort_key)

lemma find_member: "\<exists>x\<in>set xs. P x \<Longrightarrow> \<exists>x. List.find P xs = Some x \<and> x \<in> set xs \<and> P x"
  by (induction xs) auto

lemma stack_ns_find:
  assumes "i \<in> fst ` set probe_items"
  shows "stack_ns i (probe_stack measured) = Some (measured i)"
proof -
  let ?xs = "probe_stack measured"
  have st: "set ?xs = (\<lambda>(i, what). (i, what, measured i)) ` set probe_items" by (simp add: probe_stack_def)
  obtain what where "(i, what) \<in> set probe_items" using assms by auto
  then have "(i, what, measured i) \<in> set ?xs" unfolding st by force
  then obtain x where "List.find (\<lambda>(j, _, _). j = i) ?xs = Some x" "x \<in> set ?xs" "(\<lambda>(j, _, _). j = i) x"
    using find_member [of ?xs "\<lambda>(j, _, _). j = i"] by blast
  moreover have "\<forall>(j, what, ns)\<in>set ?xs. ns = measured j" unfolding st by auto
  ultimately show ?thesis by (auto simp: stack_ns_def)
qed

lemma probe_item_ids: "''backend_cost'' \<in> fst ` set probe_items" "''select_64'' \<in> fst ` set probe_items"
  by (simp_all add: probe_items_def)

lemma scaling_verdict:
  assumes "unat (measured ''backend_cost'') * 128 < 2 ^ 64"
  shows "scaling_super_linear (probe_stack measured)
     = Some (unat (measured ''backend_cost'') * 128 < unat (measured ''select_64''))"
proof -
  have "unat (measured ''backend_cost'' * 64 * 2) = unat (measured ''backend_cost'') * 128"
    using assms by (simp add: unat_word_ariths)
  then show ?thesis by (simp add: scaling_super_linear_def stack_ns_find probe_item_ids Let_def word_less_nat_alt)
qed

end
