(* ===== verification/Flame.thy ===== *)
theory Flame
  imports BenchWork
begin

text \<open>
  The flame view of the CPU gates (\<open>xtask/src/bench_flame.rs\<close>): themes, run history, the forest of gates with its parent and
  cycle checks, the layout, and the derived texts of a box; the drawing itself is in \<open>FlameSvg\<close>.  The two
  recursive layout passes mutate the node list and carry fuel, and a lemma shows that the number of gates is always enough.
  The binary logarithm, the JSON decoder and the file system are parameters.
\<close>

section \<open>Themes, history, nodes\<close>

definition SPARK_POINTS :: nat where "SPARK_POINTS = 12"
definition MARGIN :: f64 where "MARGIN = lit 26"
definition HEADER_H :: f64 where "HEADER_H = lit 64"
definition LEGEND_H :: f64 where "LEGEND_H = lit 66"
definition ROW_H :: f64 where "ROW_H = lit 68"
definition BOX_H :: f64 where "BOX_H = lit 58"
definition SIB_GAP :: f64 where "SIB_GAP = lit 10"
definition ROOT_GUTTER :: f64 where "ROOT_GUTTER = lit 30"
definition OWN_BASE :: f64 where "OWN_BASE = lit 128"
definition OWN_K :: f64 where "OWN_K = lit 22"

datatype Theme = Dark | Blueprint

definition Theme_parse :: "string option \<Rightarrow> string + Theme" where
  "Theme_parse name =
     (let n = unwrap_or name ''dark''
      in if n = ''dark'' then Inr Dark
         else if n = ''blueprint'' \<or> n = ''redprint'' then Inr Blueprint
         else Inl (''bench-flame: unknown theme '' @ debug_str n @ ''; expected `dark` or `blueprint`''))"

fun Theme_label :: "Theme \<Rightarrow> string" where
  "Theme_label Dark = ''dark''"
| "Theme_label Blueprint = ''blueprint''"

record HistoryPoint =
  hp_median_ns :: u64
  hp_p95_ns :: u64
  hp_limit_ns :: u64

record HistoryEntry =
  he_ts :: utext
  he_host :: string
  he_gates :: "(string \<times> HistoryPoint) list"

record Node =
  nd_m :: GateMeasurement
  nd_children :: "nat list"
  nd_depth :: nat
  nd_subtree_w :: f64
  nd_x :: f64
  nd_spark :: "u64 list"
  nd_delta_ns :: "64 word option"

text \<open>Lines of the history file that do not decode are dropped.\<close>

definition read_history :: "(utext \<Rightarrow> HistoryEntry option) \<Rightarrow> utext option \<Rightarrow> HistoryEntry list" where
  "read_history from_json file = (case file of None \<Rightarrow> [] | Some txt \<Rightarrow> List.map_filter from_json (lines txt))"

definition history_entry :: "utext \<Rightarrow> string \<Rightarrow> Node list \<Rightarrow> HistoryEntry" where
  "history_entry ts host nodes =
     \<lparr>he_ts = ts, he_host = host,
      he_gates = rev (map (\<lambda>n. (gm_id (nd_m n), \<lparr>hp_median_ns = gm_median_ns (nd_m n), hp_p95_ns = gm_p95_ns (nd_m n),
        hp_limit_ns = gm_limit_ns (nd_m n)\<rparr>)) nodes)\<rparr>"

definition append_history :: "(HistoryEntry \<Rightarrow> utext) \<Rightarrow> utext option \<Rightarrow> HistoryEntry \<Rightarrow> utext" where
  "append_history to_json existing entry = unwrap_or existing [] @ to_json entry @ [10]"

section \<open>The forest\<close>

text \<open>The index of a gate; a later gate of the same name replaces an earlier one.\<close>

definition idx_of :: "GateMeasurement list \<Rightarrow> string \<Rightarrow> nat option" where
  "idx_of ms = map_of (rev (map (\<lambda>i. (gm_id (ms ! i), i)) [0..<length ms]))"

lemma idx_of_less: "idx_of ms p = Some j \<Longrightarrow> j < length ms"
  by (auto simp: idx_of_def dest!: map_of_SomeD)

text \<open>The walk up from gate \<open>i\<close>; \<open>name\<close> is the gate the messages are about.\<close>

function walk_up :: "GateMeasurement list \<Rightarrow> string \<Rightarrow> nat \<Rightarrow> nat \<Rightarrow> string + nat" where
  "walk_up ms name cur depth =
     (case gm_parent (ms ! cur) of
        None \<Rightarrow> Inr depth
      | Some pid \<Rightarrow>
          (case idx_of ms pid of
             None \<Rightarrow> Inl (''bench-flame: gate `'' @ name @ ''` has unknown parent `'' @ pid @ ''`'')
           | Some j \<Rightarrow>
               (let depth = depth + 1
                in if length ms < depth then Inl (''bench-flame: parent cycle involving `'' @ name @ ''`'')
                   else walk_up ms name j depth)))"
  by pat_completeness auto

termination
  by (relation "measure (\<lambda>(ms, name, cur, depth). length ms + 1 - depth)") auto

declare walk_up.simps [simp del]

fun all_depths :: "GateMeasurement list \<Rightarrow> nat list \<Rightarrow> string + nat list" where
  "all_depths ms [] = Inr []"
| "all_depths ms (i # is) =
     and_then (walk_up ms (gm_id (ms ! i)) i 0) (\<lambda>d. and_then (all_depths ms is) (\<lambda>ds. Inr (d # ds)))"

definition push_child :: "GateMeasurement list \<Rightarrow> nat \<Rightarrow> nat list list \<Rightarrow> nat list list" where
  "push_child ms i cs =
     (case Option.bind (gm_parent (ms ! i)) (idx_of ms) of Some p \<Rightarrow> cs[p := cs ! p @ [i]] | None \<Rightarrow> cs)"

definition forest_children :: "GateMeasurement list \<Rightarrow> nat list list" where
  "forest_children ms = fold (push_child ms) [0..<length ms] (replicate (length ms) [])"

definition spark_of :: "HistoryEntry list \<Rightarrow> GateMeasurement \<Rightarrow> u64 list \<times> 64 word option" where
  "spark_of history m =
     (let spark = List.map_filter (\<lambda>e. map_option hp_median_ns (map_of (he_gates e) (gm_id m))) history;
          delta = (if spark = [] then None else Some (gm_median_ns m - last spark));
          spark = spark @ [gm_median_ns m]
      in (drop (length spark - SPARK_POINTS) spark, delta))"

definition build_forest :: "GateMeasurement list \<Rightarrow> HistoryEntry list \<Rightarrow> string + Node list" where
  "build_forest ms history =
     and_then (all_depths ms [0..<length ms]) (\<lambda>depths.
       Inr (map (\<lambda>i. (let (spark, delta) = spark_of history (ms ! i)
                      in \<lparr>nd_m = ms ! i, nd_children = forest_children ms ! i, nd_depth = depths ! i, nd_subtree_w = 0, nd_x = 0,
                          nd_spark = spark, nd_delta_ns = delta\<rparr>)) [0..<length ms]))"

section \<open>Layout\<close>

definition own_w :: "(f64 \<Rightarrow> f64) \<Rightarrow> u64 \<Rightarrow> f64" where
  "own_w log2 median = OWN_BASE + log2 (f64_of_u64 (max median 1)) * OWN_K"

function compute_subtree_w :: "(f64 \<Rightarrow> f64) \<Rightarrow> nat \<Rightarrow> nat \<Rightarrow> Node list \<Rightarrow> (f64 \<times> Node list) option"
  and kids_width :: "(f64 \<Rightarrow> f64) \<Rightarrow> nat \<Rightarrow> nat list \<Rightarrow> nat \<Rightarrow> f64 \<Rightarrow> Node list \<Rightarrow> (f64 \<times> Node list) option" where
  "compute_subtree_w log2 0 i ns = None"
| "compute_subtree_w log2 (Suc fuel) i ns =
     do { (kids_w, ns) \<leftarrow> kids_width log2 fuel (nd_children (ns ! i)) 0 0 ns;
          let w = fmax (own_w log2 (gm_median_ns (nd_m (ns ! i)))) kids_w;
          Some (w, ns[i := (ns ! i)\<lparr>nd_subtree_w := w\<rparr>]) }"
| "kids_width log2 fuel [] n kids_w ns = Some (kids_w, ns)"
| "kids_width log2 fuel (k # ks) n kids_w ns =
     do { let kids_w = (if 0 < n then kids_w + SIB_GAP else kids_w);
          (w, ns) \<leftarrow> compute_subtree_w log2 fuel k ns;
          kids_width log2 fuel ks (n + 1) (kids_w + w) ns }"
  by pat_completeness auto

termination
  by (relation "inv_image (less_than <*lex*> less_than) (\<lambda>s. case s of Inl (_, fuel, _, _) \<Rightarrow> (fuel, 0 :: nat)
        | Inr (_, fuel, ks, _, _, _) \<Rightarrow> (fuel, length ks + 1))") auto

function assign_x :: "nat \<Rightarrow> nat \<Rightarrow> f64 \<Rightarrow> Node list \<Rightarrow> Node list option"
  and kids_x :: "nat \<Rightarrow> nat list \<Rightarrow> f64 \<Rightarrow> Node list \<Rightarrow> Node list option" where
  "assign_x 0 i x ns = None"
| "assign_x (Suc fuel) i x ns =
     (let ns = ns[i := (ns ! i)\<lparr>nd_x := x\<rparr>];
          kids = nd_children (ns ! i);
          kids_w = foldl (+) 0 (map (\<lambda>k. nd_subtree_w (ns ! k)) kids) + SIB_GAP * f64_of_nat (length kids - 1)
      in kids_x fuel kids (x + (nd_subtree_w (ns ! i) - kids_w) / lit 2) ns)"
| "kids_x fuel [] cx ns = Some ns"
| "kids_x fuel (k # ks) cx ns =
     do { ns \<leftarrow> assign_x fuel k cx ns; kids_x fuel ks (cx + (nd_subtree_w (ns ! k) + SIB_GAP)) ns }"
  by pat_completeness auto

termination
  by (relation "inv_image (less_than <*lex*> less_than) (\<lambda>s. case s of Inl (fuel, _, _, _) \<Rightarrow> (fuel, 0 :: nat)
        | Inr (fuel, ks, _, _) \<Rightarrow> (fuel, length ks + 1))") auto

definition forest_roots :: "Node list \<Rightarrow> nat list" where
  "forest_roots ns = filter (\<lambda>i. gm_parent (nd_m (ns ! i)) = None) [0..<length ns]"

fun widths_pass :: "(f64 \<Rightarrow> f64) \<Rightarrow> nat list \<Rightarrow> Node list \<Rightarrow> Node list option" where
  "widths_pass log2 [] ns = Some ns"
| "widths_pass log2 (r # rs) ns = do { (_, ns) \<leftarrow> compute_subtree_w log2 (length ns) r ns; widths_pass log2 rs ns }"

fun x_pass :: "nat list \<Rightarrow> f64 \<Rightarrow> Node list \<Rightarrow> (f64 \<times> Node list) option" where
  "x_pass [] x ns = Some (x, ns)"
| "x_pass (r # rs) x ns = do { ns \<leftarrow> assign_x (length ns) r x ns; x_pass rs (x + (nd_subtree_w (ns ! r) + ROOT_GUTTER)) ns }"

text \<open>The placed forest with the canvas size.\<close>

definition flame_layout :: "(f64 \<Rightarrow> f64) \<Rightarrow> Node list \<Rightarrow> (Node list \<times> nat \<times> f64 \<times> f64) option" where
  "flame_layout log2 ns =
     do { let roots = forest_roots ns;
          ns \<leftarrow> widths_pass log2 roots ns;
          (x, ns) \<leftarrow> x_pass roots MARGIN ns;
          let rows = fold max (map nd_depth ns) 0 + 1;
          Some (ns, rows, x - ROOT_GUTTER + MARGIN, HEADER_H + f64_of_nat rows * ROW_H + LEGEND_H) }"

section \<open>The texts of a box\<close>

definition short_id :: "string \<Rightarrow> string" where
  "short_id i = (case strip_prefix ''BENCH-'' i of Some r \<Rightarrow> r | None \<Rightarrow> i)"

text \<open>The hue of the dark theme: red for thin gates, else between amber and cyan by the logarithm of the headroom.\<close>

definition heat :: "(f64 \<Rightarrow> f64) \<Rightarrow> GateMeasurement \<Rightarrow> f64" where
  "heat log10 m = fclamp ((log10 (fmax (gm_headroom_pct m) (lit 60)) - lit 2) / lit (118 / 100)) 0 1"

definition dark_hue :: "(f64 \<Rightarrow> f64) \<Rightarrow> GateMeasurement \<Rightarrow> f64" where
  "dark_hue log10 m = lit 24 + heat log10 m * lit 176"

definition dark_fill :: "(f64 \<Rightarrow> f64) \<Rightarrow> GateMeasurement \<Rightarrow> utext" where
  "dark_fill log10 m =
     (if gm_thin m then tx ''hsl(357 72% 52%)'' else tx ''hsl('' @ fmt_f64 0 (dark_hue log10 m) @ tx '' 58% 42%)'')"

definition dark_stroke :: "(f64 \<Rightarrow> f64) \<Rightarrow> GateMeasurement \<Rightarrow> utext" where
  "dark_stroke log10 m =
     (if gm_thin m then tx ''hsl(357 80% 68%)'' else tx ''hsl('' @ fmt_f64 0 (dark_hue log10 m) @ tx '' 62% 60%)'')"

definition bp_tier :: "GateMeasurement \<Rightarrow> nat" where
  "bp_tier m = (if gm_thin m then 0 else if flt (gm_headroom_pct m) (lit 500) then 1 else 2)"

text \<open>The points of a sparkline in the box at \<open>(x, y)\<close> of size \<open>w\<close> by \<open>h\<close>.\<close>

definition spark_point :: "u64 list \<Rightarrow> f64 \<Rightarrow> f64 \<Rightarrow> f64 \<Rightarrow> f64 \<Rightarrow> nat \<Rightarrow> u64 \<Rightarrow> f64 \<times> f64" where
  "spark_point spark x y w h i v =
     (let lo = f64_of_u64 (Min (set spark)); hi = f64_of_u64 (Max (set spark)); range = fmax (hi - lo) 1; n = length spark
      in (if n = 1 then x + w else x + w * f64_of_nat i / f64_of_nat (n - 1), y + h - (f64_of_u64 v - lo) / range * h))"

definition spark_points :: "u64 list \<Rightarrow> f64 \<Rightarrow> f64 \<Rightarrow> f64 \<Rightarrow> f64 \<Rightarrow> (f64 \<times> f64) list" where
  "spark_points spark x y w h = map (\<lambda>(i, v). spark_point spark x y w h i v) (enumerate 0 spark)"

definition delta_txt :: "64 word option \<Rightarrow> utext" where
  "delta_txt d =
     (case d of
        None \<Rightarrow> [916, 183]
      | Some v \<Rightarrow>
          if v = 0 then [916] @ tx ''0''
          else if 0 < sint v then [916] @ tx ''+'' @ dec_nat (nat (sint v)) @ tx ''ns''
          else [916, 8722] @ dec_nat (nat \<bar>sint v\<bar>) @ tx ''ns'')"

definition used_fraction :: "GateMeasurement \<Rightarrow> f64" where
  "used_fraction m = fmin (f64_of_u64 (gm_median_ns m) / f64_of_u64 (max (gm_limit_ns m) 1)) 1"

definition box_y :: "nat \<Rightarrow> Node \<Rightarrow> f64" where
  "box_y rows n = HEADER_H + f64_of_nat (rows - 1 - nd_depth n) * ROW_H"

definition thin_names :: "Node list \<Rightarrow> string list" where
  "thin_names ns = map (\<lambda>n. gm_id (nd_m n)) (filter (\<lambda>n. gm_thin (nd_m n)) ns)"

definition movers :: "Node list \<Rightarrow> utext list" where
  "movers ns =
     List.map_filter (\<lambda>n. Option.bind (nd_delta_ns n) (\<lambda>d.
       if 2 \<le> \<bar>sint d\<bar>
       then Some (tx (short_id (gm_id (nd_m n))) @ [32] @ (if 0 < sint d then tx ''+'' else [8722]) @ dec_nat (nat \<bar>sint d\<bar>) @ tx ''ns'')
       else None)) ns"

section \<open>The parent check\<close>

text \<open>A gate at depth \<open>d\<close>: following the parents \<open>d\<close> times ends at a gate without a parent.\<close>

inductive rooted :: "GateMeasurement list \<Rightarrow> nat \<Rightarrow> nat \<Rightarrow> bool" for ms where
  root: "i < length ms \<Longrightarrow> gm_parent (ms ! i) = None \<Longrightarrow> rooted ms i 0"
| step: "i < length ms \<Longrightarrow> gm_parent (ms ! i) = Some p \<Longrightarrow> idx_of ms p = Some j \<Longrightarrow> rooted ms j d \<Longrightarrow> rooted ms i (Suc d)"

inductive_cases rooted_0E: "rooted ms i 0"
inductive_cases rooted_SucE: "rooted ms i (Suc d)"

lemma rooted_unique: "rooted ms i d \<Longrightarrow> rooted ms i d' \<Longrightarrow> d = d'"
proof (induction arbitrary: d' rule: rooted.induct)
  case (root i)
  from root(3) root(1,2) show ?case by (cases rule: rooted.cases) auto
next
  case (step i p j d)
  from step(6) show ?case
  proof (cases rule: rooted.cases)
    case root
    then show ?thesis using step(2) by simp
  next
    case s: (step p' j' d'')
    then show ?thesis using step by auto
  qed
qed

lemma rooted_less: "rooted ms i d \<Longrightarrow> i < length ms"
  by (cases rule: rooted.cases) auto

lemma rooted_below: "rooted ms i d \<Longrightarrow> e \<le> d \<Longrightarrow> \<exists>j < length ms. rooted ms j e"
proof (induction arbitrary: e rule: rooted.induct)
  case (root i)
  then show ?case by (auto intro: rooted.root)
next
  case (step i p j d)
  show ?case
  proof (cases "e = Suc d")
    case True
    then show ?thesis using rooted.step [OF step(1-4)] step(1) by blast
  next
    case False
    then show ?thesis using step by simp
  qed
qed

text \<open>Chains are shorter than the list of gates, so the bound of the walk never rejects one.\<close>

lemma rooted_bound: "rooted ms i d \<Longrightarrow> d < length ms"
proof -
  assume r: "rooted ms i d"
  let ?f = "\<lambda>e. SOME j. rooted ms j e"
  have f: "rooted ms (?f e) e" if "e \<le> d" for e using rooted_below [OF r that] by (metis someI_ex)
  have "inj_on ?f {..d}" using f rooted_unique by (intro inj_onI) (metis atMost_iff)
  moreover have "?f ` {..d} \<subseteq> {..<length ms}" using f rooted_less by auto
  ultimately have "card {..d} \<le> card {..<length ms}" by (rule card_inj_on_le) simp
  then show ?thesis by simp
qed

lemma walk_up_sound:
  "walk_up ms name cur depth = Inr d \<Longrightarrow> cur < length ms \<Longrightarrow> \<exists>k. rooted ms cur k \<and> d = depth + k"
proof (induction ms name cur depth rule: walk_up.induct)
  case (1 ms name cur depth)
  show ?case
  proof (cases "gm_parent (ms ! cur)")
    case None
    then show ?thesis using "1.prems" by (auto simp: walk_up.simps [of ms name cur depth] intro: rooted.root)
  next
    case (Some p)
    then obtain j where j: "idx_of ms p = Some j" using "1.prems"(1) by (cases "idx_of ms p") (auto simp: walk_up.simps [of ms name cur depth])
    then have w: "walk_up ms name j (depth + 1) = Inr d" "\<not> length ms < depth + 1"
      using Some "1.prems"(1) by (auto simp: walk_up.simps [of ms name cur depth] Let_def split: if_splits)
    then obtain k where "rooted ms j k" "d = depth + 1 + k" using "1.IH" [OF Some j refl w(2) w(1)] idx_of_less [OF j] by blast
    then show ?thesis using rooted.step [OF "1.prems"(2) Some j] by auto
  qed
qed

lemma walk_up_complete: "rooted ms i k \<Longrightarrow> depth + k \<le> length ms \<Longrightarrow> walk_up ms name i depth = Inr (depth + k)"
proof (induction arbitrary: depth rule: rooted.induct)
  case (root i)
  then show ?case by (simp add: walk_up.simps [of ms name i depth])
next
  case (step i p j d)
  have "walk_up ms name j (depth + 1) = Inr (depth + 1 + d)" using step.IH [of "depth + 1"] step.prems by simp
  then show ?case using step by (simp add: walk_up.simps [of ms name i depth])
qed

lemma walk_up_iff: "i < length ms \<Longrightarrow> walk_up ms name i 0 = Inr d \<longleftrightarrow> rooted ms i d"
  using walk_up_sound [of ms name i 0 d] walk_up_complete [of ms i d 0 name] rooted_bound [of ms i d] by auto

lemma all_depths_iff:
  "\<forall>i\<in>set is. i < length ms \<Longrightarrow> all_depths ms is = Inr ds \<longleftrightarrow> list_all2 (rooted ms) is ds"
proof (induction "is" arbitrary: ds)
  case (Cons i "is")
  show ?case
  proof (cases "walk_up ms (gm_id (ms ! i)) i 0")
    case (Inl e)
    then have "\<not> rooted ms i d" for d using walk_up_iff [of i ms "gm_id (ms ! i)" d] Cons.prems by simp
    then show ?thesis using Inl by (cases ds) auto
  next
    case (Inr d)
    then have r: "rooted ms i d" using walk_up_iff [of i ms "gm_id (ms ! i)" d] Cons.prems by simp
    have "all_depths ms (i # is) = Inr ds \<longleftrightarrow> (\<exists>ds'. ds = d # ds' \<and> all_depths ms is = Inr ds')"
      using Inr by (cases "all_depths ms is") auto
    also have "\<dots> \<longleftrightarrow> (\<exists>ds'. ds = d # ds' \<and> list_all2 (rooted ms) is ds')" using Cons.IH Cons.prems by simp
    also have "\<dots> \<longleftrightarrow> list_all2 (rooted ms) (i # is) ds"
    proof -
      have "rooted ms i d' \<longleftrightarrow> d' = d" for d' using r rooted_unique by blast
      then show ?thesis by (simp add: list_all2_Cons1)
    qed
    finally show ?thesis .
  qed
qed auto

lemma build_forest_rooted:
  assumes "build_forest ms history = Inr ns"
  shows "length ns = length ms" "i < length ms \<Longrightarrow> rooted ms i (nd_depth (ns ! i))"
    "i < length ms \<Longrightarrow> nd_m (ns ! i) = ms ! i \<and> nd_children (ns ! i) = forest_children ms ! i"
proof -
  obtain ds where d: "all_depths ms [0..<length ms] = Inr ds" using assms by (cases "all_depths ms [0..<length ms]") (auto simp: build_forest_def)
  then have a: "list_all2 (rooted ms) [0..<length ms] ds" using all_depths_iff [of "[0..<length ms]" ms ds] by simp
  have n: "ns = map (\<lambda>i. (let (spark, delta) = spark_of history (ms ! i)
      in \<lparr>nd_m = ms ! i, nd_children = forest_children ms ! i, nd_depth = ds ! i, nd_subtree_w = 0, nd_x = 0,
          nd_spark = spark, nd_delta_ns = delta\<rparr>)) [0..<length ms]"
    using assms d by (simp add: build_forest_def)
  show "length ns = length ms" by (simp add: n)
  show "i < length ms \<Longrightarrow> rooted ms i (nd_depth (ns ! i))" using list_all2_nthD [OF a, of i] by (simp add: n Let_def split: prod.splits)
  show "i < length ms \<Longrightarrow> nd_m (ns ! i) = ms ! i \<and> nd_children (ns ! i) = forest_children ms ! i" by (simp add: n Let_def split: prod.splits)
qed

lemma build_forest_fails:
  assumes "build_forest ms history = Inl e"
  shows "\<exists>i < length ms. \<forall>d. \<not> rooted ms i d"
proof (rule ccontr)
  assume "\<not> (\<exists>i < length ms. \<forall>d. \<not> rooted ms i d)"
  then obtain f where "\<forall>i < length ms. rooted ms i (f i)" by metis
  then have "list_all2 (rooted ms) [0..<length ms] (map f [0..<length ms])" by (simp add: list_all2_conv_all_nth)
  then have "all_depths ms [0..<length ms] = Inr (map f [0..<length ms])" using all_depths_iff [of "[0..<length ms]" ms] by simp
  then show False using assms by (simp add: build_forest_def)
qed

section \<open>Children\<close>

lemma forest_children_nth:
  assumes "i < length ms"
  shows "forest_children ms ! i = filter (\<lambda>j. Option.bind (gm_parent (ms ! j)) (idx_of ms) = Some i) [0..<length ms]"
proof -
  let ?P = "\<lambda>j i. Option.bind (gm_parent (ms ! j)) (idx_of ms) = Some i"
  have "fold (push_child ms) [0..<m] (replicate (length ms) []) = map (\<lambda>i. filter (\<lambda>j. ?P j i) [0..<m]) [0..<length ms]" if "m \<le> length ms" for m
    using that
  proof (induction m)
    case (Suc m)
    then show ?case
      by (intro nth_equalityI) (auto simp: push_child_def nth_list_update split: option.splits)
  qed (simp add: map_replicate_const)
  then show ?thesis using assms by (simp add: forest_children_def)
qed

section \<open>The layout always ends\<close>

definition shape :: "Node list \<Rightarrow> (nat list \<times> nat) list" where
  "shape ns = map (\<lambda>n. (nd_children n, nd_depth n)) ns"

definition laid :: "(nat list \<times> nat) list \<Rightarrow> bool" where
  "laid sh \<longleftrightarrow> (\<forall>i < length sh. snd (sh ! i) < length sh \<and> (\<forall>k\<in>set (fst (sh ! i)). k < length sh \<and> snd (sh ! k) = Suc (snd (sh ! i))))"

lemma shape_simps [simp]:
  "length (shape ns) = length ns" "i < length ns \<Longrightarrow> shape ns ! i = (nd_children (ns ! i), nd_depth (ns ! i))"
  "shape (ns[i := (ns ! i)\<lparr>nd_subtree_w := w\<rparr>]) = shape ns" "shape (ns[i := (ns ! i)\<lparr>nd_x := x\<rparr>]) = shape ns"
  by (simp_all add: shape_def map_update list_update_same_conv) (metis (no_types, lifting) list_update_beyond list_update_id map_update not_le nth_map length_map)+

lemma forest_laid:
  assumes "build_forest ms history = Inr ns"
  shows "laid (shape ns)"
proof -
  note f = build_forest_rooted [OF assms]
  have "nd_depth (ns ! k) = Suc (nd_depth (ns ! i))" if c: "i < length ms" "k \<in> set (forest_children ms ! i)" for i k
  proof -
    obtain p where p: "gm_parent (ms ! k) = Some p" "idx_of ms p = Some i" and k: "k < length ms"
      using c by (auto simp: forest_children_nth bind_eq_Some_conv)
    show ?thesis using rooted_unique [OF f(2) [OF k] rooted.step [OF k p f(2) [OF c(1)]]] .
  qed
  moreover have "nd_depth (ns ! i) < length ms" if "i < length ms" for i using rooted_bound [OF f(2) [OF that]] .
  ultimately show ?thesis using f(1,3) by (auto simp: laid_def forest_children_nth)
qed

lemma laid_child:
  assumes "laid (shape ns)" "i < length ns" "k \<in> set (nd_children (ns ! i))"
  shows "k < length ns" "nd_depth (ns ! k) = Suc (nd_depth (ns ! i))"
proof -
  have "\<forall>k\<in>set (fst (shape ns ! i)). k < length ns \<and> snd (shape ns ! k) = Suc (snd (shape ns ! i))"
    using assms(1,2) unfolding laid_def shape_simps(1) by blast
  then have "k < length ns \<and> snd (shape ns ! k) = Suc (snd (shape ns ! i))" using assms(2,3) shape_simps(2) [OF assms(2)] by (metis fst_conv)
  then show "k < length ns" "nd_depth (ns ! k) = Suc (nd_depth (ns ! i))" using assms(2) by auto
qed

lemma shape_depth: "shape ns = shape ns' \<Longrightarrow> k < length ns \<Longrightarrow> length ns' = length ns \<and> nd_depth (ns' ! k) = nd_depth (ns ! k)"
  by (metis shape_simps(1,2) snd_conv)

lemma widths_end:
  "laid (shape ns) \<Longrightarrow> i < length ns \<Longrightarrow> length ns \<le> fuel + nd_depth (ns ! i)
     \<Longrightarrow> \<exists>w ns'. compute_subtree_w log2 fuel i ns = Some (w, ns') \<and> shape ns' = shape ns"
  "laid (shape ns) \<Longrightarrow> \<forall>k\<in>set ks. k < length ns \<and> length ns \<le> fuel + nd_depth (ns ! k)
     \<Longrightarrow> \<exists>w ns'. kids_width log2 fuel ks n kw ns = Some (w, ns') \<and> shape ns' = shape ns"
proof (induction log2 fuel i ns and log2 fuel ks n kw ns rule: compute_subtree_w_kids_width.induct)
  case (1 log2 i ns)
  then show ?case by (auto simp: laid_def)
next
  case (2 log2 fuel i ns)
  have "\<forall>k\<in>set (nd_children (ns ! i)). k < length ns \<and> length ns \<le> fuel + nd_depth (ns ! k)"
    using laid_child [OF 2(2,3)] 2(4) by auto
  then obtain w ns' where "kids_width log2 fuel (nd_children (ns ! i)) 0 0 ns = Some (w, ns')" "shape ns' = shape ns" using 2 by blast
  then show ?case by (simp add: Let_def)
next
  case (4 log2 fuel k ks n kw ns)
  obtain w ns1 where 1: "compute_subtree_w log2 fuel k ns = Some (w, ns1)" "shape ns1 = shape ns" using 4 by auto
  then have "\<forall>k\<in>set ks. k < length ns1 \<and> length ns1 \<le> fuel + nd_depth (ns1 ! k)"
    using 4(4) shape_depth [of ns ns1] by auto
  then show ?case using 4(2) [OF refl 1(1) refl] 1 4(3) by auto
qed simp

lemma x_end:
  "laid (shape ns) \<Longrightarrow> i < length ns \<Longrightarrow> length ns \<le> fuel + nd_depth (ns ! i)
     \<Longrightarrow> \<exists>ns'. assign_x fuel i x ns = Some ns' \<and> shape ns' = shape ns"
  "laid (shape ns) \<Longrightarrow> \<forall>k\<in>set ks. k < length ns \<and> length ns \<le> fuel + nd_depth (ns ! k)
     \<Longrightarrow> \<exists>ns'. kids_x fuel ks cx ns = Some ns' \<and> shape ns' = shape ns"
proof (induction fuel i x ns and fuel ks cx ns rule: assign_x_kids_x.induct)
  case (1 i x ns)
  then show ?case by (auto simp: laid_def)
next
  case (2 fuel i x ns)
  let ?ns = "ns[i := (ns ! i)\<lparr>nd_x := x\<rparr>]"
  have l: "laid (shape ?ns)" using 2(2) by simp
  have "\<forall>k\<in>set (nd_children (?ns ! i)). k < length ?ns \<and> length ?ns \<le> fuel + nd_depth (?ns ! k)"
    using laid_child [OF l, of i] 2(3,4) by auto
  then show ?case using 2(1) [OF refl refl refl l] 2(3) by (simp add: Let_def)
next
  case (4 fuel k ks cx ns)
  obtain ns1 where 1: "assign_x fuel k cx ns = Some ns1" "shape ns1 = shape ns" using 4 by auto
  then have "\<forall>k\<in>set ks. k < length ns1 \<and> length ns1 \<le> fuel + nd_depth (ns1 ! k)"
    using 4(4) shape_depth [of ns ns1] by auto
  then show ?case using 4(2) [OF 1(1)] 1 4(3) by auto
qed simp

lemma widths_pass_end:
  "laid (shape ns) \<Longrightarrow> \<forall>r\<in>set rs. r < length ns \<Longrightarrow> \<exists>ns'. widths_pass log2 rs ns = Some ns' \<and> shape ns' = shape ns"
proof (induction rs arbitrary: ns)
  case (Cons r rs)
  then obtain w ns1 where 1: "compute_subtree_w log2 (length ns) r ns = Some (w, ns1)" "shape ns1 = shape ns"
    using widths_end(1) [of ns r "length ns" log2] by auto
  moreover have "length ns1 = length ns" using 1(2) by (metis shape_simps(1))
  ultimately show ?case using Cons.IH [of ns1] Cons.prems by auto
qed simp

lemma x_pass_end:
  "laid (shape ns) \<Longrightarrow> \<forall>r\<in>set rs. r < length ns \<Longrightarrow> \<exists>x' ns'. x_pass rs x ns = Some (x', ns') \<and> shape ns' = shape ns"
proof (induction rs arbitrary: x ns)
  case (Cons r rs)
  then obtain ns1 where 1: "assign_x (length ns) r x ns = Some ns1" "shape ns1 = shape ns"
    using x_end(1) [of ns r "length ns" x] by auto
  moreover have "length ns1 = length ns" using 1(2) by (metis shape_simps(1))
  ultimately show ?case using Cons.IH [of ns1] Cons.prems by auto
qed simp

lemma flame_layout_ends:
  assumes "laid (shape ns)"
  shows "\<exists>out. flame_layout log2 ns = Some out"
proof -
  have r: "\<forall>r\<in>set (forest_roots ns). r < length ns" by (simp add: forest_roots_def)
  obtain n1 where 1: "widths_pass log2 (forest_roots ns) ns = Some n1" "shape n1 = shape ns"
    using widths_pass_end [OF assms r] by blast
  have "length n1 = length ns" using 1(2) by (metis shape_simps(1))
  then obtain x n2 where "x_pass (forest_roots ns) MARGIN n1 = Some (x, n2)"
    using x_pass_end [of n1 "forest_roots ns" MARGIN] 1(2) assms r by auto
  then show ?thesis using 1 by (simp add: flame_layout_def)
qed

text \<open>C37: the flame view never hangs and rejects exactly the malformed gate files: the forest is built just when every gate
  reaches a root by following its parents, its depth is then the number of steps to the root, and the two recursive layout
  passes end; otherwise some gate has no such chain (an unknown parent or a cycle on the way).\<close>

theorem flame_forest_total:
  "case build_forest ms history of
     Inl _ \<Rightarrow> (\<exists>i < length ms. \<forall>d. \<not> rooted ms i d)
   | Inr ns \<Rightarrow> list_all2 (rooted ms) [0..<length ms] (map nd_depth ns)
       \<and> (\<exists>out. flame_layout log2 ns = Some out)"
proof (cases "build_forest ms history")
  case (Inl e)
  then show ?thesis using build_forest_fails by simp
next
  case (Inr ns)
  have "list_all2 (rooted ms) [0..<length ms] (map nd_depth ns)"
    using build_forest_rooted(1,2) [OF Inr] by (simp add: list_all2_conv_all_nth)
  then show ?thesis using Inr flame_layout_ends [OF forest_laid [OF Inr]] by simp
qed

lemma spark_bounds: "length (fst (spark_of history m)) \<le> SPARK_POINTS \<and> last (fst (spark_of history m)) = gm_median_ns m"
  by (auto simp: spark_of_def Let_def SPARK_POINTS_def last_drop)

end
