(* ===== verification/FlameSvg.thy ===== *)
theory FlameSvg
  imports Flame
begin

text \<open>
  The drawing of the flame view (\<open>xtask/src/bench_flame.rs\<close>): the SVG text of a laid-out forest in both themes, and the command
  that measures, draws and records.  A scanner for tags, attributes and entities shows that the elements of the document
  are fixed by theme, rows and sparklines: no name, summary, host or time can open or close one.
\<close>

section \<open>Markup\<close>

text \<open>\<open>writeln!\<close> on a string cannot fail and adds a line feed.  An attribute is printed as \<open> key="value"\<close>.\<close>

type_synonym attrs = "(string \<times> utext) list"

definition attr_text :: "string \<times> utext \<Rightarrow> utext" where
  "attr_text = (\<lambda>(k, v). 32 # tx k @ [61, 34] @ v @ [34])"

definition open_tag :: "string \<Rightarrow> attrs \<Rightarrow> utext" where
  "open_tag n as = 60 # tx n @ concat (map attr_text as) @ [62]"

definition empty_tag :: "string \<Rightarrow> attrs \<Rightarrow> utext" where
  "empty_tag n as = 60 # tx n @ concat (map attr_text as) @ [47, 62]"

definition elem :: "string \<Rightarrow> attrs \<Rightarrow> utext \<Rightarrow> utext" where
  "elem n as body = open_tag n as @ body @ [60, 47] @ tx n @ [62]"

definition writeln :: "utext \<Rightarrow> utext" where
  "writeln t = t @ [10]"

definition xml_escape :: "utext \<Rightarrow> utext" where
  "xml_escape s =
     replace_char 34 (tx ''&quot;'') (replace_char 62 (tx ''&gt;'') (replace_char 60 (tx ''&lt;'') (replace_char 38 (tx ''&amp;'') s)))"

abbreviation f0 :: "f64 \<Rightarrow> utext" where "f0 \<equiv> fmt_f64 0"
abbreviation f1 :: "f64 \<Rightarrow> utext" where "f1 \<equiv> fmt_f64 1"
abbreviation MID_DOT :: utext where "MID_DOT \<equiv> [32, 183, 32]"
abbreviation LONG_DASH :: utext where "LONG_DASH \<equiv> [32, 8212, 32]"

section \<open>Palettes\<close>

text \<open>Colours, and opacities as \<open>Display\<close> prints their literals.\<close>

record palette =
  pl_bg :: utext
  pl_text :: utext
  pl_dim :: utext
  pl_faint :: utext
  pl_rule :: utext
  pl_rule_op :: utext
  pl_row_sep :: utext
  pl_row_sep_op :: utext
  pl_spark :: utext
  pl_spark_op :: utext

fun palette_of :: "Theme \<Rightarrow> palette" where
  "palette_of Blueprint =
     \<lparr>pl_bg = tx ''#0d1420'', pl_text = tx ''#dfe7f1'', pl_dim = tx ''#94a3b8'', pl_faint = tx ''#66738a'', pl_rule = tx ''#9db4d0'',
      pl_rule_op = tx ''0.35'', pl_row_sep = tx ''#8fa9c9'', pl_row_sep_op = tx ''0.25'', pl_spark = tx ''#cfe0f2'', pl_spark_op = tx ''0.6''\<rparr>"
| "palette_of Dark =
     \<lparr>pl_bg = tx ''#0e1116'', pl_text = tx ''#e6edf3'', pl_dim = tx ''#9aa4b2'', pl_faint = tx ''#68717d'', pl_rule = tx ''#1c2230'',
      pl_rule_op = tx ''1'', pl_row_sep = tx ''#161b26'', pl_row_sep_op = tx ''1'', pl_spark = tx ''#ffffff'', pl_spark_op = tx ''0.5''\<rparr>"

definition BP_STROKE :: "string list" where "BP_STROKE = [''#ff5252'', ''#57a8ff'', ''#5fd97e'']"
definition BP_STROKE_W :: "string list" where "BP_STROKE_W = [''1.8'', ''1.2'', ''1'']"
definition BP_FILL :: "string list" where "BP_FILL = [''url(#hatch)'', ''#57a8ff'', ''#5fd97e'']"
definition BP_FILL_OP :: "string list" where "BP_FILL_OP = [''1'', ''0.1'', ''0.07'']"

text \<open>Fill, fill opacity, stroke and stroke width of a box.\<close>

definition box_style :: "(f64 \<Rightarrow> f64) \<Rightarrow> Theme \<Rightarrow> GateMeasurement \<Rightarrow> utext \<times> utext \<times> utext \<times> utext" where
  "box_style log10 theme m =
     (case theme of
        Blueprint \<Rightarrow> (let tier = bp_tier m in (tx (BP_FILL ! tier), tx (BP_FILL_OP ! tier), tx (BP_STROKE ! tier), tx (BP_STROKE_W ! tier)))
      | Dark \<Rightarrow> (dark_fill log10 m, tx ''1'', dark_stroke log10 m, tx ''1''))"

definition delta_color :: "palette \<Rightarrow> 64 word option \<Rightarrow> utext" where
  "delta_color p d =
     (case d of None \<Rightarrow> pl_dim p | Some v \<Rightarrow> if 0 < sint v then tx ''#ff9d9d'' else if sint v < 0 then tx ''#7bd88f'' else pl_dim p)"

section \<open>The document\<close>

definition svg_defs :: "Theme \<Rightarrow> utext" where
  "svg_defs theme =
     writeln (elem ''defs'' []
       ([10] @ writeln (elem ''linearGradient'' [(''id'', tx ''gloss''), (''x1'', tx ''0''), (''y1'', tx ''0''), (''x2'', tx ''0''), (''y2'', tx ''1'')]
          (empty_tag ''stop'' [(''offset'', tx ''0''), (''stop-color'', tx ''#ffffff''), (''stop-opacity'', tx ''0.10'')]
           @ empty_tag ''stop'' [(''offset'', tx ''0.5''), (''stop-color'', tx ''#ffffff''), (''stop-opacity'', tx ''0.02'')]
           @ empty_tag ''stop'' [(''offset'', tx ''1''), (''stop-color'', tx ''#000000''), (''stop-opacity'', tx ''0.12'')]))
        @ (if theme = Blueprint
           then writeln (elem ''pattern'' [(''id'', tx ''gmin''), (''width'', tx ''16''), (''height'', tx ''16''), (''patternUnits'', tx ''userSpaceOnUse'')]
                  (empty_tag ''path'' [(''d'', tx ''M16 0H0V16''), (''fill'', tx ''none''), (''stroke'', tx ''#8fa9c9''),
                     (''stroke-opacity'', tx ''0.07''), (''stroke-width'', tx ''0.5'')]))
                @ writeln (elem ''pattern'' [(''id'', tx ''gmaj''), (''width'', tx ''80''), (''height'', tx ''80''), (''patternUnits'', tx ''userSpaceOnUse'')]
                  (empty_tag ''path'' [(''d'', tx ''M80 0H0V80''), (''fill'', tx ''none''), (''stroke'', tx ''#8fa9c9''),
                     (''stroke-opacity'', tx ''0.15''), (''stroke-width'', tx ''0.7'')]))
                @ writeln (elem ''pattern'' [(''id'', tx ''hatch''), (''width'', tx ''6''), (''height'', tx ''6''),
                     (''patternTransform'', tx ''rotate(45)''), (''patternUnits'', tx ''userSpaceOnUse'')]
                  (empty_tag ''line'' [(''x1'', tx ''0''), (''y1'', tx ''0''), (''x2'', tx ''0''), (''y2'', tx ''6''), (''stroke'', tx ''#ff6b6b''),
                     (''stroke-opacity'', tx ''0.45''), (''stroke-width'', tx ''1.8'')]))
           else [])))"

definition full_rect :: "utext \<Rightarrow> utext" where
  "full_rect fill = writeln (empty_tag ''rect'' [(''width'', tx ''100%''), (''height'', tx ''100%''), (''fill'', fill)])"

definition frame_rect :: "utext \<Rightarrow> f64 \<Rightarrow> f64 \<Rightarrow> string \<Rightarrow> string \<Rightarrow> utext" where
  "frame_rect xy fw fh op sw =
     writeln (empty_tag ''rect'' [(''x'', xy), (''y'', xy), (''width'', f1 fw), (''height'', f1 fh), (''fill'', tx ''none''),
       (''stroke'', tx ''#9db4d0''), (''stroke-opacity'', tx op), (''stroke-width'', tx sw)])"

definition svg_sheet :: "Theme \<Rightarrow> f64 \<Rightarrow> f64 \<Rightarrow> utext" where
  "svg_sheet theme w h =
     full_rect (pl_bg (palette_of theme))
     @ (if theme = Blueprint
        then full_rect (tx ''url(#gmin)'') @ full_rect (tx ''url(#gmaj)'')
             @ frame_rect (tx ''6.5'') (w - lit 13) (h - lit 13) ''0.55'' ''1.5''
             @ frame_rect (tx ''11.5'') (w - lit 23) (h - lit 23) ''0.28'' ''0.6''
        else [])"

definition h_line :: "utext \<Rightarrow> f64 \<Rightarrow> utext \<Rightarrow> utext \<Rightarrow> attrs \<Rightarrow> f64 \<Rightarrow> utext" where
  "h_line stroke y op sw extra w =
     writeln (empty_tag ''line'' ([(''x1'', tx ''26''), (''y1'', f1 y), (''x2'', f1 (w - MARGIN)), (''y2'', f1 y), (''stroke'', stroke),
       (''stroke-opacity'', op), (''stroke-width'', sw)] @ extra))"

definition svg_header :: "Theme \<Rightarrow> f64 \<Rightarrow> utext \<Rightarrow> utext \<Rightarrow> u32 \<Rightarrow> utext" where
  "svg_header theme w ts host n_samples =
     (let p = palette_of theme
      in writeln (elem ''text'' [(''x'', tx ''26''), (''y'', tx ''30''), (''fill'', pl_text p), (''font-size'', tx ''15''), (''font-weight'', tx ''bold''),
             (''letter-spacing'', tx ''3'')] (tx ''DEMIURGE'' @ MID_DOT @ tx ''CPU GATE FLAME''))
         @ writeln (elem ''text'' [(''x'', tx ''26''), (''y'', tx ''48''), (''fill'', pl_dim p), (''font-size'', tx ''11'')]
             (xml_escape ts @ MID_DOT @ tx ''host '' @ xml_escape host @ MID_DOT @ fmt_u64 n_samples @ tx '' samples'' @ MID_DOT @ tx ''medians ns/op''))
         @ h_line (pl_rule p) (HEADER_H - lit 6) (pl_rule_op p) (tx ''1'') [] w)"

definition svg_row :: "Theme \<Rightarrow> f64 \<Rightarrow> nat \<Rightarrow> utext" where
  "svg_row theme w r =
     (let p = palette_of theme
      in h_line (pl_row_sep p) (HEADER_H + f64_of_nat r * ROW_H - (ROW_H - BOX_H) / lit 2) (pl_row_sep_op p) (tx ''1'')
           [(''stroke-dasharray'', tx ''1 5'')] w)"

definition spark_coord :: "f64 \<times> f64 \<Rightarrow> utext" where
  "spark_coord = (\<lambda>(px, py). f1 px @ [44] @ f1 py)"

definition sparkline :: "u64 list \<Rightarrow> f64 \<Rightarrow> f64 \<Rightarrow> f64 \<Rightarrow> f64 \<Rightarrow> utext \<Rightarrow> utext \<Rightarrow> utext" where
  "sparkline spark x y w h color op =
     (if spark = [] then []
      else (let pts = spark_points spark x y w h;
                (lx, ly) = spark_point spark x y w h (length spark - 1) (last spark)
            in (if 1 < length spark
                then empty_tag ''polyline'' [(''points'', join 32 (map spark_coord pts)), (''fill'', tx ''none''),
                       (''stroke'', color), (''stroke-opacity'', op), (''stroke-width'', tx ''1'')]
                else [])
               @ empty_tag ''circle'' [(''cx'', f1 lx), (''cy'', f1 ly), (''r'', tx ''1.8''), (''fill'', tx ''#ffffff''), (''fill-opacity'', tx ''0.85'')]))"

definition box_title :: "Node \<Rightarrow> utext" where
  "box_title n =
     (let m = nd_m n
      in elem ''title'' []
           (xml_escape (tx (gm_id m)) @ LONG_DASH @ xml_escape (tx (gm_summary m)) @ [10]
            @ tx ''floor '' @ fmt_u64 (gm_floor_ns m) @ tx ''ns'' @ MID_DOT @ tx ''median '' @ fmt_u64 (gm_median_ns m) @ tx ''ns'' @ MID_DOT
            @ tx ''p95 '' @ fmt_u64 (gm_p95_ns m) @ tx ''ns'' @ MID_DOT @ tx ''limit '' @ fmt_u64 (gm_limit_ns m) @ tx ''ns'' @ [10]
            @ tx ''headroom '' @ f0 (gm_headroom_pct m) @ tx ''%'' @ (if gm_thin m then MID_DOT @ tx ''THIN'' else []) @ MID_DOT
            @ dec_nat (length (nd_spark n)) @ tx '' run(s) in sparkline''))"

definition svg_box :: "(f64 \<Rightarrow> f64) \<Rightarrow> Theme \<Rightarrow> nat \<Rightarrow> Node \<Rightarrow> utext" where
  "svg_box log10 theme rows n =
     (let p = palette_of theme; bp = (theme = Blueprint); m = nd_m n;
          bx = nd_x n; bw = nd_subtree_w n; by = box_y rows n;
          (fill, fill_op, stroke, stroke_w) = box_style log10 theme m;
          tx0 = bx + lit 9; bar_y = by + BOX_H - lit 6; bar_w = bw - lit 18;
          (track_fill, track_op) = (if bp then (tx ''#8fa9c9'', tx ''0.25'') else (tx ''#000000'', tx ''0.35''))
      in writeln (elem ''g'' []
           ([10] @ writeln (box_title n)
            @ writeln (empty_tag ''rect'' [(''x'', f1 bx), (''y'', f1 by), (''width'', f1 bw), (''height'', tx ''58''), (''rx'', tx (if bp then ''2'' else ''7'')),
                (''fill'', fill), (''fill-opacity'', fill_op), (''stroke'', stroke), (''stroke-width'', stroke_w)])
            @ (if bp then []
               else writeln (empty_tag ''rect'' [(''x'', f1 bx), (''y'', f1 by), (''width'', f1 bw), (''height'', tx ''58''), (''rx'', tx ''7''),
                      (''fill'', tx ''url(#gloss)'')]))
            @ writeln (elem ''text'' [(''x'', f1 tx0), (''y'', f1 (by + lit 17)), (''fill'', tx (if bp then ''#ffffff'' else ''#f4f8fc'')),
                (''font-size'', tx ''12''), (''font-weight'', tx ''bold'')] (xml_escape (tx (short_id (gm_id m)))))
            @ writeln (elem ''text'' [(''x'', f1 tx0), (''y'', f1 (by + lit 31)), (''fill'', tx (if bp then ''#c9d6e6'' else ''#eef3f8'')),
                (''fill-opacity'', tx ''0.92''), (''font-size'', tx ''10.5'')]
                (fmt_u64 (gm_median_ns m) @ tx ''ns'' @ MID_DOT @ f0 (gm_headroom_pct m) @ tx ''% ''
                 @ elem ''tspan'' [(''fill'', delta_color p (nd_delta_ns n))] (delta_txt (nd_delta_ns n))))
            @ sparkline (nd_spark n) tx0 (by + lit 36) (fmax (bw - lit 18) (lit 20)) (lit 11) (pl_spark p) (pl_spark_op p)
            @ writeln (empty_tag ''rect'' [(''x'', f1 tx0), (''y'', f1 bar_y), (''width'', f1 bar_w), (''height'', tx ''3''), (''rx'', tx ''1.5''),
                (''fill'', track_fill), (''fill-opacity'', track_op)])
            @ writeln (empty_tag ''rect'' [(''x'', f1 tx0), (''y'', f1 bar_y), (''width'', f1 (fmax (bar_w * used_fraction m) (lit (3 / 2)))),
                (''height'', tx ''3''), (''rx'', tx ''1.5''), (''fill'', tx ''#ffffff''), (''fill-opacity'', tx ''0.9'')]))))"

fun swatches :: "Theme \<Rightarrow> (attrs \<times> utext) list" where
  "swatches Blueprint =
     [([(''fill'', tx ''url(#hatch)''), (''stroke'', tx ''#ff5252''), (''stroke-width'', tx ''1.6'')], tx ''thin'' @ LONG_DASH @ tx ''headroom under ~185%''),
      ([(''fill'', tx ''#57a8ff''), (''fill-opacity'', tx ''0.10''), (''stroke'', tx ''#57a8ff''), (''stroke-width'', tx ''1.2'')],
        tx ''so-so'' @ LONG_DASH @ tx ''headroom under 500%''),
      ([(''fill'', tx ''#5fd97e''), (''fill-opacity'', tx ''0.07''), (''stroke'', tx ''#5fd97e''), (''stroke-width'', tx ''1'')],
        tx ''ok'' @ LONG_DASH @ tx ''headroom 500% and up'')]"
| "swatches Dark =
     [([(''fill'', tx ''hsl(357 72% 52%)'')], tx ''thin'' @ LONG_DASH @ tx ''headroom under ~185%''),
      ([(''fill'', tx ''hsl(50 58% 42%)'')], tx ''warm''),
      ([(''fill'', tx ''hsl(200 58% 42%)'')], tx ''comfortable'' @ LONG_DASH @ tx ''hue cools with log headroom'')]"

fun legend_items :: "Theme \<Rightarrow> f64 \<Rightarrow> f64 \<Rightarrow> (attrs \<times> utext) list \<Rightarrow> utext" where
  "legend_items theme ly sx [] = []"
| "legend_items theme ly sx ((as, lbl) # rest) =
     writeln (empty_tag ''rect'' ([(''x'', f1 sx), (''y'', f1 ly), (''width'', tx ''12''), (''height'', tx ''12''),
       (''rx'', tx (if theme = Blueprint then ''1'' else ''3''))] @ as))
     @ writeln (elem ''text'' [(''x'', f1 (sx + lit 17)), (''y'', f1 (ly + lit 10)), (''fill'', pl_dim (palette_of theme)), (''font-size'', tx ''10.5'')]
         (xml_escape lbl))
     @ legend_items theme ly (sx + (lit 17 + f64_of_nat (length lbl) * lit (64 / 10) + lit 22)) rest"

definition legend_note :: utext where
  "legend_note = tx ''width '' @ [8733] @ tx '' log'' @ [8322] @ tx ''(own median ns)'' @ MID_DOT
     @ tx ''nesting = call structure (independent per-op medians, not time attribution)'' @ MID_DOT @ tx ''bar = median/limit'' @ MID_DOT
     @ tx ''sparkline = median across last '' @ dec_nat SPARK_POINTS @ tx '' runs'' @ MID_DOT @ [916] @ tx '' vs previous run''"

definition svg_legend :: "Theme \<Rightarrow> f64 \<Rightarrow> f64 \<Rightarrow> utext" where
  "svg_legend theme w h =
     (let p = palette_of theme; ly = h - LEGEND_H + lit 14
      in h_line (pl_rule p) (ly - lit 8) (pl_rule_op p) (tx ''1'') [] w
         @ legend_items theme ly MARGIN (swatches theme)
         @ writeln (elem ''text'' [(''x'', tx ''26''), (''y'', f1 (ly + lit 30)), (''fill'', pl_faint p), (''font-size'', tx ''10.5'')] legend_note))"

definition block_rule :: "f64 \<Rightarrow> f64 \<Rightarrow> f64 \<Rightarrow> utext" where
  "block_rule tb_x tb_y dy =
     writeln (empty_tag ''line'' [(''x1'', f1 tb_x), (''y1'', f1 (tb_y + dy)), (''x2'', f1 (tb_x + lit 268)), (''y2'', f1 (tb_y + dy)),
       (''stroke'', tx ''#9db4d0''), (''stroke-opacity'', tx ''0.4''), (''stroke-width'', tx ''0.6'')])"

definition svg_title_block :: "Theme \<Rightarrow> f64 \<Rightarrow> f64 \<Rightarrow> utext \<Rightarrow> utext \<Rightarrow> u32 \<Rightarrow> utext" where
  "svg_title_block theme w h ts host n_samples =
     (if theme = Blueprint
      then (let p = palette_of theme; tb_x = w - MARGIN - lit 268; tb_y = h - LEGEND_H + lit 4
            in writeln (empty_tag ''rect'' [(''x'', f1 tb_x), (''y'', f1 tb_y), (''width'', tx ''268''), (''height'', tx ''46''), (''fill'', pl_bg p),
                   (''stroke'', tx ''#9db4d0''), (''stroke-opacity'', tx ''0.7''), (''stroke-width'', tx ''1.2'')])
               @ block_rule tb_x tb_y (lit 15) @ block_rule tb_x tb_y (lit 31)
               @ writeln (elem ''text'' [(''x'', f1 (tb_x + lit 8)), (''y'', f1 (tb_y + lit 11)), (''fill'', pl_text p), (''font-size'', tx ''9''),
                   (''font-weight'', tx ''bold''), (''letter-spacing'', tx ''1.5'')] (tx ''DEMIURGE'' @ MID_DOT @ tx ''CPU GATE FLAME''))
               @ writeln (elem ''text'' [(''x'', f1 (tb_x + lit 8)), (''y'', f1 (tb_y + lit (53 / 2))), (''fill'', pl_dim p), (''font-size'', tx ''8.5'')]
                   (tx ''DATE '' @ xml_escape ts @ MID_DOT @ tx ''HOST '' @ xml_escape host))
               @ writeln (elem ''text'' [(''x'', f1 (tb_x + lit 8)), (''y'', f1 (tb_y + lit 42)), (''fill'', pl_dim p), (''font-size'', tx ''8.5'')]
                   (tx ''SAMPLES '' @ fmt_u64 n_samples @ MID_DOT @ tx ''SCALE log'' @ [8322] @ tx '' ns'' @ MID_DOT @ tx ''SHEET 1/1'')))
      else [])"

definition render_svg :: "(f64 \<Rightarrow> f64) \<Rightarrow> Theme \<Rightarrow> Node list \<Rightarrow> nat \<Rightarrow> f64 \<Rightarrow> f64 \<Rightarrow> utext \<Rightarrow> utext \<Rightarrow> u32 \<Rightarrow> utext" where
  "render_svg log10 theme nodes rows w h ts host n_samples =
     writeln (elem ''svg'' [(''xmlns'', tx ''http://www.w3.org/2000/svg''), (''width'', f0 w), (''height'', f0 h),
         (''viewBox'', tx ''0 0 '' @ f0 w @ [32] @ f0 h), (''font-family'', tx ''SF Mono, JetBrains Mono, Menlo, monospace'')]
       ([10] @ svg_defs theme @ svg_sheet theme w h @ svg_header theme w ts host n_samples
        @ concat (map (svg_row theme w) [1..<rows])
        @ concat (map (svg_box log10 theme rows) nodes)
        @ svg_legend theme w h
        @ svg_title_block theme w h ts host n_samples))"

section \<open>The command\<close>

text \<open>Measuring, the decoder and encoder of a history line, the two files and the clock are parameters.\<close>

record 'w flame_env =
  fe_measure :: "u32 \<Rightarrow> string + GateMeasurement list"
  fe_from_json :: "utext \<Rightarrow> HistoryEntry option"
  fe_to_json :: "HistoryEntry \<Rightarrow> utext"
  fe_history :: "'w \<Rightarrow> utext option"
  fe_ts :: utext
  fe_host :: string
  fe_write_svg :: "utext \<Rightarrow> 'w \<Rightarrow> (string + unit) \<times> 'w"
  fe_write_history :: "utext \<Rightarrow> 'w \<Rightarrow> (string + unit) \<times> 'w"

text \<open>\<open>None\<close> stands for a layout pass that does not end.\<close>

definition bench_flame :: "'w flame_env \<Rightarrow> (f64 \<Rightarrow> f64) \<Rightarrow> (f64 \<Rightarrow> f64) \<Rightarrow> utext option \<Rightarrow> string option \<Rightarrow> 'w \<Rightarrow> ((string + unit) \<times> 'w) option" where
  "bench_flame F log2 log10 var theme_name w =
     (let n = unwrap_or (Option.bind var parse_u32) 15
      in case and_then (Theme_parse theme_name) (\<lambda>theme. and_then (fe_measure F n) (\<lambda>ms.
                and_then (build_forest ms (read_history (fe_from_json F) (fe_history F w))) (\<lambda>nodes. Inr (theme, nodes)))) of
           Inl e \<Rightarrow> Some (Inl e, w)
         | Inr (theme, nodes) \<Rightarrow>
             do { (nodes, rows, cw, ch) \<leftarrow> flame_layout log2 nodes;
                  Some (case fe_write_svg F (render_svg log10 theme nodes rows cw ch (fe_ts F) (tx (fe_host F)) n) w of
                          (Inl e, w1) \<Rightarrow> (Inl e, w1)
                        | (Inr _, w1) \<Rightarrow>
                            fe_write_history F (append_history (fe_to_json F) (fe_history F w1) (history_entry (fe_ts F) (fe_host F) nodes)) w1) })"

text \<open>The command ends, whatever the gate file holds.\<close>

lemma bench_flame_ends: "\<exists>out. bench_flame F log2 log10 var theme_name w = Some out"
proof -
  have "\<exists>out. Option.bind (flame_layout log2 nodes) (\<lambda>(nodes, rows, cw, ch). Some (k nodes rows cw ch)) = Some out"
    if "build_forest ms history = Inr nodes" for ms history nodes and k :: "Node list \<Rightarrow> nat \<Rightarrow> f64 \<Rightarrow> f64 \<Rightarrow> (string + unit) \<times> 'a"
    using flame_layout_ends [OF forest_laid [OF that], of log2] by (auto simp del: split_paired_Ex)
  then show ?thesis
    unfolding bench_flame_def Let_def by (auto simp: and_then_Inr simp del: split_paired_Ex split: sum.split)
qed

text \<open>A run adds one entry to the history that the next run reads.\<close>

lemma split_on_glue:
  "split_on P (t @ u) = butlast (split_on P t) @ (last (split_on P t) @ hd (split_on P u)) # tl (split_on P u)"
proof (induction t)
  case (Cons x t)
  obtain y ys where "split_on P t = y # ys" by (cases "split_on P t") auto
  then show ?case using Cons by (auto simp: neq_Nil_conv)
qed simp

lemma lines_snoc:
  assumes "10 \<notin> set l" "last (split_on (\<lambda>c. c = 10) t) = []"
  shows "lines (t @ l @ [10]) = lines t @ [strip_cr l]"
proof -
  have "split_on (\<lambda>c. c = 10) (l @ [10]) = [l, []]" using assms(1) split_on_append [of l "\<lambda>c. c = 10" 10 "[]"] by auto
  then have "split_on (\<lambda>c. c = 10) (t @ l @ [10]) = butlast (split_on (\<lambda>c. c = 10) t) @ [l, []]"
    using assms by (simp add: split_on_glue [of _ t])
  then show ?thesis using assms(2) by (simp add: lines_def Let_def butlast_append)
qed

lemma history_grows:
  assumes "\<And>e. fj (tj e) = Some e" "10 \<notin> set (tj e)" "strip_cr (tj e) = tj e" "last (split_on (\<lambda>c. c = 10) (unwrap_or old [])) = []"
  shows "read_history fj (Some (append_history tj old e)) = read_history fj old @ [e]"
  using assms lines_snoc [of "tj e" "unwrap_or old []"]
  by (cases old) (simp_all add: read_history_def append_history_def List.map_filter_def unwrap_or_def lines_def [of "[]"])

section \<open>A scanner for markup\<close>

text \<open>The scanner keeps the stack of open elements and the elements seen so far, in order.  It refuses a tag inside an
  attribute value, a bare ampersand, a closing tag that does not match, and unquoted markup characters.\<close>

datatype xmode =
  Txt | Lt | TagName utext | Attrs utext | Quoted utext | Slash | CloseName utext | Entity xmode utext

type_synonym xstate = "xmode \<times> utext list \<times> utext list"

definition tag_char :: "nat \<Rightarrow> bool" where
  "tag_char c \<longleftrightarrow> 97 \<le> c \<and> c \<le> 122 \<or> 65 \<le> c \<and> c \<le> 90 \<or> 48 \<le> c \<and> c \<le> 57"

definition entities :: "utext list" where
  "entities = [tx ''amp'', tx ''lt'', tx ''gt'', tx ''quot'']"

fun xstep :: "xstate \<Rightarrow> nat \<Rightarrow> xstate option" where
  "xstep (Txt, st, lg) c = Some (if c = 60 then Lt else if c = 38 then Entity Txt [] else Txt, st, lg)"
| "xstep (Lt, st, lg) c =
     (if c = 47 then Some (CloseName [], st, lg) else if tag_char c then Some (TagName [c], st, lg) else None)"
| "xstep (TagName n, st, lg) c =
     (if tag_char c then Some (TagName (n @ [c]), st, lg) else if c = 32 then Some (Attrs n, st, lg)
      else if c = 62 then Some (Txt, n # st, lg @ [n]) else if c = 47 then Some (Slash, st, lg @ [n]) else None)"
| "xstep (Attrs n, st, lg) c =
     (if c = 34 then Some (Quoted n, st, lg) else if c = 62 then Some (Txt, n # st, lg @ [n])
      else if c = 47 then Some (Slash, st, lg @ [n]) else if c = 60 \<or> c = 38 then None else Some (Attrs n, st, lg))"
| "xstep (Quoted n, st, lg) c =
     (if c = 34 then Some (Attrs n, st, lg) else if c = 60 then None
      else if c = 38 then Some (Entity (Quoted n) [], st, lg) else Some (Quoted n, st, lg))"
| "xstep (Slash, st, lg) c = (if c = 62 then Some (Txt, st, lg) else None)"
| "xstep (CloseName n, st, lg) c =
     (if tag_char c then Some (CloseName (n @ [c]), st, lg)
      else if c = 62 then (case st of [] \<Rightarrow> None | m # st' \<Rightarrow> if m = n then Some (Txt, st', lg) else None) else None)"
| "xstep (Entity m e, st, lg) c =
     (if tag_char c then Some (Entity m (e @ [c]), st, lg)
      else if c = 59 \<and> e \<in> set entities then Some (m, st, lg) else None)"

fun scan :: "xstate \<Rightarrow> utext \<Rightarrow> xstate option" where
  "scan s [] = Some s"
| "scan s (c # cs) = Option.bind (xstep s c) (\<lambda>s'. scan s' cs)"

definition xml_doc :: "utext \<Rightarrow> utext list option" where
  "xml_doc t = (case scan (Txt, [], []) t of Some (Txt, [], lg) \<Rightarrow> Some lg | _ \<Rightarrow> None)"

lemma scan_append: "scan s (t @ u) = Option.bind (scan s t) (\<lambda>s'. scan s' u)"
  by (induction t arbitrary: s) (auto split: Option.bind_splits)

text \<open>Text that adds the elements \<open>ns\<close> and is closed in itself.\<close>

definition yields :: "utext \<Rightarrow> utext list \<Rightarrow> bool" where
  "yields t ns \<longleftrightarrow> (\<forall>st lg. scan (Txt, st, lg) t = Some (Txt, st, lg @ ns))"

definition unmarked :: "utext \<Rightarrow> bool" where
  "unmarked t \<longleftrightarrow> (\<forall>c\<in>set t. c \<noteq> 34 \<and> c \<noteq> 38 \<and> c \<noteq> 60)"

definition name_ok :: "string \<Rightarrow> bool" where
  "name_ok n \<longleftrightarrow> n \<noteq> [] \<and> list_all tag_char (tx n)"

definition key_ok :: "string \<Rightarrow> bool" where
  "key_ok k \<longleftrightarrow> list_all (\<lambda>c. c \<notin> {34, 38, 47, 60, 62}) (tx k)"

definition attrs_ok :: "attrs \<Rightarrow> bool" where
  "attrs_ok as \<longleftrightarrow> list_all (\<lambda>(k, v). key_ok k \<and> unmarked v) as"

lemma yields_append: "yields t ns \<Longrightarrow> yields u ms \<Longrightarrow> yields (t @ u) (ns @ ms)"
  by (simp add: yields_def scan_append)

lemma yields_Nil: "yields [] []"
  by (simp add: yields_def)

lemma yields_concat: "(\<And>x. x \<in> set xs \<Longrightarrow> yields (f x) (g x)) \<Longrightarrow> yields (concat (map f xs)) (concat (map g xs))"
  by (induction xs) (auto intro: yields_append yields_Nil)

lemma unmarked_yields: "unmarked t \<Longrightarrow> yields t []"
  unfolding yields_def unmarked_def by (induction t) auto

lemma scan_quoted: "unmarked v \<Longrightarrow> scan (Quoted n, st, lg) v = Some (Quoted n, st, lg)"
  unfolding unmarked_def by (induction v) auto

lemma scan_key: "list_all (\<lambda>c. c \<notin> {34, 38, 47, 60, 62}) k \<Longrightarrow> scan (Attrs n, st, lg) k = Some (Attrs n, st, lg)"
  by (induction k) auto

lemma scan_name: "list_all tag_char m \<Longrightarrow> scan (TagName n, st, lg) m = Some (TagName (n @ m), st, lg)"
  by (induction m arbitrary: n) auto

lemma scan_close: "list_all tag_char m \<Longrightarrow> scan (CloseName n, st, lg) m = Some (CloseName (n @ m), st, lg)"
  by (induction m arbitrary: n) auto

lemma scan_attrs:
  "attrs_ok as \<Longrightarrow> scan (Attrs n, st, lg) (concat (map attr_text as)) = Some (Attrs n, st, lg)"
  by (induction as) (auto simp: attrs_ok_def attr_text_def key_ok_def scan_append scan_key scan_quoted)

lemma not_tag_char [simp]: "\<not> tag_char 32" "\<not> tag_char 62" "\<not> tag_char 47" "\<not> tag_char 59"
  by (simp_all add: tag_char_def)

lemma scan_tag:
  assumes "attrs_ok as"
  shows "scan (TagName n, st, lg) (concat (map attr_text as)) \<in> {Some (TagName n, st, lg), Some (Attrs n, st, lg)}"
proof (cases as)
  case (Cons a as')
  then have "scan (TagName n, st, lg) (concat (map attr_text as)) = scan (Attrs n, st, lg) (concat (map attr_text as))"
    by (cases a) (simp add: attr_text_def)
  then show ?thesis using scan_attrs [OF assms] by simp
qed simp

lemma scan_head:
  assumes "name_ok n" "attrs_ok as"
  shows "scan (Txt, st, lg) (60 # tx n @ concat (map attr_text as)) \<in> {Some (TagName (tx n), st, lg), Some (Attrs (tx n), st, lg)}"
proof -
  obtain c cs where n: "tx n = c # cs" "tag_char c" "list_all tag_char cs"
    using assms(1) by (cases n) (auto simp: name_ok_def of_ascii_def)
  moreover have "c \<noteq> 47" using n(2) by auto
  ultimately have "scan (Txt, st, lg) (60 # tx n) = Some (TagName (tx n), st, lg)" by (simp add: scan_name)
  then have "scan (Txt, st, lg) ((60 # tx n) @ concat (map attr_text as)) = scan (TagName (tx n), st, lg) (concat (map attr_text as))"
    by (simp only: scan_append) simp
  then show ?thesis using scan_tag [OF assms(2)] by simp
qed

lemma yields_empty: "name_ok n \<Longrightarrow> attrs_ok as \<Longrightarrow> yields (empty_tag n as) [tx n]"
proof -
  assume a: "name_ok n" "attrs_ok as"
  have "scan (Txt, st, lg) ((60 # tx n @ concat (map attr_text as)) @ [47, 62]) = Some (Txt, st, lg @ [tx n])" for st lg
    using scan_head [OF a, of st lg] by (simp only: scan_append) auto
  then show ?thesis by (simp add: yields_def empty_tag_def)
qed

lemma scan_open:
  assumes "name_ok n" "attrs_ok as"
  shows "scan (Txt, st, lg) (open_tag n as) = Some (Txt, tx n # st, lg @ [tx n])"
proof -
  have "scan (Txt, st, lg) ((60 # tx n @ concat (map attr_text as)) @ [62]) = Some (Txt, tx n # st, lg @ [tx n])"
    using scan_head [OF assms, of st lg] by (simp only: scan_append) auto
  then show ?thesis by (simp add: open_tag_def)
qed

lemma yields_elem:
  assumes "name_ok n" "attrs_ok as" "yields body ns"
  shows "yields (elem n as body) (tx n # ns)"
  using assms scan_close [of "tx n" "[]"] by (simp add: yields_def elem_def scan_append scan_open name_ok_def)

section \<open>Closed pieces\<close>

lemma unmarked_append [simp]: "unmarked (t @ u) \<longleftrightarrow> unmarked t \<and> unmarked u"
  by (auto simp: unmarked_def)

lemma unmarked_Cons [simp]: "unmarked (c # t) \<longleftrightarrow> c \<noteq> 34 \<and> c \<noteq> 38 \<and> c \<noteq> 60 \<and> unmarked t"
  by (auto simp: unmarked_def)

lemma unmarked_Nil [simp]: "unmarked []"
  by (simp add: unmarked_def)

lemma unmarked_tx [simp]: "unmarked (tx s) \<longleftrightarrow> list_all (\<lambda>c. c \<noteq> CHR 0x22 \<and> c \<noteq> CHR ''&'' \<and> c \<noteq> CHR ''<'') s"
proof -
  have "of_char c = (34 :: nat) \<longleftrightarrow> c = CHR 0x22" "of_char c = (38 :: nat) \<longleftrightarrow> c = CHR ''&''" "of_char c = (60 :: nat) \<longleftrightarrow> c = CHR ''<''" for c
    using of_char_eq_iff [of c "CHR 0x22", where 'a = nat] of_char_eq_iff [of c "CHR ''&''", where 'a = nat]
      of_char_eq_iff [of c "CHR ''<''", where 'a = nat] by simp_all
  then show ?thesis by (auto simp: unmarked_def of_ascii_def list_all_iff)
qed

lemma unmarked_dec [simp]: "unmarked (dec_nat n)" "unmarked (fmt_u64 w)"
  by (auto simp: unmarked_def fmt_u64_def dest!: dec_nat_digits)

lemma unmarked_fmt_f64 [simp]: "unmarked (fmt_f64 p x)"
proof (cases x)
  case (Fin r)
  have "unmarked (replicate k 48)" for k by (simp add: unmarked_def)
  then have "unmarked (pad_zero k t) \<longleftrightarrow> unmarked t" for k t unfolding pad_zero_def unmarked_append by blast
  then show ?thesis using Fin by (simp add: Let_def)
qed simp_all

lemma unmarked_join [simp]: "sep \<notin> {34, 38, 60} \<Longrightarrow> unmarked (join sep xs) \<longleftrightarrow> list_all unmarked xs"
  by (induction sep xs rule: join.induct) auto

definition uesc1 :: "nat \<Rightarrow> utext" where
  "uesc1 c = (if c = 38 then tx ''&amp;'' else if c = 60 then tx ''&lt;'' else if c = 62 then tx ''&gt;'' else if c = 34 then tx ''&quot;'' else [c])"

lemma tx_entities: "tx ''&amp;'' = [38, 97, 109, 112, 59]" "tx ''&lt;'' = [38, 108, 116, 59]" "tx ''&gt;'' = [38, 103, 116, 59]"
  "tx ''&quot;'' = [38, 113, 117, 111, 116, 59]" "tx ''amp'' = [97, 109, 112]" "tx ''lt'' = [108, 116]" "tx ''gt'' = [103, 116]" "tx ''quot'' = [113, 117, 111, 116]"
  by code_simp+

lemma xml_escape_concat: "xml_escape s = concat (map uesc1 s)"
  by (induction s) (simp_all add: xml_escape_def uesc1_def tx_entities)

interpretation xml: escape_code uesc1
  by unfold_locales (auto simp: uesc1_def tx_entities split: if_splits)

text \<open>Different names are drawn differently.\<close>

lemma xml_escape_inj: "xml_escape s = xml_escape t \<Longrightarrow> s = t"
  unfolding xml_escape_concat by (rule xml.escaped_inj)

lemma yields_escape: "yields (xml_escape s) []"
proof -
  have "yields (uesc1 c) []" for c
    by (auto simp: uesc1_def yields_def tx_entities entities_def tag_char_def)
  then have "yields (concat (map uesc1 s)) (concat (map (\<lambda>_. []) s))" by (intro yields_concat)
  moreover have "concat (map (\<lambda>_. [] :: utext list) s) = []" by (induction s) simp_all
  ultimately show ?thesis by (simp add: xml_escape_concat)
qed

lemma names_ok [simp]:
  "name_ok ''svg''" "name_ok ''defs''" "name_ok ''linearGradient''" "name_ok ''stop''" "name_ok ''pattern''" "name_ok ''path''"
  "name_ok ''line''" "name_ok ''rect''" "name_ok ''text''" "name_ok ''title''" "name_ok ''g''" "name_ok ''tspan''" "name_ok ''polyline''" "name_ok ''circle''"
  by code_simp+


lemma key_ok_chars [simp]: "key_ok k \<longleftrightarrow> list_all (\<lambda>c. c \<notin> {CHR 0x22, CHR ''&'', CHR ''/'', CHR ''<'', CHR ''>''}) k"
proof -
  have "of_char c = (34 :: nat) \<longleftrightarrow> c = CHR 0x22" "of_char c = (38 :: nat) \<longleftrightarrow> c = CHR ''&''" "of_char c = (47 :: nat) \<longleftrightarrow> c = CHR ''/''"
    "of_char c = (60 :: nat) \<longleftrightarrow> c = CHR ''<''" "of_char c = (62 :: nat) \<longleftrightarrow> c = CHR ''>''" for c
    using of_char_eq_iff [of c "CHR 0x22", where 'a = nat] of_char_eq_iff [of c "CHR ''&''", where 'a = nat]
      of_char_eq_iff [of c "CHR ''/''", where 'a = nat] of_char_eq_iff [of c "CHR ''<''", where 'a = nat]
      of_char_eq_iff [of c "CHR ''>''", where 'a = nat] by simp_all
  then show ?thesis by (auto simp: key_ok_def of_ascii_def list_all_iff)
qed

lemma attrs_ok_simps [simp]:
  "attrs_ok []" "attrs_ok ((k, v) # as) \<longleftrightarrow> key_ok k \<and> unmarked v \<and> attrs_ok as" "attrs_ok (as @ bs) \<longleftrightarrow> attrs_ok as \<and> attrs_ok bs"
  by (simp_all add: attrs_ok_def)

lemma yields_writeln: "yields t ns \<Longrightarrow> yields (writeln t) ns"
  using yields_append [of t ns "[10]" "[]"] unmarked_yields [of "[10]"] by (simp add: writeln_def)

lemma yields_cong: "yields t ms \<Longrightarrow> ms = ns \<Longrightarrow> yields t ns"
  by simp

lemma yields_if: "(P \<Longrightarrow> yields t ns) \<Longrightarrow> (\<not> P \<Longrightarrow> yields u ms) \<Longrightarrow> yields (if P then t else u) (if P then ns else ms)"
  by simp

lemmas yields_intros = yields_if yields_writeln yields_elem yields_empty yields_append yields_escape yields_Nil

lemma unmarked_palette [simp]:
  "unmarked (pl_bg (palette_of th))" "unmarked (pl_text (palette_of th))" "unmarked (pl_dim (palette_of th))" "unmarked (pl_faint (palette_of th))"
  "unmarked (pl_rule (palette_of th))" "unmarked (pl_rule_op (palette_of th))" "unmarked (pl_row_sep (palette_of th))"
  "unmarked (pl_row_sep_op (palette_of th))" "unmarked (pl_spark (palette_of th))" "unmarked (pl_spark_op (palette_of th))"
  by (cases th; simp)+

lemma yields_defs:
  "yields (svg_defs th) (map tx ([''defs'', ''linearGradient'', ''stop'', ''stop'', ''stop''] @
     (if th = Blueprint then [''pattern'', ''path'', ''pattern'', ''path'', ''pattern'', ''line''] else [])))"
  unfolding svg_defs_def by (rule yields_cong, (rule yields_intros unmarked_yields | simp)+)

lemma yields_frame: "unmarked xy \<Longrightarrow> unmarked (tx op) \<Longrightarrow> unmarked (tx sw) \<Longrightarrow> yields (frame_rect xy fw fh op sw) [tx ''rect'']"
  unfolding frame_rect_def by (rule yields_intros | simp)+

lemma yields_full: "unmarked f \<Longrightarrow> yields (full_rect f) [tx ''rect'']"
  unfolding full_rect_def by (rule yields_intros | simp)+

lemma yields_sheet: "yields (svg_sheet th w h) (map tx (if th = Blueprint then replicate 5 ''rect'' else [''rect'']))"
  unfolding svg_sheet_def by (rule yields_cong, (rule yields_intros yields_full yields_frame unmarked_yields | simp add: numeral_eq_Suc)+)

lemma yields_line: "unmarked s \<Longrightarrow> unmarked op \<Longrightarrow> unmarked sw \<Longrightarrow> attrs_ok ex \<Longrightarrow> yields (h_line s y op sw ex w) [tx ''line'']"
  unfolding h_line_def by (rule yields_intros | simp)+

lemma yields_header: "yields (svg_header th w ts host n) (map tx [''text'', ''text'', ''line''])"
  unfolding svg_header_def Let_def by (rule yields_cong, (rule yields_intros yields_line unmarked_yields | simp)+)

lemma yields_row: "yields (svg_row th w r) [tx ''line'']"
  unfolding svg_row_def Let_def by (rule yields_line) simp_all

lemma unmarked_style:
  assumes "box_style log10 th m = (fill, fill_op, stroke, stroke_w)"
  shows "unmarked fill \<and> unmarked fill_op \<and> unmarked stroke \<and> unmarked stroke_w"
proof (cases th)
  case Dark
  then show ?thesis using assms by (auto simp: box_style_def dark_fill_def dark_stroke_def)
next
  case Blueprint
  have "bp_tier m \<in> {0, 1, 2}" by (auto simp: bp_tier_def)
  then show ?thesis using assms Blueprint by (auto simp: box_style_def Let_def BP_FILL_def BP_FILL_OP_def BP_STROKE_def BP_STROKE_W_def numeral_2_eq_2)
qed

lemma unmarked_delta [simp]: "unmarked (delta_txt d)" "unmarked (delta_color (palette_of th) d)"
  by (auto simp: delta_txt_def delta_color_def split: option.splits)

lemma unmarked_coords [simp]: "list_all unmarked (map spark_coord pts)"
  by (auto simp: list_all_iff spark_coord_def)

definition spark_outline :: "nat \<Rightarrow> string list" where
  "spark_outline k = (if k = 0 then [] else (if 1 < k then [''polyline''] else []) @ [''circle''])"

lemma yields_spark:
  assumes "unmarked c" "unmarked op"
  shows "yields (sparkline spark x y w h c op) (map tx (spark_outline (length spark)))"
proof (cases "spark = []")
  case True
  then show ?thesis by (simp add: sparkline_def spark_outline_def yields_Nil)
next
  case False
  obtain lx ly where l: "spark_point spark x y w h (length spark - 1) (last spark) = (lx, ly)" by fastforce
  show ?thesis
    unfolding sparkline_def Let_def l prod.case if_not_P [OF False]
    by (rule yields_cong, (rule yields_intros | simp add: assms)+) (use False in \<open>simp add: spark_outline_def\<close>)
qed

lemma yields_title: "yields (box_title n) [tx ''title'']"
  unfolding box_title_def Let_def by (rule yields_cong, (rule yields_intros unmarked_yields | simp)+)

definition box_outline :: "Theme \<Rightarrow> nat \<Rightarrow> string list" where
  "box_outline th k = [''g'', ''title'', ''rect''] @ (if th = Blueprint then [] else [''rect'']) @ [''text'', ''text'', ''tspan'']
     @ spark_outline k @ [''rect'', ''rect'']"

lemma yields_box: "yields (svg_box log10 th rows n) (map tx (box_outline th (length (nd_spark n))))"
proof -
  obtain fill fill_op stroke stroke_w where st: "box_style log10 th (nd_m n) = (fill, fill_op, stroke, stroke_w)" by (metis prod_cases4)
  note pl = unmarked_style [OF st]
  obtain tf top where t: "(if th = Blueprint then (tx ''#8fa9c9'', tx ''0.25'') else (tx ''#000000'', tx ''0.35'')) = (tf, top)" by fastforce
  have tr: "unmarked tf \<and> unmarked top" using t by (auto split: if_splits)
  show ?thesis
    unfolding svg_box_def Let_def st t prod.case
    by (rule yields_cong, (rule yields_intros yields_title yields_spark unmarked_yields | simp add: pl tr)+) (simp add: box_outline_def)
qed

lemma yields_legend_items:
  "list_all (\<lambda>(as, l). attrs_ok as) sw \<Longrightarrow> yields (legend_items th ly sx sw) (map tx (concat (replicate (length sw) [''rect'', ''text''])))"
proof (induction th ly sx sw rule: legend_items.induct)
  case (2 th ly sx as lbl rest)
  then have IH: "yields (legend_items th ly (sx + (lit 17 + f64_of_nat (length lbl) * lit (64 / 10) + lit 22)) rest)
      (map tx (concat (replicate (length rest) [''rect'', ''text''])))" and a: "attrs_ok as" by simp_all
  show ?case unfolding legend_items.simps
    by (rule yields_cong, (rule yields_intros IH | simp add: a)+)
qed (simp add: yields_Nil)

lemma swatches_ok: "list_all (\<lambda>(as, l). attrs_ok as) (swatches th)" "length (swatches th) = 3"
  by (cases th; simp)+

lemma yields_legend: "yields (svg_legend th w h) (map tx ([''line''] @ concat (replicate 3 [''rect'', ''text'']) @ [''text'']))"
  using yields_legend_items [OF swatches_ok(1), of th] unfolding svg_legend_def Let_def legend_note_def
  by - (rule yields_cong, (rule yields_intros yields_line yields_legend_items swatches_ok unmarked_yields | simp add: swatches_ok)+)

lemma yields_block:
  "yields (svg_title_block th w h ts host n) (map tx (if th = Blueprint then [''rect'', ''line'', ''line'', ''text'', ''text'', ''text''] else []))"
  unfolding svg_title_block_def Let_def block_rule_def
  by (rule yields_cong, (rule yields_intros unmarked_yields | simp)+)

section \<open>The outline\<close>

definition svg_outline :: "Theme \<Rightarrow> nat \<Rightarrow> nat list \<Rightarrow> string list" where
  "svg_outline th rows sparks =
     (let bp = (\<lambda>xs. if th = Blueprint then xs else [])
      in [''svg'', ''defs'', ''linearGradient'', ''stop'', ''stop'', ''stop''] @ bp [''pattern'', ''path'', ''pattern'', ''path'', ''pattern'', ''line'']
         @ [''rect''] @ bp (replicate 4 ''rect'') @ [''text'', ''text'', ''line'']
         @ replicate (rows - 1) ''line'' @ concat (map (box_outline th) sparks)
         @ [''line'', ''rect'', ''text'', ''rect'', ''text'', ''rect'', ''text'', ''text'']
         @ bp [''rect'', ''line'', ''line'', ''text'', ''text'', ''text''])"

lemma yields_svg:
  "yields (render_svg log10 th nodes rows w h ts host n) (map tx (svg_outline th rows (map (\<lambda>nd. length (nd_spark nd)) nodes)))"
proof -
  have rows: "yields (concat (map (svg_row th w) [1..<rows])) (concat (map (\<lambda>_. [tx ''line'']) [1..<rows]))"
    by (intro yields_concat yields_row)
  have boxes: "yields (concat (map (svg_box log10 th rows) nodes)) (concat (map (\<lambda>nd. map tx (box_outline th (length (nd_spark nd)))) nodes))"
    by (intro yields_concat yields_box)
  show ?thesis unfolding render_svg_def
    by (rule yields_cong, (rule yields_intros yields_defs yields_sheet yields_header rows boxes yields_legend yields_block unmarked_yields | simp)+)
       (simp add: svg_outline_def map_concat comp_def map_replicate_const numeral_eq_Suc)
qed

text \<open>C38: The drawing is well-formed markup whose elements are fixed by the theme, the number of rows and the lengths of the
  sparklines: every tag is closed in order, every attribute value stays inside its quotes, and no gate name, summary, host name
  or time stamp, whatever characters it has, opens or closes an element or leaves a bare ampersand.\<close>

theorem flame_svg_outline:
  "xml_doc (render_svg log10 theme nodes rows w h ts host n)
     = Some (map tx (svg_outline theme rows (map (\<lambda>nd. length (nd_spark nd)) nodes)))"
  using yields_svg [of log10 theme nodes rows w h ts host n] by (simp add: xml_doc_def yields_def)

end
