(* ===== verification/MockFleet.thy ===== *)
theory MockFleet
  imports LoadRun
begin

text \<open>
  The mock fleet of the load bench (\<open>xtask/src/load_bench.rs\<close>): what a mock backend answers to a connection, the large-body
  backend, the router stack of a scenario with its virtual Ethernet pair (\<open>xtask/src/track_b_load.rs\<close>), and the
  router of the admission scenario.  Sockets, sleeping and the \<open>ip\<close> program are parameters.  The main lemma joins the mock
  with the router: the hand-off headers it prints are the ones the router reads.
\<close>

section \<open>Mock backends\<close>

text \<open>The two counters are statics of the program, shared by all mock backends.\<close>

record MockStatics =
  REQ :: u64
  HANDLE :: u64

definition MockStatics_init :: MockStatics where
  "MockStatics_init = \<lparr>REQ = 0, HANDLE = 1\<rparr>"

abbreviation CRLF :: bytes where "CRLF \<equiv> [13, 10]"

definition ok_response :: bytes where
  "ok_response = ascii ''HTTP/1.1 200 OK'' @ CRLF @ ascii ''content-length: 2'' @ CRLF @ ascii ''connection: close'' @ CRLF @ CRLF @ ascii ''ok''"

definition kv_response :: "u64 \<Rightarrow> u64 \<Rightarrow> bytes" where
  "kv_response handle kvb =
     ascii ''HTTP/1.1 200 OK'' @ CRLF @ ascii ''x-demiurge-kv-handle: '' @ as_bytes (fmt_u64 handle) @ CRLF
     @ ascii ''x-demiurge-kv-bytes: '' @ as_bytes (fmt_u64 kvb) @ CRLF @ ascii ''content-length: 2'' @ CRLF
     @ ascii ''connection: close'' @ CRLF @ CRLF @ ascii ''ok''"

text \<open>One connection: the time slept and the bytes written.\<close>

definition mock_conn :: "u64 \<Rightarrow> u64 \<Rightarrow> u64 option \<Rightarrow> MockStatics \<Rightarrow> (u64 \<times> bytes) \<times> MockStatics" where
  "mock_conn delay_us jitter_us kvb st =
     (let slt = REQ st;
          st = st\<lparr>REQ := slt + 1\<rparr>;
          sleep_us = (if 0 < jitter_us then jitter_delay_us delay_us jitter_us slt else delay_us)
      in case kvb of
           Some b \<Rightarrow> ((sleep_us, kv_response (HANDLE st) b), st\<lparr>HANDLE := HANDLE st + 1\<rparr>)
         | None \<Rightarrow> ((sleep_us, ok_response), st))"

text \<open>The large-body backend writes chunks of 64 KiB until the body is out or a write fails; \<open>ok\<close> tells whether the write at
  an offset succeeds.  The result is the sizes of the chunks written.\<close>

definition CHUNK :: nat where "CHUNK = 64 * 1024"

definition large_head :: "u64 \<Rightarrow> bytes" where
  "large_head body_bytes = ascii ''HTTP/1.1 200 OK'' @ CRLF @ ascii ''content-length: '' @ as_bytes (fmt_u64 body_bytes) @ CRLF
     @ ascii ''connection: close'' @ CRLF @ CRLF"

function body_writes :: "(nat \<Rightarrow> bool) \<Rightarrow> nat \<Rightarrow> nat \<Rightarrow> nat list" where
  "body_writes ok body sent =
     (if sent < body
      then (let n = min CHUNK (body - sent) in if ok sent then n # body_writes ok body (sent + n) else [])
      else [])"
  by pat_completeness auto

termination
  by (relation "measure (\<lambda>(ok, body, sent). body - sent)") (auto simp: CHUNK_def)

declare body_writes.simps [simp del]

definition large_body_conn :: "(nat \<Rightarrow> bool) \<Rightarrow> u64 \<Rightarrow> bytes" where
  "large_body_conn ok body_bytes =
     large_head body_bytes @ concat (map (\<lambda>n. replicate n 120) (body_writes ok (unat body_bytes) 0))"

section \<open>The virtual Ethernet pair\<close>

record TrackBVeth =
  veth_iface :: string
  listen_ip :: string

type_synonym 'w ip_tool = "string list \<Rightarrow> 'w \<Rightarrow> (string + bool \<times> string) \<times> 'w"

definition run_ip :: "'w ip_tool \<Rightarrow> string list \<Rightarrow> 'w \<Rightarrow> (string + unit) \<times> 'w" where
  "run_ip ip args w =
     (case ip args w of
        (Inl e, w') \<Rightarrow> (Inl (''ip: '' @ e), w')
      | (Inr (success, shown), w') \<Rightarrow> (if success then Inr () else Inl (''ip exited with '' @ shown), w'))"

fun run_ips :: "'w ip_tool \<Rightarrow> string list list \<Rightarrow> 'w \<Rightarrow> (string + unit) \<times> 'w" where
  "run_ips ip [] w = (Inr (), w)"
| "run_ips ip (a # as) w = (case run_ip ip a w of (Inl e, w') \<Rightarrow> (Inl e, w') | (Inr _, w') \<Rightarrow> run_ips ip as w')"

definition veth_commands :: "string \<Rightarrow> string \<Rightarrow> string list list" where
  "veth_commands a b =
     [[''link'', ''add'', a, ''type'', ''veth'', ''peer'', ''name'', b], [''addr'', ''add'', ''192.0.2.1/30'', ''dev'', a],
      [''addr'', ''add'', ''192.0.2.2/30'', ''dev'', b], [''link'', ''set'', a, ''up''], [''link'', ''set'', b, ''up'']]"

text \<open>The sequence number is a static.\<close>

definition TrackBVeth_create :: "'w ip_tool \<Rightarrow> bool \<Rightarrow> u64 \<Rightarrow> 'w \<Rightarrow> (string + TrackBVeth) \<times> u64 \<times> 'w" where
  "TrackBVeth_create ip is_root n w =
     (if \<not> is_root then (Inl ''track_b_kernel requires root (CAP_NET_ADMIN)'', n, w)
      else let a = ''demi-lb'' @ str_of (fmt_u64 n); b = ''demi-lbp'' @ str_of (fmt_u64 n)
           in case run_ips ip (veth_commands a b) w of
                (Inl e, w') \<Rightarrow> (Inl e, n + 1, w')
              | (Inr _, w') \<Rightarrow> (Inr \<lparr>veth_iface = a, listen_ip = ''192.0.2.1''\<rparr>, n + 1, w'))"

definition veth_drop :: "'w ip_tool \<Rightarrow> TrackBVeth \<Rightarrow> 'w \<Rightarrow> 'w" where
  "veth_drop ip v w = snd (run_ip ip [''link'', ''del'', veth_iface v] w)"

definition attach_router :: "('b, 'k) renv \<Rightarrow> string \<Rightarrow> TrackBVeth \<Rightarrow> 'b Router \<Rightarrow> (string + 'b Router) \<times> 'k" where
  "attach_router E opath v r =
     (case with_kernel_admit E opath (veth_iface v) None r of
        (Inl e, k) \<Rightarrow> (Inl (''XDP attach on '' @ veth_iface v @ '': '' @ XdpAttachError_fmt e), k)
      | (Inr r', k) \<Rightarrow> (Inr r', k))"

definition bind_router_listener :: "(string \<Rightarrow> string + string) \<Rightarrow> TrackBVeth option \<Rightarrow> string + string" where
  "bind_router_listener listen veth =
     map_err (\<lambda>e. ''listen router: '' @ e) (listen (case veth of Some v \<Rightarrow> listen_ip v | None \<Rightarrow> ''127.0.0.1''))"

section \<open>The router stack\<close>

record 'b RouterStack =
  rs_addr :: string
  rs_router :: "'b Router"
  rs_ledger :: bool
  rs_veth :: "TrackBVeth option"

text \<open>A failure after the pair was created drops the pair; the kernel state and the world of the \<open>ip\<close> program come back.\<close>

definition spawn_router_stack :: "('b, 'k) renv \<Rightarrow> router_vars \<Rightarrow> string \<Rightarrow> bool \<Rightarrow> bool \<Rightarrow> 'w ip_tool \<Rightarrow> (string \<Rightarrow> string + string)
    \<Rightarrow> Scenario \<Rightarrow> Backend list \<Rightarrow> Backend list \<Rightarrow> u64 \<Rightarrow> 'w \<Rightarrow> (string + 'b RouterStack) \<times> u64 \<times> 'w" where
  "spawn_router_stack E V opath linux is_root ip listen sc pfs dcs n w =
     (if \<not> linux \<and> track_b_kernel sc then (Inl (sc_id sc @ '': track_b_kernel requires Linux''), n, w)
      else
        let (created, n, w) = (if linux \<and> track_b_kernel sc
              then (case TrackBVeth_create ip is_root n w of (Inl e, n', w') \<Rightarrow> (Inl e, n', w') | (Inr v, n', w') \<Rightarrow> (Inr (Some v), n', w'))
              else (Inr None, n, w))
        in case created of
             Inl e \<Rightarrow> (Inl e, n, w)
           | Inr veth \<Rightarrow>
               (let cleanup = (\<lambda>w. case veth of Some v \<Rightarrow> veth_drop ip v w | None \<Rightarrow> w);
                    r = (if sc_use_kv_pool sc
                         then with_kv_pool V (e_now_ms E) (e_now E) pfs dcs (effective_decode_capacity_bytes sc) (sc_bytes_per_token sc)
                         else Router_new V (e_now_ms E) (e_now E) pfs dcs);
                    r = (if sc_rebalancer_actuation sc then with_rebalancer_actuation True (e_now E) r else r);
                    r = apply_scenario_router_flags sc pfs dcs r
                in case (case veth of Some v \<Rightarrow> fst (attach_router E opath v r) | None \<Rightarrow> Inr r) of
                     Inl e \<Rightarrow> (Inl e, n, cleanup w)
                   | Inr r \<Rightarrow>
                       (let r = (if 0 < sc_admit_capacity sc then sync_admit_capacity E (sc_admit_capacity sc) r else r)
                        in case bind_router_listener listen veth of
                             Inl e \<Rightarrow> (Inl e, n, cleanup w)
                           | Inr a \<Rightarrow> (Inr \<lparr>rs_addr = a, rs_router = r, rs_ledger = sc_use_kv_pool sc, rs_veth = veth\<rparr>, n, w))))"

definition e2e_kv_bytes :: "Scenario \<Rightarrow> u64 option" where
  "e2e_kv_bytes sc =
     (if prefill_kv_headers sc then Some (kv_reserved (kv_breakdown (sc_long_prompt_tokens sc) (sc_bytes_per_token sc))) else None)"

definition warmup_lines :: "Scenario \<Rightarrow> u32 \<Rightarrow> bytes list" where
  "warmup_lines sc warmup =
     map (\<lambda>i. request_line (sc_request_style sc) (sc_long_prompt_tokens sc) True (of_nat i)) [0..<unat warmup]"

definition build_admit_router :: "(f64 \<Rightarrow> f64) \<Rightarrow> (u64 \<Rightarrow> nat \<Rightarrow> string) \<Rightarrow> router_vars \<Rightarrow> u64 \<Rightarrow> nat \<Rightarrow> Scenario \<Rightarrow> u64 \<Rightarrow> 'b Router" where
  "build_admit_router lg spawn_delay V now_ms now sc pf_delay =
     (let cost = (\<lambda>i. base_cost_seconds sc + cost_step_seconds sc * f64_of_nat i);
          pfs = map (\<lambda>i. Backend_new lg (''pf'' @ str_of (dec_nat i)) (spawn_delay pf_delay i) (cost i)) [0..<unat (max (sc_backends sc) 1)];
          dcs = map (\<lambda>i. Backend_new lg (''dc'' @ str_of (dec_nat i)) (spawn_delay 1 i) (cost i)) [0..<unat (max (sc_decode_backends sc) 1)]
      in Router_new V now_ms now pfs dcs)"

section \<open>The large body is complete\<close>

lemma body_writes_sum: "sent \<le> body \<Longrightarrow> sum_list (body_writes (\<lambda>_. True) body sent) = body - sent"
proof (induction "body - sent" arbitrary: sent rule: less_induct)
  case less
  show ?case
  proof (cases "sent < body")
    case True
    let ?n = "min CHUNK (body - sent)"
    have "body_writes (\<lambda>_. True) body sent = ?n # body_writes (\<lambda>_. True) body (sent + ?n)"
      using True by (simp add: body_writes.simps [of _ body sent] Let_def)
    moreover have "sum_list (body_writes (\<lambda>_. True) body (sent + ?n)) = body - (sent + ?n)"
      using True by (intro less) (auto simp: CHUNK_def)
    ultimately show ?thesis using True by simp
  next
    case False
    then show ?thesis using less.prems by (subst body_writes.simps) simp
  qed
qed

text \<open>Unless a write fails, the body has the announced length.\<close>

lemma large_body_length: "length (large_body_conn (\<lambda>_. True) b) = length (large_head b) + unat b"
  using body_writes_sum [of 0 "unat b"] by (simp add: large_body_conn_def length_concat comp_def)

section \<open>The router reads the mock's hand-off\<close>

text \<open>Lines ended by carriage return and line feed.\<close>

lemma lines_crlf:
  assumes "\<forall>l\<in>set ls. 10 \<notin> set l"
  shows "lines (concat (map (\<lambda>l. l @ [13, 10]) ls)) = ls"
proof -
  have "concat (map (\<lambda>l. l @ [13, 10]) ls) = concat (map (\<lambda>l. l @ [10]) (map (\<lambda>l. l @ [13]) ls))" by (simp add: comp_def)
  then have "split_on (\<lambda>c. c = 10) (concat (map (\<lambda>l. l @ [13, 10]) ls)) = map (\<lambda>l. l @ [13]) ls @ [[]]"
    using split_on_lines [of "map (\<lambda>l. l @ [13]) ls" 10] assms by auto
  moreover have "strip_cr (l @ [13]) = l" for l by (simp add: strip_cr_def strip_suffix_Some [THEN iffD2])
  ultimately show ?thesis by (simp add: lines_def comp_def)
qed

lemma find_blank_skip:
  fixes l :: "u8 list"
  assumes "13 \<notin> set l" "rest \<noteq> []" "hd rest \<noteq> 13"
  shows "find_sub [13, 10, 13, 10] (l @ 13 # 10 # rest) = map_option (\<lambda>i. i + (length l + 2)) (find_sub [13, 10, 13, 10] rest)"
  using assms(1)
proof (induction l)
  case Nil
  obtain x xs where "rest = x # xs" "x \<noteq> 13" using assms(2,3) by (cases rest) auto
  then show ?case by (simp add: starts_with_def option.map_comp comp_def)
next
  case (Cons c l)
  then show ?case by (simp add: starts_with_def option.map_comp comp_def)
qed

lemma find_blank_end:
  fixes l :: "u8 list"
  assumes "13 \<notin> set l"
  shows "find_sub [13, 10, 13, 10] (l @ 13 # 10 # 13 # 10 # rest) = Some (length l)"
  using assms by (induction l) (auto simp: starts_with_def)

text \<open>A head of several non-empty lines ends where its blank line ends.\<close>

lemma header_end_lines:
  fixes ls :: "u8 list list"
  assumes "ls \<noteq> []" "\<forall>l\<in>set ls. 13 \<notin> set l \<and> l \<noteq> []"
  shows "header_end (concat (map (\<lambda>l. l @ [13, 10]) ls) @ [13, 10] @ body) = length (concat (map (\<lambda>l. l @ [13, 10]) ls)) + 2"
proof -
  have "find_sub [13, 10, 13, 10] (concat (map (\<lambda>l. l @ [13, 10]) ls) @ [13, 10] @ body) = Some (length (concat (map (\<lambda>l. l @ [13, 10]) ls)) - 2)"
    using assms
  proof (induction ls)
    case (Cons l ls)
    show ?case
    proof (cases ls)
      case Nil
      then show ?thesis using Cons.prems find_blank_end [of l body] by simp
    next
      case c: (Cons l' ls')
      let ?rest = "concat (map (\<lambda>l. l @ [13, 10]) ls) @ [13, 10] @ body"
      have ne: "?rest \<noteq> []" "hd ?rest \<noteq> 13" using c Cons.prems(2) by (auto simp: hd_append neq_Nil_conv)
      have "2 \<le> length (concat (map (\<lambda>l. l @ [13, 10]) ls))" using c by simp
      then show ?thesis using find_blank_skip [of l ?rest] ne Cons.IH c Cons.prems by auto
    qed
  qed simp
  then show ?thesis using assms(1) by (cases ls) (simp_all add: header_end_def)
qed

definition kv_lines_of :: "u64 \<Rightarrow> u64 \<Rightarrow> bytes list" where
  "kv_lines_of h b =
     [ascii ''HTTP/1.1 200 OK'', ascii ''x-demiurge-kv-handle: '' @ as_bytes (fmt_u64 h), ascii ''x-demiurge-kv-bytes: '' @ as_bytes (fmt_u64 b),
      ascii ''content-length: 2'', ascii ''connection: close'']"

lemma kv_response_lines: "kv_response h b = concat (map (\<lambda>l. l @ [13, 10]) (kv_lines_of h b)) @ [13, 10] @ ascii ''ok''"
  by (simp add: kv_response_def kv_lines_of_def)

lemma ascii_u: "map unat (ascii s) = of_ascii s" if "\<forall>c\<in>set s. (of_char c :: nat) < 128"
  using that by (auto simp: ascii_def of_ascii_def unat_of_nat)

lemma digits_u: "map unat (as_bytes (fmt_u64 w)) = fmt_u64 w"
  by (auto simp: as_bytes_def fmt_u64_def unat_of_nat intro!: map_idI dest!: dec_nat_digits)

lemma kv_line_bytes: "l \<in> set (kv_lines_of h b) \<Longrightarrow> x \<in> set l \<Longrightarrow> x < 128 \<and> x \<noteq> 13 \<and> x \<noteq> 10"
  using fmt_bytes_range [of x h] fmt_bytes_range [of x b] by (auto simp: kv_lines_of_def ascii_def word_le_nat_alt word_less_nat_alt)

lemma kv_header_text:
  "lines (from_utf8_lossy (take (header_end (kv_response h b)) (kv_response h b))) = map (map unat) (kv_lines_of h b @ [[]])"
proof -
  let ?ls = "kv_lines_of h b"
  let ?hd = "concat (map (\<lambda>l. l @ [13, 10]) (?ls @ [[]]))"
  have "\<forall>l\<in>set ?ls. 13 \<notin> set l \<and> l \<noteq> []" using kv_line_bytes by (fastforce simp: kv_lines_of_def ascii_def)
  then have "header_end (kv_response h b) = length ?hd"
    unfolding kv_response_lines using header_end_lines [of ?ls "ascii ''ok''"] by (simp add: kv_lines_of_def)
  then have t: "take (header_end (kv_response h b)) (kv_response h b) = ?hd" unfolding kv_response_lines by simp
  have "unat x < 128" if "l \<in> set ?ls" "x \<in> set l" for l x using kv_line_bytes [OF that] by (simp add: word_less_nat_alt)
  then have "\<forall>x\<in>set ?hd. unat x < 128" by auto
  then have "from_utf8_lossy ?hd = map unat ?hd" by (rule utf8_ascii)
  also have "\<dots> = concat (map (\<lambda>l. l @ [13, 10]) (map (map unat) (?ls @ [[]])))" by (simp add: map_concat comp_def)
  finally have f: "from_utf8_lossy ?hd = \<dots>" .
  have "unat x \<noteq> 10" if "l \<in> set ?ls" "x \<in> set l" for l x using kv_line_bytes [OF that] by (simp add: word_unat_eq_iff)
  then have n: "\<forall>l\<in>set (map (map unat) (?ls @ [[]])). 10 \<notin> set l" by fastforce
  show ?thesis unfolding t f by (rule lines_crlf [OF n])
qed

lemma handoff_skip:
  "handoff_line a (of_ascii ''HTTP/1.1 200 OK'') = a" "handoff_line a (of_ascii ''content-length: 2'') = a"
  "handoff_line a (of_ascii ''connection: close'') = a" "handoff_line a [] = a"
  by (cases a; simp add: handoff_line_def lower_def of_ascii_def KV_HANDLE_PREFIX_def KV_BYTES_PREFIX_def)+

lemma lower_digits: "lower (fmt_u64 w) = fmt_u64 w"
  by (auto simp: lower_def fmt_u64_def intro!: map_idI dest!: dec_nat_digits)

lemma trim_digits_u: "trim (32 # fmt_u64 w) = fmt_u64 w"
proof -
  have n: "\<not> is_whitespace c" if "c \<in> set (fmt_u64 w)" for c
    using that dec_nat_digits by (fastforce simp: fmt_u64_def is_whitespace_def)
  have "dropWhile is_whitespace xs = xs" if "set xs \<subseteq> set (fmt_u64 w)" for xs using that n by (cases xs) auto
  then show ?thesis by (simp add: trim_def is_whitespace_def [of 32])
qed

lemma handoff_kv:
  "handoff_line (x, y) (of_ascii ''x-demiurge-kv-handle: '' @ fmt_u64 (h :: u64)) = (KvHandle_from_raw h, y)"
  "handoff_line (x, y) (of_ascii ''x-demiurge-kv-bytes: '' @ fmt_u64 (b :: u64)) = (x, Some b)"
proof -
  have l: "lower (s @ t) = lower s @ lower t" for s t by (simp add: lower_def)
  have 1: "lower (of_ascii ''x-demiurge-kv-handle: '') = KV_HANDLE_PREFIX @ [32]" "lower (of_ascii ''x-demiurge-kv-bytes: '') = KV_BYTES_PREFIX @ [32]"
    by (simp_all add: lower_def of_ascii_def KV_HANDLE_PREFIX_def KV_BYTES_PREFIX_def)
  have p: "strip_prefix s (s @ t) = Some t" for s t :: utext by (simp add: strip_prefix_Some)
  have q: "strip_prefix KV_HANDLE_PREFIX (KV_BYTES_PREFIX @ t) = None" for t
    by (simp add: KV_HANDLE_PREFIX_def KV_BYTES_PREFIX_def of_ascii_def)
  show "handoff_line (x, y) (of_ascii ''x-demiurge-kv-handle: '' @ fmt_u64 h) = (KvHandle_from_raw h, y)"
    by (simp add: handoff_line_def l 1 lower_digits p trim_digits_u)
  show "handoff_line (x, y) (of_ascii ''x-demiurge-kv-bytes: '' @ fmt_u64 b) = (x, Some b)"
    by (simp add: handoff_line_def l 1 lower_digits p q trim_digits_u)
qed

lemma kv_lines_text:
  "map (map unat) (kv_lines_of h b @ [[]]) =
     [of_ascii ''HTTP/1.1 200 OK'', of_ascii ''x-demiurge-kv-handle: '' @ fmt_u64 h, of_ascii ''x-demiurge-kv-bytes: '' @ fmt_u64 b,
      of_ascii ''content-length: 2'', of_ascii ''connection: close'', []]"
proof -
  have "map unat (ascii ''HTTP/1.1 200 OK'') = of_ascii ''HTTP/1.1 200 OK''" "map unat (ascii ''content-length: 2'') = of_ascii ''content-length: 2''"
    "map unat (ascii ''connection: close'') = of_ascii ''connection: close''"
    "map unat (ascii ''x-demiurge-kv-handle: '') = of_ascii ''x-demiurge-kv-handle: ''" "map unat (ascii ''x-demiurge-kv-bytes: '') = of_ascii ''x-demiurge-kv-bytes: ''"
    by (rule ascii_u; simp)+
  then show ?thesis by (simp add: kv_lines_of_def digits_u)
qed

lemma kv_response_read:
  "parse_prefill_handoff (kv_response h b) rid src =
     (if h = 0 then None
      else Some \<lparr>hd_request_id = rid, kv_handle = KvHandle h, byte_len = b, hd_source_label = src, decode_label = None\<rparr>)"
proof -
  have "foldl handoff_line (None, None) (lines (from_utf8_lossy (take (header_end (kv_response h b)) (kv_response h b)))) = (KvHandle_from_raw h, Some b)"
    unfolding kv_header_text kv_lines_text by (simp only: foldl_Cons foldl_Nil handoff_skip handoff_kv)
  then show ?thesis by (simp add: parse_prefill_handoff_def KvHandle_from_raw_def)
qed

lemma saturating_mul_ge: "x \<le> saturating_mul x 4" for x :: u64
  by (simp add: word_le_nat_alt u64_simps)

text \<open>C30: a mock prefill backend and the router agree on the hand-off: the router reads from the mock's response the handle and
  the byte count that the mock printed, and with the byte count a scenario computes for its own prompt length, it never
  treats the hand-off as missing; only the KV ledger can still refuse it.  The handle counter is not zero and the
  reservation is not empty.\<close>

theorem mock_handoff_accepted:
  assumes "mock_conn delay_us jitter_us (e2e_kv_bytes sc) st = ((slept, response), st')" "HANDLE st \<noteq> 0"
    "prefill_kv_headers sc" "0 < kv_reserved (kv_breakdown (sc_long_prompt_tokens sc) (sc_bytes_per_token sc))"
    "r_ledger r = Some L" "r_handoffs r = Some reg" "bytes_per_token r = sc_bytes_per_token sc" "sig_prompt_tokens sig = sc_long_prompt_tokens sc"
  shows "parse_prefill_handoff response rid src =
       Some \<lparr>hd_request_id = rid, kv_handle = KvHandle (HANDLE st),
             byte_len = kv_reserved (kv_breakdown (sc_long_prompt_tokens sc) (sc_bytes_per_token sc)), hd_source_label = src, decode_label = None\<rparr>
     \<and> fst (admit_handoff E sig response src r) \<noteq> Inl HandoffMissing"
proof -
  let ?b = "kv_reserved (kv_breakdown (sc_long_prompt_tokens sc) (sc_bytes_per_token sc))"
  have r: "response = kv_response (HANDLE st) ?b" using assms(1,3) by (simp add: mock_conn_def e2e_kv_bytes_def Let_def)
  have p: "parse_prefill_handoff response i src =
      Some \<lparr>hd_request_id = i, kv_handle = KvHandle (HANDLE st), byte_len = ?b, hd_source_label = src, decode_label = None\<rparr>" for i
    unfolding r kv_response_read using assms(2) by simp
  moreover have "\<not> saturating_mul ?b KV_HANDOFF_BYTE_CEILING_MULTIPLE < ?b"
    using saturating_mul_ge [of ?b] by (simp add: KV_HANDOFF_BYTE_CEILING_MULTIPLE_def)
  ultimately show ?thesis
    using assms by (auto simp: admit_handoff_def is_valid_def Let_def split: prod.splits sum.splits)
qed

definition kv_scenario :: Scenario where
  "kv_scenario = plain_scenario\<lparr>prefill_kv_headers := True, sc_long_prompt_tokens := 1024, sc_bytes_per_token := 128\<rparr>"

theorem mock_handoff_accepted_witness:
  "fst (admit_handoff sample_env \<lparr>sig_request_id = 7, sig_prompt_tokens = 1024, prefill_wall = 5\<rparr>
      (snd (fst (mock_conn 10 0 (e2e_kv_bytes kv_scenario) MockStatics_init))) ''pf0'' sample_router) \<noteq> Inl HandoffMissing"
proof -
  obtain t resp st' where m: "mock_conn 10 0 (e2e_kv_bytes kv_scenario) MockStatics_init = ((t, resp), st')" by (metis surj_pair)
  have "unat (kv_reserved (kv_breakdown 1024 128)) \<noteq> 0" using kv_breakdown_no_wrap [of 1024 128] by simp
  then have "0 < kv_reserved (kv_breakdown 1024 128)" by (simp add: word_less_nat_alt)
  moreover have "r_ledger sample_router = Some (ReservationLedger_new 1000000)" "r_handoffs sample_router = Some HandoffRegistry_new"
    "bytes_per_token sample_router = 128" by (simp_all add: sample_router_def with_kv_pool_def)
  ultimately show ?thesis
    using mock_handoff_accepted [OF m, of sample_router "ReservationLedger_new 1000000" HandoffRegistry_new "\<lparr>sig_request_id = 7, sig_prompt_tokens = 1024, prefill_wall = 5\<rparr>" 7 "''pf0''" sample_env] m
    by (simp add: MockStatics_init_def kv_scenario_def)
qed

section \<open>The stack of a scenario\<close>

lemma stack_router:
  "\<not> track_b_kernel sc \<Longrightarrow> listen ''127.0.0.1'' = Inr a \<Longrightarrow>
   spawn_router_stack E V opath linux is_root ip listen sc pfs dcs n w
     = (Inr \<lparr>rs_addr = a, rs_router = scenario_router E V sc pfs dcs, rs_ledger = sc_use_kv_pool sc, rs_veth = None\<rparr>, n, w)"
  by (simp add: spawn_router_stack_def scenario_router_def bind_router_listener_def Let_def)

text \<open>A tool that logs its commands and fails on one of them.\<close>

definition logging_ip :: "string list option \<Rightarrow> string list list ip_tool" where
  "logging_ip bad args w = (Inr (Some args \<noteq> bad, ''exit status: 2''), w @ [args])"

text \<open>A pair that was created is deleted when it is dropped, but a creation that fails after its first command leaves the
  link behind: there is nothing to drop yet.\<close>

lemma veth_create_drop:
  "\<exists>v. TrackBVeth_create (logging_ip None) True 0 [] = (Inr v, 1, veth_commands ''demi-lb0'' ''demi-lbp0'')
     \<and> veth_drop (logging_ip None) v (veth_commands ''demi-lb0'' ''demi-lbp0'') = veth_commands ''demi-lb0'' ''demi-lbp0'' @ [[''link'', ''del'', ''demi-lb0'']]"
proof -
  have "str_of (fmt_u64 (0 :: u64)) = ''0''" by code_simp
  then show ?thesis by (simp add: TrackBVeth_create_def veth_commands_def run_ip_def logging_ip_def veth_drop_def Let_def)
qed

lemma veth_leaks:
  "TrackBVeth_create (logging_ip (Some [''addr'', ''add'', ''192.0.2.1/30'', ''dev'', ''demi-lb0''])) True 0 []
     = (Inl ''ip exited with exit status: 2'', 1, take 2 (veth_commands ''demi-lb0'' ''demi-lbp0''))"
proof -
  have "str_of (fmt_u64 (0 :: u64)) = ''0''" by code_simp
  then show ?thesis by (simp add: TrackBVeth_create_def veth_commands_def run_ip_def logging_ip_def Let_def)
qed

end
