(* ===== verification/Pilot.thy ===== *)
theory Pilot
  imports FleetSim LoadBench
begin

text \<open>
  The fleet pilot command (\<open>xtask/src/fleet_pilot.rs\<close>): configuration, trace loading, the replay gate, the corrector gate on
  four synthetic samples, and the output file.  The TOML and JSON decoders and the file system are parameters; logarithm and
  exponential are those of the platform.
\<close>

record FleetPilotConfig =
  trace_path :: string
  min_heldout_correlation :: f64
  min_corrector_goodput :: f64

record PilotOutput =
  po_trace :: string
  po_report :: FleetPilotReport
  po_delta :: f64
  po_goodput :: f64

fun pilot_lines :: "(utext \<Rightarrow> string + TraceRow) \<Rightarrow> utext list \<Rightarrow> TraceWindow list \<Rightarrow> string + TraceWindow list" where
  "pilot_lines from_str [] windows = Inr windows"
| "pilot_lines from_str (l # ls) windows =
     (let line = trim l
      in if line = [] \<or> starts_with [35] line then pilot_lines from_str ls windows
         else and_then (from_str line) (\<lambda>row. pilot_lines from_str ls (windows @ [TraceWindow_from row])))"

definition resolve_path :: "string \<Rightarrow> string \<Rightarrow> string" where
  "resolve_path root_dir p = (if starts_with ''/'' p then p else path_join root_dir p)"

definition load_trace :: "(utext \<Rightarrow> string + TraceRow) \<Rightarrow> (string \<Rightarrow> string + utext) \<Rightarrow> string \<Rightarrow> string \<Rightarrow> string + TraceWindow list" where
  "load_trace from_str read root_dir p =
     (let p = resolve_path root_dir p
      in and_then (map_err (\<lambda>e. ''read '' @ p @ '': '' @ e) (read p)) (\<lambda>raw. pilot_lines from_str (lines raw) []))"

definition shadow_sample :: "u64 \<Rightarrow> f64 \<Rightarrow> u64 \<Rightarrow> f64 \<Rightarrow> string \<Rightarrow> CorrectorShadowSample" where
  "shadow_sample tokens ln_cost us p l =
     \<lparr>s_prompt_tokens = tokens, analytic_ln = ln_cost, observed_us = us, pool_pi = p, s_backend_label = l\<rparr>"

definition synthetic_corrector_samples :: "CorrectorShadowSample list" where
  "synthetic_corrector_samples =
     [shadow_sample 256 (- lit (12 / 10)) 280000 (lit (5 / 10)) ''dc0'', shadow_sample 512 (- lit (9 / 10)) 520000 (lit (5 / 10)) ''dc1'',
      shadow_sample 768 (- lit (6 / 10)) 890000 (lit (55 / 100)) ''dc0'', shadow_sample 1024 (- lit (4 / 10)) 1200000 (lit (55 / 100)) ''dc1'']"

text \<open>The verdict that is printed for the corrector, and the run.\<close>

definition corrector_shown_pass :: "f64 \<Rightarrow> FleetPilotConfig \<Rightarrow> bool" where
  "corrector_shown_pass goodput cfg \<longleftrightarrow> fle (min_corrector_goodput cfg) goodput"

definition fleet_pilot :: "(f64 \<Rightarrow> f64) \<Rightarrow> (f64 \<Rightarrow> f64) \<Rightarrow> nat \<Rightarrow> (utext \<Rightarrow> string + TraceRow) \<Rightarrow> (string \<Rightarrow> string + utext) \<Rightarrow> string
    \<Rightarrow> string + FleetPilotConfig \<Rightarrow> (string \<Rightarrow> PilotOutput \<Rightarrow> 'w \<Rightarrow> (string + unit) \<times> 'w) \<Rightarrow> 'w \<Rightarrow> (string + unit) \<times> 'w" where
  "fleet_pilot lg ex now from_str read root_dir config write w =
     (case config of
        Inl e \<Rightarrow> (Inl e, w)
      | Inr cfg \<Rightarrow>
          (case load_trace from_str read root_dir (trace_path cfg) of
             Inl e \<Rightarrow> (Inl e, w)
           | Inr windows \<Rightarrow>
               if windows = [] then (Inl (''empty trace: '' @ trace_path cfg), w)
               else let report = replay_fleet_pilot now windows (min_heldout_correlation cfg)
                    in if \<not> gate_pass report then (Inl ''fleet-pilot held-out pi* correlation gate failed'', w)
                       else let delta = train_bounded_delta ex synthetic_corrector_samples;
                                goodput = eval_goodput_improvement lg synthetic_corrector_samples delta
                            in if flt goodput (min_corrector_goodput cfg) then (Inl ''corrector shadow goodput gate failed'', w)
                               else write (path_join (path_join root_dir ''target/fleet-pilot'') ''latest.json'')
                                      \<lparr>po_trace = trace_path cfg, po_report = report, po_delta = delta, po_goodput = goodput\<rparr> w))"

section \<open>Both trace loaders agree\<close>

text \<open>The command has a trace loader of its own; it accepts the same traces with the same windows as the loader of the fleet
  simulation, and differs in the words of its errors and in leaving the empty trace to its caller.\<close>

lemma pilot_lines_eq: "pilot_lines from_str ls ws = Inr r \<longleftrightarrow> trace_lines from_str ls ws = Inr r"
proof (induction from_str ls ws rule: pilot_lines.induct)
  case (2 from_str l ls ws)
  then show ?case by (cases "from_str (trim l)") (auto simp: Let_def)
qed simp

lemma load_trace_agrees:
  assumes "windows \<noteq> []"
  shows "load_trace from_str read root_dir p = Inr windows
    \<longleftrightarrow> load_fleet_trace from_str (resolve_path root_dir p) (read (resolve_path root_dir p)) = Inr windows"
proof (cases "read (resolve_path root_dir p)")
  case (Inr raw)
  have "pilot_lines from_str (lines raw) [] = Inr windows \<longleftrightarrow> trace_lines from_str (lines raw) [] = Inr windows"
    by (rule pilot_lines_eq)
  then show ?thesis using assms Inr
    by (cases "trace_lines from_str (lines raw) []") (auto simp: load_trace_def load_fleet_trace_def Let_def)
qed (auto simp: load_trace_def load_fleet_trace_def Let_def)

section \<open>What a successful pilot means\<close>

lemma fleet_pilot_sound:
  assumes "fleet_pilot lg ex now from_str read root_dir (Inr cfg) write w = (Inr (), w')"
  obtains windows where
    "load_trace from_str read root_dir (trace_path cfg) = Inr windows" "\<exists>v\<in>set windows. held_out v"
    "fle (min_heldout_correlation cfg) (heldout_correlation (replay_fleet_pilot now windows (min_heldout_correlation cfg)))"
    "write (path_join (path_join root_dir ''target/fleet-pilot'') ''latest.json'')
       \<lparr>po_trace = trace_path cfg, po_report = replay_fleet_pilot now windows (min_heldout_correlation cfg),
        po_delta = train_bounded_delta ex synthetic_corrector_samples,
        po_goodput = eval_goodput_improvement lg synthetic_corrector_samples (train_bounded_delta ex synthetic_corrector_samples)\<rparr> w = (Inr (), w')"
proof -
  from assms obtain windows where l: "load_trace from_str read root_dir (trace_path cfg) = Inr windows"
    and g: "gate_pass (replay_fleet_pilot now windows (min_heldout_correlation cfg))"
    and wr: "write (path_join (path_join root_dir ''target/fleet-pilot'') ''latest.json'')
       \<lparr>po_trace = trace_path cfg, po_report = replay_fleet_pilot now windows (min_heldout_correlation cfg),
        po_delta = train_bounded_delta ex synthetic_corrector_samples,
        po_goodput = eval_goodput_improvement lg synthetic_corrector_samples (train_bounded_delta ex synthetic_corrector_samples)\<rparr> w = (Inr (), w')"
    by (auto simp: fleet_pilot_def Let_def split: sum.splits if_splits)
  have "fle (min_heldout_correlation cfg) (heldout_correlation (replay_fleet_pilot now windows (min_heldout_correlation cfg)))"
    and "filter held_out windows \<noteq> []" using g by (auto simp: replay_fleet_pilot_def Let_def)
  then show thesis using that [OF l _ _ wr] by (auto simp: filter_empty_conv)
qed

text \<open>A threshold that is not a number passes the gate although the printed verdict is a failure.\<close>

lemma pilot_nan_threshold:
  "min_corrector_goodput cfg = NaN \<Longrightarrow> \<not> corrector_shown_pass goodput cfg \<and> \<not> flt goodput (min_corrector_goodput cfg)"
  by (simp add: corrector_shown_pass_def fle_def flt_def)

end
