(* ===== verification/Spec2Isabelle.thy ===== *)
theory Spec2Isabelle
  imports Boot LoadRun Stamp BenchGate AbBench Banner PumpPool Dispatch FlameSvg MockFleet Pilot
begin

text \<open>
  \<^bold>\<open>Demiurge.\<close>  A verification library for \<^emph>\<open>demiurge\<close>, a router for language-model inference with
  disaggregated prefill and decode pools (\<open>src/crates/\<close>).  A connection is admitted by a token bucket (in
  user space or by an XDP program), its HTTP head is read and classified, a backend is chosen by least
  modelled cost, long prompts are prefilled on one backend and decoded on another after a KV hand-off
  that has to fit a reservation ledger, and a control tick on the side rebalances the pools and publishes
  the ratio the cost functions read.

  \<^bold>\<open>Theories and sources.\<close>
  \<^item> \<open>Prelude\<close>, \<open>F64\<close>, \<open>Text\<close>: machine integers, result combinators, \<open>min_by\<close>, association lists, the
    locale \<open>bounded_log\<close>; IEEE binary64 with one rounding function, Rust's comparison, clamp and cast
    semantics, and the locale \<open>libm_ln\<close> of what is assumed of the natural logarithm; bytes, lossy UTF-8
    and \<open>str\<close> operations.
  \<^item> \<open>Params\<close>, \<open>Cost\<close>, \<open>Kv\<close> (\<open>demiurge-cost\<close>): canonical parameters, factors and their composition in log
    space, KV sizing, percentile, pressure barrier, RDMA transfer cost.
  \<^item> \<open>Auth\<close> (\<open>demiurge-auth\<close>): secret and key statics, keyed hashing, salts, shared-prefix registry.
  \<^item> \<open>StatePlane\<close> (\<open>demiurge-state\<close>): warmth maps, snapshots, gossip, merge.
  \<^item> \<open>Ledger\<close>, \<open>Migration\<close>, \<open>Control\<close>, \<open>Rebalance\<close>, \<open>FleetSim\<close>, \<open>Pairing\<close> (\<open>demiurge-control\<close>): reservations
    and guards, cut-over and quiesce, predictor, corrector training and graduation, rebalancer and trace
    replay, load planning, pairing and its regret.
  \<^item> \<open>Handoff\<close> (\<open>demiurge-handoff\<close>): descriptors, registry, transports.
  \<^item> \<open>Dataplane\<close>, \<open>IoUring\<close>, \<open>Xdp\<close> (\<open>demiurge-dataplane\<close>): admission bucket, admission mode, published
    routing table; the ring's accept, head reader and copy; the XDP loader and its netlink messages.
  \<^item> \<open>Http\<close>, \<open>Backend\<close>, \<open>Config\<close>, \<open>Router\<close>, \<open>Routing\<close>, \<open>Serve\<close>, \<open>Boot\<close> (\<open>demiurge-router\<close>): head parsing, the cost
    surface and selection, configuration strings, router state and control tick, classification and the
    continuation after prefill, the connection handler with dispatch and accept loops, start-up.
    \<open>PumpPool\<close>: the shared threads that move the answer of each proxied connection (\<open>serve.rs\<close>).
  \<^item> \<open>Fmt\<close>, \<open>Banner\<close>: decimal and fixed-point formatting of the standard library; the startup banner
    (\<open>demiurge-router/src/banner.rs\<close>).
  \<^item> \<open>LoadGates\<close>, \<open>LoadBench\<close>, \<open>LoadClient\<close>, \<open>LoadRun\<close>, \<open>Stamp\<close> (\<open>xtask/src/load_bench.rs\<close>): scenarios, results and the gates of
    the report; the gate counter and the suites; the client and its in-flight gate; pools, router and
    the three runners; calendar dates.  \<open>MockFleet\<close>: the mock backends, the veth pair of \<open>track_b_load.rs\<close> and the
    router stack of a scenario.  \<open>AbBench\<close> (\<open>ab_bench.rs\<close>): the comparison of routing policies.
  \<^item> \<open>BenchGate\<close>, \<open>BenchWork\<close> (\<open>bench_gate.rs\<close>), \<open>Flame\<close>, \<open>FlameSvg\<close> (\<open>bench_flame.rs\<close>): the CPU gates, the workloads they
    time and the probe; the call forest of the gates, its history, its layout and its drawing.
  \<^item> \<open>PseudoReport\<close> (\<open>pseudo_ui.rs\<close>, \<open>pseudo_report.rs\<close>), \<open>Harden\<close> (\<open>harden_report.rs\<close>, \<open>harden_verify.rs\<close>), \<open>Pilot\<close>
    (\<open>fleet_pilot.rs\<close>): the boxed load report, the hardening check that collects it, the fleet pilot command.
  \<^item> \<open>Lint\<close>, \<open>Gen\<close>, \<open>Dispatch\<close> (\<open>xtask/src/main.rs\<close>, \<open>apostrophe_sim.rs\<close>): the conformance lint, the generation of derived
    files, the command line and the child processes of an isolated suite.
  \<^item> This theory: what a whole connection, and a whole run from start-up, leave behind.

  A struct is a \<open>record\<close>, an enum a \<open>datatype\<close>, a method one definition named after it (prefixed with its
  type or abbreviated where the name is taken), a trait object a record of functions.

  \<^bold>\<open>Modelling decisions.\<close>  \<open>u64\<close> is \<open>64 word\<close> with the wrap-around of a release build; saturating and
  checked operations are defined on it.  \<open>usize\<close> counters are naturals with the wrap written out where it
  can matter.  \<open>HashMap\<close> is an association list with distinct keys.  \<open>Instant\<close> and \<open>Duration\<close> are nanoseconds
  passed in.  A panic is \<open>None\<close>; an error is \<open>Inl\<close>.  The clamp counter is threaded through \<open>Cost\<close> and \<open>Kv\<close>;
  later theories use the values only (\<open>plain_cost\<close> and its siblings).  An \<open>Arc\<close> is the value it points to;
  where threads race, the atomic accesses are the steps of a relation over one program point per thread
  (\<open>conn_step\<close>, \<open>bucket_step\<close> for the bucket, \<open>slot_step\<close> for connection slots, \<open>pump_step\<close> for the pump pool), including spurious
  failures of the weak exchange, and the accept loop with its workers is a fold over events.  Everything
  outside \<open>src/\<close> is a parameter: \<open>blake3\<close> and the default hasher (\<open>hashing\<close>), \<open>ln\<close> and \<open>exp\<close>, \<open>aya\<close>, \<open>libc\<close> and
  the kernel (\<open>xdp_host\<close>), the \<open>io_uring\<close> crate (\<open>uring\<close>), JSON and TOML decoding, regular
  expressions, address and float parsing, sockets, files, child processes, clocks and environment variables.  Where a property needs something of them it is a named
  hypothesis (\<open>libm_ln\<close>, \<open>ring_contract\<close>, \<open>full_writes\<close>) with a concrete instance (\<open>cr_ln\<close>, \<open>pipe_ring\<close>).

  \<^bold>\<open>Interfaces.\<close>  \<open>bounded_log\<close> is interpreted on the ledger's recent sizes, the shadow rings, the length
  predictor and the transfer log; \<open>libm_ln\<close> on the correctly rounded logarithm; \<open>pairing_costs\<close> on scored
  backends and on the router's backends; \<open>escape_code\<close> on the escapes of the LaTeX tables and of the drawing.

  \<^bold>\<open>What is shown.\<close>
  \<^item> Resources: the ledger never overcommits a fleet or a source in any reachable state, reservation and
    its failures, reclamation and migration count exactly (\<open>Ledger\<close>); the bucket never oversubscribes and
    its calls finish (\<open>Dataplane\<close>); slots are bounded under races and exact under worker deaths (\<open>Serve\<close>);
    every answer is pumped exactly once and acknowledged on every schedule (\<open>PumpPool\<close>); the continuation after prefill keeps KV accounting exact (\<open>Routing\<close>); a connection returns everything
    it took, and a run of connections from a started configuration ends idle (here).
  \<^item> Isolation: warmth seen by a tenant depends only on blocks salted with its own domain, in the state
    plane and through the whole routing decision; the registry refines a latest-registration lookup;
    identity parsing fails closed.
  \<^item> Cost: composition is finite and monotone, the corrector's authority is bounded, the fast selection
    path equals the full cost, decode placement is a minimum, regret is not negative.
  \<^item> Control: quiesce converges or aborts, graduation moves one stage at a time, the ratio stays
    normalised, the heartbeat refreshes the table and drops a dead link.
  \<^item> Parsing and encoding: netlink attributes and topology maps round trip, numbers never wrap, heads are
    bounded prefixes of the stream, the ring copy is exact on full writes.
  \<^item> Tooling: what the client writes the router reads back; the in-flight gate loses no wake-up; a result
    does not depend on the interleaving of the workers; the two evaluations of a scenario's gates agree, also as
    the report counts them; the router accepts the hand-off a mock backend announces; a suite that exits with
    status 0 ran each scenario in a child of its own and missed no strict gate; a hardening check that succeeds
    had no failing suite, case or scenario, and its lines are read back as printed; every line of banner and
    report has the same visible width.
  \<^item> Repository checks: the lint passes exactly on traced requirements, with brace matching equal to a
    grammar of balanced arguments; generation is idempotent and writes exactly on drift; the timed workloads
    take the paths they are named after; the flame view rejects exactly the gates without a root, its
    recursive passes end, and no name can change the elements of its drawing.
  \<^item> Defects: lemmas that exhibit behaviour the code does not intend (a lost snapshot update, a reseed
    with tokens outstanding, a short write counted in full, an accept loop ended by one dead worker, and
    others) stand beside the definitions they concern.

  \<^bold>\<open>Termination.\<close>  Loops are structural or measured.  The quiesce loop counts its passes up to the
  limit it is given, as the source does; the ring loops decrease the bytes still allowed because every continuing
  round has read at least one byte.  CAS loops may spin under interference: what is proved is that a
  call without interference completes.  The layout passes of the flame view recurse over indices that only a
  parent check keeps acyclic: they carry the depth still allowed, \<open>None\<close> when it is exhausted, and the
  check is shown to exclude that.

  \<^bold>\<open>Not modelled.\<close>  The bytes moved by \<open>io::copy\<close>; \<open>Display\<close> texts and lines that are only printed and that no
  other part reads; \<open>Debug\<close> implementations and the stubs for platforms other than Linux; test utilities; the BPF
  program (C).  Memory orderings weaker than sequential
  consistency are not distinguished: every atomic access is one step on one shared state.
\<close>

section \<open>One connection, end to end\<close>

text \<open>What a control tick may do to the admission bucket: nothing, or a reseed within the burst.\<close>

definition admit_moved :: "AdmitBucket \<Rightarrow> AdmitBucket \<Rightarrow> bool" where
  "admit_moved b b' \<longleftrightarrow> b' = b \<or> (\<exists>c. 1 \<le> c \<and> c \<le> DATAPLANE_ADMIT_BURST \<and> b' = reseed c b)"

lemma admit_moved_refl [simp]: "admit_moved b b"
  by (simp add: admit_moved_def)

lemma reseed_reseed [simp]: "reseed c (reseed d b) = reseed c b"
  by (simp add: reseed_def Let_def)

lemma admit_moved_trans: "admit_moved a b \<Longrightarrow> admit_moved b c \<Longrightarrow> admit_moved a c"
  by (auto simp: admit_moved_def)

lemma admit_moved_sync: "admit_moved (r_admit r) (r_admit (maybe_sync_admit_for_pi E p r))"
proof -
  let ?c = "admit_capacity_for_pi DATAPLANE_ADMIT_BURST p"
  have c: "1 \<le> ?c" "?c \<le> DATAPLANE_ADMIT_BURST"
    using admit_capacity_for_pi_bounds(1,2) [of DATAPLANE_ADMIT_BURST p] by (simp_all add: DATAPLANE_ADMIT_BURST_def)
  have "r_admit (maybe_sync_admit_for_pi E p r) = r_admit r \<or> r_admit (maybe_sync_admit_for_pi E p r) = reseed (max ?c 1) (r_admit r)"
    by (auto simp: maybe_sync_admit_for_pi_def sync_admit_capacity_def Let_def split: option.splits sum.splits)
  moreover have "max ?c 1 = ?c" using c(1) by (simp add: max_def)
  ultimately show ?thesis using c unfolding admit_moved_def by metis
qed

text \<open>The control tick is at most: record the length, rebalance, beat, sample regret.\<close>

lemma tick_shape:
  assumes "deferred_control_tick E t s r = Some r'"
  obtains r1 where "r_admit r1 = r_admit r"
    "r' = r \<or> r' = r1 \<or> r' = tick_heartbeat E (tick_rebalancer E r1) \<or> tick_regret E t (tick_heartbeat E (tick_rebalancer E r1)) = Some r'"
proof -
  define r1 where "r1 = (case t of Some n \<Rightarrow>
      r\<lparr>r_control := (r_control r)\<lparr>predictor := LengthPredictor_record n (predictor (r_control r))\<rparr>\<rparr> | None \<Rightarrow> r)"
  have "r_admit r1 = r_admit r" by (simp add: r1_def split: option.splits)
  moreover have "r' = r \<or> r' = r1 \<or> r' = tick_heartbeat E (tick_rebalancer E r1) \<or> tick_regret E t (tick_heartbeat E (tick_rebalancer E r1)) = Some r'"
    using assms unfolding deferred_control_tick_def r1_def [symmetric] by (auto simp: Let_def split: if_splits)
  ultimately show ?thesis by (rule that)
qed

lemma tick_regret_rest: "tick_regret E t q = Some q' \<Longrightarrow> r_admit q' = r_admit q"
  by (auto simp: tick_regret_def Let_def bind_eq_Some_conv split: option.splits if_splits)

lemma admit_moved_tick:
  assumes "deferred_control_tick E t s r = Some r'"
  shows "admit_moved (r_admit r) (r_admit r')"
proof -
  have reb: "admit_moved (r_admit q) (r_admit (tick_rebalancer E q))" for q
    by (auto simp: tick_rebalancer_def Let_def publish_next_def split: option.splits prod.splits
      intro: admit_moved_trans [OF _ admit_moved_sync])
  have hb: "admit_moved (r_admit q) (r_admit (tick_heartbeat E q))" for q
    by (auto simp: tick_heartbeat_def Let_def publish_next_def check_kernel_admit_link_def split: option.splits
      intro: admit_moved_trans [OF _ admit_moved_sync])
  from assms obtain r1 where "r_admit r1 = r_admit r"
    "r' = r \<or> r' = r1 \<or> r' = tick_heartbeat E (tick_rebalancer E r1) \<or> tick_regret E t (tick_heartbeat E (tick_rebalancer E r1)) = Some r'"
    by (rule tick_shape)
  then show ?thesis using admit_moved_trans [OF reb [of r1] hb] by (auto dest: tick_regret_rest)
qed

text \<open>What routing and the continuation leave of the ledger and of the bucket.\<close>

lemma route_impl_frame:
  "route_impl E head isol nid r = (res, nid', r') \<Longrightarrow> r_ledger r' = r_ledger r \<and> r_admit r' = r_admit r"
  by (auto simp: route_impl_def Let_def RequestId_new_def bump_route_counters_def note_fastpath_misroute_def split: option.splits if_splits)

lemma route_frame:
  assumes "route_with_identity E head i nid r = Some (res, nid', r')"
  shows "r_ledger r' = r_ledger r \<and> admit_moved (r_admit r) (r_admit r')"
proof -
  obtain isol where 1: "route_then_tick E head isol nid r = Some (res, nid', r')"
    using assms by (auto simp: route_with_identity_def Let_def)
  obtain res1 nid1 r1 where 2: "route_impl E head isol nid r = (res1, nid1, r1)" by (metis prod.exhaust)
  have "r' = r1 \<or> (\<exists>t. deferred_control_tick E t False r1 = Some r')"
    using 1 2 by (auto simp: route_then_tick_def schedule_control_tick_def bind_eq_Some_conv split: sum.splits RoutePath.splits)
  then show ?thesis using route_impl_frame [OF 2] deferred_frame admit_moved_tick by (metis admit_moved_refl)
qed

lemma admit_handoff_admit: "admit_handoff E sig response pl r = (res, r') \<Longrightarrow> r_admit r' = r_admit r"
  by (auto simp: admit_handoff_def Let_def split: option.splits if_splits prod.splits sum.splits)

lemma complete_handoff_admit: "complete_handoff E sig h pl b r = Some r' \<Longrightarrow> r_admit r' = r_admit r"
  by (auto simp: complete_handoff_def record_rdma_cost_shadow_def Let_def bind_eq_Some_conv split: option.splits if_splits)

lemma continuation_admit:
  assumes "on_prefill_complete E sig response pl r = Some (res, r')"
  shows "admit_moved (r_admit r) (r_admit r')"
proof -
  obtain a r1 where a: "admit_handoff E sig response pl r = (a, r1)" by fastforce
  have r1: "r_admit r1 = r_admit r" using a by (rule admit_handoff_admit)
  show ?thesis
  proof (cases a)
    case (Inl e)
    then show ?thesis using assms a r1 by (auto simp: on_prefill_complete_def)
  next
    case (Inr hg)
    obtain h g where hg: "hg = (h, g)" by (cases hg)
    let ?r = "note_prefill_wall pl (prefill_wall sig) r1"
    have n: "r_admit ?r = r_admit r" using r1 by (simp add: note_prefill_wall_def)
    show ?thesis
    proof (cases "place_decode E sig h pl ?r")
      case None
      then show ?thesis using assms a Inr hg n by (auto simp: on_prefill_complete_def Let_def split: option.splits)
    next
      case (Some b)
      then obtain r2 r3 s where st: "complete_handoff E sig h pl b ?r = Some r2" "record_corrector_shadow s r2 = Some r3"
          "deferred_control_tick E (Some (sig_prompt_tokens sig)) True r3 = Some r'"
        using assms a Inr hg by (auto simp: on_prefill_complete_def Let_def bind_eq_Some_conv)
      have "r_admit r3 = r_admit r"
        using complete_handoff_admit [OF st(1)] st(2) n by (auto simp: record_corrector_shadow_def bind_eq_Some_conv)
      then show ?thesis using admit_moved_tick [OF st(3)] by simp
    qed
  qed
qed

text \<open>The ledger holds the same reservations and bytes.\<close>

definition ledger_settled :: "ReservationLedger option \<Rightarrow> ReservationLedger option \<Rightarrow> bool" where
  "ledger_settled l l' \<longleftrightarrow> rel_option (\<lambda>L L'. reservations L' = reservations L \<and> reserved_bytes L' = reserved_bytes L) l l'"

lemma ledger_settled_refl [simp]: "ledger_settled l l"
  by (cases l) (simp_all add: ledger_settled_def)

lemma continuation_ledger:
  assumes "on_prefill_complete E sig response pl r = Some (res, r')"
  shows "(case res of Inl _ \<Rightarrow> ledger_settled (r_ledger r) (r_ledger r')
          | Inr p \<Rightarrow> ledger_settled (r_ledger r) (r_ledger (drop_reservation p r')))"
proof (cases "r_ledger r = None \<or> r_handoffs r = None")
  case True
  then have "admit_handoff E sig response pl r = (Inr (None, None), r)" by (auto simp: admit_handoff_def split: option.splits)
  note ah = this
  let ?r = "note_prefill_wall pl (prefill_wall sig) r"
  have "r_ledger r' = r_ledger r \<and> (case res of Inl _ \<Rightarrow> True | Inr p \<Rightarrow> dp_reservation p = None)"
  proof (cases "place_decode E sig None pl ?r")
    case None
    then show ?thesis using assms ah by (auto simp: on_prefill_complete_def Let_def)
  next
    case (Some b)
    then obtain r2 r3 s where st: "complete_handoff E sig None pl b ?r = Some r2" "record_corrector_shadow s r2 = Some r3"
        "deferred_control_tick E (Some (sig_prompt_tokens sig)) True r3 = Some r'"
      and res: "res = Inr \<lparr>dp_backend = b, dp_reservation = None\<rparr>"
      using assms ah by (auto simp: on_prefill_complete_def Let_def bind_eq_Some_conv)
    then show ?thesis
      using complete_handoff_frame [OF st(1)] record_shadow_frame(1) [OF st(2)] deferred_frame [OF st(3)] by simp
  qed
  then show ?thesis by (auto simp: drop_reservation_def split: sum.splits)
next
  case False
  then obtain L reg where l: "r_ledger r = Some L" "r_handoffs r = Some reg" by auto
  from l assms show ?thesis
  proof (cases rule: on_prefill_complete_cases)
    case (failed e L')
    then show ?thesis using l by (simp add: ledger_settled_def)
  next
    case (placed b g h L')
    then show ?thesis using l reserve_then_drop [OF placed(3)] by (simp add: ledger_settled_def drop_reservation_def)
  qed
qed

text \<open>The bucket has its token back, or was reseeded on the way and is full.\<close>

definition bucket_settled :: "AdmitBucket \<Rightarrow> AdmitBucket \<Rightarrow> bool" where
  "bucket_settled b b' \<longleftrightarrow> (tokens b' = tokens b \<and> ab_capacity b' = ab_capacity b) \<or> tokens b' = ab_capacity b'"

lemma bucket_after_guard:
  assumes "tokens b \<noteq> 0" "tokens b \<le> ab_capacity b" "admit_moved (b\<lparr>tokens := tokens b - 1\<rparr>) b'"
  shows "bucket_settled b (release 1 b')"
  using assms(3) unfolding admit_moved_def
proof
  assume "b' = b\<lparr>tokens := tokens b - 1\<rparr>"
  then show ?thesis using assms(2) by (simp add: bucket_settled_def release_def min_def)
next
  assume "\<exists>c. 1 \<le> c \<and> c \<le> DATAPLANE_ADMIT_BURST \<and> b' = reseed c (b\<lparr>tokens := tokens b - 1\<rparr>)"
  then obtain c where c: "1 \<le> c" "c \<le> DATAPLANE_ADMIT_BURST" "b' = reseed c (b\<lparr>tokens := tokens b - 1\<rparr>)" by blast
  have m: "max c 1 = c" using c(1) by (simp add: max_def)
  have "unat c \<le> 2 ^ 20" using c(2) by (rule order.trans [OF iffD1 [OF word_le_nat_alt]]) (simp add: DATAPLANE_ADMIT_BURST_def)
  then have "c \<le> c + 1" by (simp add: word_le_nat_alt unat_add_no_wrap)
  then show ?thesis using c(3) m by (simp add: bucket_settled_def release_def reseed_def Let_def min_def)
qed

lemma guard_drop_ledger [simp]: "r_ledger (admit_guard_drop guard r) = r_ledger r"
  by (simp add: admit_guard_drop_def)

lemma bucket_unguarded: "admit_moved b b' \<Longrightarrow> bucket_settled b b'"
  by (auto simp: admit_moved_def bucket_settled_def reseed_def Let_def)

lemma proxy_balanced: "inflight b < 2 ^ 64 \<Longrightarrow> snd (proxy_to_backend ring io b) = b"
  by (cases "inflight b + 1 = 2 ^ 64") (simp_all add: proxy_to_backend_def incr_inflight_def decr_inflight_def Let_def)

text \<open>A backend of the router, up to the latency estimate of its prefill exchange.\<close>

definition known :: "'b Router \<Rightarrow> Backend \<Rightarrow> bool" where
  "known r b \<longleftrightarrow> (\<exists>x \<in> set (r_prefill r @ r_decode r). label x = label b \<and> inflight x = inflight b)"

lemma pool_known: "b \<in> set (pool r ph) \<Longrightarrow> known r b"
  by (cases ph) (auto simp: known_def pool_def)

lemma pick_with_phi_mem: "pick_with_phi E ph phi r = Some b \<Longrightarrow> b \<in> set (pool r ph)"
  by (cases ph) (auto simp: pick_with_phi_def select_with_barriers_pi_def Let_def split: if_splits dest: min_by_in_set)

lemma pick_colocated_known: "pick_colocated E r = Some b \<Longrightarrow> known r b"
  by (auto simp: pick_colocated_def pick_def Let_def intro: pool_known dest: pick_with_phi_mem)

lemma decode_fold_mem:
  "foldl (\<lambda>best c. if P best c then Some (w c, c) else best) acc cs = Some (l, b) \<Longrightarrow> b \<in> set cs \<or> acc = Some (l, b)"
  by (induction cs arbitrary: acc) (fastforce split: if_splits)+

lemma select_decode_mem: "select_decode_with_pi lg ex h ctx cs snap t bs p = Some b \<Longrightarrow> b \<in> set cs"
  by (auto simp: select_decode_with_pi_def Let_def dest!: decode_fold_mem)

lemma place_decode_known:
  assumes "place_decode E sig h pl r = Some b"
  shows "known r b"
  using assms
  by (auto simp: place_decode_def Let_def intro: pool_known pick_colocated_known dest: select_decode_mem pick_with_phi_mem split: option.splits)

lemma update_first_set: "x \<in> set (update_first P f xs) \<Longrightarrow> \<exists>y \<in> set xs. x = y \<or> x = f y"
  by (induction xs) (auto split: if_splits)

lemma note_wall_known: "known (note_prefill_wall pl w r) b \<Longrightarrow> known r b"
  by (fastforce simp: known_def note_prefill_wall_def note_observed_seconds_def Let_def dest: update_first_set split: if_splits)

lemma known_cong: "r_prefill r' = r_prefill r \<Longrightarrow> r_decode r' = r_decode r \<Longrightarrow> known r' b = known r b"
  by (simp add: known_def)

lemma admit_handoff_pools: "admit_handoff E sig response pl r = (res, r') \<Longrightarrow> r_prefill r' = r_prefill r \<and> r_decode r' = r_decode r"
  by (auto simp: admit_handoff_def Let_def split: option.splits if_splits prod.splits sum.splits)

lemma continuation_known:
  assumes "on_prefill_complete E sig response pl r = Some (Inr p, r')"
  shows "known r (dp_backend p)"
proof -
  obtain h g r1 where a: "admit_handoff E sig response pl r = (Inr (h, g), r1)"
    using assms by (auto simp: on_prefill_complete_def split: prod.splits sum.splits)
  then have "place_decode E sig h pl (note_prefill_wall pl (prefill_wall sig) r1) = Some (dp_backend p)"
    using assms by (auto simp: on_prefill_complete_def Let_def bind_eq_Some_conv split: option.splits)
  then have "known r1 (dp_backend p)" by (blast dest: place_decode_known note_wall_known)
  then show ?thesis using known_cong admit_handoff_pools [OF a] by blast
qed

lemma route_known:
  assumes "route_with_identity E head i nid r = Some (Inr path, nid', r')" "(\<exists>b. path = Colocated b \<or> path = DecodeOnly b)"
  shows "known r (path_backend path)"
proof -
  obtain isol nid1 r1 where "route_impl E head isol nid r = (Inr path, nid1, r1)"
    using assms(1) by (auto simp: route_with_identity_def route_then_tick_def Let_def bind_eq_Some_conv split: prod.splits sum.splits)
  then show ?thesis using assms(2)
    by (auto simp: route_impl_def Let_def pick_def RequestId_new_def intro: pool_known pick_colocated_known
        dest!: pick_with_phi_mem split: if_splits option.splits)
qed

lemma route_pools:
  assumes "route_with_identity E head i nid r = Some (res, nid', r')"
  shows "r_prefill r' = r_prefill r \<and> r_decode r' = r_decode r"
proof -
  obtain isol where 1: "route_then_tick E head isol nid r = Some (res, nid', r')"
    using assms by (auto simp: route_with_identity_def Let_def)
  obtain res1 nid1 r1 where 2: "route_impl E head isol nid r = (res1, nid1, r1)" by (metis prod.exhaust)
  have 3: "r_prefill r1 = r_prefill r \<and> r_decode r1 = r_decode r"
    using 2 by (auto simp: route_impl_def Let_def RequestId_new_def bump_route_counters_def note_fastpath_misroute_def split: option.splits if_splits)
  have "r' = r1 \<or> (\<exists>t. deferred_control_tick E t False r1 = Some r')"
    using 1 2 by (auto simp: route_then_tick_def schedule_control_tick_def bind_eq_Some_conv split: sum.splits RoutePath.splits)
  then show ?thesis using 3 deferred_frame by metis
qed

text \<open>A backend proxied to comes back as it was.\<close>

definition proxied_known :: "'b Router \<Rightarrow> conn_outcome \<Rightarrow> bool" where
  "proxied_known r out = (case out of Proxied _ b \<Rightarrow> known r b | _ \<Rightarrow> True)"

lemma proxied_balanced:
  assumes "known r b" "\<forall>x \<in> set (r_prefill r @ r_decode r). inflight x < 2 ^ 64"
  shows "proxied_known r (proxied ring C b)"
proof -
  obtain x where "x \<in> set (r_prefill r @ r_decode r)" "inflight x = inflight b" using assms(1) unfolding known_def by blast
  then have "inflight b < 2 ^ 64" using assms(2) by (metis (no_types))
  then show ?thesis using proxy_balanced [of b ring "c_proxy C b"] assms(1)
    by (auto simp: proxied_known_def proxied_def split: prod.splits)
qed

lemma handle_disaggregated_settled:
  assumes "handle_disaggregated E C ring pf rid toks r = Some (out, r')" "\<forall>x \<in> set (r_prefill r @ r_decode r). inflight x < 2 ^ 64"
  shows "ledger_settled (r_ledger r) (r_ledger r') \<and> admit_moved (r_admit r) (r_admit r') \<and> proxied_known r out"
proof -
  obtain sig resp res r1 where p: "prefill_done E (label pf) r sig resp = Some (res, r1)"
      and o: "(out, r') = (case res of Inl _ \<Rightarrow> (Reply UNAVAILABLE, r1) | Inr p \<Rightarrow> (proxied ring C (dp_backend p), drop_reservation p r1))"
    using assms(1) by (auto simp: handle_disaggregated_def dispatch_prefill_def Let_def bind_eq_Some_conv split: prod.splits)
  show ?thesis
  proof (cases resp)
    case (Inl e)
    then show ?thesis using p o by (auto simp: prefill_done_def proxied_known_def)
  next
    case (Inr response)
    then have c: "on_prefill_complete E sig response (label pf) r = Some (res, r1)" using p by (simp add: prefill_done_def)
    have d: "r_admit (drop_reservation p r1) = r_admit r1" for p by (simp add: drop_reservation_def split: option.splits)
    show ?thesis
    proof (cases res)
      case (Inl e)
      then show ?thesis using o continuation_ledger [OF c] continuation_admit [OF c] by (simp add: proxied_known_def)
    next
      case (Inr q)
      then show ?thesis
        using o d continuation_ledger [OF c] continuation_admit [OF c] proxied_balanced [OF continuation_known assms(2)] c by simp
    qed
  qed
qed

text \<open>Past admission: what one routed request leaves behind.\<close>

lemma routed_settled:
  assumes "route_with_identity E head i nid r = Some (res, nid', r1)" "\<forall>x \<in> set (r_prefill r @ r_decode r). inflight x < 2 ^ 64"
    "(case res of
        Inl _ \<Rightarrow> Some (Reply UNAVAILABLE, r1)
      | Inr (Colocated b) \<Rightarrow> Some (proxied ring C b, r1)
      | Inr (DecodeOnly b) \<Rightarrow> Some (proxied ring C b, r1)
      | Inr (Disaggregated pf rid toks) \<Rightarrow> handle_disaggregated E C ring pf rid toks r1) = Some (out, r')"
  shows "ledger_settled (r_ledger r) (r_ledger r') \<and> admit_moved (r_admit r) (r_admit r') \<and> proxied_known r out"
proof (cases "\<exists>pf rid toks. res = Inr (Disaggregated pf rid toks)")
  case True
  then obtain pf rid toks where d: "handle_disaggregated E C ring pf rid toks r1 = Some (out, r')" using assms(3) by auto
  have pools: "r_prefill r1 = r_prefill r \<and> r_decode r1 = r_decode r" using assms(1) by (rule route_pools)
  then show ?thesis
    using handle_disaggregated_settled [OF d] route_frame [OF assms(1)] assms(2) admit_moved_trans [of "r_admit r" "r_admit r1"] known_cong [of r1 r]
    by (auto simp: proxied_known_def split: conn_outcome.splits)
next
  case False
  show ?thesis
  proof (cases res)
    case (Inl e)
    then show ?thesis using assms(3) route_frame [OF assms(1)] by (auto simp: proxied_known_def)
  next
    case (Inr path)
    with False obtain b where b: "path = Colocated b \<or> path = DecodeOnly b" by (cases path) auto
    then have "known r b" using route_known [of E head i nid r path nid' r1] assms(1) Inr by auto
    then show ?thesis using assms(2,3) Inr b route_frame [OF assms(1)] proxied_balanced by fastforce
  qed
qed

lemma conn_settled:
  assumes "handle_conn E C nid r = Some (out, nid', r')" "tokens (r_admit r) \<le> ab_capacity (r_admit r)"
    "\<forall>x \<in> set (r_prefill r @ r_decode r). inflight x < 2 ^ 64"
  shows "ledger_settled (r_ledger r) (r_ledger r') \<and> bucket_settled (r_admit r) (r_admit r') \<and> proxied_known r out"
proof -
  obtain ac r0 where ac: "admit_conn r = (ac, r0)" by fastforce
  have r0: "r_ledger r0 = r_ledger r" "r_prefill r0 = r_prefill r" "r_decode r0 = r_decode r"
    using ac by (auto simp: admit_conn_def Let_def split: if_splits prod.splits sum.splits)
  show ?thesis
  proof (cases ac)
    case AdmitShed
    then have "bucket_settled (r_admit r) (r_admit r0)"
      using ac by (auto simp: admit_conn_def Let_def try_admit_def bucket_settled_def split: if_splits prod.splits sum.splits)
    then show ?thesis using assms(1) ac AdmitShed r0 by (auto simp: handle_conn_def proxied_known_def)
  next
    case (Proceed guard)
    have settle: "bucket_settled (r_admit r) (r_admit (admit_guard_drop guard q))" if "admit_moved (r_admit r0) (r_admit q)" for q
    proof (cases guard)
      case True
      then have "tokens (r_admit r) \<noteq> 0" "r_admit r0 = (r_admit r)\<lparr>tokens := tokens (r_admit r) - 1\<rparr>"
        using ac Proceed by (auto simp: admit_conn_def Let_def try_admit_def split: if_splits prod.splits sum.splits)
      then show ?thesis using bucket_after_guard [OF _ assms(2)] that True by (simp add: admit_guard_drop_def)
    next
      case False
      then have "r_admit r0 = r_admit r" using ac Proceed by (auto simp: admit_conn_def Let_def split: if_splits prod.splits sum.splits)
      then show ?thesis using bucket_unguarded that False by (simp add: admit_guard_drop_def)
    qed
    from assms(1) ac Proceed obtain hr where hr: "conn_head (io_uring_proxy_session C r0) (c_reads C) = Some hr"
      by (auto simp: handle_conn_def Let_def bind_eq_Some_conv)
    show ?thesis
    proof (cases hr)
      case (Inl e)
      then have "out = IoErr e" "r' = admit_guard_drop guard r0"
        using assms(1) ac Proceed hr by (auto simp: handle_conn_def Let_def)
      then show ?thesis using settle [of r0] r0 by (simp add: proxied_known_def)
    next
      case (Inr head)
      define ring where "ring = (io_uring_proxy_session C r0 \<noteq> None)"
      obtain res r1 r2 where rt: "route_with_identity E head (parse_request_identity (e_hash E) head) nid r0 = Some (res, nid', r1)"
        and out: "(case res of
            Inl _ \<Rightarrow> Some (Reply UNAVAILABLE, r1)
          | Inr (Colocated b) \<Rightarrow> Some (proxied ring C b, r1)
          | Inr (DecodeOnly b) \<Rightarrow> Some (proxied ring C b, r1)
          | Inr (Disaggregated pf rid toks) \<Rightarrow> handle_disaggregated E C ring pf rid toks r1) = Some (out, r2)"
        and r': "r' = admit_guard_drop guard r2"
        using assms(1) ac Proceed hr Inr unfolding handle_conn_def ring_def
        by (auto simp: Let_def bind_eq_Some_conv simp del: not_None_eq)
      have "ledger_settled (r_ledger r0) (r_ledger r2) \<and> admit_moved (r_admit r0) (r_admit r2) \<and> proxied_known r0 out"
        using routed_settled [OF rt _ out] assms(3) r0 by simp
      then show ?thesis using settle [of r2] r0 r' known_cong [of r0 r] by (simp add: proxied_known_def split: conn_outcome.splits)
    qed
  qed
qed

text \<open>C3: a connection gives back everything it took, on every path of the handler: shed, read error, no
  backend, failed prefill, refused reservation, failed or finished proxy.  The ledger holds the same
  reservations and bytes as before; the admission bucket has its token back, or was reseeded by the
  control tick and is full; and the backend proxied to is one of the router's and counts as many
  connections in flight as before.\<close>

theorem handle_conn_settles:
  assumes "handle_conn E C nid r = Some (out, nid', r')" "tokens (r_admit r) \<le> ab_capacity (r_admit r)"
    "\<forall>x \<in> set (r_prefill r @ r_decode r). inflight x < 2 ^ 64"
  shows "ledger_settled (r_ledger r) (r_ledger r') \<and> bucket_settled (r_admit r) (r_admit r') \<and> proxied_known r out"
  using assms by (rule conn_settled)

text \<open>A connection that sends nothing to a router whose pools are empty: admitted, answered with 503.\<close>

definition sample_conn :: "pipe conn_io" where
  "sample_conn = \<lparr>c_ring = None, c_reads = [], c_show = \<lambda>_. [], c_prefill = \<lambda>_. (Inl ''refused'', 1),
     c_proxy = \<lambda>_. \<lparr>px_connect = Inl ''refused'', px_write_head = Inr (), px_clone = Inr (), px_ring_copy = Inr 0,
       px_pump = Sent, px_clone_read = Inr ()\<rparr>\<rparr>"

definition empty_router :: "unit Router" where
  "empty_router = with_kv_pool sample_vars 0 0 [] [] 1000000 128"

lemma min_by_Nil: "min_by key [] = None"
  by simp

lemma route_empty:
  assumes "r_prefill r = []" "r_decode r = []"
  shows "route_with_identity E head i nid r = Some (Inl NoBackend, nid, r)"
proof -
  have "pick_with_phi E ph phi r = None" for ph phi
    using assms by (cases ph) (simp_all add: pick_with_phi_def pool_def select_with_barriers_pi_def Let_def)
  then show ?thesis using assms
    by (auto simp: min_by_Nil route_with_identity_def route_then_tick_def route_impl_def Let_def pick_colocated_def pick_def pool_def
        warmth_override_target_with_identity_def select_prefill_with_identity_pi_def select_with_barriers_pi_def split: option.splits)
qed

theorem handle_conn_settles_witness:
  "\<exists>r'. handle_conn sample_env sample_conn 1 empty_router = Some (Reply UNAVAILABLE, 1, r')
     \<and> ledger_settled (r_ledger empty_router) (r_ledger r') \<and> bucket_settled (r_admit empty_router) (r_admit r')"
proof -
  have f: "r_prefill empty_router = []" "r_decode empty_router = []" "r_admit empty_router = AdmitBucket_new DATAPLANE_ADMIT_BURST"
    by (simp_all add: empty_router_def with_kv_pool_def Router_new_def)
  have "\<exists>g q. admit_conn empty_router = (Proceed g, q) \<and> r_prefill q = [] \<and> r_decode q = [] \<and> r_io_uring q = r_io_uring empty_router"
    using f by (auto simp: admit_conn_def Let_def try_admit_def AdmitBucket_new_def DATAPLANE_ADMIT_BURST_def)
  then obtain r' where h: "handle_conn sample_env sample_conn 1 empty_router = Some (Reply UNAVAILABLE, 1, r')"
    by (auto simp: handle_conn_def Let_def conn_head_def io_uring_proxy_session_def sample_conn_def read_head_def route_empty)
  have t: "tokens (r_admit empty_router) \<le> ab_capacity (r_admit empty_router)" by (simp add: f AdmitBucket_new_def Let_def)
  have "\<forall>x \<in> set (r_prefill empty_router @ r_decode empty_router). inflight x < 2 ^ 64" by (simp add: f)
  then show ?thesis using handle_conn_settles [OF h t] h by blast
qed

section \<open>From start-up through any number of connections\<close>

definition same_inflight :: "'b Router \<Rightarrow> 'b Router \<Rightarrow> bool" where
  "same_inflight r r' \<longleftrightarrow> map inflight (r_prefill r') = map inflight (r_prefill r) \<and> map inflight (r_decode r') = map inflight (r_decode r)"

lemma same_inflight_pools: "r_prefill r' = r_prefill r \<Longrightarrow> r_decode r' = r_decode r \<Longrightarrow> same_inflight r r'"
  by (simp add: same_inflight_def)

lemma same_inflight_trans: "same_inflight a b \<Longrightarrow> same_inflight b c \<Longrightarrow> same_inflight a c"
  by (simp add: same_inflight_def)

lemma map_update_first: "(\<And>x. g (f x) = g x) \<Longrightarrow> map g (update_first P f xs) = map g xs"
  by (induction xs) simp_all

lemma note_wall_inflight: "same_inflight r (note_prefill_wall pl w r)"
  by (simp add: same_inflight_def note_prefill_wall_def map_update_first note_observed_seconds_def Let_def)

lemma continuation_inflight:
  assumes "on_prefill_complete E sig response pl r = Some (res, r')"
  shows "same_inflight r r'"
proof -
  obtain a r1 where a: "admit_handoff E sig response pl r = (a, r1)" by fastforce
  have r1: "same_inflight r r1" using admit_handoff_pools [OF a] by (simp add: same_inflight_def)
  show ?thesis
  proof (cases a)
    case (Inl e)
    then show ?thesis using assms a r1 by (auto simp: on_prefill_complete_def)
  next
    case (Inr hg)
    obtain h g where hg: "hg = (h, g)" by (cases hg)
    let ?r = "note_prefill_wall pl (prefill_wall sig) r1"
    have n: "same_inflight r ?r" using r1 note_wall_inflight by (rule same_inflight_trans)
    show ?thesis
    proof (cases "place_decode E sig h pl ?r")
      case None
      then show ?thesis using assms a Inr hg n by (auto simp: on_prefill_complete_def Let_def same_inflight_def split: option.splits)
    next
      case (Some b)
      then obtain r2 r3 s where st: "complete_handoff E sig h pl b ?r = Some r2" "record_corrector_shadow s r2 = Some r3"
          "deferred_control_tick E (Some (sig_prompt_tokens sig)) True r3 = Some r'"
        using assms a Inr hg by (auto simp: on_prefill_complete_def Let_def bind_eq_Some_conv)
      have "same_inflight ?r r2" using st(1)
        by (auto simp: complete_handoff_def record_rdma_cost_shadow_def same_inflight_def Let_def bind_eq_Some_conv split: option.splits if_splits)
      moreover have "same_inflight r2 r3" using st(2) by (auto simp: record_corrector_shadow_def same_inflight_def bind_eq_Some_conv)
      moreover have "same_inflight r3 r'" using deferred_frame [OF st(3)] by (simp add: same_inflight_def)
      ultimately show ?thesis using n same_inflight_trans by blast
    qed
  qed
qed

lemma handle_disaggregated_inflight:
  assumes "handle_disaggregated E C ring pf rid toks r = Some (out, r')"
  shows "same_inflight r r'"
proof -
  obtain sig resp res r1 where p: "prefill_done E (label pf) r sig resp = Some (res, r1)"
      and o: "(out, r') = (case res of Inl _ \<Rightarrow> (Reply UNAVAILABLE, r1) | Inr p \<Rightarrow> (proxied ring C (dp_backend p), drop_reservation p r1))"
    using assms by (auto simp: handle_disaggregated_def dispatch_prefill_def Let_def bind_eq_Some_conv split: prod.splits)
  have "same_inflight r r1"
    using p by (cases resp) (auto simp: prefill_done_def same_inflight_pools dest: continuation_inflight)
  moreover have "same_inflight r1 (drop_reservation q r1)" for q by (simp add: same_inflight_def drop_reservation_def split: option.splits)
  ultimately show ?thesis using o same_inflight_trans by (cases res) (simp, fastforce)
qed

lemma handle_conn_inflight:
  assumes "handle_conn E C nid r = Some (out, nid', r')"
  shows "same_inflight r r'"
proof -
  obtain ac r0 where ac: "admit_conn r = (ac, r0)" by fastforce
  have r0: "same_inflight r r0"
    using ac by (auto simp: admit_conn_def same_inflight_def Let_def split: if_splits prod.splits sum.splits)
  have g: "same_inflight q (admit_guard_drop guard q)" for guard and q :: "'a Router" by (simp add: same_inflight_def admit_guard_drop_def)
  show ?thesis
  proof (cases ac)
    case AdmitShed
    then show ?thesis using assms ac r0 by (auto simp: handle_conn_def)
  next
    case (Proceed guard)
    from assms ac Proceed obtain hr where hr: "conn_head (io_uring_proxy_session C r0) (c_reads C) = Some hr"
      by (auto simp: handle_conn_def Let_def bind_eq_Some_conv)
    show ?thesis
    proof (cases hr)
      case (Inl e)
      then show ?thesis using assms ac Proceed hr r0 g [of r0 guard] same_inflight_trans by (auto simp: handle_conn_def Let_def)
    next
      case (Inr head)
      define ring where "ring = (io_uring_proxy_session C r0 \<noteq> None)"
      obtain res r1 r2 where rt: "route_with_identity E head (parse_request_identity (e_hash E) head) nid r0 = Some (res, nid', r1)"
        and out: "(case res of
            Inl _ \<Rightarrow> Some (Reply UNAVAILABLE, r1)
          | Inr (Colocated b) \<Rightarrow> Some (proxied ring C b, r1)
          | Inr (DecodeOnly b) \<Rightarrow> Some (proxied ring C b, r1)
          | Inr (Disaggregated pf rid toks) \<Rightarrow> handle_disaggregated E C ring pf rid toks r1) = Some (out, r2)"
        and r': "r' = admit_guard_drop guard r2"
        using assms ac Proceed hr Inr unfolding handle_conn_def ring_def
        by (auto simp: Let_def bind_eq_Some_conv simp del: not_None_eq)
      have "same_inflight r0 r1" using route_pools [OF rt] by (simp add: same_inflight_def)
      moreover have "r2 = r1 \<or> same_inflight r1 r2"
        using out by (auto split: sum.splits RoutePath.splits dest: handle_disaggregated_inflight)
      ultimately show ?thesis using r0 r' g [of r2 guard] same_inflight_trans by metis
    qed
  qed
qed

text \<open>Connections handled one after another, each with its own environment (clock, kernel, sockets).\<close>

fun handle_conns :: "(('b, 'k) renv \<times> 'u conn_io) list \<Rightarrow> u64 \<Rightarrow> 'b Router \<Rightarrow> (conn_outcome list \<times> u64 \<times> 'b Router) option" where
  "handle_conns [] nid r = Some ([], nid, r)"
| "handle_conns ((E, C) # cs) nid r =
     do { (out, nid, r) \<leftarrow> handle_conn E C nid r;
          (outs, nid, r) \<leftarrow> handle_conns cs nid r;
          Some (out # outs, nid, r) }"

lemma idle_ok: "idle r \<Longrightarrow> tokens (r_admit r) \<le> ab_capacity (r_admit r) \<and> (\<forall>x \<in> set (r_prefill r @ r_decode r). inflight x < 2 ^ 64)"
  by (auto simp: idle_def)

lemma same_inflight_zero:
  "same_inflight r r' \<Longrightarrow> \<forall>b \<in> set (r_prefill r @ r_decode r). inflight b = 0 \<Longrightarrow> \<forall>b \<in> set (r_prefill r' @ r_decode r'). inflight b = 0"
proof -
  assume "same_inflight r r'" "\<forall>b \<in> set (r_prefill r @ r_decode r). inflight b = 0"
  then have "inflight ` set (r_prefill r' @ r_decode r') \<subseteq> {0}"
    unfolding same_inflight_def by (metis (no_types, lifting) image_subset_iff insertI1 list.set_map map_append)
  then show ?thesis by auto
qed

lemma idle_preserved:
  assumes "idle r" "ledger_settled (r_ledger r) (r_ledger r')" "bucket_settled (r_admit r) (r_admit r')" "same_inflight r r'"
  shows "idle r'"
proof -
  have "ledger_empty (r_ledger r')" using assms(1,2)
    by (cases "r_ledger r"; cases "r_ledger r'") (simp_all add: idle_def ledger_empty_def ledger_settled_def)
  moreover have "tokens (r_admit r') = ab_capacity (r_admit r')" using assms(1,3) by (auto simp: idle_def bucket_settled_def)
  moreover have "\<forall>b \<in> set (r_prefill r' @ r_decode r'). inflight b = 0"
    using same_inflight_zero [OF assms(4)] assms(1) by (simp add: idle_def)
  ultimately show ?thesis by (simp add: idle_def)
qed

lemma handle_conns_idle: "handle_conns cs nid r = Some (outs, nid', r') \<Longrightarrow> idle r \<Longrightarrow> idle r'"
proof (induction cs arbitrary: nid r outs)
  case (Cons c cs)
  obtain E C where c: "c = (E, C)" by (cases c)
  then obtain out nid1 r1 outs1 where h: "handle_conn E C nid r = Some (out, nid1, r1)" and t: "handle_conns cs nid1 r1 = Some (outs1, nid', r')"
    using Cons.prems(1) by (auto simp: bind_eq_Some_conv)
  have "idle r1"
    using idle_preserved [OF Cons.prems(2) _ _ handle_conn_inflight [OF h]] conn_settled [OF h] idle_ok [OF Cons.prems(2)] by blast
  then show ?case using Cons.IH [OF t] by simp
qed simp



end
